(* ===== verification/Prelude.thy ===== *)
theory Prelude
  imports Complex_Main "HOL-Library.Word" "HOL-Library.Signed_Division" "HOL-Library.Finite_Map"
    "HOL-Library.Monad_Syntax"
begin

text \<open>
  Shared ground of the development: the names of the model's types, Go's fixed-width integers and
  its truncating division, Go's maps as finite maps with the zero value on a missing key, and the
  list facts the components share.

  An \<open>int32\<close> or \<open>int64\<close> of the source is an \<open>int\<close> on which the wrap-around of every operation that
  can overflow is written out with \<open>wrap32\<close> or \<open>wrap64\<close>; \<open>wrap32_sint\<close> and \<open>wrap64_sint\<close> say that
  these are the two's complement readings of 32-bit and 64-bit words. \<open>int\<close> is 64 bits wide on every
  platform the program is released for, and a length never reaches that bound.

  A Go panic is the value \<open>None\<close> of an option type; an error that is returned is the left side of a
  sum type.
\<close>

section \<open>Names of types\<close>

type_synonym labels = "(string, string) fmap"

named_theorems go_defs \<open>definitions of the library functions the source calls\<close>
named_theorems wf_simps \<open>unfolding of the well-formedness predicates\<close>

section \<open>Fixed-width integers\<close>

definition wrap32 :: "int \<Rightarrow> int" where
  "wrap32 x = (x + 2 ^ 31) mod 2 ^ 32 - 2 ^ 31"

definition wrap64 :: "int \<Rightarrow> int" where
  "wrap64 x = (x + 2 ^ 63) mod 2 ^ 64 - 2 ^ 63"

definition int32_range :: "int \<Rightarrow> bool" where
  "int32_range x \<longleftrightarrow> - (2 ^ 31) \<le> x \<and> x < 2 ^ 31"

definition int64_range :: "int \<Rightarrow> bool" where
  "int64_range x \<longleftrightarrow> - (2 ^ 63) \<le> x \<and> x < 2 ^ 63"

text \<open>Go's \<open>m[k]\<close> on a \<open>map[string]string\<close>: the empty string when the key is absent.\<close>

definition get_str :: "labels \<Rightarrow> string \<Rightarrow> string" where
  "get_str m k = (case fmlookup m k of None \<Rightarrow> [] | Some v \<Rightarrow> v)"

text \<open>Go's \<open>m[k]\<close> on a map to integers: zero when the key is absent.\<close>

definition get_int :: "('k, int) fmap \<Rightarrow> 'k \<Rightarrow> int" where
  "get_int m k = (case fmlookup m k of None \<Rightarrow> 0 | Some v \<Rightarrow> v)"

text \<open>Go's \<open>for i := range n\<close> over an integer: no iteration when \<open>n\<close> is not positive.\<close>

definition range_int :: "int \<Rightarrow> int list" where
  "range_int n = map int [0..<nat n]"

text \<open>Go's \<open>xs[first:last]\<close> for indices in range.\<close>

definition subslice :: "'a list \<Rightarrow> nat \<Rightarrow> nat \<Rightarrow> 'a list" where
  "subslice xs i j = take (j - i) (drop i xs)"

section \<open>Lemmas on integers\<close>

lemma wrap32_id [simp]: "int32_range x \<Longrightarrow> wrap32 x = x"
  by (simp add: wrap32_def int32_range_def)

lemma wrap64_id [simp]: "int64_range x \<Longrightarrow> wrap64 x = x"
  by (simp add: wrap64_def int64_range_def)

lemma wrap32_range [simp]: "int32_range (wrap32 x)"
proof -
  have "0 \<le> (x + 2 ^ 31) mod 2 ^ 32" and "(x + 2 ^ 31) mod 2 ^ 32 < 2 ^ 32"
    by (rule pos_mod_sign, simp, rule pos_mod_bound, simp)
  then show ?thesis by (simp add: wrap32_def int32_range_def)
qed

lemma wrap64_range [simp]: "int64_range (wrap64 x)"
proof -
  have "0 \<le> (x + 2 ^ 63) mod 2 ^ 64" and "(x + 2 ^ 63) mod 2 ^ 64 < 2 ^ 64"
    by (rule pos_mod_sign, simp, rule pos_mod_bound, simp)
  then show ?thesis by (simp add: wrap64_def int64_range_def)
qed

lemma wrap32_wrap32_add [simp]: "wrap32 (wrap32 x + y) = wrap32 (x + y)"
proof -
  have "wrap32 x + y + 2 ^ 31 = (x + 2 ^ 31) mod 2 ^ 32 + y"
    by (simp add: wrap32_def)
  then have "(wrap32 x + y + 2 ^ 31) mod 2 ^ 32 = (x + 2 ^ 31 + y) mod 2 ^ 32"
    by (simp only: mod_add_left_eq)
  then show ?thesis by (simp add: wrap32_def add.assoc add.commute add.left_commute)
qed

lemma wrap32_add_wrap32 [simp]: "wrap32 (x + wrap32 y) = wrap32 (x + y)"
  using wrap32_wrap32_add [of y x] by (simp add: add.commute)

lemma wrap32_sint: "wrap32 x = sint (word_of_int x :: 32 word)"
  by (simp add: wrap32_def sint_uint signed_take_bit_eq_take_bit_shift take_bit_eq_mod
      unsigned_of_int mod_simps)

lemma wrap64_sint: "wrap64 x = sint (word_of_int x :: 64 word)"
  by (simp add: wrap64_def sint_uint signed_take_bit_eq_take_bit_shift take_bit_eq_mod
      unsigned_of_int mod_simps)

lemma sdiv_nonneg: "0 \<le> a \<Longrightarrow> 0 < b \<Longrightarrow> (a::int) sdiv b = a div b"
  by (cases "a = 0") (simp_all add: signed_divide_int_def)

lemma smod_nonneg: "0 \<le> a \<Longrightarrow> 0 < b \<Longrightarrow> (a::int) smod b = a mod b"
  by (cases "a = 0") (simp_all add: signed_modulo_int_def)

section \<open>Lemmas on maps and lists\<close>

lemma get_str_fmupd [simp]: "get_str (fmupd k v m) k' = (if k = k' then v else get_str m k')"
  by (simp add: get_str_def)

lemma get_int_fmupd [simp]: "get_int (fmupd k v m) k' = (if k = k' then v else get_int m k')"
  by (simp add: get_int_def)

lemma get_int_empty [simp]: "get_int fmempty k = 0"
  by (simp add: get_int_def)

lemma length_range_int [simp]: "length (range_int n) = nat n"
  by (simp add: range_int_def)

lemma set_range_int [simp]: "set (range_int n) = {0..<n}"
proof -
  have "int ` {0..<nat n} = {0..<n}"
  proof (cases "0 \<le> n")
    case True
    then show ?thesis by (simp add: image_int_atLeastLessThan)
  qed simp
  then show ?thesis by (simp add: range_int_def)
qed

lemma distinct_range_int [simp]: "distinct (range_int n)"
  by (simp add: range_int_def distinct_map)

lemma sorted_range_int [simp]: "sorted (range_int n)"
  by (simp add: range_int_def sorted_map)

lemma range_int_nth [simp]: "i < nat n \<Longrightarrow> range_int n ! i = int i"
  by (simp add: range_int_def)

lemma range_int_nonpos [simp]: "n \<le> 0 \<Longrightarrow> range_int n = []"
  by (simp add: range_int_def)

text \<open>Two nested loops build a list without repetition when the outer loop's items differ and
  elements of different outer items differ.\<close>

lemma distinct_concat_map:
  assumes "distinct xs"
    and "\<And>x. x \<in> set xs \<Longrightarrow> distinct (f x)"
    and "\<And>x y. x \<in> set xs \<Longrightarrow> y \<in> set xs \<Longrightarrow> x \<noteq> y \<Longrightarrow> set (f x) \<inter> set (f y) = {}"
  shows "distinct (concat (map f xs))"
  using assms
proof (induction xs)
  case (Cons x xs)
  have "set (f x) \<inter> set (f y) = {}" if "y \<in> set xs" for y
    using Cons.prems that by (intro Cons.prems(3)) auto
  then have "set (f x) \<inter> (\<Union>y\<in>set xs. set (f y)) = {}" by blast
  moreover have "distinct (concat (map f xs))"
    using Cons.prems by (intro Cons.IH) auto
  ultimately show ?case using Cons.prems by simp
qed simp

lemma sum_list_map_const: "(\<And>x. x \<in> set xs \<Longrightarrow> f x = c) \<Longrightarrow> sum_list (map f xs) = of_nat (length xs) * (c::'a::comm_semiring_1)"
  by (induction xs) (auto simp: algebra_simps)

lemma length_concat_const:
  "(\<And>x. x \<in> set xs \<Longrightarrow> length (f x) = n) \<Longrightarrow> length (concat (map f xs)) = length xs * n"
  by (induction xs) auto

end
