(* ===== verification/Go_Strings.thy ===== *)
theory Go_Strings
  imports Prelude "HOL-Library.Sublist"
begin

text \<open>
  What the source uses of Go's \<open>strings\<close>, \<open>strconv\<close>, \<open>unicode/utf8\<close> and \<open>fmt\<close> packages. A Go string
  is a byte sequence, which is what a \<open>string\<close> of HOL is; \<open>runes\<close> is the decoding that \<open>for _, r := range s\<close>
  performs, with U+FFFD for every byte that is not part of a well-formed sequence.

  The decimal printer and the parsers are inverse to each other (\<open>ParseInt_Itoa\<close>), the printer is
  injective (\<open>Itoa_inject\<close>) and never produces a dash on a natural number (\<open>dash_not_in_Itoa\<close>): these
  facts carry every uniqueness property of device, counter set and slice names.
\<close>

section \<open>Decimal numbers: strconv.Itoa, FormatInt, the d verb of fmt.Sprintf, ParseInt, Atoi\<close>

definition byte :: "char \<Rightarrow> nat" where
  "byte c = of_char c"

definition digit_char :: "nat \<Rightarrow> char" where
  "digit_char d = char_of (48 + d)"

definition is_digit :: "char \<Rightarrow> bool" where
  "is_digit c \<longleftrightarrow> 48 \<le> byte c \<and> byte c \<le> 57"

definition digit_val :: "char \<Rightarrow> nat" where
  "digit_val c = byte c - 48"

fun dec_digits :: "nat \<Rightarrow> string" where
  "dec_digits n = (if n < 10 then [digit_char n] else dec_digits (n div 10) @ [digit_char (n mod 10)])"

declare dec_digits.simps [simp del]

definition Itoa :: "int \<Rightarrow> string" where
  "Itoa n = (if n < 0 then CHR ''-'' # dec_digits (nat (- n)) else dec_digits (nat n))"

definition digits_val :: "string \<Rightarrow> nat" where
  "digits_val s = foldl (\<lambda>acc c. 10 * acc + digit_val c) 0 s"

text \<open>\<open>ParseUint\<close> in base 10: a non-empty run of digits; an underscore or any other byte is a syntax error.\<close>

definition parse_digits :: "string \<Rightarrow> nat option" where
  "parse_digits s = (if s \<noteq> [] \<and> list_all is_digit s then Some (digits_val s) else None)"

text \<open>\<open>ParseInt(s, 10, bits)\<close>: an optional sign, then digits; \<open>None\<close> for a syntax error and for a value
  outside the range of \<open>bits\<close> bits.\<close>

definition ParseInt :: "nat \<Rightarrow> string \<Rightarrow> int option" where
  "ParseInt bits s =
     (case s of
        [] \<Rightarrow> None
      | c # cs \<Rightarrow>
          (if c = CHR ''-'' then
             (case parse_digits cs of None \<Rightarrow> None
              | Some n \<Rightarrow> if int n \<le> 2 ^ (bits - 1) then Some (- int n) else None)
           else
             (case parse_digits (if c = CHR ''+'' then cs else s) of None \<Rightarrow> None
              | Some n \<Rightarrow> if int n < 2 ^ (bits - 1) then Some (int n) else None)))"

abbreviation Atoi :: "string \<Rightarrow> int option" where
  "Atoi s \<equiv> ParseInt 64 s"

section \<open>Package strings\<close>

definition HasPrefix :: "string \<Rightarrow> string \<Rightarrow> bool" where
  "HasPrefix s p = (take (length p) s = p)"

definition CutPrefix :: "string \<Rightarrow> string \<Rightarrow> string option" where
  "CutPrefix s p = (if HasPrefix s p then Some (drop (length p) s) else None)"

definition TrimPrefix :: "string \<Rightarrow> string \<Rightarrow> string" where
  "TrimPrefix s p = (if HasPrefix s p then drop (length p) s else s)"

definition HasSuffix :: "string \<Rightarrow> string \<Rightarrow> bool" where
  "HasSuffix s p = (length p \<le> length s \<and> drop (length s - length p) s = p)"

definition TrimSuffix :: "string \<Rightarrow> string \<Rightarrow> string" where
  "TrimSuffix s p = (if HasSuffix s p then take (length s - length p) s else s)"

text \<open>\<open>Cut(s, sep)\<close> for a separator of one byte: the parts around the first separator and whether it
  was found.\<close>

fun Cut :: "string \<Rightarrow> char \<Rightarrow> string \<times> string \<times> bool" where
  "Cut [] sep = ([], [], False)"
| "Cut (c # cs) sep =
     (if c = sep then ([], cs, True)
      else (case Cut cs sep of (before, after, found) \<Rightarrow> (c # before, after, found)))"

fun Contains :: "string \<Rightarrow> string \<Rightarrow> bool" where
  "Contains [] sub \<longleftrightarrow> sub = []"
| "Contains (c # cs) sub \<longleftrightarrow> HasPrefix (c # cs) sub \<or> Contains cs sub"

text \<open>\<open>ReplaceAll\<close> of a one-byte string by a one-byte string.\<close>

definition ReplaceAll :: "string \<Rightarrow> char \<Rightarrow> char \<Rightarrow> string" where
  "ReplaceAll s old new = map (\<lambda>c. if c = old then new else c) s"

fun Join :: "string list \<Rightarrow> string \<Rightarrow> string" where
  "Join [] sep = []"
| "Join [s] sep = s"
| "Join (s # t # ss) sep = s @ sep @ Join (t # ss) sep"

text \<open>\<open>Split(s, sep)\<close> and \<open>SplitSeq\<close> for a separator of one byte: the parts around every separator, empty ones included.\<close>

fun Split :: "string \<Rightarrow> char \<Rightarrow> string list" where
  "Split [] sep = [[]]"
| "Split (c # cs) sep =
     (if c = sep then [] # Split cs sep
      else (case Split cs sep of [] \<Rightarrow> [[c]] | part # parts \<Rightarrow> (c # part) # parts))"

text \<open>\<open>TrimSpace\<close>: \<open>unicode.IsSpace\<close> holds of the runes with these UTF-8 encodings; a byte that is not part of a
  well-formed sequence decodes to U+FFFD, which is no space.\<close>

definition space_encodings :: "string list" where
  "space_encodings = map (map char_of)
     ([[9], [10], [11], [12], [13], [32], [194, 133], [194, 160], [225, 154, 128]]
      @ map (\<lambda>b. [226, 128, b]) [128..<139]
      @ [[226, 128, 168], [226, 128, 169], [226, 128, 175], [226, 129, 159], [227, 128, 128 :: nat]])"

lemma space_encodings_not_Nil: "e \<in> set space_encodings \<Longrightarrow> e \<noteq> []"
  by (auto simp: space_encodings_def)

function TrimLeftSpace :: "string \<Rightarrow> string" where
  "TrimLeftSpace s =
     (case find (HasPrefix s) space_encodings of None \<Rightarrow> s | Some e \<Rightarrow> TrimLeftSpace (drop (length e) s))"
  by pat_completeness auto
termination
proof (relation "measure length")
  fix s :: string and e assume "find (HasPrefix s) space_encodings = Some e"
  then have "e \<in> set space_encodings" "HasPrefix s e" by (auto simp: find_Some_iff in_set_conv_nth)
  then have "e \<noteq> []" "length e \<le> length s"
    using space_encodings_not_Nil by (auto simp: HasPrefix_def) (metis length_take min.cobounded1)
  then show "(drop (length e) s, s) \<in> measure length" by (cases s) auto
qed simp

function TrimRightSpace :: "string \<Rightarrow> string" where
  "TrimRightSpace s =
     (case find (HasSuffix s) space_encodings of None \<Rightarrow> s | Some e \<Rightarrow> TrimRightSpace (take (length s - length e) s))"
  by pat_completeness auto
termination
proof (relation "measure length")
  fix s :: string and e assume "find (HasSuffix s) space_encodings = Some e"
  then have "e \<in> set space_encodings" "HasSuffix s e" by (auto simp: find_Some_iff in_set_conv_nth)
  then have "e \<noteq> []" "length e \<le> length s" using space_encodings_not_Nil by (auto simp: HasSuffix_def)
  then show "(take (length s - length e) s, s) \<in> measure length" by (cases s; cases e) auto
qed simp

declare TrimLeftSpace.simps [simp del] TrimRightSpace.simps [simp del]

definition TrimSpace :: "string \<Rightarrow> string" where
  "TrimSpace s = TrimRightSpace (TrimLeftSpace s)"

text \<open>\<open>Trim(s, cutset)\<close> for a cutset of one byte.\<close>

definition Trim :: "string \<Rightarrow> char \<Rightarrow> string" where
  "Trim s c = rev (dropWhile (\<lambda>x. x = c) (rev (dropWhile (\<lambda>x. x = c) s)))"

section \<open>Runes\<close>

definition cont_byte :: "nat \<Rightarrow> bool" where
  "cont_byte b \<longleftrightarrow> 128 \<le> b \<and> b \<le> 191"

definition rune_error :: nat where
  "rune_error = 65533"

text \<open>The length and value of the first rune of a non-empty byte sequence, as \<open>utf8.DecodeRune\<close> gives them.\<close>

definition decode_rune :: "nat list \<Rightarrow> nat \<times> nat" where
  "decode_rune bs =
     (case bs of
        [] \<Rightarrow> (rune_error, 1)
      | b0 # r0 \<Rightarrow>
        if b0 < 128 then (b0, 1)
        else if b0 < 194 \<or> 244 < b0 then (rune_error, 1)
        else (case r0 of
            [] \<Rightarrow> (rune_error, 1)
          | b1 # r1 \<Rightarrow>
            if b0 < 224 then
              (if cont_byte b1 then ((b0 - 192) * 64 + (b1 - 128), 2) else (rune_error, 1))
            else if \<not> (cont_byte b1 \<and> (b0 = 224 \<longrightarrow> 160 \<le> b1) \<and> (b0 = 237 \<longrightarrow> b1 \<le> 159)
                       \<and> (b0 = 240 \<longrightarrow> 144 \<le> b1) \<and> (b0 = 244 \<longrightarrow> b1 \<le> 143)) then (rune_error, 1)
            else (case r1 of
                [] \<Rightarrow> (rune_error, 1)
              | b2 # r2 \<Rightarrow>
                if \<not> cont_byte b2 then (rune_error, 1)
                else if b0 < 240 then ((b0 - 224) * 4096 + (b1 - 128) * 64 + (b2 - 128), 3)
                else (case r2 of
                    [] \<Rightarrow> (rune_error, 1)
                  | b3 # _ \<Rightarrow>
                    if cont_byte b3
                    then ((b0 - 240) * 262144 + (b1 - 128) * 4096 + (b2 - 128) * 64 + (b3 - 128), 4)
                    else (rune_error, 1)))))"

lemma decode_rune_pos [simp]: "0 < snd (decode_rune bs)"
  by (auto simp: decode_rune_def split: list.splits)

function rune_list :: "nat list \<Rightarrow> nat list" where
  "rune_list [] = []"
| "rune_list (b # bs) =
     fst (decode_rune (b # bs)) # rune_list (drop (snd (decode_rune (b # bs)) - 1) bs)"
  by pat_completeness auto
termination
  by (relation "measure length") auto

definition runes :: "string \<Rightarrow> nat list" where
  "runes s = rune_list (map byte s)"

text \<open>
  \<open>unicode.ToLower\<close> as far as its result can be told apart by a test for a lower-case ASCII letter or a
  digit: the upper-case ASCII letters, U+0130 and U+212A are the only runes it maps into ASCII from
  outside; a rune that is left as it is here is one whose lower case is neither.
\<close>

definition lower_rune :: "nat \<Rightarrow> nat" where
  "lower_rune r =
     (if 65 \<le> r \<and> r \<le> 90 then r + 32
      else if r = 304 then 105
      else if r = 8490 then 107
      else r)"

definition lower_runes :: "string \<Rightarrow> nat list" where
  "lower_runes s = map lower_rune (runes s)"

definition rune_alnum :: "nat \<Rightarrow> bool" where
  "rune_alnum r \<longleftrightarrow> (97 \<le> r \<and> r \<le> 122) \<or> (48 \<le> r \<and> r \<le> 57)"

definition is_ascii :: "string \<Rightarrow> bool" where
  "is_ascii s \<longleftrightarrow> list_all (\<lambda>c. byte c < 128) s"

lemmas [go_defs] = HasPrefix_def CutPrefix_def TrimPrefix_def HasSuffix_def TrimSuffix_def
  ReplaceAll_def

section \<open>Lemmas: digits\<close>

lemma byte_digit_char [simp]: "d < 10 \<Longrightarrow> byte (digit_char d) = 48 + d"
  by (simp add: byte_def digit_char_def)

lemma is_digit_digit_char [simp]: "d < 10 \<Longrightarrow> is_digit (digit_char d)"
  by (simp add: is_digit_def)

lemma digit_val_digit_char [simp]: "d < 10 \<Longrightarrow> digit_val (digit_char d) = d"
  by (simp add: digit_val_def)

lemma byte_eq_iff: "byte c = byte d \<longleftrightarrow> c = d"
  by (simp add: byte_def)

lemma dec_digits_not_Nil [simp]: "dec_digits n \<noteq> []"
  by (subst dec_digits.simps) simp

lemma dec_digits_digits: "list_all is_digit (dec_digits n)"
proof (induction n rule: dec_digits.induct)
  case (1 n)
  then show ?case by (subst dec_digits.simps) simp
qed

lemma digits_val_snoc: "digits_val (s @ [c]) = 10 * digits_val s + digit_val c"
  by (simp add: digits_val_def)

lemma digits_val_dec_digits [simp]: "digits_val (dec_digits n) = n"
proof (induction n rule: dec_digits.induct)
  case (1 n)
  show ?case
  proof (cases "n < 10")
    case True
    then show ?thesis by (subst dec_digits.simps) (simp add: digits_val_def)
  next
    case False
    with 1 show ?thesis by (subst dec_digits.simps) (simp add: digits_val_snoc)
  qed
qed

lemma parse_digits_dec_digits [simp]: "parse_digits (dec_digits n) = Some n"
  by (simp add: parse_digits_def dec_digits_digits)

lemma is_digit_not_sign: "is_digit c \<Longrightarrow> c \<noteq> CHR ''-'' \<and> c \<noteq> CHR ''+''"
  by (auto simp: is_digit_def byte_def)

lemma not_is_digit [simp]: "\<not> is_digit CHR ''-''" "\<not> is_digit CHR ''.''" "\<not> is_digit CHR ''g''"
  by (simp_all add: is_digit_def byte_def)

lemma dash_not_in_digits: "list_all is_digit a \<Longrightarrow> CHR ''-'' \<notin> set a"
  using not_is_digit(1) by (auto simp: list_all_iff)

lemma dec_digits_hd: "\<exists>c cs. dec_digits n = c # cs \<and> is_digit c"
  using dec_digits_digits [of n] by (cases "dec_digits n") auto

lemma ParseInt_Itoa:
  assumes "- (2 ^ (bits - 1)) \<le> n" "n < 2 ^ (bits - 1)"
  shows "ParseInt bits (Itoa n) = Some n"
proof (cases "n < 0")
  case True
  with assms show ?thesis by (simp add: Itoa_def ParseInt_def)
next
  case False
  obtain c cs where d: "dec_digits (nat n) = c # cs" and c: "is_digit c"
    using dec_digits_hd by blast
  from c have "c \<noteq> CHR ''-''" "c \<noteq> CHR ''+''" by (simp_all add: is_digit_not_sign)
  moreover have "parse_digits (c # cs) = Some (nat n)"
    using parse_digits_dec_digits [of "nat n"] by (simp add: d)
  ultimately show ?thesis using False assms by (simp add: Itoa_def ParseInt_def d)
qed

lemma Itoa_not_Nil [simp]: "Itoa n \<noteq> []"
  by (simp add: Itoa_def)

lemma Itoa_nonneg_digits: "0 \<le> n \<Longrightarrow> list_all is_digit (Itoa n)"
  by (simp add: Itoa_def dec_digits_digits)

lemma dash_not_in_Itoa [simp]: "0 \<le> n \<Longrightarrow> CHR ''-'' \<notin> set (Itoa n)"
  using Itoa_nonneg_digits [of n] by (auto simp: list_all_iff)

lemma dec_digits_inject [simp]: "dec_digits m = dec_digits n \<longleftrightarrow> m = n"
  by (metis digits_val_dec_digits)

lemma dash_not_in_dec_digits [simp]: "CHR ''-'' \<notin> set (dec_digits n)"
  using dec_digits_digits [of n] by (auto simp: list_all_iff)

lemma Itoa_inject [simp]: "Itoa m = Itoa n \<longleftrightarrow> m = n"
proof
  assume *: "Itoa m = Itoa n"
  have "False" if "dec_digits a = CHR ''-'' # r" for a r
    using that dash_not_in_dec_digits [of a] by simp
  with * show "m = n"
    by (auto simp: Itoa_def split: if_splits) (metis)+
qed simp

section \<open>Lemmas: cutting at a separator\<close>

text \<open>A prefix free of the separator is determined by the string: the rule by which names are read back.\<close>

lemma append_sep_inject:
  assumes "sep \<notin> set a" "sep \<notin> set b"
  shows "a @ sep # c = b @ sep # d \<longleftrightarrow> a = b \<and> c = d"
  using assms
proof (induction a arbitrary: b)
  case Nil
  then show ?case by (cases b) auto
next
  case (Cons x xs)
  then show ?case by (cases b) auto
qed

lemma append_sep_inject_last:
  assumes "sep \<notin> set c" "sep \<notin> set d"
  shows "a @ sep # c = b @ sep # d \<longleftrightarrow> a = b \<and> c = d"
proof -
  have "a @ sep # c = b @ sep # d \<longleftrightarrow> rev c @ sep # rev a = rev d @ sep # rev b"
    by (metis append.assoc append_Cons append_Nil rev.simps(2) rev_append rev_is_rev_conv)
  also have "\<dots> \<longleftrightarrow> a = b \<and> c = d"
    using assms by (auto simp: append_sep_inject)
  finally show ?thesis .
qed

lemma Cut_append: "sep \<notin> set a \<Longrightarrow> Cut (a @ sep # b) sep = (a, b, True)"
  by (induction a) auto

lemma Cut_no_sep: "sep \<notin> set a \<Longrightarrow> Cut a sep = (a, [], False)"
  by (induction a) auto

lemma Cut_found: "Cut s sep = (a, b, True) \<Longrightarrow> s = a @ sep # b \<and> sep \<notin> set a"
  by (induction s arbitrary: a) (auto split: if_splits prod.splits)

lemma HasPrefix_append [simp]: "HasPrefix (p @ s) p"
  by (simp add: HasPrefix_def)

lemma HasPrefix_iff: "HasPrefix s p \<longleftrightarrow> (\<exists>t. s = p @ t)"
  by (metis HasPrefix_append HasPrefix_def append_take_drop_id)

lemma CutPrefix_append [simp]: "CutPrefix (p @ s) p = Some s"
  by (simp add: CutPrefix_def)

lemma CutPrefix_Some_iff: "CutPrefix s p = Some t \<longleftrightarrow> s = p @ t"
  by (auto simp: CutPrefix_def HasPrefix_iff)

lemma Contains_iff: "Contains s sub \<longleftrightarrow> (\<exists>a b. s = a @ sub @ b)"
proof (induction s)
  case Nil
  then show ?case by auto
next
  case (Cons c cs)
  have "(\<exists>a b. c # cs = a @ sub @ b) \<longleftrightarrow> HasPrefix (c # cs) sub \<or> (\<exists>a b. cs = a @ sub @ b)"
    by (auto simp: HasPrefix_iff Cons_eq_append_conv)
  with Cons show ?case by simp
qed

lemma ReplaceAll_inject:
  assumes "new \<notin> set s" "new \<notin> set t"
  shows "ReplaceAll s old new = ReplaceAll t old new \<longleftrightarrow> s = t"
  using assms
proof (induction s arbitrary: t)
  case Nil
  then show ?case by (auto simp: ReplaceAll_def)
next
  case (Cons x xs)
  then show ?case by (cases t) (auto simp: ReplaceAll_def split: if_splits)
qed

section \<open>Lemmas: runes of ASCII strings\<close>

lemma rune_list_ascii: "list_all (\<lambda>b. b < 128) bs \<Longrightarrow> rune_list bs = bs"
  by (induction bs) (auto simp: decode_rune_def)

lemma runes_ascii: "is_ascii s \<Longrightarrow> runes s = map byte s"
  by (simp add: runes_def is_ascii_def rune_list_ascii list_all_iff)

lemma is_ascii_append [simp]: "is_ascii (s @ t) \<longleftrightarrow> is_ascii s \<and> is_ascii t"
  by (simp add: is_ascii_def)

lemma is_ascii_digits: "list_all is_digit a \<Longrightarrow> is_ascii a"
  by (fastforce simp: is_ascii_def is_digit_def list_all_iff)

lemma is_ascii_dec_digits [simp]: "is_ascii (dec_digits n)"
  by (rule is_ascii_digits [OF dec_digits_digits])

section \<open>Lemmas: splitting and trimming\<close>

lemma Split_not_Nil [simp]: "Split s sep \<noteq> []"
  by (induction s) (auto split: list.splits)

lemma Split_no_sep: "sep \<notin> set a \<Longrightarrow> Split a sep = [a]"
  by (induction a) auto

lemma Split_append: "sep \<notin> set a \<Longrightarrow> Split (a @ sep # b) sep = a # Split b sep"
  by (induction a) auto

lemma Split_Join:
  "xs \<noteq> [] \<Longrightarrow> (\<And>x. x \<in> set xs \<Longrightarrow> sep \<notin> set x) \<Longrightarrow> Split (Join xs [sep]) sep = xs"
proof (induction xs rule: induct_list012)
  case (3 x y zs)
  then show ?case by (simp add: Split_append)
qed (simp_all add: Split_no_sep)

text \<open>Strings of visible ASCII characters are not trimmed.\<close>

definition visible :: "string \<Rightarrow> bool" where
  "visible s \<longleftrightarrow> list_all (\<lambda>c. 32 < byte c \<and> byte c < 127) s"

lemma space_encodings_ends:
  "list_all (\<lambda>e. e \<noteq> [] \<and> (byte (hd e) \<le> 32 \<or> 127 < byte (hd e)) \<and> (byte (last e) \<le> 32 \<or> 127 < byte (last e))) space_encodings"
  by (simp add: space_encodings_def byte_def upt_rec)

lemma space_encodings_no_prefix:
  assumes "visible s" "e \<in> set space_encodings"
  shows "\<not> HasPrefix s e" "\<not> HasSuffix s e"
proof -
  have e: "e \<noteq> []" "byte (hd e) \<le> 32 \<or> 127 < byte (hd e)" "byte (last e) \<le> 32 \<or> 127 < byte (last e)"
    using assms(2) space_encodings_ends by (auto simp: list_all_iff)
  have v: "32 < byte c \<and> byte c < 127" if "c \<in> set s" for c using that assms(1) by (auto simp: visible_def list_all_iff)
  show "\<not> HasPrefix s e"
  proof
    assume "HasPrefix s e"
    then obtain t where "s = e @ t" by (auto simp: HasPrefix_iff)
    then show False using v [of "hd e"] e by auto
  qed
  show "\<not> HasSuffix s e"
  proof
    assume "HasSuffix s e"
    then have "s = take (length s - length e) s @ e" by (metis HasSuffix_def append_take_drop_id)
    then have "last e \<in> set s" using e(1) by (metis Un_iff last_in_set set_append)
    then show False using v [of "last e"] e by auto
  qed
qed

lemma TrimSpace_visible: "visible s \<Longrightarrow> TrimSpace s = s"
proof -
  assume "visible s"
  then have "find (HasPrefix s) space_encodings = None" "find (HasSuffix s) space_encodings = None"
    using space_encodings_no_prefix by (auto simp: find_None_iff)
  then show ?thesis by (simp add: TrimSpace_def TrimLeftSpace.simps [of s] TrimRightSpace.simps [of s])
qed

lemma visible_append [simp]: "visible (a @ b) \<longleftrightarrow> visible a \<and> visible b"
  by (simp add: visible_def)

lemma visible_Itoa: "0 \<le> n \<Longrightarrow> visible (Itoa n)"
  using Itoa_nonneg_digits [of n] by (auto simp: visible_def is_digit_def list_all_iff)

end
