(* ===== verification/Quantity.thy ===== *)
theory Quantity
  imports Go_Strings
begin

text \<open>
  \<open>k8s.io/apimachinery/pkg/api/resource.Quantity\<close> is not part of the repository, so it is a parameter of
  the model: a type variable \<open>'q\<close> for the quantities and a record of the operations the source calls.
  Every definition that touches a quantity takes that record as its first argument.

  What the source relies on is \<open>quantity_laws\<close>: a quantity stands for an exact number, its amount;
  \<open>Cmp\<close> orders by it, \<open>Add\<close> adds it, \<open>NewQuantity\<close> makes the quantity of an integer, \<open>Value\<close> reads an amount
  back as an integer, rounded away from zero, and \<open>MustParse\<close> reads \<open>"<n>Gi"\<close> as that many gibibytes. These
  are the documented contracts of the methods. \<open>DeepCopy\<close> is the identity, since values of the model are
  never mutated.

  \<open>int_quantity\<close> is a concrete instance that satisfies the laws; the witnesses evaluate on it.
\<close>

datatype Format = BinarySI | DecimalSI

record 'q quantity_ops =
  q_Value :: "'q \<Rightarrow> int"
  q_Cmp :: "'q \<Rightarrow> 'q \<Rightarrow> int"
  q_Add :: "'q \<Rightarrow> 'q \<Rightarrow> 'q"
  q_NewQuantity :: "int \<Rightarrow> Format \<Rightarrow> 'q"
  q_MustParse :: "string \<Rightarrow> 'q"
  q_String :: "'q \<Rightarrow> string"

text \<open>Rounding away from zero to an integer.\<close>

definition round_away :: "rat \<Rightarrow> int" where
  "round_away x = (if x < 0 then \<lfloor>x\<rfloor> else \<lceil>x\<rceil>)"

definition quantity_laws :: "'q quantity_ops \<Rightarrow> ('q \<Rightarrow> rat) \<Rightarrow> bool" where
  "quantity_laws Q amt \<longleftrightarrow>
     (\<forall>a b. q_Cmp Q a b = (if amt a < amt b then - 1 else if amt a = amt b then 0 else 1))
   \<and> (\<forall>a b. amt (q_Add Q a b) = amt a + amt b)
   \<and> (\<forall>n f. amt (q_NewQuantity Q n f) = of_int n)
   \<and> (\<forall>a. \<bar>amt a\<bar> < 2 ^ 63 \<longrightarrow> q_Value Q a = round_away (amt a))
   \<and> (\<forall>n. int n * 2 ^ 30 < 2 ^ 63 \<longrightarrow> amt (q_MustParse Q (dec_digits n @ ''Gi'')) = of_nat n * 2 ^ 30)"

text \<open>The instance on which witnesses are evaluated: a whole number of units.\<close>

definition int_quantity :: "int quantity_ops" where
  "int_quantity =
     \<lparr> q_Value = (\<lambda>a. a),
       q_Cmp = (\<lambda>a b. if a < b then - 1 else if a = b then 0 else 1),
       q_Add = (\<lambda>a b. a + b),
       q_NewQuantity = (\<lambda>n f. n),
       q_MustParse = (\<lambda>s. int (digits_val (TrimSuffix s ''Gi'')) * 2 ^ 30),
       q_String = Itoa \<rparr>"

lemma quantity_laws_Cmp:
  "quantity_laws Q amt \<Longrightarrow> q_Cmp Q a b = (if amt a < amt b then - 1 else if amt a = amt b then 0 else 1)"
  by (simp add: quantity_laws_def)

lemma quantity_laws_Cmp_pos: "quantity_laws Q amt \<Longrightarrow> 0 < q_Cmp Q a b \<longleftrightarrow> amt b < amt a"
  by (auto simp: quantity_laws_Cmp)

lemma quantity_laws_Cmp_zero: "quantity_laws Q amt \<Longrightarrow> q_Cmp Q a b = 0 \<longleftrightarrow> amt a = amt b"
  by (auto simp: quantity_laws_Cmp)

lemma quantity_laws_Add: "quantity_laws Q amt \<Longrightarrow> amt (q_Add Q a b) = amt a + amt b"
  by (simp add: quantity_laws_def)

lemma quantity_laws_NewQuantity: "quantity_laws Q amt \<Longrightarrow> amt (q_NewQuantity Q n f) = of_int n"
  by (simp add: quantity_laws_def)

lemma quantity_laws_MustParse:
  "quantity_laws Q amt \<Longrightarrow> int n * 2 ^ 30 < 2 ^ 63 \<Longrightarrow> amt (q_MustParse Q (dec_digits n @ ''Gi'')) = of_nat n * 2 ^ 30"
  unfolding quantity_laws_def by blast

lemma quantity_laws_Value:
  "quantity_laws Q amt \<Longrightarrow> \<bar>amt a\<bar> < 2 ^ 63 \<Longrightarrow> q_Value Q a = round_away (amt a)"
  unfolding quantity_laws_def by blast

lemma round_away_of_int [simp]: "round_away (of_int n) = n"
  by (simp add: round_away_def)

lemma Value_of_int:
  assumes "quantity_laws Q amt" "amt q = of_int n" "0 \<le> n" "n < 2 ^ 63"
  shows "q_Value Q q = n"
proof -
  have "rat_of_int n < rat_of_int (2 ^ 63)" using assms(4) by (simp only: of_int_less_iff)
  then have "\<bar>amt q\<bar> < 2 ^ 63" unfolding assms(2) using assms(3) by simp
  then show ?thesis using quantity_laws_Value [OF assms(1)] assms(2) by (simp only: round_away_of_int)
qed

lemmas quantity_simps =
  quantity_laws_Cmp_pos quantity_laws_Cmp_zero quantity_laws_Add quantity_laws_NewQuantity

lemma TrimSuffix_append [simp]: "TrimSuffix (s @ p) p = s"
  by (simp add: TrimSuffix_def HasSuffix_def)

theorem int_quantity_laws: "quantity_laws int_quantity of_int"
  by (simp add: quantity_laws_def int_quantity_def)

end
