(* ===== verification/Api_Types.thy ===== *)
theory Api_Types
  imports Quantity
begin

text \<open>
  The custom resources of \<open>api/v1alpha1\<close> and the parts of the Kubernetes objects the program reads and
  writes. A struct is a record whose fields carry a short prefix, since the field names of two structs
  may coincide; a pointer field is an option, a map field a finite map, a slice a list. \<open>SharingMode\<close> and
  \<open>FaultEffect\<close> are string types in the source and stay strings here, because the code compares them with
  constants and has to answer for every other value. Fields the program never looks at (timestamps,
  managed fields, node conditions) are left out.

  \<open>pool_schema\<close> and \<open>model_schema\<close> are what the CRD validation markers of the types promise about an object
  that came through the API server.
\<close>

section \<open>api/v1alpha1/gpumodel\_types.go\<close>

record 'q MIGProfileSpec =
  mps_Name :: string
  mps_Memory :: 'q
  mps_Slices :: int

record 'q MIGBudgetSpec =
  mbs_Memory :: "'q option"
  mbs_Slices :: int

record 'q GPUModelSpec =
  ms_Vendor :: string
  ms_ProductName :: string
  ms_Memory :: 'q
  ms_ComputeCapability :: string
  ms_MIGProfiles :: "'q MIGProfileSpec list"
  ms_MIGBudget :: "'q MIGBudgetSpec option"

record 'q GPUModel =
  model_Name :: string
  model_Spec :: "'q GPUModelSpec"

section \<open>api/v1alpha1/gpupool\_types.go\<close>

record AdvertiseSpec =
  adv_DRA :: "bool option"
  adv_ExtendedResource :: "bool option"

definition DRAEnabled :: "AdvertiseSpec \<Rightarrow> bool" where
  "DRAEnabled a \<longleftrightarrow> (case adv_DRA a of None \<Rightarrow> True | Some b \<Rightarrow> b)"

definition ExtendedResourceEnabled :: "AdvertiseSpec \<Rightarrow> bool" where
  "ExtendedResourceEnabled a \<longleftrightarrow> (case adv_ExtendedResource a of None \<Rightarrow> True | Some b \<Rightarrow> b)"

record TopologySpec =
  top_NVLinkDomainSize :: int
  top_NUMAAware :: bool

record MIGPartitionEntry =
  mpe_Profile :: string
  mpe_Count :: int

definition FaultEffectEvict :: string where
  "FaultEffectEvict = ''Evict''"

definition FaultEffectUnschedulable :: string where
  "FaultEffectUnschedulable = ''Unschedulable''"

record FaultEntry =
  fe_NodeSelector :: labels
  fe_GPUs :: int
  fe_Effect :: string
  fe_XID :: int

record UtilizationSample =
  us_GPUUtil :: "int option"
  us_MemCopyUtil :: "int option"
  us_FBUsedPercent :: "int option"
  us_GREngineActivePercent :: "int option"
  us_TensorActivePercent :: "int option"
  us_PowerWatts :: "int option"
  us_TemperatureC :: "int option"

text \<open>\<open>metav1.LabelSelector\<close>, carried as data; its meaning is a parameter where it is used.\<close>

record LabelSelector =
  ls_MatchLabels :: labels
  ls_MatchExpressions :: "(string \<times> string \<times> string list) list"

record WorkloadUtilization =
  wu_PodSelector :: "LabelSelector option"
  wu_UtilizationSample :: UtilizationSample

record UtilizationSpec =
  ut_WhenAllocated :: "UtilizationSample option"
  ut_WhenIdle :: "UtilizationSample option"
  ut_Workloads :: "WorkloadUtilization list"

record OccupancyEntry =
  oe_NodeSelector :: labels
  oe_BusyPerNode :: int

definition SharingModeNone :: string where
  "SharingModeNone = ''none''"

definition SharingModeMIG :: string where
  "SharingModeMIG = ''mig''"

record GPUPoolSpec =
  ps_ModelRef :: string
  ps_NodeSelector :: labels
  ps_GPUsPerNode :: int
  ps_Advertise :: AdvertiseSpec
  ps_MIGPartition :: "MIGPartitionEntry list"
  ps_Faults :: "FaultEntry list"
  ps_Utilization :: "UtilizationSpec option"
  ps_Occupancy :: "OccupancyEntry list"
  ps_SharingMode :: string
  ps_Topology :: TopologySpec

definition MIGEnabled :: "GPUPoolSpec \<Rightarrow> bool" where
  "MIGEnabled s \<longleftrightarrow> ps_SharingMode s = SharingModeMIG"

text \<open>\<open>metav1.Condition\<close>; the message is kept as a value of the caller's type instead of rendered text.\<close>

datatype ConditionStatus = ConditionTrue | ConditionFalse

record 'm Condition =
  cond_Type :: string
  cond_Status :: ConditionStatus
  cond_Reason :: string
  cond_Message :: 'm
  cond_ObservedGeneration :: int

record 'm GPUPoolStatus =
  st_Conditions :: "'m Condition list"
  st_ObservedGeneration :: int
  st_NodesMatched :: int
  st_DevicesPublished :: int
  st_GPUsOccupied :: int
  st_GPUsFaulted :: int
  st_MIGProfilesPublished :: int

record 'm GPUPool =
  pool_Name :: string
  pool_Generation :: int
  pool_Spec :: GPUPoolSpec
  pool_Status :: "'m GPUPoolStatus"

section \<open>Kubernetes objects\<close>

record NodeTaint =
  nt_Key :: string
  nt_Value :: string
  nt_Effect :: string

record NodeSystemInfo =
  ni_Architecture :: string
  ni_ContainerRuntimeVersion :: string
  ni_KubeletVersion :: string
  ni_OperatingSystem :: string

definition no_node_info :: NodeSystemInfo where
  "no_node_info = \<lparr> ni_Architecture = [], ni_ContainerRuntimeVersion = [], ni_KubeletVersion = [], ni_OperatingSystem = [] \<rparr>"

record 'q Node =
  nd_Name :: string
  nd_Labels :: labels
  nd_Annotations :: labels
  nd_Capacity :: "(string, 'q) fmap"
  nd_Allocatable :: "(string, 'q) fmap"
  nd_Taints :: "NodeTaint list"
  nd_NodeInfo :: NodeSystemInfo
  nd_Phase :: string

datatype TaintEffect = NoSchedule | NoExecute

record DeviceTaint =
  dt_Key :: string
  dt_Value :: string
  dt_Effect :: TaintEffect

record DeviceAttribute =
  da_StringValue :: "string option"
  da_IntValue :: "int option"

record 'q DeviceCounterConsumption =
  dcc_CounterSet :: string
  dcc_Counters :: "(string, 'q) fmap"

record 'q Device =
  dv_Name :: string
  dv_Attributes :: "(string, DeviceAttribute) fmap"
  dv_Capacity :: "(string, 'q) fmap"
  dv_ConsumesCounters :: "'q DeviceCounterConsumption list"
  dv_Taints :: "DeviceTaint list"

record 'q CounterSet =
  cs_Name :: string
  cs_Counters :: "(string, 'q) fmap"

record ResourcePool =
  rp_Name :: string
  rp_Generation :: int
  rp_ResourceSliceCount :: int

record 'q ResourceSliceSpec =
  rss_Driver :: string
  rss_NodeName :: "string option"
  rss_Pool :: ResourcePool
  rss_SharedCounters :: "'q CounterSet list"
  rss_Devices :: "'q Device list"

record 'q ResourceSlice =
  rs_Name :: string
  rs_Labels :: labels
  rs_Owner :: "string option"
  rs_Spec :: "'q ResourceSliceSpec"

section \<open>What the CRD schema guarantees\<close>

text \<open>The pattern \<open>^[0-9]+g\.[0-9]+gb$\<close> of a MIG profile name, as a set of strings.\<close>

definition profile_name_pattern :: "string \<Rightarrow> bool" where
  "profile_name_pattern s \<longleftrightarrow>
     (\<exists>a b. s = a @ ''g.'' @ b @ ''gb'' \<and> a \<noteq> [] \<and> b \<noteq> [] \<and> list_all is_digit a \<and> list_all is_digit b)"

definition model_schema :: "'q GPUModel \<Rightarrow> bool" where
  "model_schema m \<longleftrightarrow>
     distinct (map mps_Name (ms_MIGProfiles (model_Spec m)))
   \<and> (\<forall>p \<in> set (ms_MIGProfiles (model_Spec m)).
        profile_name_pattern (mps_Name p) \<and> 1 \<le> mps_Slices p \<and> mps_Slices p \<le> 8)
   \<and> (\<forall>b. ms_MIGBudget (model_Spec m) = Some b \<longrightarrow> 1 \<le> mbs_Slices b \<and> mbs_Slices b \<le> 8)"

definition pool_schema :: "'m GPUPool \<Rightarrow> bool" where
  "pool_schema p \<longleftrightarrow>
     1 \<le> ps_GPUsPerNode (pool_Spec p) \<and> ps_GPUsPerNode (pool_Spec p) \<le> 128
   \<and> distinct (map mpe_Profile (ps_MIGPartition (pool_Spec p)))
   \<and> (\<forall>e \<in> set (ps_MIGPartition (pool_Spec p)). 1 \<le> mpe_Count e \<and> mpe_Count e \<le> 8)
   \<and> (\<forall>e \<in> set (ps_Faults (pool_Spec p)). 0 \<le> fe_GPUs e \<and> fe_GPUs e \<le> 128 \<and> 0 \<le> fe_XID e
        \<and> fe_XID e < 2 ^ 31 \<and> fe_Effect e \<in> {FaultEffectEvict, FaultEffectUnschedulable})
   \<and> (\<forall>e \<in> set (ps_Occupancy (pool_Spec p)). 0 \<le> oe_BusyPerNode e \<and> oe_BusyPerNode e \<le> 128)
   \<and> ps_SharingMode (pool_Spec p) \<in> {SharingModeNone, SharingModeMIG}
   \<and> 0 \<le> top_NVLinkDomainSize (ps_Topology (pool_Spec p))"

lemma SharingMode_distinct [simp]: "SharingModeNone \<noteq> SharingModeMIG" "SharingModeMIG \<noteq> SharingModeNone"
  by (simp_all add: SharingModeNone_def SharingModeMIG_def)

lemma profile_name_pattern_no_dash: "profile_name_pattern s \<Longrightarrow> CHR ''-'' \<notin> set s"
  by (auto simp: profile_name_pattern_def dest: dash_not_in_digits)

lemma profile_name_pattern_ascii: "profile_name_pattern s \<Longrightarrow> is_ascii s"
proof -
  assume "profile_name_pattern s"
  then obtain a b where "s = a @ ''g.'' @ b @ ''gb''" "list_all is_digit a" "list_all is_digit b"
    by (auto simp: profile_name_pattern_def)
  moreover have "is_ascii ''g.''" "is_ascii ''gb''" by (simp_all add: is_ascii_def byte_def)
  ultimately show ?thesis by (simp only: is_ascii_append is_ascii_digits)
qed

end
