(* ===== verification/Mig_Profiles.thy ===== *)
theory Mig_Profiles
  imports Api_Types
begin

text \<open>
  Package \<open>mig\<close>, the profile tables: \<open>internal/mig/profiles.go\<close> (the built-in tables and the choice of
  one by product name), \<open>internal/mig/parse.go\<close> (reading a profile's shape from its name) and
  \<open>internal/mig/resolve.go\<close> (the table a \<open>GPUModel\<close> describes, and its validation).

  The lemmas: a profile name is read exactly when it has the documented form and its numbers fit their
  types (\<open>ParseProfileName_iff\<close>), what is printed is read back, the names of the built-in tables describe
  their own shapes, and \<open>Resolve\<close> returns a table exactly when it is usable: not empty, no name twice,
  every profile within the budget.
\<close>

section \<open>profiles.go\<close>

record 'q Profile =
  pr_Name :: string
  pr_Memory :: 'q
  pr_Slices :: int

record 'q Budget =
  bd_Memory :: 'q
  bd_Slices :: int

record 'q Table =
  tb_Budget :: "'q Budget"
  tb_Profiles :: "'q Profile list"

definition Table_DeepCopy :: "'q Table \<Rightarrow> 'q Table" where
  "Table_DeepCopy t =
     \<lparr> tb_Budget = \<lparr> bd_Memory = bd_Memory (tb_Budget t), bd_Slices = bd_Slices (tb_Budget t) \<rparr>,
       tb_Profiles = map (\<lambda>p. \<lparr> pr_Name = pr_Name p, pr_Memory = pr_Memory p, pr_Slices = pr_Slices p \<rparr>)
                         (tb_Profiles t) \<rparr>"

definition tableA10040 :: string where "tableA10040 = ''a100-40gb''"
definition tableA10080 :: string where "tableA10080 = ''a100-80gb''"
definition tableH10080 :: string where "tableH10080 = ''h100-80gb''"
definition familyA100 :: string where "familyA100 = ''a100''"
definition familyH100 :: string where "familyH100 = ''h100''"
definition capacity40 :: string where "capacity40 = ''40gb''"
definition capacity80 :: string where "capacity80 = ''80gb''"

definition profile :: "'q quantity_ops \<Rightarrow> string \<Rightarrow> string \<Rightarrow> int \<Rightarrow> 'q Profile" where
  "profile Q name memory slices =
     \<lparr> pr_Name = name, pr_Memory = q_MustParse Q memory, pr_Slices = slices \<rparr>"

definition builtInTables :: "'q quantity_ops \<Rightarrow> (string, 'q Table) fmap" where
  "builtInTables Q = fmap_of_list
     [(tableA10040,
        \<lparr> tb_Budget = \<lparr> bd_Memory = q_MustParse Q ''40Gi'', bd_Slices = 7 \<rparr>,
          tb_Profiles =
            [profile Q ''1g.5gb'' ''5Gi'' 1,
             profile Q ''2g.10gb'' ''10Gi'' 2,
             profile Q ''3g.20gb'' ''20Gi'' 3,
             profile Q ''4g.20gb'' ''20Gi'' 4,
             profile Q ''7g.40gb'' ''40Gi'' 7] \<rparr>),
      (tableA10080,
        \<lparr> tb_Budget = \<lparr> bd_Memory = q_MustParse Q ''80Gi'', bd_Slices = 7 \<rparr>,
          tb_Profiles =
            [profile Q ''1g.10gb'' ''10Gi'' 1,
             profile Q ''2g.20gb'' ''20Gi'' 2,
             profile Q ''3g.40gb'' ''40Gi'' 3,
             profile Q ''4g.40gb'' ''40Gi'' 4,
             profile Q ''7g.80gb'' ''80Gi'' 7] \<rparr>),
      (tableH10080,
        \<lparr> tb_Budget = \<lparr> bd_Memory = q_MustParse Q ''80Gi'', bd_Slices = 7 \<rparr>,
          tb_Profiles =
            [profile Q ''1g.10gb'' ''10Gi'' 1,
             profile Q ''1g.20gb'' ''20Gi'' 1,
             profile Q ''2g.20gb'' ''20Gi'' 2,
             profile Q ''3g.40gb'' ''40Gi'' 3,
             profile Q ''4g.40gb'' ''40Gi'' 4,
             profile Q ''7g.80gb'' ''80Gi'' 7] \<rparr>)]"

definition productMatchers :: "(string list \<times> string) list" where
  "productMatchers =
     [([familyA100, capacity40], tableA10040),
      ([familyA100, capacity80], tableA10080),
      ([familyA100], tableA10080),
      ([familyH100], tableH10080)]"

definition normalize :: "string \<Rightarrow> string" where
  "normalize product = map char_of (filter rune_alnum (lower_runes product))"

text \<open>The loop over the matchers: the first whose needles are all contained decides.\<close>

fun match_product :: "(string list \<times> string) list \<Rightarrow> string \<Rightarrow> string option" where
  "match_product [] normalized = None"
| "match_product ((contains, table) # ms) normalized =
     (if list_all (\<lambda>needle. Contains normalized needle) contains then Some table
      else match_product ms normalized)"

definition ProfilesFor :: "'q quantity_ops \<Rightarrow> string \<Rightarrow> 'q Table option" where
  "ProfilesFor Q productName =
     (let normalized = normalize productName in
      if normalized = [] then None
      else (case match_product productMatchers normalized of
              None \<Rightarrow> None
            | Some key \<Rightarrow> map_option Table_DeepCopy (fmlookup (builtInTables Q) key)))"

section \<open>parse.go\<close>

definition gibibyte :: int where
  "gibibyte = 2 ^ 30"

text \<open>\<open>profileNamePattern.FindStringSubmatch\<close> for \<open>^([0-9]+)g\.([0-9]+)gb$\<close>: the two captured groups.\<close>

definition profileNamePattern :: "string \<Rightarrow> (string \<times> string) option" where
  "profileNamePattern s =
     (let a = takeWhile is_digit s; r = dropWhile is_digit s in
      if a = [] then None
      else (case CutPrefix r ''g.'' of
              None \<Rightarrow> None
            | Some r' \<Rightarrow>
                (let b = takeWhile is_digit r' in
                 if b = [] \<or> dropWhile is_digit r' \<noteq> ''gb'' then None else Some (a, b))))"

definition ParseProfileName :: "'q quantity_ops \<Rightarrow> string \<Rightarrow> 'q Profile option" where
  "ParseProfileName Q name =
     (case profileNamePattern name of
        None \<Rightarrow> None
      | Some (m1, m2) \<Rightarrow>
          (case ParseInt 32 m1 of
             None \<Rightarrow> None
           | Some slices64 \<Rightarrow>
               if slices64 < 1 then None
               else (case Atoi m2 of
                       None \<Rightarrow> None
                     | Some memoryGiB \<Rightarrow>
                         if memoryGiB < 1 then None
                         else Some \<lparr> pr_Name = name,
                                     pr_Memory = q_NewQuantity Q (wrap64 (memoryGiB * gibibyte)) BinarySI,
                                     pr_Slices = wrap32 slices64 \<rparr>)))"

section \<open>resolve.go\<close>

datatype 'q MigError =
    NoBuiltInProfiles string string
  | DuplicateProfile string string
  | SlicesExceedBudget string string int int
  | MemoryExceedsBudget string string 'q 'q
  | PartitionUnknownProfile string "string list"
  | PartitionSlices int int
  | PartitionMemory 'q 'q

definition defaultSlices :: int where
  "defaultSlices = 7"

definition baseTable :: "'q quantity_ops \<Rightarrow> 'q GPUModel \<Rightarrow> 'q Table" where
  "baseTable Q model =
     (let builtIn = ProfilesFor Q (ms_ProductName (model_Spec model));
          budget0 = \<lparr> bd_Memory = ms_Memory (model_Spec model), bd_Slices = defaultSlices \<rparr>;
          budget1 = (case builtIn of None \<Rightarrow> budget0 | Some t \<Rightarrow> budget0\<lparr> bd_Slices := bd_Slices (tb_Budget t) \<rparr>);
          profiles =
            (if ms_MIGProfiles (model_Spec model) \<noteq> []
             then map (\<lambda>p. \<lparr> pr_Name = mps_Name p, pr_Memory = mps_Memory p, pr_Slices = mps_Slices p \<rparr>)
                      (ms_MIGProfiles (model_Spec model))
             else (case builtIn of None \<Rightarrow> [] | Some t \<Rightarrow> tb_Profiles t));
          budget2 =
            (case ms_MIGBudget (model_Spec model) of
               None \<Rightarrow> budget1
             | Some b \<Rightarrow>
                 (let withMemory = (case mbs_Memory b of None \<Rightarrow> budget1 | Some m \<Rightarrow> budget1\<lparr> bd_Memory := m \<rparr>) in
                  if mbs_Slices b > 0 then withMemory\<lparr> bd_Slices := mbs_Slices b \<rparr> else withMemory))
      in \<lparr> tb_Budget = budget2, tb_Profiles = profiles \<rparr>)"

text \<open>The loop of \<open>validate\<close>, with the set of names seen so far.\<close>

fun validate_loop ::
  "'q quantity_ops \<Rightarrow> string \<Rightarrow> 'q Budget \<Rightarrow> string set \<Rightarrow> 'q Profile list \<Rightarrow> 'q MigError + unit" where
  "validate_loop Q modelName budget seen [] = Inr ()"
| "validate_loop Q modelName budget seen (p # ps) =
     (if pr_Name p \<in> seen then Inl (DuplicateProfile modelName (pr_Name p))
      else if pr_Slices p > bd_Slices budget
        then Inl (SlicesExceedBudget modelName (pr_Name p) (pr_Slices p) (bd_Slices budget))
      else if q_Cmp Q (pr_Memory p) (bd_Memory budget) > 0
        then Inl (MemoryExceedsBudget modelName (pr_Name p) (pr_Memory p) (bd_Memory budget))
      else validate_loop Q modelName budget (insert (pr_Name p) seen) ps)"

definition validate :: "'q quantity_ops \<Rightarrow> string \<Rightarrow> 'q Table \<Rightarrow> 'q MigError + unit" where
  "validate Q modelName table = validate_loop Q modelName (tb_Budget table) {} (tb_Profiles table)"

definition Resolve :: "'q quantity_ops \<Rightarrow> 'q GPUModel \<Rightarrow> 'q MigError + 'q Table" where
  "Resolve Q model =
     (let table = baseTable Q model in
      if tb_Profiles table = []
      then Inl (NoBuiltInProfiles (model_Name model) (ms_ProductName (model_Spec model)))
      else (case validate Q (model_Name model) table of Inl e \<Rightarrow> Inl e | Inr _ \<Rightarrow> Inr table))"

text \<open>What a resolved table promises: \<open>tableOK\<close>.\<close>

definition fits_budget :: "'q quantity_ops \<Rightarrow> 'q Budget \<Rightarrow> 'q Profile \<Rightarrow> bool" where
  "fits_budget Q budget p \<longleftrightarrow> pr_Slices p \<le> bd_Slices budget \<and> q_Cmp Q (pr_Memory p) (bd_Memory budget) \<le> 0"

definition tableOK :: "'q quantity_ops \<Rightarrow> 'q Table \<Rightarrow> bool" where
  "tableOK Q t \<longleftrightarrow>
     tb_Profiles t \<noteq> [] \<and> distinct (map pr_Name (tb_Profiles t))
   \<and> list_all (fits_budget Q (tb_Budget t)) (tb_Profiles t)"

section \<open>Lemmas: the name pattern\<close>

lemma takeWhile_digits_append:
  "list_all is_digit a \<Longrightarrow> \<not> is_digit c \<Longrightarrow> takeWhile is_digit (a @ c # r) = a"
  by (induction a) auto

lemma dropWhile_digits_append:
  "list_all is_digit a \<Longrightarrow> \<not> is_digit c \<Longrightarrow> dropWhile is_digit (a @ c # r) = c # r"
  by (induction a) auto

lemma profileNamePattern_match:
  assumes "a \<noteq> []" "b \<noteq> []" "list_all is_digit a" "list_all is_digit b"
  shows "profileNamePattern (a @ ''g.'' @ b @ ''gb'') = Some (a, b)"
proof -
  have g: "\<not> is_digit CHR ''g''" by simp
  have "takeWhile is_digit (a @ ''g.'' @ b @ ''gb'') = a"
    using takeWhile_digits_append [OF assms(3) g] by simp
  moreover have "dropWhile is_digit (a @ ''g.'' @ b @ ''gb'') = ''g.'' @ b @ ''gb''"
    using dropWhile_digits_append [OF assms(3) g] by simp
  moreover have "takeWhile is_digit (b @ ''gb'') = b"
    using takeWhile_digits_append [OF assms(4) g] by simp
  moreover have "dropWhile is_digit (b @ ''gb'') = ''gb''"
    using dropWhile_digits_append [OF assms(4) g] by simp
  ultimately show ?thesis
    using assms by (simp add: profileNamePattern_def Let_def del: append_Cons append_Nil)
qed

lemma profileNamePattern_Some:
  "profileNamePattern s = Some (a, b) \<longleftrightarrow>
     s = a @ ''g.'' @ b @ ''gb'' \<and> a \<noteq> [] \<and> b \<noteq> [] \<and> list_all is_digit a \<and> list_all is_digit b"
proof
  assume m: "profileNamePattern s = Some (a, b)"
  let ?r = "dropWhile is_digit s"
  from m obtain r where a: "a = takeWhile is_digit s" "a \<noteq> []" and r: "CutPrefix ?r ''g.'' = Some r"
    and b: "b = takeWhile is_digit r" "b \<noteq> []" and gb: "dropWhile is_digit r = ''gb''"
    by (auto simp: profileNamePattern_def Let_def split: option.splits if_splits)
  have "s = a @ ?r" by (simp add: a(1))
  moreover have "?r = ''g.'' @ r" using r by (simp only: CutPrefix_Some_iff)
  moreover have "r = b @ ''gb''" using takeWhile_dropWhile_id [of is_digit r] by (simp add: b(1) gb)
  moreover have "list_all is_digit a" "list_all is_digit b"
    by (auto simp: a(1) b(1) list_all_iff dest: set_takeWhileD)
  ultimately show "s = a @ ''g.'' @ b @ ''gb'' \<and> a \<noteq> [] \<and> b \<noteq> [] \<and> list_all is_digit a \<and> list_all is_digit b"
    using a(2) b(2) by simp
next
  assume "s = a @ ''g.'' @ b @ ''gb'' \<and> a \<noteq> [] \<and> b \<noteq> [] \<and> list_all is_digit a \<and> list_all is_digit b"
  then show "profileNamePattern s = Some (a, b)" using profileNamePattern_match by blast
qed

lemma ParseInt_digits:
  assumes "a \<noteq> []" "list_all is_digit a"
  shows "ParseInt bits a = (if int (digits_val a) < 2 ^ (bits - 1) then Some (int (digits_val a)) else None)"
proof -
  obtain c cs where a: "a = c # cs" using assms(1) by (cases a) auto
  with assms have "c \<noteq> CHR ''-''" "c \<noteq> CHR ''+''" by (simp_all add: is_digit_not_sign)
  with a assms show ?thesis by (simp add: ParseInt_def parse_digits_def)
qed

lemma ParseProfileName_digits:
  assumes "a \<noteq> []" "b \<noteq> []" "list_all is_digit a" "list_all is_digit b"
  shows "ParseProfileName Q (a @ ''g.'' @ b @ ''gb'') =
    (if 1 \<le> digits_val a \<and> digits_val a < 2 ^ 31 \<and> 1 \<le> digits_val b \<and> digits_val b < 2 ^ 63
     then Some \<lparr> pr_Name = a @ ''g.'' @ b @ ''gb'',
                 pr_Memory = q_NewQuantity Q (wrap64 (int (digits_val b) * gibibyte)) BinarySI,
                 pr_Slices = int (digits_val a) \<rparr>
     else None)"
proof -
  have r: "int32_range (int (digits_val a))" if "digits_val a < 2 ^ 31"
    using that by (simp add: int32_range_def)
  have "int (digits_val a) < 2 ^ (32 - 1) \<longleftrightarrow> digits_val a < 2 ^ 31"
    "int (digits_val b) < 2 ^ (64 - 1) \<longleftrightarrow> digits_val b < 2 ^ 63" by simp_all
  moreover have "int (digits_val a) < 1 \<longleftrightarrow> \<not> 1 \<le> digits_val a"
    "int (digits_val b) < 1 \<longleftrightarrow> \<not> 1 \<le> digits_val b" by auto
  ultimately show ?thesis
    using r unfolding ParseProfileName_def profileNamePattern_match [OF assms]
    by (simp add: ParseInt_digits assms)
qed

section \<open>Lemmas: built-in tables\<close>

lemma Table_DeepCopy_id [simp]: "Table_DeepCopy t = t"
proof -
  have "map (\<lambda>p. \<lparr> pr_Name = pr_Name p, pr_Memory = pr_Memory p, pr_Slices = pr_Slices p \<rparr>) ps = ps"
    for ps :: "'a Profile list" by (induction ps) auto
  then show ?thesis by (simp add: Table_DeepCopy_def)
qed

lemma table_keys_distinct [simp]:
  "tableA10040 \<noteq> tableA10080" "tableA10040 \<noteq> tableH10080" "tableA10080 \<noteq> tableH10080"
  "tableA10080 \<noteq> tableA10040" "tableH10080 \<noteq> tableA10040" "tableH10080 \<noteq> tableA10080"
  by (simp_all add: tableA10040_def tableA10080_def tableH10080_def)

lemma Gi_literals:
  "''5Gi'' = dec_digits 5 @ ''Gi''" "''10Gi'' = dec_digits 10 @ ''Gi''" "''20Gi'' = dec_digits 20 @ ''Gi''"
  "''40Gi'' = dec_digits 40 @ ''Gi''" "''80Gi'' = dec_digits 80 @ ''Gi''"
  by code_simp+

lemma amt_Gi:
  assumes "quantity_laws Q amt"
  shows "amt (q_MustParse Q ''5Gi'') = 5 * 2 ^ 30" "amt (q_MustParse Q ''10Gi'') = 10 * 2 ^ 30"
    "amt (q_MustParse Q ''20Gi'') = 20 * 2 ^ 30" "amt (q_MustParse Q ''40Gi'') = 40 * 2 ^ 30"
    "amt (q_MustParse Q ''80Gi'') = 80 * 2 ^ 30"
  unfolding Gi_literals by (simp_all add: quantity_laws_MustParse [OF assms])

section \<open>Lemmas: validation and resolution\<close>

lemma validate_loop_Inr:
  "validate_loop Q n b seen ps = Inr u \<longleftrightarrow>
     distinct (map pr_Name ps) \<and> set (map pr_Name ps) \<inter> seen = {} \<and> list_all (fits_budget Q b) ps"
  by (induction ps arbitrary: seen) (auto simp: fits_budget_def not_less)

lemma validate_Inr:
  "validate Q n t = Inr u \<longleftrightarrow> distinct (map pr_Name (tb_Profiles t)) \<and> list_all (fits_budget Q (tb_Budget t)) (tb_Profiles t)"
  by (simp add: validate_def validate_loop_Inr)

lemma Resolve_Inr_iff: "Resolve Q m = Inr t \<longleftrightarrow> t = baseTable Q m \<and> tableOK Q t"
  using validate_Inr [of Q "model_Name m" "baseTable Q m"]
  by (cases "validate Q (model_Name m) (baseTable Q m)") (auto simp: Resolve_def Let_def tableOK_def)

text \<open>What an error of the validation loop says is true of the table.\<close>

definition error_explained :: "'q quantity_ops \<Rightarrow> string \<Rightarrow> 'q Table \<Rightarrow> 'q MigError \<Rightarrow> bool" where
  "error_explained Q n t e \<longleftrightarrow>
     (case e of
        NoBuiltInProfiles n' _ \<Rightarrow> n' = n \<and> tb_Profiles t = []
      | DuplicateProfile n' x \<Rightarrow> n' = n \<and> 2 \<le> count_list (map pr_Name (tb_Profiles t)) x
      | SlicesExceedBudget n' x a b \<Rightarrow> n' = n \<and> b = bd_Slices (tb_Budget t) \<and> b < a
          \<and> (\<exists>p \<in> set (tb_Profiles t). pr_Name p = x \<and> pr_Slices p = a)
      | MemoryExceedsBudget n' x a b \<Rightarrow> n' = n \<and> b = bd_Memory (tb_Budget t) \<and> 0 < q_Cmp Q a b
          \<and> (\<exists>p \<in> set (tb_Profiles t). pr_Name p = x \<and> pr_Memory p = a)
      | _ \<Rightarrow> False)"

lemma count_list_pos: "x \<in> set xs \<Longrightarrow> 1 \<le> count_list xs x"
  by (induction xs) auto

lemma validate_loop_Inl:
  assumes "validate_loop Q n (tb_Budget t) seen ps = Inl e" "tb_Profiles t = qs @ ps"
    and "seen = set (map pr_Name qs)"
  shows "error_explained Q n t e"
  using assms
proof (induction ps arbitrary: seen qs)
  case (Cons p ps)
  show ?case
  proof (cases "pr_Name p \<in> seen")
    case True
    with Cons.prems have "1 \<le> count_list (map pr_Name qs) (pr_Name p)"
      by (intro count_list_pos) simp
    with True Cons.prems show ?thesis by (auto simp: error_explained_def)
  next
    case False
    then show ?thesis
      using Cons.prems Cons.IH [of "insert (pr_Name p) seen" "qs @ [p]"]
      by (auto simp: error_explained_def split: if_splits)
  qed
qed simp

lemma Resolve_Inl:
  assumes "Resolve Q m = Inl e"
  shows "error_explained Q (model_Name m) (baseTable Q m) e \<and> \<not> tableOK Q (baseTable Q m)"
proof (cases "tb_Profiles (baseTable Q m) = []")
  case True
  with assms show ?thesis by (auto simp: Resolve_def Let_def error_explained_def tableOK_def)
next
  case False
  with assms have v: "validate Q (model_Name m) (baseTable Q m) = Inl e"
    by (cases "validate Q (model_Name m) (baseTable Q m)") (auto simp: Resolve_def Let_def)
  then have "error_explained Q (model_Name m) (baseTable Q m) e"
    unfolding validate_def by (rule validate_loop_Inl [where qs = "[]"]) simp_all
  moreover have "\<not> tableOK Q (baseTable Q m)"
    using v validate_Inr [of Q "model_Name m" "baseTable Q m"] by (auto simp: tableOK_def)
  ultimately show ?thesis by simp
qed

text \<open>The three tables a product can resolve to, with their keys looked up.\<close>

lemmas builtIn_lookup = builtInTables_def fmlookup_of_list

lemma builtIn_cases:
  assumes "ProfilesFor Q s = Some t"
  obtains k where "k \<in> {tableA10040, tableA10080, tableH10080}" "fmlookup (builtInTables Q) k = Some t"
  using assms by (auto simp: ProfilesFor_def Let_def productMatchers_def split: option.splits if_splits)

text \<open>A profile describes itself when its own name is read as its shape.\<close>

definition self_described :: "'q quantity_ops \<Rightarrow> ('q \<Rightarrow> rat) \<Rightarrow> 'q Profile \<Rightarrow> bool" where
  "self_described Q amt p \<longleftrightarrow>
     (case ParseProfileName Q (pr_Name p) of
        None \<Rightarrow> False
      | Some p' \<Rightarrow> pr_Name p' = pr_Name p \<and> pr_Slices p' = pr_Slices p \<and> amt (pr_Memory p') = amt (pr_Memory p))"

text \<open>The largest profile of a table takes the whole card.\<close>

definition whole_card :: "('q \<Rightarrow> rat) \<Rightarrow> 'q Table \<Rightarrow> bool" where
  "whole_card amt t \<longleftrightarrow>
     (let p = last (tb_Profiles t) in
      pr_Slices p = bd_Slices (tb_Budget t) \<and> amt (pr_Memory p) = amt (bd_Memory (tb_Budget t))
      \<and> list_all (\<lambda>p'. amt (pr_Memory p') \<le> amt (pr_Memory p)) (tb_Profiles t))"

lemma self_described_profile:
  assumes laws: "quantity_laws Q amt" and "1 \<le> n" "n < 2 ^ 31" "1 \<le> m" "m < 2 ^ 33"
    and name: "name = dec_digits n @ ''g.'' @ dec_digits m @ ''gb''"
    and mem: "mem = dec_digits m @ ''Gi''" and slices: "slices = int n"
  shows "self_described Q amt (profile Q name mem slices)"
proof -
  have "int m * 2 ^ 30 < 2 ^ 33 * 2 ^ 30" using assms(5) by (intro mult_strict_right_mono) simp_all
  then have "amt (q_MustParse Q mem) = of_nat m * 2 ^ 30"
    unfolding mem by (intro quantity_laws_MustParse [OF laws]) simp
  then show ?thesis
    using ParseProfileName_digits [OF dec_digits_not_Nil dec_digits_not_Nil dec_digits_digits dec_digits_digits, of Q n m]
      \<open>int m * 2 ^ 30 < 2 ^ 33 * 2 ^ 30\<close> assms(2-5)
    by (simp add: self_described_def name slices profile_def quantity_laws_NewQuantity [OF laws] gibibyte_def
        int64_range_def)
qed

lemma profile_name_literals:
  "''1g.5gb'' = dec_digits 1 @ ''g.'' @ dec_digits 5 @ ''gb''"
  "''1g.10gb'' = dec_digits 1 @ ''g.'' @ dec_digits 10 @ ''gb''"
  "''1g.20gb'' = dec_digits 1 @ ''g.'' @ dec_digits 20 @ ''gb''"
  "''2g.10gb'' = dec_digits 2 @ ''g.'' @ dec_digits 10 @ ''gb''"
  "''2g.20gb'' = dec_digits 2 @ ''g.'' @ dec_digits 20 @ ''gb''"
  "''3g.20gb'' = dec_digits 3 @ ''g.'' @ dec_digits 20 @ ''gb''"
  "''3g.40gb'' = dec_digits 3 @ ''g.'' @ dec_digits 40 @ ''gb''"
  "''4g.20gb'' = dec_digits 4 @ ''g.'' @ dec_digits 20 @ ''gb''"
  "''4g.40gb'' = dec_digits 4 @ ''g.'' @ dec_digits 40 @ ''gb''"
  "''7g.40gb'' = dec_digits 7 @ ''g.'' @ dec_digits 40 @ ''gb''"
  "''7g.80gb'' = dec_digits 7 @ ''g.'' @ dec_digits 80 @ ''gb''"
  by code_simp+

lemma builtIn_self_described:
  assumes laws: "quantity_laws Q amt"
  shows "self_described Q amt (profile Q ''1g.5gb'' ''5Gi'' 1)"
    "self_described Q amt (profile Q ''1g.10gb'' ''10Gi'' 1)"
    "self_described Q amt (profile Q ''1g.20gb'' ''20Gi'' 1)"
    "self_described Q amt (profile Q ''2g.10gb'' ''10Gi'' 2)"
    "self_described Q amt (profile Q ''2g.20gb'' ''20Gi'' 2)"
    "self_described Q amt (profile Q ''3g.20gb'' ''20Gi'' 3)"
    "self_described Q amt (profile Q ''3g.40gb'' ''40Gi'' 3)"
    "self_described Q amt (profile Q ''4g.20gb'' ''20Gi'' 4)"
    "self_described Q amt (profile Q ''4g.40gb'' ''40Gi'' 4)"
    "self_described Q amt (profile Q ''7g.40gb'' ''40Gi'' 7)"
    "self_described Q amt (profile Q ''7g.80gb'' ''80Gi'' 7)"
proof -
  show "self_described Q amt (profile Q ''1g.5gb'' ''5Gi'' 1)"
    by (rule self_described_profile [OF laws _ _ _ _ profile_name_literals(1) Gi_literals(1)]) simp_all
  show "self_described Q amt (profile Q ''1g.10gb'' ''10Gi'' 1)"
    by (rule self_described_profile [OF laws _ _ _ _ profile_name_literals(2) Gi_literals(2)]) simp_all
  show "self_described Q amt (profile Q ''1g.20gb'' ''20Gi'' 1)"
    by (rule self_described_profile [OF laws _ _ _ _ profile_name_literals(3) Gi_literals(3)]) simp_all
  show "self_described Q amt (profile Q ''2g.10gb'' ''10Gi'' 2)"
    by (rule self_described_profile [OF laws _ _ _ _ profile_name_literals(4) Gi_literals(2)]) simp_all
  show "self_described Q amt (profile Q ''2g.20gb'' ''20Gi'' 2)"
    by (rule self_described_profile [OF laws _ _ _ _ profile_name_literals(5) Gi_literals(3)]) simp_all
  show "self_described Q amt (profile Q ''3g.20gb'' ''20Gi'' 3)"
    by (rule self_described_profile [OF laws _ _ _ _ profile_name_literals(6) Gi_literals(3)]) simp_all
  show "self_described Q amt (profile Q ''3g.40gb'' ''40Gi'' 3)"
    by (rule self_described_profile [OF laws _ _ _ _ profile_name_literals(7) Gi_literals(4)]) simp_all
  show "self_described Q amt (profile Q ''4g.20gb'' ''20Gi'' 4)"
    by (rule self_described_profile [OF laws _ _ _ _ profile_name_literals(8) Gi_literals(3)]) simp_all
  show "self_described Q amt (profile Q ''4g.40gb'' ''40Gi'' 4)"
    by (rule self_described_profile [OF laws _ _ _ _ profile_name_literals(9) Gi_literals(4)]) simp_all
  show "self_described Q amt (profile Q ''7g.40gb'' ''40Gi'' 7)"
    by (rule self_described_profile [OF laws _ _ _ _ profile_name_literals(10) Gi_literals(4)]) simp_all
  show "self_described Q amt (profile Q ''7g.80gb'' ''80Gi'' 7)"
    by (rule self_described_profile [OF laws _ _ _ _ profile_name_literals(11) Gi_literals(5)]) simp_all
qed

lemma builtIn_tables_ok:
  assumes laws: "quantity_laws Q amt" and k: "k \<in> {tableA10040, tableA10080, tableH10080}"
    and t: "fmlookup (builtInTables Q) k = Some t"
  shows "tableOK Q t \<and> whole_card amt t \<and> list_all (self_described Q amt) (tb_Profiles t)"
proof -
  note facts = tableOK_def fits_budget_def whole_card_def Let_def quantity_laws_Cmp [OF laws] amt_Gi [OF laws]
  have m: "pr_Memory (profile Q n x i) = q_MustParse Q x" "pr_Slices (profile Q n x i) = i" "pr_Name (profile Q n x i) = n"
    for n x i by (simp_all add: profile_def)
  from k consider "k = tableA10040" | "k = tableA10080" | "k = tableH10080" by blast
  then show ?thesis
  proof cases
    case 1
    then show ?thesis using t by (simp add: builtIn_lookup) (auto simp: facts m builtIn_self_described [OF laws])
  next
    case 2
    then show ?thesis using t by (simp add: builtIn_lookup) (auto simp: facts m builtIn_self_described [OF laws])
  next
    case 3
    then show ?thesis using t by (simp add: builtIn_lookup) (auto simp: facts m builtIn_self_described [OF laws])
  qed
qed

lemma ProfilesFor_ok:
  assumes "quantity_laws Q amt" and "ProfilesFor Q s = Some t"
  shows "tableOK Q t \<and> whole_card amt t \<and> list_all (self_described Q amt) (tb_Profiles t)"
proof -
  from assms(2) obtain k where "k \<in> {tableA10040, tableA10080, tableH10080}"
    "fmlookup (builtInTables Q) k = Some t" by (rule builtIn_cases)
  then show ?thesis by (rule builtIn_tables_ok [OF assms(1)])
qed

section \<open>Properties\<close>

text \<open>
  A MIG profile name is read exactly when it has the form \<open><digits>g.<digits>gb\<close>, its slice count is at
  least 1 and fits an int32 and its memory is at least 1 and fits an int64; the profile carries the name,
  that slice count and that many gibibytes (computed in int64).
\<close>

theorem ParseProfileName_iff:
  "ParseProfileName Q s = Some p \<longleftrightarrow>
     (\<exists>a b. s = a @ ''g.'' @ b @ ''gb'' \<and> a \<noteq> [] \<and> b \<noteq> [] \<and> list_all is_digit a \<and> list_all is_digit b
        \<and> 1 \<le> digits_val a \<and> digits_val a < 2 ^ 31 \<and> 1 \<le> digits_val b \<and> digits_val b < 2 ^ 63
        \<and> p = \<lparr> pr_Name = s, pr_Memory = q_NewQuantity Q (wrap64 (int (digits_val b) * gibibyte)) BinarySI,
                pr_Slices = int (digits_val a) \<rparr>)"
proof (cases "profileNamePattern s")
  case None
  then have "ParseProfileName Q s = None" by (simp add: ParseProfileName_def)
  moreover have "\<not> (\<exists>a b. s = a @ ''g.'' @ b @ ''gb'' \<and> a \<noteq> [] \<and> b \<noteq> [] \<and> list_all is_digit a \<and> list_all is_digit b)"
    using None profileNamePattern_Some [of s] by fastforce
  ultimately show ?thesis by (metis option.distinct(1))
next
  case (Some ab)
  then obtain a b where ab: "profileNamePattern s = Some (a, b)" by (cases ab) auto
  then have s: "s = a @ ''g.'' @ b @ ''gb''" "a \<noteq> []" "b \<noteq> []" "list_all is_digit a" "list_all is_digit b"
    unfolding profileNamePattern_Some by simp_all
  have uniq: "a' = a \<and> b' = b" if "s = a' @ ''g.'' @ b' @ ''gb''" "a' \<noteq> []" "b' \<noteq> []"
    "list_all is_digit a'" "list_all is_digit b'" for a' b'
  proof -
    have "profileNamePattern s = Some (a', b')" unfolding profileNamePattern_Some using that by blast
    with ab show ?thesis by simp
  qed
  let ?c = "1 \<le> digits_val a \<and> digits_val a < 2 ^ 31 \<and> 1 \<le> digits_val b \<and> digits_val b < 2 ^ 63"
  let ?p = "\<lparr> pr_Name = s, pr_Memory = q_NewQuantity Q (wrap64 (int (digits_val b) * gibibyte)) BinarySI,
              pr_Slices = int (digits_val a) \<rparr>"
  have eq: "ParseProfileName Q s = (if ?c then Some ?p else None)"
    using ParseProfileName_digits [OF s(2-5), of Q] by (simp only: s(1) [symmetric])
  show ?thesis (is "?l \<longleftrightarrow> ?r")
  proof
    assume ?l
    then have "?c" "p = ?p" unfolding eq by (simp_all split: if_splits)
    with s show ?r by blast
  next
    assume ?r
    then obtain a' b' where ab': "s = a' @ ''g.'' @ b' @ ''gb''" "a' \<noteq> []" "b' \<noteq> []"
      "list_all is_digit a'" "list_all is_digit b'" and c: "1 \<le> digits_val a'" "digits_val a' < 2 ^ 31"
      "1 \<le> digits_val b'" "digits_val b' < 2 ^ 63"
      "p = \<lparr> pr_Name = s, pr_Memory = q_NewQuantity Q (wrap64 (int (digits_val b') * gibibyte)) BinarySI,
             pr_Slices = int (digits_val a') \<rparr>" by blast
    from uniq [OF ab'] have "a' = a" "b' = b" by simp_all
    with c show ?l unfolding eq by simp
  qed
qed

text \<open>
  What the naming convention prints is read back: the name built from a slice count and a memory in
  GiB that fits (below \<open>2 ^ 33\<close> GiB, so that the byte count fits an int64) yields exactly that shape.
\<close>

theorem ParseProfileName_roundtrip:
  assumes "1 \<le> n" "n < 2 ^ 31" "1 \<le> m" "m < 2 ^ 33"
  shows "ParseProfileName Q (dec_digits n @ ''g.'' @ dec_digits m @ ''gb'') =
    Some \<lparr> pr_Name = dec_digits n @ ''g.'' @ dec_digits m @ ''gb'',
           pr_Memory = q_NewQuantity Q (int m * gibibyte) BinarySI, pr_Slices = int n \<rparr>"
proof -
  have "int m * gibibyte < 2 ^ 33 * gibibyte"
    using assms(4) by (intro mult_strict_right_mono) (simp_all add: gibibyte_def)
  then have "int64_range (int m * gibibyte)" by (simp add: int64_range_def gibibyte_def)
  then show ?thesis
    unfolding ParseProfileName_digits [OF dec_digits_not_Nil dec_digits_not_Nil dec_digits_digits dec_digits_digits]
    using assms by simp
qed

theorem ParseProfileName_roundtrip_witness:
  "ParseProfileName int_quantity (dec_digits 3 @ ''g.'' @ dec_digits 40 @ ''gb'') =
    Some \<lparr> pr_Name = dec_digits 3 @ ''g.'' @ dec_digits 40 @ ''gb'',
           pr_Memory = q_NewQuantity int_quantity (int 40 * gibibyte) BinarySI, pr_Slices = int 3 \<rparr>"
  by (rule ParseProfileName_roundtrip) simp_all

text \<open>
  The memory of a profile name is multiplied out in int64 without a range check, unlike its slice
  count: \<open>1g.17179869184gb\<close> (\<open>2 ^ 34\<close> GiB) is accepted as a profile with no memory at all.
\<close>

theorem ParseProfileName_memory_wraps:
  "ParseProfileName Q ''1g.17179869184gb'' =
    Some \<lparr> pr_Name = ''1g.17179869184gb'', pr_Memory = q_NewQuantity Q 0 BinarySI, pr_Slices = 1 \<rparr>"
proof -
  have "''1g.17179869184gb'' = ''1'' @ ''g.'' @ ''17179869184'' @ ''gb''" by simp
  moreover have "list_all is_digit ''1''" "list_all is_digit ''17179869184''"
    by (simp_all add: is_digit_def byte_def)
  moreover have "digits_val ''1'' = 1" "digits_val ''17179869184'' = 17179869184"
    by (simp_all add: digits_val_def digit_val_def byte_def)
  moreover have "wrap64 (17179869184 * gibibyte) = 0" by (simp add: wrap64_def gibibyte_def)
  ultimately show ?thesis using ParseProfileName_digits [of "''1''" "''17179869184''" Q] by simp
qed

text \<open>
  Which built-in table a product gets, as a decision table over the normalised product string: an
  A100 with 40gb in its name the 40 GB table, any other A100 the 80 GB one, an H100 the H100 one, and
  everything else none.
\<close>

theorem ProfilesFor_spec:
  "ProfilesFor Q s =
    (if Contains (normalize s) familyA100
     then (if Contains (normalize s) capacity40 then fmlookup (builtInTables Q) tableA10040
           else fmlookup (builtInTables Q) tableA10080)
     else if Contains (normalize s) familyH100 then fmlookup (builtInTables Q) tableH10080
     else None)"
proof -
  have "\<not> Contains [] familyA100" "\<not> Contains [] familyH100"
    by (simp_all add: familyA100_def familyH100_def)
  moreover have "map_option Table_DeepCopy x = x" for x :: "'a Table option"
    by (cases x) simp_all
  ultimately show ?thesis by (simp add: ProfilesFor_def productMatchers_def Let_def)
qed

text \<open>
  Matching is by containment after the separators are dropped, so a product whose model number merely
  starts like a known one is taken for it: an RTX A1000, which has no MIG, gets the table of the 80 GB A100.
\<close>

theorem ProfilesFor_RTX_A1000:
  "ProfilesFor Q ''NVIDIA-RTX-A1000'' = fmlookup (builtInTables Q) tableA10080
   \<and> fmlookup (builtInTables Q) tableA10080 \<noteq> None"
proof -
  have "normalize ''NVIDIA-RTX-A1000'' = ''nvidiartxa1000''" by code_simp
  then show ?thesis
    by (simp add: ProfilesFor_spec familyA100_def capacity40_def HasPrefix_def builtInTables_def fmlookup_of_list)
qed

text \<open>
  A table of ghostgpu's own is consistent: its profiles have different names, each fits one card, the
  largest takes the whole card, and every profile's name, read by \<open>ParseProfileName\<close>, gives back its shape.
\<close>

theorem builtIn_consistent:
  assumes "quantity_laws Q amt" and "ProfilesFor Q s = Some t"
  shows "tableOK Q t \<and> whole_card amt t \<and> list_all (self_described Q amt) (tb_Profiles t)"
  using assms by (rule ProfilesFor_ok)

theorem builtIn_consistent_witness:
  "\<exists>t. ProfilesFor int_quantity ''NVIDIA-H100-SXM'' = Some t \<and> tableOK int_quantity t"
proof -
  have "normalize ''NVIDIA-H100-SXM'' = ''nvidiah100sxm''" by code_simp
  then obtain t where t: "ProfilesFor int_quantity ''NVIDIA-H100-SXM'' = Some t"
    by (simp add: ProfilesFor_def productMatchers_def Let_def familyA100_def familyH100_def HasPrefix_def builtIn_lookup)
  from builtIn_consistent [OF int_quantity_laws t] t show ?thesis by blast
qed

text \<open>
  C19: \<open>Resolve\<close> succeeds exactly on a usable table (not empty, no profile named twice, every profile within
  the budget in slices and in memory) and then returns the table the model describes; otherwise its error
  names something that is really wrong with that table.
\<close>

theorem Resolve_correct:
  "case Resolve Q m of
     Inr t \<Rightarrow> t = baseTable Q m \<and> tableOK Q t
   | Inl e \<Rightarrow> error_explained Q (model_Name m) (baseTable Q m) e \<and> \<not> tableOK Q (baseTable Q m)"
proof (cases "Resolve Q m")
  case (Inl e)
  then show ?thesis using Resolve_Inl [OF Inl] by simp
next
  case (Inr t)
  from Inr have "t = baseTable Q m \<and> tableOK Q t" by (rule Resolve_Inr_iff [THEN iffD1])
  with Inr show ?thesis by auto
qed

text \<open>
  A model of a known product that declares neither profiles nor a budget resolves exactly when its
  memory holds the largest profile of the built-in table. So an H100 with 94 GiB resolves, with its own 94
  GiB as the budget, and a card smaller than its family is reported instead of simulated.
\<close>

theorem Resolve_builtIn:
  assumes laws: "quantity_laws Q amt" and t: "ProfilesFor Q (ms_ProductName (model_Spec m)) = Some t"
    and "ms_MIGProfiles (model_Spec m) = []" "ms_MIGBudget (model_Spec m) = None"
  shows "Resolve Q m = Inr t' \<longleftrightarrow>
    amt (bd_Memory (tb_Budget t)) \<le> amt (ms_Memory (model_Spec m))
    \<and> t' = t\<lparr> tb_Budget := (tb_Budget t)\<lparr> bd_Memory := ms_Memory (model_Spec m) \<rparr> \<rparr>"
proof -
  let ?t = "t\<lparr> tb_Budget := (tb_Budget t)\<lparr> bd_Memory := ms_Memory (model_Spec m) \<rparr> \<rparr>"
  have base: "baseTable Q m = ?t"
    using assms by (simp add: baseTable_def Let_def)
  from ProfilesFor_ok [OF laws t] have ok: "tableOK Q t" and w: "whole_card amt t" by simp_all
  from ok have ne: "tb_Profiles t \<noteq> []" by (simp add: tableOK_def)
  then have last: "last (tb_Profiles t) \<in> set (tb_Profiles t)" by simp
  have "tableOK Q ?t \<longleftrightarrow> list_all (\<lambda>p. amt (pr_Memory p) \<le> amt (ms_Memory (model_Spec m))) (tb_Profiles t)"
    using ok by (auto simp: tableOK_def fits_budget_def list_all_iff quantity_laws_Cmp [OF laws] split: if_splits)
  also have "\<dots> \<longleftrightarrow> amt (bd_Memory (tb_Budget t)) \<le> amt (ms_Memory (model_Spec m))"
    using w last by (auto simp: whole_card_def Let_def list_all_iff)
  finally show ?thesis unfolding Resolve_Inr_iff base by auto
qed

theorem Resolve_builtIn_witness:
  "\<exists>t t'. Resolve int_quantity
      \<lparr> model_Name = ''h100-nvl'', model_Spec = \<lparr> ms_Vendor = ''nvidia'', ms_ProductName = ''NVIDIA-H100-NVL'',
        ms_Memory = 94 * 2 ^ 30, ms_ComputeCapability = ''9.0'', ms_MIGProfiles = [], ms_MIGBudget = None \<rparr> \<rparr>
    = Inr t' \<and> bd_Memory (tb_Budget t') = 94 * 2 ^ 30 \<and> ProfilesFor int_quantity ''NVIDIA-H100-NVL'' = Some t"
proof -
  let ?m = "\<lparr> model_Name = ''h100-nvl'', model_Spec = \<lparr> ms_Vendor = ''nvidia'', ms_ProductName = ''NVIDIA-H100-NVL'',
        ms_Memory = 94 * 2 ^ 30, ms_ComputeCapability = ''9.0'', ms_MIGProfiles = [], ms_MIGBudget = None \<rparr> \<rparr>"
  have "normalize ''NVIDIA-H100-NVL'' = ''nvidiah100nvl''" by code_simp
  then obtain t where t: "ProfilesFor int_quantity ''NVIDIA-H100-NVL'' = Some t" "bd_Memory (tb_Budget t) = 80 * 2 ^ 30"
    by (simp add: ProfilesFor_def productMatchers_def Let_def familyA100_def familyH100_def HasPrefix_def builtIn_lookup
        int_quantity_def TrimSuffix_def HasSuffix_def digits_val_def digit_val_def byte_def)
  have "Resolve int_quantity ?m = Inr (t\<lparr> tb_Budget := (tb_Budget t)\<lparr> bd_Memory := 94 * 2 ^ 30 \<rparr> \<rparr>)"
    using Resolve_builtIn [OF int_quantity_laws, of ?m t] t by simp
  with t show ?thesis by fastforce
qed

end
