(* ===== verification/Mig_Expand.thy ===== *)
theory Mig_Expand
  imports Mig_Profiles "HOL-Library.Multiset"
begin

text \<open>
  Package \<open>mig\<close>, from a profile table to the instances on a node: \<open>internal/mig/expand.go\<close> (dynamic MIG,
  one device per profile and card) and \<open>internal/mig/partition.go\<close> (static MIG, the declared layout, its
  validation and its instances).

  Both expansions satisfy the contract of the locale \<open>expansion\<close>, which is all that the publication of
  slices relies on: instances come card by card, each is carved from a card of the node, draws on that
  card's counter set, realises a profile of the table and is named after its card, no two share a device
  name, and no two of a card share both instance ID and profile. A validated
  partition fits every card in slices and in memory.

  \<open>make([]T, 0, n)\<close> panics on a negative capacity, so both expansions are partial: \<open>None\<close> is that panic.
\<close>

section \<open>expand.go\<close>

record 'q Instance =
  in_GPUIndex :: int
  in_DeviceName :: string
  in_CounterSet :: string
  in_InstanceID :: int
  in_Profile :: "'q Profile"

definition mig_DeviceName :: "int \<Rightarrow> string \<Rightarrow> string" where
  "mig_DeviceName gpuIndex prof = ''gpu-'' @ Itoa gpuIndex @ ''-'' @ ReplaceAll prof CHR ''.'' CHR ''-''"

definition CounterSetName :: "int \<Rightarrow> string" where
  "CounterSetName gpuIndex = ''gpu-'' @ Itoa gpuIndex"

definition InstanceID :: "int \<Rightarrow> string \<Rightarrow> int" where
  "InstanceID gpuIndex prof =
     (let s = foldl (\<lambda>acc r. wrap32 (wrap32 (acc * 31) + int r)) 0 (runes prof);
          s' = (if s < 0 then wrap32 (- s) else s)
      in s' smod 100)"

definition Expand :: "int \<Rightarrow> 'q Table \<Rightarrow> 'q Instance list option" where
  "Expand gpusPerNode table =
     (if wrap32 (gpusPerNode * wrap32 (int (length (tb_Profiles table)))) < 0 then None
      else Some (concat (map (\<lambda>gpu. map (\<lambda>p.
        \<lparr> in_GPUIndex = gpu,
          in_DeviceName = mig_DeviceName gpu (pr_Name p),
          in_CounterSet = CounterSetName gpu,
          in_InstanceID = InstanceID gpu (pr_Name p),
          in_Profile = \<lparr> pr_Name = pr_Name p, pr_Memory = pr_Memory p, pr_Slices = pr_Slices p \<rparr> \<rparr>)
        (tb_Profiles table)) (range_int gpusPerNode))))"

section \<open>partition.go\<close>

definition PartitionDeviceName :: "int \<Rightarrow> string \<Rightarrow> int \<Rightarrow> string" where
  "PartitionDeviceName gpuIndex prof ordinal = mig_DeviceName gpuIndex prof @ ''-'' @ Itoa ordinal"

text \<open>The map from names to profiles; a later profile of the same name replaces an earlier one.\<close>

definition byName :: "'q Profile list \<Rightarrow> (string, 'q Profile) fmap" where
  "byName ps = foldl (\<lambda>m p. fmupd (pr_Name p) p m) fmempty ps"

text \<open>The loop over the entries, with the slices and the memory used so far.\<close>

fun partition_loop ::
  "'q quantity_ops \<Rightarrow> 'q Table \<Rightarrow> int \<Rightarrow> 'q \<Rightarrow> MIGPartitionEntry list \<Rightarrow> 'q MigError + (int \<times> 'q)" where
  "partition_loop Q table usedSlices usedMemory [] = Inr (usedSlices, usedMemory)"
| "partition_loop Q table usedSlices usedMemory (e # es) =
     (case fmlookup (byName (tb_Profiles table)) (mpe_Profile e) of
        None \<Rightarrow> Inl (PartitionUnknownProfile (mpe_Profile e) (map pr_Name (tb_Profiles table)))
      | Some p \<Rightarrow>
          partition_loop Q table
            (wrap32 (usedSlices + wrap32 (pr_Slices p * mpe_Count e)))
            (((\<lambda>m. q_Add Q m (pr_Memory p)) ^^ nat (mpe_Count e)) usedMemory) es)"

definition ValidatePartition ::
  "'q quantity_ops \<Rightarrow> MIGPartitionEntry list \<Rightarrow> 'q Table \<Rightarrow> 'q MigError + unit" where
  "ValidatePartition Q entries table =
     (if entries = [] then Inr ()
      else (case partition_loop Q table 0 (q_NewQuantity Q 0 BinarySI) entries of
              Inl err \<Rightarrow> Inl err
            | Inr (usedSlices, usedMemory) \<Rightarrow>
                if usedSlices > bd_Slices (tb_Budget table)
                then Inl (PartitionSlices usedSlices (bd_Slices (tb_Budget table)))
                else if q_Cmp Q usedMemory (bd_Memory (tb_Budget table)) > 0
                then Inl (PartitionMemory usedMemory (bd_Memory (tb_Budget table)))
                else Inr ()))"

text \<open>The first loop of \<open>ExpandPartitioned\<close>: the number of instances per profile, and in all.\<close>

definition partition_counts :: "MIGPartitionEntry list \<Rightarrow> (string, int) fmap" where
  "partition_counts entries =
     foldl (\<lambda>counts e. fmupd (mpe_Profile e) (wrap32 (get_int counts (mpe_Profile e) + mpe_Count e)) counts)
           fmempty entries"

definition partition_total :: "MIGPartitionEntry list \<Rightarrow> int" where
  "partition_total entries = foldl (\<lambda>total e. wrap32 (total + mpe_Count e)) 0 entries"

text \<open>The two inner loops, which share the running instance ID of the card.\<close>

fun expand_ordinals :: "int \<Rightarrow> 'q Profile \<Rightarrow> int \<Rightarrow> int list \<Rightarrow> 'q Instance list \<times> int" where
  "expand_ordinals gpu p nextID [] = ([], nextID)"
| "expand_ordinals gpu p nextID (ordinal # ords) =
     (case expand_ordinals gpu p (wrap32 (nextID + 1)) ords of (is, next) \<Rightarrow>
        (\<lparr> in_GPUIndex = gpu,
           in_DeviceName = PartitionDeviceName gpu (pr_Name p) ordinal,
           in_CounterSet = CounterSetName gpu,
           in_InstanceID = nextID,
           in_Profile = \<lparr> pr_Name = pr_Name p, pr_Memory = pr_Memory p, pr_Slices = pr_Slices p \<rparr> \<rparr> # is, next))"

fun expand_profiles :: "int \<Rightarrow> (string, int) fmap \<Rightarrow> int \<Rightarrow> 'q Profile list \<Rightarrow> 'q Instance list" where
  "expand_profiles gpu counts nextID [] = []"
| "expand_profiles gpu counts nextID (p # ps) =
     (case expand_ordinals gpu p nextID (range_int (get_int counts (pr_Name p))) of (is, next) \<Rightarrow>
        is @ expand_profiles gpu counts next ps)"

definition ExpandPartitioned :: "int \<Rightarrow> 'q Table \<Rightarrow> MIGPartitionEntry list \<Rightarrow> 'q Instance list option" where
  "ExpandPartitioned gpusPerNode table entries =
     (let counts = partition_counts entries; total = partition_total entries in
      if wrap32 (gpusPerNode * total) < 0 then None
      else Some (concat (map (\<lambda>gpu. expand_profiles gpu counts 0 (tb_Profiles table)) (range_int gpusPerNode))))"

section \<open>The contract of an expansion\<close>

text \<open>Names that survive the replacement of the dot by a dash: what the CRD's pattern guarantees.\<close>

definition names_ok :: "'q Table \<Rightarrow> bool" where
  "names_ok t \<longleftrightarrow> distinct (map pr_Name (tb_Profiles t)) \<and> (\<forall>p \<in> set (tb_Profiles t). CHR ''-'' \<notin> set (pr_Name p))"

text \<open>An instance of a node with \<open>g\<close> cards and the profiles of \<open>t\<close>.\<close>

definition instance_ok :: "int \<Rightarrow> 'q Table \<Rightarrow> 'q Instance \<Rightarrow> bool" where
  "instance_ok g t i \<longleftrightarrow>
     0 \<le> in_GPUIndex i \<and> in_GPUIndex i < g \<and> in_CounterSet i = CounterSetName (in_GPUIndex i)
   \<and> in_Profile i \<in> set (tb_Profiles t) \<and> int32_range (in_InstanceID i)"

definition on_gpu :: "int \<Rightarrow> 'q Instance list \<Rightarrow> 'q Instance list" where
  "on_gpu g is = filter (\<lambda>i. in_GPUIndex i = g) is"

text \<open>Groups that follow their keys in order are in order.\<close>

lemma sorted_concat_groups:
  assumes "sorted xs" and "\<And>x i. x \<in> set xs \<Longrightarrow> i \<in> set (f x) \<Longrightarrow> k i = x"
  shows "sorted (map k (concat (map f xs)))"
  using assms
proof (induction xs)
  case (Cons x xs)
  have "map k (f x) = replicate (length (f x)) x"
    using Cons.prems by (intro replicate_eqI) auto
  moreover have "sorted (map k (concat (map f xs)))"
    using Cons.prems by (intro Cons.IH) auto
  moreover have "\<forall>j \<in> set (concat (map f xs)). x \<le> k j"
    using Cons.prems by fastforce
  ultimately show ?case by (auto simp: sorted_append)
qed simp

locale expansion =
  fixes expand :: "int \<Rightarrow> 'q Table \<Rightarrow> 'q Instance list option"
  assumes expand_instance: "expand g t = Some is \<Longrightarrow> i \<in> set is \<Longrightarrow> instance_ok g t i"
    and expand_names: "expand g t = Some is \<Longrightarrow> names_ok t \<Longrightarrow> distinct (map in_DeviceName is)"
    and expand_grouped: "expand g t = Some is \<Longrightarrow> is = concat (map (\<lambda>gpu. on_gpu gpu is) (range_int g))"
    and expand_prefix: "expand g t = Some is \<Longrightarrow> i \<in> set is \<Longrightarrow>
      \<exists>r. in_DeviceName i = ''gpu-'' @ Itoa (in_GPUIndex i) @ ''-'' @ r"
    and expand_ids: "expand g t = Some is \<Longrightarrow> names_ok t \<Longrightarrow> int (length (on_gpu gpu is)) < 2 ^ 31 \<Longrightarrow>
      distinct (map (\<lambda>i. (in_InstanceID i, pr_Name (in_Profile i))) (on_gpu gpu is))"
begin

lemma expand_distinct: "expand g t = Some is \<Longrightarrow> names_ok t \<Longrightarrow> distinct is"
  using expand_names distinct_map by blast

lemma expand_sorted: "expand g t = Some is \<Longrightarrow> sorted (map in_GPUIndex is)"
proof -
  assume e: "expand g t = Some is"
  have "sorted (map in_GPUIndex (concat (map (\<lambda>gpu. on_gpu gpu is) (range_int g))))"
    by (rule sorted_concat_groups) (auto simp: on_gpu_def)
  then show ?thesis unfolding expand_grouped [OF e, symmetric] .
qed

lemma expand_counter_set:
  "expand g t = Some is \<Longrightarrow> i \<in> set is \<Longrightarrow> in_CounterSet i \<in> CounterSetName ` {0..<g}"
  using expand_instance [of g t "is" i] by (auto simp: instance_ok_def)

end

section \<open>Lemmas: names\<close>

lemma CounterSetName_inject [simp]: "CounterSetName a = CounterSetName b \<longleftrightarrow> a = b"
  by (simp add: CounterSetName_def)

lemma mig_DeviceName_inject:
  assumes "0 \<le> g" "0 \<le> g'" "CHR ''-'' \<notin> set p" "CHR ''-'' \<notin> set p'"
  shows "mig_DeviceName g p = mig_DeviceName g' p' \<longleftrightarrow> g = g' \<and> p = p'"
  using assms by (simp add: mig_DeviceName_def append_sep_inject ReplaceAll_inject)

lemma PartitionDeviceName_inject:
  assumes "0 \<le> g" "0 \<le> g'" "CHR ''-'' \<notin> set p" "CHR ''-'' \<notin> set p'" "0 \<le> k" "0 \<le> k'"
  shows "PartitionDeviceName g p k = PartitionDeviceName g' p' k' \<longleftrightarrow> g = g' \<and> p = p' \<and> k = k'"
proof -
  have "PartitionDeviceName g p k = PartitionDeviceName g' p' k'
      \<longleftrightarrow> mig_DeviceName g p = mig_DeviceName g' p' \<and> Itoa k = Itoa k'"
    using assms by (simp add: PartitionDeviceName_def append_sep_inject_last)
  then show ?thesis using assms by (simp add: mig_DeviceName_inject)
qed

section \<open>Lemmas: dynamic expansion\<close>

lemma profile_copy [simp]: "\<lparr> pr_Name = pr_Name p, pr_Memory = pr_Memory p, pr_Slices = pr_Slices p \<rparr> = p"
  by simp

text \<open>The instance that dynamic expansion makes of one profile on one card.\<close>

definition dynamic_instance :: "int \<Rightarrow> 'q Profile \<Rightarrow> 'q Instance" where
  "dynamic_instance gpu p =
     \<lparr> in_GPUIndex = gpu, in_DeviceName = mig_DeviceName gpu (pr_Name p), in_CounterSet = CounterSetName gpu,
       in_InstanceID = InstanceID gpu (pr_Name p), in_Profile = p \<rparr>"

lemma dynamic_instance_simps [simp]:
  "in_GPUIndex (dynamic_instance gpu p) = gpu"
  "in_DeviceName (dynamic_instance gpu p) = mig_DeviceName gpu (pr_Name p)"
  "in_CounterSet (dynamic_instance gpu p) = CounterSetName gpu"
  "in_InstanceID (dynamic_instance gpu p) = InstanceID gpu (pr_Name p)"
  "in_Profile (dynamic_instance gpu p) = p"
  by (simp_all add: dynamic_instance_def)

lemma Expand_eq:
  "Expand g t =
     (if wrap32 (g * wrap32 (int (length (tb_Profiles t)))) < 0 then None
      else Some (concat (map (\<lambda>gpu. map (dynamic_instance gpu) (tb_Profiles t)) (range_int g))))"
  by (simp add: Expand_def dynamic_instance_def [abs_def])

lemma Expand_Some:
  "Expand g t = Some is \<Longrightarrow> is = concat (map (\<lambda>gpu. map (dynamic_instance gpu) (tb_Profiles t)) (range_int g))"
  by (simp add: Expand_eq split: if_splits)

lemma Expand_total:
  assumes "0 \<le> g" "g * int (length (tb_Profiles t)) < 2 ^ 31"
  shows "Expand g t = Some (concat (map (\<lambda>gpu. map (dynamic_instance gpu) (tb_Profiles t)) (range_int g)))"
proof (cases "g = 0")
  case True
  then show ?thesis by (simp add: Expand_eq wrap32_def)
next
  case False
  with assms have "int (length (tb_Profiles t)) \<le> g * int (length (tb_Profiles t))" by (simp add: mult_le_cancel_right1)
  with assms have "int32_range (int (length (tb_Profiles t)))" by (simp add: int32_range_def)
  moreover have nn: "0 \<le> g * int (length (tb_Profiles t))"
    using assms(1) by (intro mult_nonneg_nonneg) simp_all
  moreover from nn assms(2) have "int32_range (g * int (length (tb_Profiles t)))"
    unfolding int32_range_def by linarith
  ultimately show ?thesis by (simp add: Expand_eq not_less)
qed

text \<open>Picking one group out of a list that is made group by group.\<close>

lemma filter_concat_groups:
  assumes "\<And>x i. i \<in> set (f x) \<Longrightarrow> k i = x" "distinct xs" "x \<in> set xs"
  shows "filter (\<lambda>i. k i = x) (concat (map f xs)) = f x"
  using assms(2,3)
proof (induction xs)
  case (Cons y ys)
  have other: "filter (\<lambda>i. k i = x) (f z) = []" if "z \<noteq> x" for z
    using assms(1) [of _ z] that by (auto simp: filter_empty_conv)
  have own: "filter (\<lambda>i. k i = x) (f x) = f x"
    using assms(1) by (simp add: filter_id_conv)
  have none: "filter (\<lambda>i. k i = x) (concat (map f ys)) = []" if "x \<notin> set ys"
    using assms(1) that by (auto simp: filter_empty_conv)
  show ?case using Cons none other own by (cases "x = y") auto
qed simp

lemma on_gpu_groups:
  assumes "\<And>gpu i. i \<in> set (f gpu) \<Longrightarrow> in_GPUIndex i = gpu"
  shows "on_gpu x (concat (map f (range_int g))) = (if 0 \<le> x \<and> x < g then f x else [])"
proof (cases "0 \<le> x \<and> x < g")
  case True
  then show ?thesis using filter_concat_groups [of f in_GPUIndex "range_int g" x] assms by (simp add: on_gpu_def)
next
  case False
  then show ?thesis using assms by (auto simp: on_gpu_def filter_empty_conv)
qed

lemma concat_groups:
  assumes "\<And>gpu i. i \<in> set (f gpu) \<Longrightarrow> in_GPUIndex i = gpu"
  shows "concat (map (\<lambda>gpu. on_gpu gpu (concat (map f (range_int g)))) (range_int g)) = concat (map f (range_int g))"
  by (intro arg_cong [of _ _ concat] map_cong refl) (simp add: on_gpu_groups [of f, OF assms])

lemma distinct_groups:
  assumes "\<And>gpu. 0 \<le> gpu \<Longrightarrow> distinct (map n (f gpu))"
    and "\<And>gpu gpu' i j. 0 \<le> gpu \<Longrightarrow> 0 \<le> gpu' \<Longrightarrow> i \<in> set (f gpu) \<Longrightarrow> j \<in> set (f gpu') \<Longrightarrow> n i = n j \<Longrightarrow> gpu = gpu'"
  shows "distinct (map n (concat (map f (range_int g))))"
proof -
  have "distinct (concat (map (\<lambda>gpu. map n (f gpu)) (range_int g)))"
  proof (rule distinct_concat_map)
    fix x y assume "x \<in> set (range_int g)" "y \<in> set (range_int g)" "x \<noteq> y"
    then show "set (map n (f x)) \<inter> set (map n (f y)) = {}"
      using assms(2) [of x y] by auto
  qed (simp_all add: assms(1))
  then show ?thesis by (simp add: map_concat o_def)
qed

lemma InstanceID_int32: "int32_range (InstanceID gpu s)"
proof -
  have "\<bar>x smod 100\<bar> < 100" for x :: int by (simp add: signed_modulo_int_def abs_mult sgn_if)
  then have "\<bar>InstanceID gpu s\<bar> < 100" by (simp add: InstanceID_def Let_def)
  then show ?thesis by (auto simp: int32_range_def abs_less_iff)
qed

interpretation dynamic: expansion Expand
proof
  fix g :: int and t :: "'a Table" and "is" i
  assume e: "Expand g t = Some is"
  note is_eq = Expand_Some [OF e]
  show "instance_ok g t i" if "i \<in> set is"
    using that InstanceID_int32 unfolding is_eq by (auto simp: instance_ok_def)
  show "distinct (map in_DeviceName is)" if names: "names_ok t"
    unfolding is_eq
  proof (rule distinct_groups)
    fix gpu :: int assume "0 \<le> gpu"
    then have "inj_on (\<lambda>p. mig_DeviceName gpu (pr_Name p)) (set (tb_Profiles t))"
      using names by (intro inj_onI) (auto simp: names_ok_def mig_DeviceName_inject distinct_map dest: inj_onD)
    then show "distinct (map in_DeviceName (map (dynamic_instance gpu) (tb_Profiles t)))"
      using names by (simp add: o_def distinct_map names_ok_def)
  qed (use names in \<open>auto simp: names_ok_def mig_DeviceName_inject\<close>)
  show "is = concat (map (\<lambda>gpu. on_gpu gpu is) (range_int g))"
    unfolding is_eq by (rule concat_groups [symmetric]) auto
  show "\<exists>r. in_DeviceName i = ''gpu-'' @ Itoa (in_GPUIndex i) @ ''-'' @ r" if "i \<in> set is"
    using that unfolding is_eq by (auto simp: mig_DeviceName_def)
  show "distinct (map (\<lambda>i. (in_InstanceID i, pr_Name (in_Profile i))) (on_gpu gpu is))" if "names_ok t" for gpu
  proof -
    have "on_gpu gpu is = (if 0 \<le> gpu \<and> gpu < g then map (dynamic_instance gpu) (tb_Profiles t) else [])"
      unfolding is_eq by (rule on_gpu_groups) auto
    moreover have "distinct (map (\<lambda>p. (InstanceID gpu (pr_Name p), pr_Name p)) (tb_Profiles t))"
      using that by (auto simp: names_ok_def distinct_map inj_on_def)
    ultimately show ?thesis by (simp add: o_def)
  qed
qed

section \<open>Lemmas: the declared partition\<close>

text \<open>What a partition declares: the number of instances of a profile, and the total of a measure over all
  declared instances.\<close>

definition declared :: "MIGPartitionEntry list \<Rightarrow> string \<Rightarrow> int" where
  "declared es k = (\<Sum>e\<leftarrow>es. if mpe_Profile e = k then mpe_Count e else 0)"

definition profile_named :: "'q Table \<Rightarrow> string \<Rightarrow> 'q Profile" where
  "profile_named t k = the (fmlookup (byName (tb_Profiles t)) k)"

definition declared_total :: "'q Table \<Rightarrow> ('q Profile \<Rightarrow> 'a::comm_ring_1) \<Rightarrow> MIGPartitionEntry list \<Rightarrow> 'a" where
  "declared_total t f es = (\<Sum>e\<leftarrow>es. of_int (mpe_Count e) * f (profile_named t (mpe_Profile e)))"

text \<open>Counts as the schema bounds them: their sum stays within an int32.\<close>

definition counts_ok :: "MIGPartitionEntry list \<Rightarrow> bool" where
  "counts_ok es \<longleftrightarrow> (\<forall>e \<in> set es. 1 \<le> mpe_Count e \<and> mpe_Count e \<le> 8) \<and> length es < 2 ^ 24"

lemma byName_snoc: "byName (ps @ [p]) = fmupd (pr_Name p) p (byName ps)"
  by (simp add: byName_def)

lemma byName_None: "fmlookup (byName ps) k = None \<longleftrightarrow> k \<notin> pr_Name ` set ps"
  by (induction ps rule: rev_induct) (auto simp: byName_snoc, simp add: byName_def)

lemma byName_Some: "fmlookup (byName ps) k = Some p \<Longrightarrow> p \<in> set ps \<and> pr_Name p = k"
  by (induction ps rule: rev_induct) (auto simp: byName_snoc split: if_splits, simp_all add: byName_def)

lemma byName_distinct:
  "distinct (map pr_Name ps) \<Longrightarrow> p \<in> set ps \<Longrightarrow> fmlookup (byName ps) (pr_Name p) = Some p"
  by (induction ps rule: rev_induct) (auto simp: byName_snoc)

lemma partition_counts_snoc:
  "partition_counts (es @ [e]) =
     fmupd (mpe_Profile e) (wrap32 (get_int (partition_counts es) (mpe_Profile e) + mpe_Count e)) (partition_counts es)"
  by (simp add: partition_counts_def)

lemma get_partition_counts: "get_int (partition_counts es) k = wrap32 (declared es k)"
proof (induction es rule: rev_induct)
  case Nil
  then show ?case by (simp add: partition_counts_def declared_def wrap32_def)
next
  case (snoc e es)
  then show ?case by (simp add: partition_counts_snoc declared_def)
qed

lemma partition_total_eq: "partition_total es = wrap32 (\<Sum>e\<leftarrow>es. mpe_Count e)"
proof (induction es rule: rev_induct)
  case Nil
  then show ?case by (simp add: partition_total_def wrap32_def)
next
  case (snoc e es)
  then show ?case by (simp add: partition_total_def)
qed

lemma sum_list_bounds:
  fixes f :: "'a \<Rightarrow> int"
  assumes "\<And>x. x \<in> set xs \<Longrightarrow> 0 \<le> f x" "\<And>x. x \<in> set xs \<Longrightarrow> f x \<le> c"
  shows "0 \<le> sum_list (map f xs)" "sum_list (map f xs) \<le> c * int (length xs)"
proof -
  show "0 \<le> sum_list (map f xs)" using assms(1) by (intro sum_list_nonneg) auto
  show "sum_list (map f xs) \<le> c * int (length xs)"
    using assms(2) by (induction xs) (fastforce simp: algebra_simps)+
qed

lemma declared_range:
  assumes "counts_ok es"
  shows "0 \<le> declared es k" "declared es k \<le> 2 ^ 27"
proof -
  have f: "0 \<le> (if mpe_Profile e = k then mpe_Count e else 0) \<and> (if mpe_Profile e = k then mpe_Count e else 0) \<le> 8"
    if "e \<in> set es" for e using assms that by (auto simp: counts_ok_def)
  have "declared es k \<le> 8 * int (length es)" unfolding declared_def using f by (intro sum_list_bounds) auto
  then show "declared es k \<le> 2 ^ 27" using assms by (simp add: counts_ok_def)
  show "0 \<le> declared es k" unfolding declared_def using f by (intro sum_list_bounds [where c = 8]) auto
qed

lemma total_range:
  assumes "counts_ok es"
  shows "0 \<le> (\<Sum>e\<leftarrow>es. mpe_Count e)" "(\<Sum>e\<leftarrow>es. mpe_Count e) \<le> 2 ^ 27"
proof -
  have "(\<Sum>e\<leftarrow>es. mpe_Count e) \<le> 8 * int (length es)"
    using assms by (intro sum_list_bounds) (auto simp: counts_ok_def)
  then show "(\<Sum>e\<leftarrow>es. mpe_Count e) \<le> 2 ^ 27" using assms by (simp add: counts_ok_def)
  show "0 \<le> (\<Sum>e\<leftarrow>es. mpe_Count e)"
    using assms by (intro sum_list_bounds [where c = 8]) (auto simp: counts_ok_def)
qed

lemma get_partition_counts_ok: "counts_ok es \<Longrightarrow> get_int (partition_counts es) k = declared es k"
  using declared_range [of es k] by (simp add: get_partition_counts int32_range_def)

text \<open>The instances of one card, field by field.\<close>

lemma expand_ordinals_fields:
  shows "map in_Profile (fst (expand_ordinals gpu p n os)) = replicate (length os) p"
    and "map in_DeviceName (fst (expand_ordinals gpu p n os)) = map (PartitionDeviceName gpu (pr_Name p)) os"
    and "i \<in> set (fst (expand_ordinals gpu p n os)) \<Longrightarrow> in_GPUIndex i = gpu \<and> in_CounterSet i = CounterSetName gpu"
  by (induction os arbitrary: n) (auto simp: case_prod_beta)

lemma expand_ordinals_length [simp]: "length (fst (expand_ordinals gpu p n os)) = length os"
  by (induction os arbitrary: n) (auto simp: case_prod_beta)

lemma expand_ordinals_ids:
  "int32_range n \<Longrightarrow>
     map in_InstanceID (fst (expand_ordinals gpu p n os)) = map (\<lambda>k. wrap32 (n + int k)) [0..<length os]
     \<and> snd (expand_ordinals gpu p n os) = wrap32 (n + int (length os))"
proof (induction os arbitrary: n)
  case (Cons x os)
  have "map (\<lambda>k. wrap32 (n + int k)) [0..<length (x # os)] =
      n # map (\<lambda>k. wrap32 (wrap32 (n + 1) + int k)) [0..<length os]"
    using Cons.prems by (simp add: upt_conv_Cons map_Suc_upt [symmetric] o_def add.assoc del: upt_Suc)
  then show ?case using Cons.IH [of "wrap32 (n + 1)"]
    by (simp add: add.assoc case_prod_beta del: upt_Suc)
qed simp

lemma expand_profiles_Cons:
  "expand_profiles gpu counts n (p # ps) =
     fst (expand_ordinals gpu p n (range_int (get_int counts (pr_Name p))))
     @ expand_profiles gpu counts (snd (expand_ordinals gpu p n (range_int (get_int counts (pr_Name p))))) ps"
  by (simp add: case_prod_beta)

declare expand_profiles.simps(2) [simp del]

lemma expand_profiles_fields:
  shows "map in_Profile (expand_profiles gpu counts n ps) =
      concat (map (\<lambda>p. replicate (nat (get_int counts (pr_Name p))) p) ps)"
    and "map in_DeviceName (expand_profiles gpu counts n ps) =
      concat (map (\<lambda>p. map (PartitionDeviceName gpu (pr_Name p)) (range_int (get_int counts (pr_Name p)))) ps)"
    and "i \<in> set (expand_profiles gpu counts n ps) \<Longrightarrow> in_GPUIndex i = gpu \<and> in_CounterSet i = CounterSetName gpu"
  by (induction ps arbitrary: n) (auto simp: expand_profiles_Cons expand_ordinals_fields)

lemma expand_profiles_ids:
  "int32_range n \<Longrightarrow> map in_InstanceID (expand_profiles gpu counts n ps) =
     map (\<lambda>k. wrap32 (n + int k)) [0..<length (expand_profiles gpu counts n ps)]"
proof (induction ps arbitrary: n)
  case (Cons p ps)
  obtain os where os: "os = range_int (get_int counts (pr_Name p))" by simp
  let ?a = "expand_ordinals gpu p n os"
  let ?r = "expand_profiles gpu counts (snd ?a) ps"
  have ids: "map in_InstanceID (fst ?a) = map (\<lambda>k. wrap32 (n + int k)) [0..<length os]"
    and snd: "snd ?a = wrap32 (n + int (length os))"
    using expand_ordinals_ids [OF Cons.prems, of gpu p os] by blast+
  have "map in_InstanceID ?r = map (\<lambda>k. wrap32 (n + int (length os + k))) [0..<length ?r]"
    using Cons.IH [of "snd ?a"] unfolding snd by (simp add: add.assoc)
  also have "\<dots> = map (\<lambda>k. wrap32 (n + int k)) [length os..<length os + length ?r]"
    by (rule nth_equalityI) simp_all
  finally show ?case using ids
    unfolding expand_profiles_Cons os [symmetric] by (simp add: upt_add_eq_append [of 0 "length os" "length ?r"])
qed simp

lemma ExpandPartitioned_Some:
  "ExpandPartitioned g t es = Some is \<Longrightarrow>
     is = concat (map (\<lambda>gpu. expand_profiles gpu (partition_counts es) 0 (tb_Profiles t)) (range_int g))"
  by (simp add: ExpandPartitioned_def Let_def split: if_splits)

lemma ExpandPartitioned_total:
  assumes "0 \<le> g" "counts_ok es" "g * (\<Sum>e\<leftarrow>es. mpe_Count e) < 2 ^ 31"
  shows "ExpandPartitioned g t es =
    Some (concat (map (\<lambda>gpu. expand_profiles gpu (partition_counts es) 0 (tb_Profiles t)) (range_int g)))"
proof -
  let ?n = "\<Sum>e\<leftarrow>es. mpe_Count e"
  note total = total_range [OF assms(2)]
  have "int32_range ?n" unfolding int32_range_def using total by simp
  moreover have nn: "0 \<le> g * ?n" using assms total by (intro mult_nonneg_nonneg) simp_all
  moreover have "int32_range (g * ?n)" unfolding int32_range_def using nn assms(3) by linarith
  ultimately show ?thesis by (simp add: ExpandPartitioned_def partition_total_eq not_less)
qed

lemma on_gpu_ExpandPartitioned:
  assumes "ExpandPartitioned g t es = Some is"
  shows "on_gpu x is = (if 0 \<le> x \<and> x < g then expand_profiles x (partition_counts es) 0 (tb_Profiles t) else [])"
  unfolding ExpandPartitioned_Some [OF assms] by (rule on_gpu_groups) (simp add: expand_profiles_fields)

lemma static_IDs:
  assumes "ExpandPartitioned g t es = Some is" "int (length (on_gpu gpu is)) < 2 ^ 31"
  shows "map in_InstanceID (on_gpu gpu is) = map int [0..<length (on_gpu gpu is)]"
proof -
  have "map in_InstanceID (on_gpu gpu is) = map (\<lambda>k. wrap32 (int k)) [0..<length (on_gpu gpu is)]"
    using expand_profiles_ids [of 0 gpu "partition_counts es" "tb_Profiles t"]
    by (simp add: on_gpu_ExpandPartitioned [OF assms(1)] int32_range_def)
  also have "\<dots> = map int [0..<length (on_gpu gpu is)]"
    using assms(2) by (intro map_cong refl wrap32_id) (simp add: int32_range_def)
  finally show ?thesis .
qed

text \<open>What \<open>expansion\<close> asks of the instances of one card.\<close>

lemma partition_instance_ok:
  assumes gpu: "0 \<le> gpu" "gpu < g" and i: "i \<in> set (expand_profiles gpu (partition_counts es) 0 (tb_Profiles t))"
  shows "instance_ok g t i"
proof -
  have "in_Profile i \<in> set (map in_Profile (expand_profiles gpu (partition_counts es) 0 (tb_Profiles t)))"
    and "in_InstanceID i \<in> set (map in_InstanceID (expand_profiles gpu (partition_counts es) 0 (tb_Profiles t)))"
    using i by simp_all
  then have "in_Profile i \<in> set (tb_Profiles t)" "int32_range (in_InstanceID i)"
    unfolding expand_profiles_fields(1) expand_profiles_ids [of 0 gpu "partition_counts es" "tb_Profiles t", simplified int32_range_def, simplified]
    by auto
  then show ?thesis using gpu expand_profiles_fields(3) [OF i] by (simp add: instance_ok_def)
qed

lemma partition_device_name:
  assumes "i \<in> set (expand_profiles gpu (partition_counts es) 0 ps)"
  obtains p k where "p \<in> set ps" "in_DeviceName i = PartitionDeviceName gpu (pr_Name p) k" "0 \<le> k"
proof -
  have "in_DeviceName i \<in> set (map in_DeviceName (expand_profiles gpu (partition_counts es) 0 ps))" using assms by simp
  then show thesis unfolding expand_profiles_fields(2) using that by auto
qed

lemma partition_names_distinct:
  assumes names: "names_ok t" and gpu: "0 \<le> gpu"
  shows "distinct (map in_DeviceName (expand_profiles gpu (partition_counts es) 0 (tb_Profiles t)))"
  unfolding expand_profiles_fields(2)
proof (rule distinct_concat_map)
  let ?n = "\<lambda>p. map (PartitionDeviceName gpu (pr_Name p)) (range_int (get_int (partition_counts es) (pr_Name p)))"
  have nm: "CHR ''-'' \<notin> set (pr_Name p)" if "p \<in> set (tb_Profiles t)" for p using names that by (simp add: names_ok_def)
  show "distinct (tb_Profiles t)" using names by (simp add: names_ok_def distinct_map)
  show "distinct (?n p)" if "p \<in> set (tb_Profiles t)" for p
    using gpu nm that by (auto simp: distinct_map inj_on_def PartitionDeviceName_inject)
  show "set (?n p) \<inter> set (?n p') = {}" if "p \<in> set (tb_Profiles t)" "p' \<in> set (tb_Profiles t)" "p \<noteq> p'" for p p'
  proof -
    have "pr_Name p \<noteq> pr_Name p'" using names that by (auto simp: names_ok_def distinct_map dest: inj_onD)
    then show ?thesis using gpu nm that by (auto simp: PartitionDeviceName_inject)
  qed
qed

interpretation static: expansion "\<lambda>g t. ExpandPartitioned g t es" for es
proof
  fix g :: int and t :: "'a Table" and "is" i
  assume e: "ExpandPartitioned g t es = Some is"
  note is_eq = ExpandPartitioned_Some [OF e]
  show "instance_ok g t i" if "i \<in> set is" using that unfolding is_eq by (auto intro: partition_instance_ok)
  show "distinct (map in_DeviceName is)" if names: "names_ok t"
    unfolding is_eq
  proof (rule distinct_groups)
    have nm: "CHR ''-'' \<notin> set (pr_Name p)" if "p \<in> set (tb_Profiles t)" for p using names that by (simp add: names_ok_def)
    fix gpu gpu' :: int and i j assume gpu: "0 \<le> gpu" and gpu': "0 \<le> gpu'"
    assume i: "i \<in> set (expand_profiles gpu (partition_counts es) 0 (tb_Profiles t))"
      and j: "j \<in> set (expand_profiles gpu' (partition_counts es) 0 (tb_Profiles t))"
    from i obtain p k where p: "p \<in> set (tb_Profiles t)" "in_DeviceName i = PartitionDeviceName gpu (pr_Name p) k" "0 \<le> k"
      by (rule partition_device_name)
    from j obtain p' k' where p': "p' \<in> set (tb_Profiles t)" "in_DeviceName j = PartitionDeviceName gpu' (pr_Name p') k'" "0 \<le> k'"
      by (rule partition_device_name)
    show "in_DeviceName i = in_DeviceName j \<Longrightarrow> gpu = gpu'"
      using nm [OF p(1)] nm [OF p'(1)] gpu gpu' p(2,3) p'(2,3) by (simp add: PartitionDeviceName_inject)
  qed (rule partition_names_distinct [OF names])
  show "is = concat (map (\<lambda>gpu. on_gpu gpu is) (range_int g))"
    unfolding is_eq by (rule concat_groups [symmetric]) (simp add: expand_profiles_fields)
  show "\<exists>r. in_DeviceName i = ''gpu-'' @ Itoa (in_GPUIndex i) @ ''-'' @ r" if i: "i \<in> set is"
  proof -
    from i obtain gpu where i': "i \<in> set (expand_profiles gpu (partition_counts es) 0 (tb_Profiles t))" unfolding is_eq by auto
    from partition_device_name [OF i'] expand_profiles_fields(3) [OF i'] show ?thesis
      by (metis PartitionDeviceName_def mig_DeviceName_def append_assoc)
  qed
  show "distinct (map (\<lambda>i. (in_InstanceID i, pr_Name (in_Profile i))) (on_gpu gpu is))"
    if "int (length (on_gpu gpu is)) < 2 ^ 31" for gpu
  proof -
    have "distinct (map in_InstanceID (on_gpu gpu is))" unfolding static_IDs [OF e that] by (simp add: distinct_map)
    then show ?thesis by (auto simp: distinct_map inj_on_def)
  qed
qed

section \<open>Lemmas: what a partition adds up to\<close>

definition known_profiles :: "'q Table \<Rightarrow> MIGPartitionEntry list \<Rightarrow> bool" where
  "known_profiles t es \<longleftrightarrow> (\<forall>e \<in> set es. mpe_Profile e \<in> pr_Name ` set (tb_Profiles t))"

definition slices_ok :: "'q Table \<Rightarrow> bool" where
  "slices_ok t \<longleftrightarrow> (\<forall>p \<in> set (tb_Profiles t). 1 \<le> pr_Slices p \<and> pr_Slices p \<le> 8)"

text \<open>The specification of \<open>ValidatePartition\<close>: every declared instance exists, and one card holds them all.\<close>

definition partition_fits :: "('q \<Rightarrow> rat) \<Rightarrow> 'q Table \<Rightarrow> MIGPartitionEntry list \<Rightarrow> bool" where
  "partition_fits amt t es \<longleftrightarrow>
     known_profiles t es
   \<and> declared_total t pr_Slices es \<le> bd_Slices (tb_Budget t)
   \<and> declared_total t (\<lambda>p. amt (pr_Memory p)) es \<le> amt (bd_Memory (tb_Budget t))"

lemma profile_named_in:
  "k \<in> pr_Name ` set (tb_Profiles t) \<Longrightarrow>
     fmlookup (byName (tb_Profiles t)) k = Some (profile_named t k) \<and> profile_named t k \<in> set (tb_Profiles t)"
  using byName_None [of "tb_Profiles t" k] byName_Some [of "tb_Profiles t" k]
  by (cases "fmlookup (byName (tb_Profiles t)) k") (auto simp: profile_named_def)

lemma sum_pick:
  assumes "distinct (map pr_Name ps)" "k \<in> pr_Name ` set ps"
  shows "(\<Sum>p\<leftarrow>ps. if k = pr_Name p then h p else 0) = (h (the (fmlookup (byName ps) k)) :: 'a::comm_ring_1)"
  using assms
proof (induction ps rule: rev_induct)
  case (snoc p ps)
  show ?case
  proof (cases "k = pr_Name p")
    case True
    then have "(\<Sum>p\<leftarrow>ps. if k = pr_Name p then h p else 0) = (\<Sum>p\<leftarrow>ps. 0)"
      using snoc.prems by (intro arg_cong [of _ _ sum_list] map_cong) auto
    with True show ?thesis by (simp add: byName_snoc)
  next
    case False
    with snoc show ?thesis by (simp add: byName_snoc)
  qed
qed simp

lemma sum_declared:
  assumes "distinct (map pr_Name (tb_Profiles t))" "known_profiles t es"
  shows "(\<Sum>p\<leftarrow>tb_Profiles t. of_int (declared es (pr_Name p)) * f p) = declared_total t f es"
  using assms(2)
proof (induction es)
  case (Cons e es)
  have "(\<Sum>p\<leftarrow>tb_Profiles t. of_int (declared (e # es) (pr_Name p)) * f p)
      = (\<Sum>p\<leftarrow>tb_Profiles t. (if mpe_Profile e = pr_Name p then of_int (mpe_Count e) * f p else 0)
          + of_int (declared es (pr_Name p)) * f p)"
    by (intro arg_cong [of _ _ sum_list] map_cong) (simp_all add: declared_def distrib_right)
  also have "\<dots> = of_int (mpe_Count e) * f (profile_named t (mpe_Profile e)) + declared_total t f es"
    using Cons assms(1)
    by (simp add: sum_list_addf sum_pick [of _ _ "\<lambda>p. of_int (mpe_Count e) * f p"] known_profiles_def profile_named_def)
  finally show ?case by (simp add: declared_total_def)
qed (simp add: declared_def declared_total_def)

lemma sum_list_concat_replicate:
  "sum_list (map f (concat (map (\<lambda>p. replicate (n p) p) ps))) = (\<Sum>p\<leftarrow>ps. of_nat (n p) * (f p :: 'a::comm_ring_1))"
  by (induction ps) (simp_all add: sum_list_replicate)

text \<open>Whatever is measured, the instances of one card add up to what the partition declares.\<close>

lemma sum_expand_profiles:
  assumes "distinct (map pr_Name (tb_Profiles t))" "known_profiles t es" "counts_ok es"
  shows "(\<Sum>i\<leftarrow>expand_profiles gpu (partition_counts es) n (tb_Profiles t). f (in_Profile i)) = declared_total t f es"
proof -
  have "(\<Sum>i\<leftarrow>expand_profiles gpu (partition_counts es) n (tb_Profiles t). f (in_Profile i))
      = sum_list (map f (map in_Profile (expand_profiles gpu (partition_counts es) n (tb_Profiles t))))"
    by (simp add: o_def)
  also have "\<dots> = (\<Sum>p\<leftarrow>tb_Profiles t. of_int (declared es (pr_Name p)) * f p)"
    unfolding expand_profiles_fields sum_list_concat_replicate
    using declared_range(1) [OF assms(3)] by (simp add: get_partition_counts_ok [OF assms(3)])
  finally show ?thesis using sum_declared [OF assms(1,2)] by simp
qed

lemma funpow_Add:
  "quantity_laws Q amt \<Longrightarrow> amt (((\<lambda>m. q_Add Q m x) ^^ n) m) = amt m + of_nat n * amt x"
  by (induction n) (simp_all add: quantity_laws_Add algebra_simps)

lemma partition_loop_unknown:
  "\<not> known_profiles t es \<Longrightarrow> \<exists>e \<in> set es. mpe_Profile e \<notin> pr_Name ` set (tb_Profiles t)
     \<and> partition_loop Q t u m es = Inl (PartitionUnknownProfile (mpe_Profile e) (map pr_Name (tb_Profiles t)))"
proof (induction es arbitrary: u m)
  case (Cons e es)
  show ?case
  proof (cases "mpe_Profile e \<in> pr_Name ` set (tb_Profiles t)")
    case True
    with Cons.prems have "\<not> known_profiles t es" by (simp add: known_profiles_def)
    from Cons.IH [OF this] show ?thesis using profile_named_in [OF True] by auto
  next
    case False
    then show ?thesis using byName_None [of "tb_Profiles t" "mpe_Profile e"] by auto
  qed
qed (simp add: known_profiles_def)

lemma partition_loop_known:
  assumes "quantity_laws Q amt"
  shows "known_profiles t es \<Longrightarrow> \<forall>e \<in> set es. 0 \<le> mpe_Count e \<Longrightarrow> int32_range u \<Longrightarrow>
    \<exists>m'. partition_loop Q t u m es = Inr (wrap32 (u + declared_total t pr_Slices es), m')
      \<and> amt m' = amt m + declared_total t (\<lambda>p. amt (pr_Memory p)) es"
proof (induction es arbitrary: u m)
  case (Cons e es)
  let ?p = "profile_named t (mpe_Profile e)"
  from Cons.prems have look: "fmlookup (byName (tb_Profiles t)) (mpe_Profile e) = Some ?p"
    and rest: "known_profiles t es" "\<forall>e \<in> set es. 0 \<le> mpe_Count e" and c: "0 \<le> mpe_Count e"
    using profile_named_in by (auto simp: known_profiles_def)
  let ?u = "wrap32 (u + wrap32 (pr_Slices ?p * mpe_Count e))"
  let ?m = "((\<lambda>m. q_Add Q m (pr_Memory ?p)) ^^ nat (mpe_Count e)) m"
  from Cons.IH [OF rest, of ?u ?m] obtain m' where
    "partition_loop Q t ?u ?m es = Inr (wrap32 (?u + declared_total t pr_Slices es), m')"
    "amt m' = amt ?m + declared_total t (\<lambda>p. amt (pr_Memory p)) es" by auto
  moreover have "wrap32 (?u + declared_total t pr_Slices es) = wrap32 (u + declared_total t pr_Slices (e # es))"
    by (simp add: declared_total_def mult.commute add.assoc)
  ultimately show ?case using look c
    by (simp add: funpow_Add [OF assms] declared_total_def algebra_simps)
qed (simp add: declared_total_def)

lemma declared_total_slices_range:
  assumes "counts_ok es" "slices_ok t" "known_profiles t es"
  shows "0 \<le> declared_total t pr_Slices es" "declared_total t pr_Slices es \<le> 2 ^ 30"
proof -
  have s: "1 \<le> pr_Slices (profile_named t (mpe_Profile e)) \<and> pr_Slices (profile_named t (mpe_Profile e)) \<le> 8
      \<and> 1 \<le> mpe_Count e \<and> mpe_Count e \<le> 8" if "e \<in> set es" for e
    using assms that profile_named_in [of "mpe_Profile e" t]
    by (auto simp: counts_ok_def slices_ok_def known_profiles_def)
  have b: "0 \<le> mpe_Count e * pr_Slices (profile_named t (mpe_Profile e))
      \<and> mpe_Count e * pr_Slices (profile_named t (mpe_Profile e)) \<le> 64" if "e \<in> set es" for e
    using s [OF that] mult_mono [of "mpe_Count e" 8 "pr_Slices (profile_named t (mpe_Profile e))" 8] by simp
  note bounds = sum_list_bounds [OF conjunct1 [OF b] conjunct2 [OF b]]
  have "0 \<le> declared_total t pr_Slices es" "declared_total t pr_Slices es \<le> 64 * int (length es)"
    unfolding declared_total_def using bounds by simp_all
  then show "0 \<le> declared_total t pr_Slices es" "declared_total t pr_Slices es \<le> 2 ^ 30"
    using assms(1) by (simp_all add: counts_ok_def)
qed

lemma ValidatePartition_iff:
  assumes "quantity_laws Q amt" "counts_ok es" "slices_ok t" "es \<noteq> []"
  shows "ValidatePartition Q es t = Inr () \<longleftrightarrow> partition_fits amt t es"
proof (cases "known_profiles t es")
  case True
  have "\<forall>e \<in> set es. 0 \<le> mpe_Count e" using assms(2) by (auto simp: counts_ok_def)
  from partition_loop_known [OF assms(1) True this, of 0 "q_NewQuantity Q 0 BinarySI"] obtain m where
    "partition_loop Q t 0 (q_NewQuantity Q 0 BinarySI) es = Inr (wrap32 (declared_total t pr_Slices es), m)"
    "amt m = declared_total t (\<lambda>p. amt (pr_Memory p)) es"
    by (auto simp: quantity_laws_NewQuantity [OF assms(1)] int32_range_def)
  moreover have "wrap32 (declared_total t pr_Slices es) = declared_total t pr_Slices es"
    using declared_total_slices_range [OF assms(2,3) True] by (intro wrap32_id) (simp add: int32_range_def)
  ultimately show ?thesis using assms(4) True
    by (auto simp: ValidatePartition_def partition_fits_def quantity_simps [OF assms(1)] not_less)
next
  case False
  then show ?thesis using partition_loop_unknown [OF False, of Q 0 "q_NewQuantity Q 0 BinarySI"] assms(4)
    by (auto simp: ValidatePartition_def partition_fits_def)
qed

text \<open>Why a partition is refused.\<close>

definition partition_explained ::
  "('q \<Rightarrow> rat) \<Rightarrow> 'q Table \<Rightarrow> MIGPartitionEntry list \<Rightarrow> 'q MigError \<Rightarrow> bool" where
  "partition_explained amt t es err =
     (case err of
        PartitionUnknownProfile k available \<Rightarrow>
          k \<in> mpe_Profile ` set es \<and> k \<notin> set available \<and> available = map pr_Name (tb_Profiles t)
      | PartitionSlices used budget \<Rightarrow>
          used = declared_total t pr_Slices es \<and> budget = bd_Slices (tb_Budget t) \<and> budget < used
      | PartitionMemory used budget \<Rightarrow>
          amt used = declared_total t (\<lambda>p. amt (pr_Memory p)) es \<and> budget = bd_Memory (tb_Budget t)
          \<and> amt budget < amt used
      | _ \<Rightarrow> False)"

lemma ValidatePartition_Inl:
  assumes "quantity_laws Q amt" "counts_ok es" "slices_ok t" "ValidatePartition Q es t = Inl err"
  shows "partition_explained amt t es err"
proof (cases "known_profiles t es")
  case True
  have "\<forall>e \<in> set es. 0 \<le> mpe_Count e" using assms(2) by (auto simp: counts_ok_def)
  from partition_loop_known [OF assms(1) True this, of 0 "q_NewQuantity Q 0 BinarySI"] obtain m where
    "partition_loop Q t 0 (q_NewQuantity Q 0 BinarySI) es = Inr (wrap32 (declared_total t pr_Slices es), m)"
    "amt m = declared_total t (\<lambda>p. amt (pr_Memory p)) es"
    by (auto simp: quantity_laws_NewQuantity [OF assms(1)] int32_range_def)
  moreover have "wrap32 (declared_total t pr_Slices es) = declared_total t pr_Slices es"
    using declared_total_slices_range [OF assms(2,3) True] by (intro wrap32_id) (simp add: int32_range_def)
  ultimately show ?thesis using assms(4)
    by (auto simp: ValidatePartition_def partition_explained_def quantity_simps [OF assms(1)] split: if_splits)
next
  case False
  then show ?thesis using partition_loop_unknown [OF False, of Q 0 "q_NewQuantity Q 0 BinarySI"] assms(4)
    by (auto simp: ValidatePartition_def partition_explained_def split: if_splits)
qed

lemma nth_concat_const:
  assumes "\<And>x. x \<in> set xs \<Longrightarrow> length (f x) = n" "k < length xs * n"
  shows "concat (map f xs) ! k = f (xs ! (k div n)) ! (k mod n)"
  using assms
proof (induction xs arbitrary: k)
  case (Cons x xs)
  show ?case
  proof (cases "k < n")
    case True
    then show ?thesis using Cons.prems by (simp add: nth_append)
  next
    case False
    with Cons.prems have n: "0 < n" by (cases n) auto
    with False have "k div n = Suc ((k - n) div n)" "k mod n = (k - n) mod n"
      by (simp_all add: le_div_geq le_mod_geq)
    then show ?thesis using Cons.IH [of "k - n"] Cons.prems False by (simp add: nth_append)
  qed
qed simp

lemma filter_replicate_pick:
  "distinct (map pr_Name ps) \<Longrightarrow> p \<in> set ps \<Longrightarrow>
     filter (\<lambda>x. pr_Name x = pr_Name p) (concat (map (\<lambda>p. replicate (n p) p) ps)) = replicate (n p) p"
proof (induction ps)
  case (Cons q ps)
  have "filter (\<lambda>x. pr_Name x = pr_Name p) (concat (map (\<lambda>p. replicate (n p) p) ps)) = []"
    if "pr_Name p \<notin> pr_Name ` set ps"
  proof -
    have "pr_Name y \<noteq> pr_Name p" if "y \<in> set ps" for y
      using \<open>pr_Name p \<notin> pr_Name ` set ps\<close> that by (metis image_eqI)
    then show ?thesis by (simp add: filter_empty_conv)
  qed
  with Cons show ?case by (cases "q = p") (auto simp: filter_id_conv filter_empty_conv)
qed simp

lemma partition_counts_mset:
  assumes "mset es = mset es'"
  shows "get_int (partition_counts es) k = get_int (partition_counts es') k"
    and "partition_total es = partition_total es'"
proof -
  have s: "sum_list (map f es) = sum_list (map f es')" for f :: "MIGPartitionEntry \<Rightarrow> int"
    using assms by (metis mset_map sum_mset_sum_list)
  show "get_int (partition_counts es) k = get_int (partition_counts es') k"
    by (simp add: get_partition_counts declared_def s)
  show "partition_total es = partition_total es'" by (simp add: partition_total_eq s)
qed

lemma expand_profiles_cong:
  "(\<And>k. get_int c k = get_int c' k) \<Longrightarrow> expand_profiles gpu c n ps = expand_profiles gpu c' n ps"
  by (induction ps arbitrary: n) (simp_all add: expand_profiles_Cons)

lemma builtIn_shapes:
  assumes "ProfilesFor Q s = Some t"
  shows "map (\<lambda>p. (pr_Name p, pr_Slices p)) (tb_Profiles t) \<in>
    {[(''1g.5gb'', 1), (''2g.10gb'', 2), (''3g.20gb'', 3), (''4g.20gb'', 4), (''7g.40gb'', 7)],
     [(''1g.10gb'', 1), (''2g.20gb'', 2), (''3g.40gb'', 3), (''4g.40gb'', 4), (''7g.80gb'', 7)],
     [(''1g.10gb'', 1), (''1g.20gb'', 1), (''2g.20gb'', 2), (''3g.40gb'', 3), (''4g.40gb'', 4), (''7g.80gb'', 7)]}"
proof -
  from assms obtain k where "k \<in> {tableA10040, tableA10080, tableH10080}" "fmlookup (builtInTables Q) k = Some t"
    by (rule builtIn_cases)
  then show ?thesis
    by (auto simp: builtIn_lookup profile_def tableA10040_def tableA10080_def tableH10080_def)
qed

lemma builtIn_names:
  assumes "ProfilesFor Q s = Some t"
  shows "map pr_Name (tb_Profiles t) \<in>
    {[''1g.5gb'', ''2g.10gb'', ''3g.20gb'', ''4g.20gb'', ''7g.40gb''],
     [''1g.10gb'', ''2g.20gb'', ''3g.40gb'', ''4g.40gb'', ''7g.80gb''],
     [''1g.10gb'', ''1g.20gb'', ''2g.20gb'', ''3g.40gb'', ''4g.40gb'', ''7g.80gb'']}"
proof -
  have "map pr_Name (tb_Profiles t) = map fst (map (\<lambda>p. (pr_Name p, pr_Slices p)) (tb_Profiles t))" by simp
  then show ?thesis using builtIn_shapes [OF assms] by (elim insertE emptyE) simp_all
qed

lemma InstanceID_gpu: "InstanceID gpu s = InstanceID 0 s"
  by (simp add: InstanceID_def)

lemma InstanceID_values:
  "InstanceID gpu ''1g.5gb'' = 72" "InstanceID gpu ''2g.10gb'' = 91" "InstanceID gpu ''3g.20gb'' = 63"
  "InstanceID gpu ''4g.20gb'' = 44" "InstanceID gpu ''7g.40gb'' = 73" "InstanceID gpu ''1g.10gb'' = 90"
  "InstanceID gpu ''1g.20gb'' = 99" "InstanceID gpu ''2g.20gb'' = 82" "InstanceID gpu ''3g.40gb'' = 45"
  "InstanceID gpu ''4g.40gb'' = 26" "InstanceID gpu ''7g.80gb'' = 37"
  unfolding InstanceID_gpu [of gpu] by code_simp+

section \<open>Properties\<close>

text \<open>
  Dynamic expansion is exact and ordered: with \<open>n\<close> profiles it does not panic, it yields one device per
  profile and card, the \<open>k\<close>-th device is profile \<open>k mod n\<close> of card \<open>k div n\<close>, drawing on that card's counter
  set, and no two devices of the node share a name.
\<close>

theorem Expand_exact:
  assumes "0 \<le> g" "g * int (length (tb_Profiles t)) < 2 ^ 31" "names_ok t"
  shows "\<exists>is. Expand g t = Some is \<and> length is = nat g * length (tb_Profiles t) \<and> distinct (map in_DeviceName is)
    \<and> (\<forall>k < length is. in_GPUIndex (is ! k) = int (k div length (tb_Profiles t))
        \<and> in_Profile (is ! k) = tb_Profiles t ! (k mod length (tb_Profiles t))
        \<and> in_CounterSet (is ! k) = CounterSetName (in_GPUIndex (is ! k)))"
proof -
  let ?n = "length (tb_Profiles t)" and ?f = "\<lambda>gpu. map (dynamic_instance gpu) (tb_Profiles t)"
  obtain "is" where e: "Expand g t = Some is" and is_eq: "is = concat (map ?f (range_int g))"
    using Expand_total [OF assms(1,2)] by simp
  have len: "length is = nat g * ?n" unfolding is_eq using length_concat_const [of "range_int g" ?f ?n] by simp
  have "in_GPUIndex (is ! k) = int (k div ?n) \<and> in_Profile (is ! k) = tb_Profiles t ! (k mod ?n)
      \<and> in_CounterSet (is ! k) = CounterSetName (in_GPUIndex (is ! k))" if k: "k < length is" for k
  proof -
    from k len have n: "0 < ?n" and kd: "k div ?n < nat g" by (cases ?n; simp add: less_mult_imp_div_less)+
    from k len have "is ! k = ?f (range_int g ! (k div ?n)) ! (k mod ?n)"
      unfolding is_eq by (intro nth_concat_const) simp_all
    then show ?thesis using n kd by simp
  qed
  with e len dynamic.expand_names [OF e assms(3)] show ?thesis by blast
qed

theorem Expand_exact_witness:
  "\<exists>is. Expand 2 \<lparr> tb_Budget = \<lparr> bd_Memory = 80, bd_Slices = 7 \<rparr>,
      tb_Profiles = [\<lparr> pr_Name = ''1g.10gb'', pr_Memory = 10, pr_Slices = 1 \<rparr>,
        \<lparr> pr_Name = ''7g.80gb'', pr_Memory = 80 :: int, pr_Slices = 7 \<rparr>] \<rparr> = Some is \<and> length is = 4"
  using Expand_exact [of 2 "\<lparr> tb_Budget = \<lparr> bd_Memory = 80, bd_Slices = 7 \<rparr>,
      tb_Profiles = [\<lparr> pr_Name = ''1g.10gb'', pr_Memory = 10, pr_Slices = 1 \<rparr>,
        \<lparr> pr_Name = ''7g.80gb'', pr_Memory = 80 :: int, pr_Slices = 7 \<rparr>] \<rparr>"]
  by (auto simp: names_ok_def)

text \<open>
  C18: \<open>ValidatePartition\<close> accepts a partition with at least one entry exactly when every profile it names
  exists and all declared instances together fit one card in slices and in memory; its error is always a
  true statement about the partition (the unknown name and the available ones, or the exceeded total).
\<close>

theorem ValidatePartition_correct:
  assumes "quantity_laws Q amt" "counts_ok es" "slices_ok t" "es \<noteq> []"
  shows "case ValidatePartition Q es t of
      Inr _ \<Rightarrow> partition_fits amt t es
    | Inl err \<Rightarrow> \<not> partition_fits amt t es \<and> partition_explained amt t es err"
proof (cases "ValidatePartition Q es t")
  case (Inl err)
  then show ?thesis
    using ValidatePartition_iff [OF assms] ValidatePartition_Inl [OF assms(1-3) Inl] by simp
next
  case (Inr u)
  then show ?thesis using ValidatePartition_iff [OF assms] by simp
qed

theorem ValidatePartition_correct_witness:
  "ValidatePartition int_quantity [\<lparr> mpe_Profile = ''1g.10gb'', mpe_Count = 8 \<rparr>]
     \<lparr> tb_Budget = \<lparr> bd_Memory = 80, bd_Slices = 7 \<rparr>,
       tb_Profiles = [\<lparr> pr_Name = ''1g.10gb'', pr_Memory = 10, pr_Slices = 1 \<rparr>] \<rparr> = Inl (PartitionSlices 8 7)
   \<and> \<not> partition_fits of_int \<lparr> tb_Budget = \<lparr> bd_Memory = 80, bd_Slices = 7 \<rparr>,
       tb_Profiles = [\<lparr> pr_Name = ''1g.10gb'', pr_Memory = 10, pr_Slices = 1 \<rparr>] \<rparr>
       [\<lparr> mpe_Profile = ''1g.10gb'', mpe_Count = 8 \<rparr>]"
  using ValidatePartition_correct [OF int_quantity_laws, of "[\<lparr> mpe_Profile = ''1g.10gb'', mpe_Count = 8 \<rparr>]"
    "\<lparr> tb_Budget = \<lparr> bd_Memory = 80, bd_Slices = 7 \<rparr>,
       tb_Profiles = [\<lparr> pr_Name = ''1g.10gb'', pr_Memory = 10, pr_Slices = 1 \<rparr>] \<rparr>"]
  by (simp add: counts_ok_def slices_ok_def ValidatePartition_def byName_def wrap32_def)

text \<open>
  C17: a validated partition never over-commits a card: the instances that \<open>ExpandPartitioned\<close> makes on any
  one card add up to at most the card's slices and at most its memory.
\<close>

theorem validated_partition_fits:
  assumes "quantity_laws Q amt" "counts_ok es" "slices_ok t" "es \<noteq> []" "distinct (map pr_Name (tb_Profiles t))"
    and "ValidatePartition Q es t = Inr ()" "ExpandPartitioned g t es = Some is" "0 \<le> gpu" "gpu < g"
  shows "(\<Sum>i\<leftarrow>on_gpu gpu is. pr_Slices (in_Profile i)) \<le> bd_Slices (tb_Budget t)
    \<and> (\<Sum>i\<leftarrow>on_gpu gpu is. amt (pr_Memory (in_Profile i))) \<le> amt (bd_Memory (tb_Budget t))"
proof -
  from assms(6) have fits: "partition_fits amt t es" using ValidatePartition_iff [OF assms(1-4)] by simp
  then have known: "known_profiles t es" by (simp add: partition_fits_def)
  note total = sum_expand_profiles [OF assms(5) known assms(2)]
  from fits show ?thesis
    using assms(8,9) total [of pr_Slices] total [of "\<lambda>p. amt (pr_Memory p)"]
    by (simp add: on_gpu_ExpandPartitioned [OF assms(7)] partition_fits_def)
qed

theorem validated_partition_fits_witness:
  "\<exists>is. ExpandPartitioned 1 \<lparr> tb_Budget = \<lparr> bd_Memory = 80, bd_Slices = 7 \<rparr>,
      tb_Profiles = [\<lparr> pr_Name = ''1g.10gb'', pr_Memory = 10, pr_Slices = 1 \<rparr>] \<rparr>
      [\<lparr> mpe_Profile = ''1g.10gb'', mpe_Count = 7 \<rparr>] = Some is
    \<and> (\<Sum>i\<leftarrow>on_gpu 0 is. pr_Slices (in_Profile i)) \<le> 7
    \<and> (\<Sum>i\<leftarrow>on_gpu 0 is. rat_of_int (pr_Memory (in_Profile i))) \<le> 80"
proof -
  let ?t = "\<lparr> tb_Budget = \<lparr> bd_Memory = 80, bd_Slices = 7 \<rparr>,
      tb_Profiles = [\<lparr> pr_Name = ''1g.10gb'', pr_Memory = 10 :: int, pr_Slices = 1 \<rparr>] \<rparr>"
  let ?es = "[\<lparr> mpe_Profile = ''1g.10gb'', mpe_Count = 7 \<rparr>]"
  have c: "counts_ok ?es" "slices_ok ?t" "?es \<noteq> []" "distinct (map pr_Name (tb_Profiles ?t))"
    by (simp_all add: counts_ok_def slices_ok_def)
  moreover have "ValidatePartition int_quantity ?es ?t = Inr ()"
    by (simp add: ValidatePartition_def byName_def wrap32_def int_quantity_def eval_nat_numeral)
  moreover obtain "is" where "ExpandPartitioned 1 ?t ?es = Some is"
    using ExpandPartitioned_total [of 1 ?es ?t] c(1) by simp
  ultimately show ?thesis
    using validated_partition_fits [OF int_quantity_laws, of ?es ?t 1 "is" 0] by auto
qed

text \<open>
  C20: static expansion makes exactly what was declared: on every card of the node, the instances of a
  profile of the table are as many as the entries that name it say, and they carry that profile's shape.
\<close>

theorem ExpandPartitioned_exact:
  assumes "counts_ok es" "distinct (map pr_Name (tb_Profiles t))" "ExpandPartitioned g t es = Some is"
    and "0 \<le> gpu" "gpu < g" "p \<in> set (tb_Profiles t)"
  shows "map in_Profile (filter (\<lambda>i. pr_Name (in_Profile i) = pr_Name p) (on_gpu gpu is)) =
    replicate (nat (declared es (pr_Name p))) p"
proof -
  have "map in_Profile (filter (\<lambda>i. pr_Name (in_Profile i) = pr_Name p) (on_gpu gpu is)) =
      filter (\<lambda>x. pr_Name x = pr_Name p) (map in_Profile (on_gpu gpu is))"
    by (simp add: filter_map o_def)
  then show ?thesis using assms
    by (simp add: on_gpu_ExpandPartitioned [OF assms(3)] expand_profiles_fields filter_replicate_pick get_partition_counts_ok)
qed

theorem ExpandPartitioned_exact_witness:
  "\<exists>is. ExpandPartitioned 2 \<lparr> tb_Budget = \<lparr> bd_Memory = 80, bd_Slices = 7 \<rparr>,
      tb_Profiles = [\<lparr> pr_Name = ''1g.10gb'', pr_Memory = 10 :: int, pr_Slices = 1 \<rparr>] \<rparr>
      [\<lparr> mpe_Profile = ''1g.10gb'', mpe_Count = 3 \<rparr>] = Some is
    \<and> map in_Profile (filter (\<lambda>i. pr_Name (in_Profile i) = ''1g.10gb'') (on_gpu 1 is)) =
      replicate 3 \<lparr> pr_Name = ''1g.10gb'', pr_Memory = 10, pr_Slices = 1 \<rparr>"
proof -
  let ?p = "\<lparr> pr_Name = ''1g.10gb'', pr_Memory = 10 :: int, pr_Slices = 1 \<rparr>"
  let ?t = "\<lparr> tb_Budget = \<lparr> bd_Memory = 80, bd_Slices = 7 \<rparr>, tb_Profiles = [?p] \<rparr>"
  let ?es = "[\<lparr> mpe_Profile = ''1g.10gb'', mpe_Count = 3 \<rparr>]"
  have c: "counts_ok ?es" by (simp add: counts_ok_def)
  obtain "is" where "ExpandPartitioned 2 ?t ?es = Some is"
    using ExpandPartitioned_total [of 2 ?es ?t] c by simp
  then show ?thesis
    using ExpandPartitioned_exact [OF c, of ?t 2 "is" 1 ?p] by (simp add: declared_def)
qed

text \<open>
  The instance IDs of a declared partition are \<open>0, 1, 2, ...\<close> on every card, so two instances of one
  card never share one.
\<close>

theorem ExpandPartitioned_IDs:
  assumes "ExpandPartitioned g t es = Some is" "int (length (on_gpu gpu is)) < 2 ^ 31"
  shows "map in_InstanceID (on_gpu gpu is) = range_int (int (length (on_gpu gpu is)))
    \<and> distinct (map in_InstanceID (on_gpu gpu is))"
  using static_IDs [OF assms] by (simp add: range_int_def distinct_map)

theorem ExpandPartitioned_IDs_witness:
  "\<exists>is. ExpandPartitioned 2 \<lparr> tb_Budget = \<lparr> bd_Memory = 80, bd_Slices = 7 \<rparr>,
      tb_Profiles = [\<lparr> pr_Name = ''1g.10gb'', pr_Memory = 10 :: int, pr_Slices = 1 \<rparr>] \<rparr>
      [\<lparr> mpe_Profile = ''1g.10gb'', mpe_Count = 3 \<rparr>] = Some is
    \<and> map in_InstanceID (on_gpu 1 is) = [0, 1, 2]"
proof -
  let ?t = "\<lparr> tb_Budget = \<lparr> bd_Memory = 80, bd_Slices = 7 \<rparr>,
    tb_Profiles = [\<lparr> pr_Name = ''1g.10gb'', pr_Memory = 10 :: int, pr_Slices = 1 \<rparr>] \<rparr>"
  let ?es = "[\<lparr> mpe_Profile = ''1g.10gb'', mpe_Count = 3 \<rparr>]"
  have c: "counts_ok ?es" by (simp add: counts_ok_def)
  obtain "is" where e: "ExpandPartitioned 2 ?t ?es = Some is"
    using ExpandPartitioned_total [of 2 ?es ?t] c by simp
  have "length (map in_Profile (on_gpu 1 is)) = 3"
    unfolding on_gpu_ExpandPartitioned [OF e] by (simp add: expand_profiles_fields get_partition_counts_ok [OF c] declared_def)
  then have "length (on_gpu 1 is) = 3" by simp
  then show ?thesis using ExpandPartitioned_IDs [OF e, of 1] e by (simp add: range_int_def upt_rec)
qed

text \<open>
  The order in which a manifest lists its partition does not matter: entries rearranged in any way
  give the same instances in the same order, with the same names and IDs.
\<close>

theorem ExpandPartitioned_order:
  assumes "mset es = mset es'"
  shows "ExpandPartitioned g t es = ExpandPartitioned g t es'"
  unfolding ExpandPartitioned_def Let_def partition_counts_mset(2) [OF assms]
    expand_profiles_cong [of "partition_counts es" "partition_counts es'", OF partition_counts_mset(1) [OF assms]] ..

theorem ExpandPartitioned_order_witness:
  "ExpandPartitioned 2 \<lparr> tb_Budget = \<lparr> bd_Memory = 80 :: int, bd_Slices = 7 \<rparr>,
      tb_Profiles = [\<lparr> pr_Name = ''1g.10gb'', pr_Memory = 10, pr_Slices = 1 \<rparr>,
        \<lparr> pr_Name = ''4g.40gb'', pr_Memory = 40, pr_Slices = 4 \<rparr>] \<rparr>
      [\<lparr> mpe_Profile = ''1g.10gb'', mpe_Count = 3 \<rparr>, \<lparr> mpe_Profile = ''4g.40gb'', mpe_Count = 1 \<rparr>]
   = ExpandPartitioned 2 \<lparr> tb_Budget = \<lparr> bd_Memory = 80 :: int, bd_Slices = 7 \<rparr>,
      tb_Profiles = [\<lparr> pr_Name = ''1g.10gb'', pr_Memory = 10, pr_Slices = 1 \<rparr>,
        \<lparr> pr_Name = ''4g.40gb'', pr_Memory = 40, pr_Slices = 4 \<rparr>] \<rparr>
      [\<lparr> mpe_Profile = ''4g.40gb'', mpe_Count = 1 \<rparr>, \<lparr> mpe_Profile = ''1g.10gb'', mpe_Count = 3 \<rparr>]"
  by (rule ExpandPartitioned_order) simp

text \<open>
  In dynamic mode a profile's instance ID is a hash of its name. On every table of ghostgpu's own the
  IDs of a card are distinct and lie between 0 and 99.
\<close>

theorem InstanceID_builtIn:
  assumes "ProfilesFor Q s = Some t"
  shows "distinct (map (\<lambda>p. InstanceID gpu (pr_Name p)) (tb_Profiles t))
    \<and> list_all (\<lambda>p. 0 \<le> InstanceID gpu (pr_Name p) \<and> InstanceID gpu (pr_Name p) < 100) (tb_Profiles t)"
proof -
  let ?n = "map pr_Name (tb_Profiles t)"
  have "distinct (map (InstanceID gpu) ?n) \<and> list_all (\<lambda>n. 0 \<le> InstanceID gpu n \<and> InstanceID gpu n < 100) ?n"
    using builtIn_names [OF assms] by (elim insertE emptyE) (simp_all add: InstanceID_values)
  then show ?thesis by (simp add: list_all_iff o_def)
qed

theorem InstanceID_builtIn_witness:
  "\<exists>t. ProfilesFor int_quantity ''NVIDIA-H100-SXM'' = Some t
    \<and> distinct (map (\<lambda>p. InstanceID 0 (pr_Name p)) (tb_Profiles t))"
proof -
  have "normalize ''NVIDIA-H100-SXM'' = ''nvidiah100sxm''" by code_simp
  then obtain t where t: "ProfilesFor int_quantity ''NVIDIA-H100-SXM'' = Some t"
    by (simp add: ProfilesFor_def productMatchers_def Let_def familyA100_def familyH100_def HasPrefix_def builtIn_lookup)
  from InstanceID_builtIn [OF t, of 0] t show ?thesis by blast
qed

text \<open>
  For profiles a \<open>GPUModel\<close> declares itself the IDs are not unique within a card: the 3g.47gb and 7g.94gb
  profiles of a 94 GB H100 NVL both get 72.
\<close>

theorem InstanceID_collision:
  "InstanceID gpu ''3g.47gb'' = InstanceID gpu ''7g.94gb''"
proof -
  have "InstanceID gpu s = InstanceID 0 s" for s by (simp add: InstanceID_def)
  moreover have "InstanceID 0 ''3g.47gb'' = 72" "InstanceID 0 ''7g.94gb'' = 72" by code_simp+
  ultimately show ?thesis by metis
qed

end
