(* ===== verification/Sha256.thy ===== *)
theory Sha256
  imports Go_Strings
begin

unbundle bit_operations_syntax

text \<open>
  What the source uses of \<open>crypto/sha256\<close> and \<open>encoding/hex\<close>: \<open>Sum256\<close> as FIPS 180-4 defines it, on 32-bit
  words, and \<open>EncodeToString\<close>. A digest has 32 bytes and its encoding two lower-case hexadecimal digits
  per byte; that is all the shape of a device UUID rests on.
\<close>

type_synonym w32 = "32 word"

text \<open>
  The constants, as the standard derives them: the first 32 bits of the fractional parts of the cube roots
  of the first 64 primes, and of the square roots of the first 8. \<open>root_bits k n\<close> is the \<open>k\<close>-th root of \<open>n\<close>,
  rounded down, for roots below \<open>2 ^ 36\<close>.
\<close>

definition root_bits :: "nat \<Rightarrow> nat \<Rightarrow> nat" where
  "root_bits k n = foldl (\<lambda>r i. if (r + 2 ^ i) ^ k \<le> n then r + 2 ^ i else r) 0 (rev [0..<36])"

definition sha_primes :: "nat list" where
  "sha_primes =
     [2, 3, 5, 7, 11, 13, 17, 19, 23, 29, 31, 37, 41, 43, 47, 53,
      59, 61, 67, 71, 73, 79, 83, 89, 97, 101, 103, 107, 109, 113, 127, 131,
      137, 139, 149, 151, 157, 163, 167, 173, 179, 181, 191, 193, 197, 199, 211, 223,
      227, 229, 233, 239, 241, 251, 257, 263, 269, 271, 277, 281, 283, 293, 307, 311]"

definition sha_K :: "w32 list" where
  "sha_K = map (\<lambda>p. of_nat (root_bits 3 (p * 2 ^ 96))) sha_primes"

datatype sha_state = Sha (sha_words: "w32 \<times> w32 \<times> w32 \<times> w32 \<times> w32 \<times> w32 \<times> w32 \<times> w32")

definition sha_init :: sha_state where
  "sha_init =
     (let h = (\<lambda>i. of_nat (root_bits 2 (sha_primes ! i * 2 ^ 64)))
      in Sha (h 0, h 1, h 2, h 3, h 4, h 5, h 6, h 7))"

definition be_word :: "nat \<Rightarrow> nat \<Rightarrow> nat \<Rightarrow> nat \<Rightarrow> w32" where
  "be_word a b c d = of_nat (a * 2 ^ 24 + b * 2 ^ 16 + c * 2 ^ 8 + d)"

fun be_words :: "nat list \<Rightarrow> w32 list" where
  "be_words (a # b # c # d # r) = be_word a b c d # be_words r"
| "be_words _ = []"

definition be_bytes :: "nat \<Rightarrow> nat \<Rightarrow> nat list" where
  "be_bytes k n = map (\<lambda>i. n div 256 ^ (k - 1 - i) mod 256) [0..<k]"

definition sha_pad :: "nat list \<Rightarrow> nat list" where
  "sha_pad bs = bs @ [128] @ replicate ((119 - length bs mod 64) mod 64) 0 @ be_bytes 8 (8 * length bs)"

definition small_sigma0 :: "w32 \<Rightarrow> w32" where
  "small_sigma0 x = word_rotr 7 x XOR word_rotr 18 x XOR drop_bit 3 x"

definition small_sigma1 :: "w32 \<Rightarrow> w32" where
  "small_sigma1 x = word_rotr 17 x XOR word_rotr 19 x XOR drop_bit 10 x"

definition big_sigma0 :: "w32 \<Rightarrow> w32" where
  "big_sigma0 x = word_rotr 2 x XOR word_rotr 13 x XOR word_rotr 22 x"

definition big_sigma1 :: "w32 \<Rightarrow> w32" where
  "big_sigma1 x = word_rotr 6 x XOR word_rotr 11 x XOR word_rotr 25 x"

text \<open>The message schedule, newest word first.\<close>

primrec sha_schedule :: "nat \<Rightarrow> w32 list \<Rightarrow> w32 list" where
  "sha_schedule 0 ws = ws"
| "sha_schedule (Suc n) ws =
     sha_schedule n ((small_sigma1 (ws ! 1) + ws ! 6 + small_sigma0 (ws ! 14) + ws ! 15) # ws)"

fun sha_round :: "sha_state \<Rightarrow> w32 \<times> w32 \<Rightarrow> sha_state" where
  "sha_round (Sha (a, b, c, d, e, f, g, h)) (k, w) =
     (let t1 = h + big_sigma1 e + ((e AND f) XOR ((NOT e) AND g)) + k + w;
          t2 = big_sigma0 a + ((a AND b) XOR (a AND c) XOR (b AND c))
      in Sha (t1 + t2, a, b, c, d + t1, e, f, g))"

fun sha_add :: "sha_state \<Rightarrow> sha_state \<Rightarrow> sha_state" where
  "sha_add (Sha (a, b, c, d, e, f, g, h)) (Sha (a', b', c', d', e', f', g', h')) =
     Sha (a + a', b + b', c + c', d + d', e + e', f + f', g + g', h + h')"

definition sha_block :: "sha_state \<Rightarrow> nat list \<Rightarrow> sha_state" where
  "sha_block s block =
     sha_add s (foldl sha_round s (zip sha_K (rev (sha_schedule 48 (rev (be_words block))))))"

function sha_blocks :: "sha_state \<Rightarrow> nat list \<Rightarrow> sha_state" where
  "sha_blocks s bs = (if bs = [] then s else sha_blocks (sha_block s (take 64 bs)) (drop 64 bs))"
  by pat_completeness auto
termination
  by (relation "measure (\<lambda>(s, bs). length bs)") auto

declare sha_blocks.simps [simp del]

fun sha_digest :: "sha_state \<Rightarrow> nat list" where
  "sha_digest (Sha (a, b, c, d, e, f, g, h)) =
     concat (map (\<lambda>w. be_bytes 4 (unat w)) [a, b, c, d, e, f, g, h])"

definition Sum256 :: "string \<Rightarrow> nat list" where
  "Sum256 s = sha_digest (sha_blocks sha_init (sha_pad (map byte s)))"

definition hex_digit :: "nat \<Rightarrow> char" where
  "hex_digit d = ''0123456789abcdef'' ! d"

definition hex_EncodeToString :: "nat list \<Rightarrow> string" where
  "hex_EncodeToString bs = concat (map (\<lambda>b. [hex_digit (b div 16), hex_digit (b mod 16)]) bs)"

definition is_hex :: "char \<Rightarrow> bool" where
  "is_hex c \<longleftrightarrow> c \<in> set ''0123456789abcdef''"

section \<open>Lemmas: the shape of a digest\<close>

lemma length_be_bytes [simp]: "length (be_bytes k n) = k"
  by (simp add: be_bytes_def)

lemma be_bytes_byte: "b \<in> set (be_bytes k n) \<Longrightarrow> b < 256"
  by (auto simp: be_bytes_def)

lemma length_sha_digest [simp]: "length (sha_digest s) = 32"
  by (cases s rule: sha_digest.cases) simp

lemma sha_digest_byte: "b \<in> set (sha_digest s) \<Longrightarrow> b < 256"
  by (cases s rule: sha_digest.cases) (auto dest: be_bytes_byte)

lemma length_Sum256 [simp]: "length (Sum256 s) = 32"
  by (simp add: Sum256_def)

lemma Sum256_byte: "b \<in> set (Sum256 s) \<Longrightarrow> b < 256"
  unfolding Sum256_def by (rule sha_digest_byte)

lemma length_hex [simp]: "length (hex_EncodeToString bs) = 2 * length bs"
  by (induction bs) (simp_all add: hex_EncodeToString_def)

lemma is_hex_digit: "d < 16 \<Longrightarrow> is_hex (hex_digit d)"
  unfolding is_hex_def hex_digit_def by (rule nth_mem) simp

lemma hex_digits: "(\<And>b. b \<in> set bs \<Longrightarrow> b < 256) \<Longrightarrow> list_all is_hex (hex_EncodeToString bs)"
  by (fastforce simp: hex_EncodeToString_def list_all_iff is_hex_digit)

end
