(* ===== verification/Gpu_Identity.thy ===== *)
theory Gpu_Identity
  imports Sha256
begin

text \<open>
  \<open>internal/gpu/identity.go\<close>: the names, UUIDs and topology of a node's cards. All of it is a function of
  the node's name and the card's index, which is what lets a restarted operator republish what it had
  published. The UUID has the shape NVIDIA's tools parse; the NVLink domain and the NUMA node of a card
  describe one and the same grouping of the cards.
\<close>

definition DeviceName :: "string \<Rightarrow> int \<Rightarrow> string" where
  "DeviceName nodeName index = ''gpu-'' @ Itoa index"

definition DeviceUUID :: "string \<Rightarrow> int \<Rightarrow> string" where
  "DeviceUUID nodeName index =
     (let sum = Sum256 (''ghostgpu/'' @ nodeName @ ''/'' @ Itoa index);
          h = hex_EncodeToString (take 16 sum)
      in ''GPU-'' @ subslice h 0 8 @ ''-'' @ subslice h 8 12 @ ''-'' @ subslice h 12 16 @ ''-''
         @ subslice h 16 20 @ ''-'' @ subslice h 20 32)"

definition NVLinkDomain :: "int \<Rightarrow> int \<Rightarrow> string" where
  "NVLinkDomain index domainSize =
     (if domainSize \<le> 0 then [] else ''domain-'' @ Itoa (index sdiv domainSize))"

definition NUMANode :: "int \<Rightarrow> int \<Rightarrow> int" where
  "NUMANode index domainSize = (if domainSize \<le> 0 then 0 else index sdiv domainSize)"

section \<open>Lemmas\<close>

lemma DeviceName_inject [simp]: "DeviceName n i = DeviceName m j \<longleftrightarrow> i = j"
  by (simp add: DeviceName_def)

lemma length_subslice [simp]: "length (subslice xs i j) = min (j - i) (length xs - i)"
  by (simp add: subslice_def min.commute)

lemma set_subslice: "x \<in> set (subslice xs i j) \<Longrightarrow> x \<in> set xs"
  by (auto simp: subslice_def dest: in_set_takeD in_set_dropD)

lemma NVLinkDomain_Nil [simp]: "NVLinkDomain i d = [] \<longleftrightarrow> d \<le> 0"
  by (simp add: NVLinkDomain_def)

text \<open>The indices below \<open>n\<close> that share a quotient are a run of at most \<open>d\<close>.\<close>

lemma same_quotient_card:
  assumes "0 < (d :: int)"
  shows "card {i. 0 \<le> i \<and> i < n \<and> i div d = q} \<le> nat d"
proof -
  have "{i. 0 \<le> i \<and> i < n \<and> i div d = q} \<subseteq> {q * d..<(q + 1) * d}"
  proof
    fix i assume "i \<in> {i. 0 \<le> i \<and> i < n \<and> i div d = q}"
    then have "i = q * d + i mod d" using div_mult_mod_eq [of i d] by simp
    moreover have "0 \<le> i mod d" "i mod d < d" using assms by simp_all
    ultimately show "i \<in> {q * d..<(q + 1) * d}" by (auto simp: algebra_simps)
  qed
  then have "card {i. 0 \<le> i \<and> i < n \<and> i div d = q} \<le> card {q * d..<(q + 1) * d}"
    by (intro card_mono) simp_all
  then show ?thesis by (simp add: algebra_simps)
qed

section \<open>Properties\<close>

text \<open>
  Every device UUID has the shape \<open>GPU-<8>-<4>-<4>-<4>-<12>\<close> of lower-case hexadecimal digits that
  NVIDIA's tooling parses, whatever the node's name.
\<close>

theorem DeviceUUID_shape:
  "\<exists>a b c d e. DeviceUUID nodeName index = ''GPU-'' @ a @ ''-'' @ b @ ''-'' @ c @ ''-'' @ d @ ''-'' @ e
     \<and> map length [a, b, c, d, e] = [8, 4, 4, 4, 12] \<and> list_all is_hex (concat [a, b, c, d, e])"
proof -
  obtain h where h: "h = hex_EncodeToString (take 16 (Sum256 (''ghostgpu/'' @ nodeName @ ''/'' @ Itoa index)))"
    by simp
  have "list_all is_hex h" unfolding h by (rule hex_digits) (auto dest!: in_set_takeD Sum256_byte)
  then have hex: "list_all is_hex (subslice h i j)" for i j
    by (auto simp: list_all_iff dest!: set_subslice)
  have len: "length h = 32" by (simp add: h)
  have "DeviceUUID nodeName index = ''GPU-'' @ subslice h 0 8 @ ''-'' @ subslice h 8 12 @ ''-'' @ subslice h 12 16
      @ ''-'' @ subslice h 16 20 @ ''-'' @ subslice h 20 32"
    unfolding DeviceUUID_def Let_def h ..
  moreover have "map length [subslice h 0 8, subslice h 8 12, subslice h 12 16, subslice h 16 20, subslice h 20 32]
      = [8, 4, 4, 4, 12]" by (simp add: len)
  moreover have "list_all is_hex (concat [subslice h 0 8, subslice h 8 12, subslice h 12 16, subslice h 16 20, subslice h 20 32])"
    by (simp add: hex)
  ultimately show ?thesis by (intro exI conjI)
qed

text \<open>
  The two topology attributes of a card agree: with domains enabled, two cards share an NVLink domain
  exactly when they share a NUMA node, and no domain has more cards than the declared size.
\<close>

theorem topology_consistent:
  assumes "0 < domainSize" "0 \<le> i" "0 \<le> j"
  shows "(NVLinkDomain i domainSize = NVLinkDomain j domainSize \<longleftrightarrow> NUMANode i domainSize = NUMANode j domainSize)
    \<and> card {k. 0 \<le> k \<and> k < n \<and> NVLinkDomain k domainSize = NVLinkDomain i domainSize} \<le> nat domainSize"
proof -
  have dom: "NVLinkDomain k domainSize = NVLinkDomain i domainSize \<longleftrightarrow> k div domainSize = i div domainSize"
    if "0 \<le> k" "0 \<le> i" for k i
    using assms(1) that by (simp add: NVLinkDomain_def sdiv_nonneg)
  then have "{k. 0 \<le> k \<and> k < n \<and> NVLinkDomain k domainSize = NVLinkDomain i domainSize}
      = {k. 0 \<le> k \<and> k < n \<and> k div domainSize = i div domainSize}" using assms(2) by auto
  moreover have "NVLinkDomain i domainSize = NVLinkDomain j domainSize \<longleftrightarrow> NUMANode i domainSize = NUMANode j domainSize"
    using assms by (simp add: NVLinkDomain_def NUMANode_def)
  ultimately show ?thesis using same_quotient_card [OF assms(1)] by simp
qed

theorem topology_consistent_witness:
  "(NVLinkDomain 3 4 = NVLinkDomain 5 4 \<longleftrightarrow> NUMANode 3 4 = NUMANode 5 4)
    \<and> card {k. 0 \<le> k \<and> k < 8 \<and> NVLinkDomain k 4 = NVLinkDomain 3 4} \<le> 4"
  using topology_consistent [of 4 3 5 8] by simp

end
