(* ===== verification/Gpu_State.thy ===== *)
theory Gpu_State
  imports Api_Types Gpu_Identity
begin

text \<open>
  \<open>internal/gpu/occupancy.go\<close> and \<open>internal/gpu/faults.go\<close>: what a pool declares about the cards of one
  node, and the device taint that follows for each card. Declarations are lists of entries of which the
  first that matches the node decides; that rule is the contract of the locale \<open>first_match\<close>, which both
  loops interpret.
\<close>

section \<open>occupancy.go\<close>

definition OccupiedTaintKey :: string where "OccupiedTaintKey = ''ghostgpu.dev/occupied''"
definition OccupiedTaintValue :: string where "OccupiedTaintValue = ''ghostgpu''"

definition OccupiedTaint :: DeviceTaint where
  "OccupiedTaint = \<lparr> dt_Key = OccupiedTaintKey, dt_Value = OccupiedTaintValue, dt_Effect = NoSchedule \<rparr>"

definition selectorMatches :: "labels \<Rightarrow> labels \<Rightarrow> bool" where
  "selectorMatches selector lbls = fmpred (\<lambda>key value. get_str lbls key = value) selector"

text \<open>The loop of \<open>BusyGPUs\<close> over the entries.\<close>

fun busy_loop :: "int \<Rightarrow> OccupancyEntry list \<Rightarrow> labels \<Rightarrow> int" where
  "busy_loop gpusPerNode [] lbls = 0"
| "busy_loop gpusPerNode (e # es) lbls =
     (if \<not> selectorMatches (oe_NodeSelector e) lbls then busy_loop gpusPerNode es lbls
      else max 0 (min (oe_BusyPerNode e) gpusPerNode))"

definition BusyGPUs :: "'m GPUPool \<Rightarrow> 'q Node \<Rightarrow> int" where
  "BusyGPUs pool node = busy_loop (ps_GPUsPerNode (pool_Spec pool)) (ps_Occupancy (pool_Spec pool)) (nd_Labels node)"

datatype DeclError =
    NegativeBusy labels int
  | BusyExceeds labels int int
  | NegativeFaults labels int
  | FaultsExceed labels int int
  | UnknownEffect labels string

fun occupancy_loop :: "int \<Rightarrow> OccupancyEntry list \<Rightarrow> DeclError + unit" where
  "occupancy_loop gpusPerNode [] = Inr ()"
| "occupancy_loop gpusPerNode (e # es) =
     (if oe_BusyPerNode e < 0 then Inl (NegativeBusy (oe_NodeSelector e) (oe_BusyPerNode e))
      else if oe_BusyPerNode e > gpusPerNode
        then Inl (BusyExceeds (oe_NodeSelector e) (oe_BusyPerNode e) gpusPerNode)
      else occupancy_loop gpusPerNode es)"

definition ValidateOccupancy :: "'m GPUPool \<Rightarrow> DeclError + unit" where
  "ValidateOccupancy pool = occupancy_loop (ps_GPUsPerNode (pool_Spec pool)) (ps_Occupancy (pool_Spec pool))"

section \<open>faults.go\<close>

definition FaultedTaintKey :: string where "FaultedTaintKey = ''ghostgpu.dev/faulted''"

definition faultValue :: "int \<Rightarrow> string" where
  "faultValue xid = (if xid \<le> 0 then ''unspecified'' else ''xid-'' @ Itoa xid)"

definition FaultedTaint :: "string \<Rightarrow> int \<Rightarrow> DeviceTaint" where
  "FaultedTaint effect xid =
     (let taint = \<lparr> dt_Key = FaultedTaintKey, dt_Value = faultValue xid, dt_Effect = NoSchedule \<rparr> in
      if effect \<noteq> FaultEffectUnschedulable then taint\<lparr> dt_Effect := NoExecute \<rparr> else taint)"

record NodeState =
  ns_Busy :: int
  ns_Faulted :: int
  ns_Effect :: string
  ns_XID :: int

definition Unavailable :: "NodeState \<Rightarrow> int" where
  "Unavailable s = max (ns_Busy s) (ns_Faulted s)"

definition IsFaulted :: "NodeState \<Rightarrow> int \<Rightarrow> bool" where
  "IsFaulted s index \<longleftrightarrow> index < ns_Faulted s"

definition IsOccupied :: "NodeState \<Rightarrow> int \<Rightarrow> bool" where
  "IsOccupied s index \<longleftrightarrow> \<not> IsFaulted s index \<and> index < ns_Busy s"

definition Taint :: "NodeState \<Rightarrow> int \<Rightarrow> DeviceTaint option" where
  "Taint s index =
     (if IsFaulted s index then Some (FaultedTaint (ns_Effect s) (ns_XID s))
      else if IsOccupied s index then Some OccupiedTaint
      else None)"

text \<open>The loop of \<open>StateFor\<close> over the faults, on the state it fills in.\<close>

fun fault_loop :: "int \<Rightarrow> NodeState \<Rightarrow> FaultEntry list \<Rightarrow> labels \<Rightarrow> NodeState" where
  "fault_loop gpusPerNode state [] lbls = state"
| "fault_loop gpusPerNode state (f # fs) lbls =
     (if \<not> selectorMatches (fe_NodeSelector f) lbls then fault_loop gpusPerNode state fs lbls
      else state\<lparr> ns_Faulted := max 0 (min (fe_GPUs f) gpusPerNode),
                  ns_Effect := (if fe_Effect f = [] then FaultEffectEvict else fe_Effect f),
                  ns_XID := fe_XID f \<rparr>)"

definition StateFor :: "'m GPUPool \<Rightarrow> 'q Node \<Rightarrow> NodeState" where
  "StateFor pool node =
     fault_loop (ps_GPUsPerNode (pool_Spec pool))
       \<lparr> ns_Busy = BusyGPUs pool node, ns_Faulted = 0, ns_Effect = [], ns_XID = 0 \<rparr>
       (ps_Faults (pool_Spec pool)) (nd_Labels node)"

fun faults_loop :: "int \<Rightarrow> FaultEntry list \<Rightarrow> DeclError + unit" where
  "faults_loop gpusPerNode [] = Inr ()"
| "faults_loop gpusPerNode (f # fs) =
     (if fe_GPUs f < 0 then Inl (NegativeFaults (fe_NodeSelector f) (fe_GPUs f))
      else if fe_GPUs f > gpusPerNode then Inl (FaultsExceed (fe_NodeSelector f) (fe_GPUs f) gpusPerNode)
      else if fe_Effect f \<in> {[], FaultEffectEvict, FaultEffectUnschedulable} then faults_loop gpusPerNode fs
      else Inl (UnknownEffect (fe_NodeSelector f) (fe_Effect f)))"

definition ValidateFaults :: "'m GPUPool \<Rightarrow> DeclError + unit" where
  "ValidateFaults pool = faults_loop (ps_GPUsPerNode (pool_Spec pool)) (ps_Faults (pool_Spec pool))"

text \<open>Objects for the concrete instances below.\<close>

definition example_pool :: "int \<Rightarrow> string \<Rightarrow> MIGPartitionEntry list \<Rightarrow> OccupancyEntry list \<Rightarrow> FaultEntry list \<Rightarrow> unit GPUPool" where
  "example_pool g mode part occ faults =
     \<lparr> pool_Name = ''pool'', pool_Generation = 1,
       pool_Spec = \<lparr> ps_ModelRef = ''h100'', ps_NodeSelector = fmempty, ps_GPUsPerNode = g,
         ps_Advertise = \<lparr> adv_DRA = None, adv_ExtendedResource = None \<rparr>,
         ps_MIGPartition = part, ps_Faults = faults, ps_Utilization = None, ps_Occupancy = occ,
         ps_SharingMode = mode, ps_Topology = \<lparr> top_NVLinkDomainSize = 4, top_NUMAAware = True \<rparr> \<rparr>,
       pool_Status = \<lparr> st_Conditions = [], st_ObservedGeneration = 0, st_NodesMatched = 0, st_DevicesPublished = 0,
         st_GPUsOccupied = 0, st_GPUsFaulted = 0, st_MIGProfilesPublished = 0 \<rparr> \<rparr>"

definition example_node :: "int Node" where
  "example_node = \<lparr> nd_Name = ''node-0'', nd_Labels = fmempty, nd_Annotations = fmempty,
     nd_Capacity = fmempty, nd_Allocatable = fmempty, nd_Taints = [], nd_NodeInfo = no_node_info, nd_Phase = [] \<rparr>"

definition busy_default :: "int \<Rightarrow> OccupancyEntry" where
  "busy_default n = \<lparr> oe_NodeSelector = fmempty, oe_BusyPerNode = n \<rparr>"

definition fault_default :: "int \<Rightarrow> FaultEntry" where
  "fault_default n = \<lparr> fe_NodeSelector = fmempty, fe_GPUs = n, fe_Effect = [], fe_XID = 79 \<rparr>"

section \<open>The first entry that matches decides\<close>

locale first_match =
  fixes matches :: "'e \<Rightarrow> 'n \<Rightarrow> bool" and val :: "'e \<Rightarrow> 'r" and dflt :: 'r and pick :: "'e list \<Rightarrow> 'n \<Rightarrow> 'r"
  assumes pick_Nil: "pick [] n = dflt"
    and pick_Cons: "pick (e # es) n = (if matches e n then val e else pick es n)"
begin

lemma pick_eq_find: "pick es n = (case find (\<lambda>e. matches e n) es of None \<Rightarrow> dflt | Some e \<Rightarrow> val e)"
  by (induction es) (simp_all add: pick_Nil pick_Cons)

lemma pick_skip: "(\<And>e. e \<in> set es \<Longrightarrow> \<not> matches e n) \<Longrightarrow> pick (es @ es') n = pick es' n"
  by (induction es) (simp_all add: pick_Cons)

lemma pick_append_match: "e \<in> set es \<Longrightarrow> matches e n \<Longrightarrow> pick (es @ es') n = pick es n"
  by (induction es) (auto simp: pick_Cons)

lemma pick_cases:
  obtains (none) "\<And>e. e \<in> set es \<Longrightarrow> \<not> matches e n" "pick es n = dflt"
    | (first) before e after where "es = before @ e # after" "\<And>x. x \<in> set before \<Longrightarrow> \<not> matches x n"
      "matches e n" "pick es n = val e"
proof (cases "find (\<lambda>e. matches e n) es")
  case None
  then have "pick es n = dflt" by (simp add: pick_eq_find)
  moreover from None have "\<not> matches e n" if "e \<in> set es" for e using that by (simp add: find_None_iff)
  ultimately show ?thesis using none by blast
next
  case (Some e)
  then obtain i where i: "i < length es" "matches (es ! i) n" "e = es ! i" "\<forall>j<i. \<not> matches (es ! j) n"
    by (auto simp: find_Some_iff)
  have "es = take i es @ e # drop (Suc i) es" using i id_take_nth_drop [of i es] by simp
  moreover have "\<not> matches x n" if "x \<in> set (take i es)" for x
    using that i by (auto simp: in_set_conv_nth)
  moreover have "pick es n = val e" using Some by (simp add: pick_eq_find)
  ultimately show ?thesis using first i by blast
qed

end

interpretation busy: first_match "\<lambda>e lbls. selectorMatches (oe_NodeSelector e) lbls"
  "\<lambda>e. max 0 (min (oe_BusyPerNode e) g)" 0 "busy_loop g" for g
  by unfold_locales auto

interpretation fault: first_match "\<lambda>f lbls. selectorMatches (fe_NodeSelector f) lbls"
  "\<lambda>f. s\<lparr> ns_Faulted := max 0 (min (fe_GPUs f) g),
          ns_Effect := (if fe_Effect f = [] then FaultEffectEvict else fe_Effect f), ns_XID := fe_XID f \<rparr>"
  s "fault_loop g s" for g s
  by unfold_locales auto

section \<open>Lemmas\<close>

lemma find_Some_in: "find P xs = Some x \<Longrightarrow> x \<in> set xs \<and> P x"
  by (auto simp: find_Some_iff)

lemma taint_simps:
  "Taint s i = None \<longleftrightarrow> Unavailable s \<le> i"
  "Taint s i \<noteq> None \<longleftrightarrow> i < Unavailable s"
  by (auto simp: Taint_def IsFaulted_def IsOccupied_def Unavailable_def)

lemma taint_keys:
  "OccupiedTaintKey \<noteq> FaultedTaintKey"
  "dt_Key OccupiedTaint = OccupiedTaintKey" "dt_Key (FaultedTaint e x) = FaultedTaintKey"
  by (simp_all add: OccupiedTaintKey_def FaultedTaintKey_def OccupiedTaint_def FaultedTaint_def Let_def)

lemma busy_loop_range: "0 \<le> g \<Longrightarrow> 0 \<le> busy_loop g es l \<and> busy_loop g es l \<le> g"
  by (cases rule: busy.pick_cases [of es l g]) auto

lemma fault_loop_fields:
  "ns_Busy (fault_loop g s fs l) = ns_Busy s"
  "0 \<le> g \<Longrightarrow> ns_Faulted s = 0 \<Longrightarrow> 0 \<le> ns_Faulted (fault_loop g s fs l) \<and> ns_Faulted (fault_loop g s fs l) \<le> g"
  by (cases rule: fault.pick_cases [of fs l g s]; simp)+

lemma StateFor_range:
  assumes "0 \<le> ps_GPUsPerNode (pool_Spec p)"
  shows "0 \<le> ns_Busy (StateFor p n)" "ns_Busy (StateFor p n) \<le> ps_GPUsPerNode (pool_Spec p)"
    "0 \<le> ns_Faulted (StateFor p n)" "ns_Faulted (StateFor p n) \<le> ps_GPUsPerNode (pool_Spec p)"
    "0 \<le> Unavailable (StateFor p n)" "Unavailable (StateFor p n) \<le> ps_GPUsPerNode (pool_Spec p)"
  using assms by (simp_all add: StateFor_def fault_loop_fields BusyGPUs_def busy_loop_range Unavailable_def le_max_iff_disj)

text \<open>The number of indices of a loop below a bound.\<close>

lemma count_below:
  assumes "0 \<le> u" "u \<le> n"
  shows "length (filter (\<lambda>i. i < u) (range_int n)) = nat u"
proof -
  have "set (filter (\<lambda>i. i < u) (range_int n)) = {0..<u}" using assms by auto
  moreover have "distinct (filter (\<lambda>i. i < u) (range_int n))" by simp
  ultimately show ?thesis by (metis distinct_card card_atLeastLessThan_int diff_zero)
qed

lemma occupancy_loop_Inr:
  "occupancy_loop g es = Inr () \<longleftrightarrow> (\<forall>e \<in> set es. 0 \<le> oe_BusyPerNode e \<and> oe_BusyPerNode e \<le> g)"
  by (induction es) auto

lemma faults_loop_Inr:
  "faults_loop g fs = Inr () \<longleftrightarrow>
     (\<forall>f \<in> set fs. 0 \<le> fe_GPUs f \<and> fe_GPUs f \<le> g \<and> fe_Effect f \<in> {[], FaultEffectEvict, FaultEffectUnschedulable})"
  by (induction fs) auto

lemma taint_counts:
  assumes "0 \<le> ns_Busy s" "ns_Busy s \<le> n" "0 \<le> ns_Faulted s" "ns_Faulted s \<le> n"
  shows "length (filter (\<lambda>i. Taint s i \<noteq> None) (range_int n)) = nat (Unavailable s)"
    and "length (filter (\<lambda>i. \<exists>t. Taint s i = Some t \<and> dt_Key t = FaultedTaintKey) (range_int n)) = nat (ns_Faulted s)"
    and "length (filter (\<lambda>i. Taint s i = Some OccupiedTaint) (range_int n)) = nat (ns_Busy s - ns_Faulted s)"
proof -
  have f: "(\<exists>t. Taint s i = Some t \<and> dt_Key t = FaultedTaintKey) \<longleftrightarrow> i < ns_Faulted s" for i
    using taint_keys by (auto simp: Taint_def IsFaulted_def)
  have oc: "Taint s i = Some OccupiedTaint \<longleftrightarrow> i < Unavailable s \<and> \<not> i < ns_Faulted s" for i
    using taint_keys(1) taint_keys(2) taint_keys(3) [of "ns_Effect s" "ns_XID s"]
    by (auto simp: Taint_def IsFaulted_def IsOccupied_def Unavailable_def)
  have u: "0 \<le> Unavailable s" "Unavailable s \<le> n" using assms by (simp_all add: Unavailable_def le_max_iff_disj)
  have lf: "length (filter (\<lambda>i. i < ns_Faulted s) (range_int n)) = nat (ns_Faulted s)"
    by (rule count_below [OF assms(3,4)])
  have lu: "length (filter (\<lambda>i. i < Unavailable s) (range_int n)) = nat (Unavailable s)"
    by (rule count_below [OF u])
  have "filter (\<lambda>i. i < ns_Faulted s) (filter (\<lambda>i. i < Unavailable s) (range_int n))
      = filter (\<lambda>i. i < ns_Faulted s) (range_int n)"
    unfolding filter_filter by (rule filter_cong) (auto simp: Unavailable_def)
  with lf lu sum_length_filter_compl [of "\<lambda>i. i < ns_Faulted s" "filter (\<lambda>i. i < Unavailable s) (range_int n)"]
  have "length (filter (\<lambda>i. i < Unavailable s \<and> \<not> i < ns_Faulted s) (range_int n))
      = nat (Unavailable s) - nat (ns_Faulted s)"
    by simp
  also have "\<dots> = nat (ns_Busy s - ns_Faulted s)" using assms by (simp add: Unavailable_def max_def nat_diff_distrib)
  finally show "length (filter (\<lambda>i. Taint s i = Some OccupiedTaint) (range_int n)) = nat (ns_Busy s - ns_Faulted s)"
    by (simp only: oc)
  show "length (filter (\<lambda>i. Taint s i \<noteq> None) (range_int n)) = nat (Unavailable s)"
    using lu by (simp only: taint_simps(2))
  show "length (filter (\<lambda>i. \<exists>t. Taint s i = Some t \<and> dt_Key t = FaultedTaintKey) (range_int n)) = nat (ns_Faulted s)"
    using lf by (simp only: f)
qed

section \<open>Properties\<close>

text \<open>
  C22: the state of a node accounts for every card once: of \<open>n\<close> cards exactly \<open>Unavailable\<close> carry a taint,
  exactly the declared number a fault taint, and the rest of the busy ones the occupied taint; a card
  never has both, and none of the counts can leave \<open>0..n\<close> whatever the pool declares.
\<close>

theorem StateFor_taints:
  assumes "0 \<le> ps_GPUsPerNode (pool_Spec p)"
  shows "let s = StateFor p n; cards = range_int (ps_GPUsPerNode (pool_Spec p)) in
      length (filter (\<lambda>i. Taint s i \<noteq> None) cards) = nat (Unavailable s)
    \<and> length (filter (\<lambda>i. \<exists>t. Taint s i = Some t \<and> dt_Key t = FaultedTaintKey) cards) = nat (ns_Faulted s)
    \<and> length (filter (\<lambda>i. Taint s i = Some OccupiedTaint) cards) = nat (ns_Busy s - ns_Faulted s)
    \<and> Unavailable s \<in> {0..ps_GPUsPerNode (pool_Spec p)}"
  using StateFor_range [OF assms, of n] taint_counts [OF StateFor_range(1-4) [OF assms, of n]]
  by (simp add: Let_def)

theorem StateFor_taints_witness:
  "let s = StateFor (example_pool 8 SharingModeNone [] [busy_default 5] [fault_default 2]) example_node in
     Unavailable s = 5
   \<and> length (filter (\<lambda>i. Taint s i = Some OccupiedTaint) (range_int 8)) = 3"
  using StateFor_taints [of "example_pool 8 SharingModeNone [] [busy_default 5] [fault_default 2]" example_node]
  by (simp add: Let_def StateFor_def BusyGPUs_def example_pool_def busy_default_def fault_default_def selectorMatches_def
      Unavailable_def)

text \<open>
  A validated declaration is simulated as written, not clamped: when \<open>ValidateOccupancy\<close> and
  \<open>ValidateFaults\<close> accept a pool, a node's state is exactly what the first matching entry of each list
  declares (an omitted effect meaning \<open>Evict\<close>), and all healthy when no entry matches.
\<close>

theorem StateFor_validated:
  assumes "ValidateOccupancy p = Inr ()" "ValidateFaults p = Inr ()"
  shows "ns_Busy (StateFor p n) =
      (case find (\<lambda>e. selectorMatches (oe_NodeSelector e) (nd_Labels n)) (ps_Occupancy (pool_Spec p)) of
         None \<Rightarrow> 0 | Some e \<Rightarrow> oe_BusyPerNode e)
    \<and> (case find (\<lambda>f. selectorMatches (fe_NodeSelector f) (nd_Labels n)) (ps_Faults (pool_Spec p)) of
         None \<Rightarrow> ns_Faulted (StateFor p n) = 0
       | Some f \<Rightarrow> ns_Faulted (StateFor p n) = fe_GPUs f \<and> ns_XID (StateFor p n) = fe_XID f
           \<and> ns_Effect (StateFor p n) = (if fe_Effect f = [] then FaultEffectEvict else fe_Effect f)
           \<and> ns_Effect (StateFor p n) \<in> {FaultEffectEvict, FaultEffectUnschedulable})"
proof -
  have busy: "\<forall>e \<in> set (ps_Occupancy (pool_Spec p)). 0 \<le> oe_BusyPerNode e \<and> oe_BusyPerNode e \<le> ps_GPUsPerNode (pool_Spec p)"
    using assms(1) by (simp only: ValidateOccupancy_def occupancy_loop_Inr)
  have fault: "\<forall>f \<in> set (ps_Faults (pool_Spec p)). 0 \<le> fe_GPUs f \<and> fe_GPUs f \<le> ps_GPUsPerNode (pool_Spec p)
      \<and> fe_Effect f \<in> {[], FaultEffectEvict, FaultEffectUnschedulable}"
    using assms(2) by (simp only: ValidateFaults_def faults_loop_Inr)
  have "ns_Busy (StateFor p n) =
      (case find (\<lambda>e. selectorMatches (oe_NodeSelector e) (nd_Labels n)) (ps_Occupancy (pool_Spec p)) of
         None \<Rightarrow> 0 | Some e \<Rightarrow> oe_BusyPerNode e)"
    using busy by (auto simp: StateFor_def fault_loop_fields BusyGPUs_def busy.pick_eq_find split: option.splits dest: find_Some_in)
  then show ?thesis using fault
    by (auto simp: StateFor_def fault.pick_eq_find split: option.splits dest: find_Some_in)
qed

theorem StateFor_validated_witness:
  "ns_Faulted (StateFor (example_pool 8 SharingModeNone [] [busy_default 5] [fault_default 2]) example_node) = 2
   \<and> ns_Effect (StateFor (example_pool 8 SharingModeNone [] [busy_default 5] [fault_default 2]) example_node) = FaultEffectEvict"
  using StateFor_validated [of "example_pool 8 SharingModeNone [] [busy_default 5] [fault_default 2]" example_node]
  by (simp add: ValidateOccupancy_def ValidateFaults_def example_pool_def busy_default_def fault_default_def selectorMatches_def)

text \<open>
  A selector entry with an empty value also matches a node that does not carry the label at all,
  since Go reads a missing map entry as the empty string; so the entry applies to every node without it.
\<close>

theorem selectorMatches_absent:
  "selectorMatches (fmupd k [] fmempty) l \<longleftrightarrow> fmlookup l k \<in> {None, Some []}"
  by (auto simp: selectorMatches_def get_str_def split: option.splits)

end
