(* ===== verification/Gpu_Resources.thy ===== *)
theory Gpu_Resources
  imports Mig_Expand Gpu_State
begin

text \<open>
  \<open>internal/gpu/migresources.go\<close> and \<open>internal/gpu/nodelabels.go\<close>: the extended resources and the GPU
  Feature Discovery labels of a simulated node. The lemmas: \<open>MaxInstances\<close> is the largest number of
  instances that fits a card, capacity and allocatable advertise the same resources, and allocatable is
  capacity less what is busy or broken.
\<close>

section \<open>migresources.go\<close>

definition GPUResourceName :: string where "GPUResourceName = ''nvidia.com/gpu''"
definition MIGResourcePrefix :: string where "MIGResourcePrefix = ''nvidia.com/mig-''"

definition MIGResourceName :: "string \<Rightarrow> string" where
  "MIGResourceName prof = MIGResourcePrefix @ prof"

definition MaxInstances :: "'q quantity_ops \<Rightarrow> 'q Profile \<Rightarrow> 'q Budget \<Rightarrow> int" where
  "MaxInstances Q p budget =
     (if pr_Slices p \<le> 0 then 0
      else (let bySlices = bd_Slices budget sdiv pr_Slices p;
                profileBytes = q_Value Q (pr_Memory p);
                byMemory = (if profileBytes > 0 then q_Value Q (bd_Memory budget) sdiv profileBytes else 0)
            in min bySlices byMemory))"

text \<open>The number of instances per card of one profile: as declared, or the most that fit.\<close>

definition perCard :: "'q quantity_ops \<Rightarrow> 'm GPUPool \<Rightarrow> 'q Table \<Rightarrow> 'q Profile \<Rightarrow> int" where
  "perCard Q pool table p =
     (let declared = ps_MIGPartition (pool_Spec pool);
          perGPU = foldl (\<lambda>m e. fmupd (mpe_Profile e) (wrap32 (get_int m (mpe_Profile e) + mpe_Count e)) m)
                         fmempty declared
      in if declared = [] then MaxInstances Q p (tb_Budget table) else get_int perGPU (pr_Name p))"

definition nodeResourcesFor ::
  "'q quantity_ops \<Rightarrow> 'm GPUPool \<Rightarrow> 'q Table \<Rightarrow> int \<Rightarrow> (string, 'q) fmap" where
  "nodeResourcesFor Q pool table gpusAvailable =
     (if \<not> MIGEnabled (pool_Spec pool)
      then fmupd GPUResourceName (q_NewQuantity Q gpusAvailable DecimalSI) fmempty
      else foldl (\<lambda>resources p.
             if perCard Q pool table p \<le> 0 then resources
             else fmupd (MIGResourceName (pr_Name p))
                    (q_NewQuantity Q (wrap64 (perCard Q pool table p * gpusAvailable)) DecimalSI) resources)
           (fmupd GPUResourceName (q_NewQuantity Q 0 DecimalSI) fmempty) (tb_Profiles table))"

definition NodeResources :: "'q quantity_ops \<Rightarrow> 'm GPUPool \<Rightarrow> 'q Table \<Rightarrow> (string, 'q) fmap" where
  "NodeResources Q pool table = nodeResourcesFor Q pool table (ps_GPUsPerNode (pool_Spec pool))"

definition NodeAllocatable ::
  "'q quantity_ops \<Rightarrow> 'm GPUPool \<Rightarrow> 'q Table \<Rightarrow> NodeState \<Rightarrow> (string, 'q) fmap" where
  "NodeAllocatable Q pool table state =
     nodeResourcesFor Q pool table (max 0 (wrap32 (ps_GPUsPerNode (pool_Spec pool) - Unavailable state)))"

section \<open>nodelabels.go\<close>

definition mib :: int where "mib = 1024 * 1024"
definition labelTrue :: string where "labelTrue = ''true''"
definition LabelGPUPresent :: string where "LabelGPUPresent = ''nvidia.com/gpu.present''"
definition LabelGPUCount :: string where "LabelGPUCount = ''nvidia.com/gpu.count''"
definition LabelGPUProduct :: string where "LabelGPUProduct = ''nvidia.com/gpu.product''"
definition LabelGPUMemory :: string where "LabelGPUMemory = ''nvidia.com/gpu.memory''"
definition LabelComputeMajor :: string where "LabelComputeMajor = ''nvidia.com/gpu.compute.major''"
definition LabelComputeMinor :: string where "LabelComputeMinor = ''nvidia.com/gpu.compute.minor''"
definition LabelMIGCapable :: string where "LabelMIGCapable = ''nvidia.com/mig.capable''"
definition LabelMIGStrategy :: string where "LabelMIGStrategy = ''nvidia.com/mig.strategy''"
definition MIGStrategyMixed :: string where "MIGStrategyMixed = ''mixed''"

lemmas label_key_defs = LabelGPUPresent_def LabelGPUCount_def LabelGPUProduct_def LabelGPUMemory_def
  LabelComputeMajor_def LabelComputeMinor_def LabelMIGCapable_def LabelMIGStrategy_def

definition NodeLabels :: "'q quantity_ops \<Rightarrow> 'm GPUPool \<Rightarrow> 'q GPUModel \<Rightarrow> labels" where
  "NodeLabels Q pool model =
     (let lbls0 = fmap_of_list
            [(LabelGPUPresent, labelTrue),
             (LabelGPUCount, Itoa (ps_GPUsPerNode (pool_Spec pool))),
             (LabelGPUProduct, ms_ProductName (model_Spec model)),
             (LabelGPUMemory, Itoa (q_Value Q (ms_Memory (model_Spec model)) sdiv mib))];
          lbls1 = (case Cut (ms_ComputeCapability (model_Spec model)) CHR ''.'' of (major, minor, ok) \<Rightarrow>
            if ok then fmupd LabelComputeMinor minor (fmupd LabelComputeMajor major lbls0) else lbls0)
      in if MIGEnabled (pool_Spec pool)
         then fmupd LabelGPUCount ''0'' (fmupd LabelMIGStrategy MIGStrategyMixed (fmupd LabelMIGCapable labelTrue lbls1))
         else lbls1)"

section \<open>Lemmas\<close>

lemma MIGResourceName_inject [simp]: "MIGResourceName a = MIGResourceName b \<longleftrightarrow> a = b"
  by (simp add: MIGResourceName_def)

lemma MIGResourceName_GPU [simp]: "MIGResourceName a \<noteq> GPUResourceName" "GPUResourceName \<noteq> MIGResourceName a"
  by (simp_all add: MIGResourceName_def MIGResourcePrefix_def GPUResourceName_def)

lemma perCard_declared:
  "ps_MIGPartition (pool_Spec pool) \<noteq> [] \<Longrightarrow>
     perCard Q pool table p = wrap32 (declared (ps_MIGPartition (pool_Spec pool)) (pr_Name p))"
  using get_partition_counts [of "ps_MIGPartition (pool_Spec pool)" "pr_Name p"]
  by (simp add: perCard_def partition_counts_def Let_def)

text \<open>The loop over the table, for any starting resources.\<close>

lemma resources_loop_dom:
  "fmdom' (foldl (\<lambda>r p. if c p \<le> (0::int) then r else fmupd (MIGResourceName (pr_Name p)) (v p) r) r0 ps) =
     fmdom' r0 \<union> {MIGResourceName (pr_Name p) | p. p \<in> set ps \<and> 0 < c p}"
  by (induction ps arbitrary: r0) (auto simp: not_le)

lemma resources_loop_other:
  "(\<And>p. p \<in> set ps \<Longrightarrow> k \<noteq> MIGResourceName (pr_Name p)) \<Longrightarrow>
   fmlookup (foldl (\<lambda>r p. if c p \<le> (0::int) then r else fmupd (MIGResourceName (pr_Name p)) (v p) r) r0 ps) k = fmlookup r0 k"
  by (induction ps arbitrary: r0) auto

lemma resources_loop_lookup:
  assumes "distinct (map pr_Name ps)" "p \<in> set ps" "0 < c p"
  shows "fmlookup (foldl (\<lambda>r p. if c p \<le> (0::int) then r else fmupd (MIGResourceName (pr_Name p)) (v p) r) r0 ps)
      (MIGResourceName (pr_Name p)) = Some (v p)"
  using assms(1,2)
proof (induction ps arbitrary: r0)
  case (Cons q ps)
  show ?case
  proof (cases "p = q")
    case True
    then have "pr_Name p \<notin> pr_Name ` set ps" using Cons.prems by simp
    then have "MIGResourceName (pr_Name p) \<noteq> MIGResourceName (pr_Name x)" if "x \<in> set ps" for x
      using that by (metis MIGResourceName_inject image_eqI)
    then have "fmlookup (foldl (\<lambda>r p. if c p \<le> 0 then r else fmupd (MIGResourceName (pr_Name p)) (v p) r)
        (fmupd (MIGResourceName (pr_Name p)) (v p) r0) ps) (MIGResourceName (pr_Name p)) = Some (v p)"
      by (subst resources_loop_other) simp_all
    then show ?thesis using True assms(3) by (simp add: not_le)
  next
    case False
    with Cons show ?thesis by simp
  qed
qed simp

lemma nodeResourcesFor_GPU:
  "fmlookup (nodeResourcesFor Q pool table n) GPUResourceName =
     Some (q_NewQuantity Q (if MIGEnabled (pool_Spec pool) then 0 else n) DecimalSI)"
  by (simp add: nodeResourcesFor_def resources_loop_other)

lemma nodeResourcesFor_MIG:
  assumes "MIGEnabled (pool_Spec pool)" "distinct (map pr_Name (tb_Profiles table))" "p \<in> set (tb_Profiles table)"
    "0 < perCard Q pool table p"
  shows "fmlookup (nodeResourcesFor Q pool table n) (MIGResourceName (pr_Name p)) =
    Some (q_NewQuantity Q (wrap64 (perCard Q pool table p * n)) DecimalSI)"
  using resources_loop_lookup [OF assms(2,3), of "perCard Q pool table"] assms by (simp add: nodeResourcesFor_def)

lemma nodeResourcesFor_dom:
  "fmdom' (nodeResourcesFor Q pool table n) =
     insert GPUResourceName (if MIGEnabled (pool_Spec pool)
       then {MIGResourceName (pr_Name p) | p. p \<in> set (tb_Profiles table) \<and> 0 < perCard Q pool table p} else {})"
  by (simp add: nodeResourcesFor_def resources_loop_dom)

text \<open>Truncating division by a positive number, on non-negative numbers, is the largest quotient.\<close>

lemma sdiv_greatest:
  assumes "0 \<le> (a::int)" "0 < b"
  shows "k \<le> a sdiv b \<longleftrightarrow> k * b \<le> a"
proof -
  have a: "a = (a div b) * b + a mod b" "0 \<le> a mod b" "a mod b < b" using assms by simp_all
  have "k \<le> a div b \<longleftrightarrow> k * b \<le> a"
  proof
    assume "k \<le> a div b"
    then have "k * b \<le> (a div b) * b" using assms by (intro mult_right_mono) simp_all
    then show "k * b \<le> a" using a by linarith
  next
    assume k: "k * b \<le> a"
    show "k \<le> a div b"
    proof (rule ccontr)
      assume "\<not> k \<le> a div b"
      then have "(a div b + 1) * b \<le> k * b" using assms by (intro mult_right_mono) simp_all
      then show False using a k by (simp only: distrib_right)
    qed
  qed
  then show ?thesis using assms by (simp add: sdiv_nonneg)
qed

lemma sdiv_bound: "0 < (b::int) \<Longrightarrow> a sdiv b \<le> max 0 a"
proof (cases "0 \<le> a")
  case True
  moreover assume "0 < b"
  ultimately show ?thesis using zdiv_mono2 [of a 1 b] by (simp add: sdiv_nonneg)
next
  case False
  moreover assume "0 < b"
  ultimately show ?thesis by (simp add: signed_divide_int_def pos_imp_zdiv_nonneg_iff)
qed

lemma perCard_bound:
  assumes "int32_range (bd_Slices (tb_Budget table))"
  shows "perCard Q pool table p < 2 ^ 31"
proof (cases "ps_MIGPartition (pool_Spec pool) = []")
  case True
  have "MaxInstances Q p b < 2 ^ 31" if b: "int32_range (bd_Slices b)" for b
  proof (cases "pr_Slices p \<le> 0")
    case False
    then have "bd_Slices b sdiv pr_Slices p \<le> max 0 (bd_Slices b)" by (intro sdiv_bound) simp
    then have "bd_Slices b sdiv pr_Slices p < 2 ^ 31" using b by (auto simp: int32_range_def max_def split: if_splits)
    then show ?thesis using False by (simp add: MaxInstances_def Let_def min_less_iff_disj)
  qed (simp add: MaxInstances_def)
  with assms True show ?thesis by (simp add: perCard_def)
next
  case False
  then show ?thesis using wrap32_range [of "declared (ps_MIGPartition (pool_Spec pool)) (pr_Name p)"]
    by (simp add: perCard_declared int32_range_def)
qed

lemma perCard_product:
  assumes "int32_range (bd_Slices (tb_Budget table))" "0 < perCard Q pool table p" "0 \<le> n" "n < 2 ^ 31"
  shows "wrap64 (perCard Q pool table p * n) = perCard Q pool table p * n"
proof (rule wrap64_id)
  have "perCard Q pool table p * n \<le> 2 ^ 31 * 2 ^ 31"
    using assms perCard_bound [OF assms(1), of Q pool p] by (intro mult_mono) simp_all
  moreover have "0 \<le> perCard Q pool table p * n" using assms by (intro mult_nonneg_nonneg) simp_all
  ultimately show "int64_range (perCard Q pool table p * n)" unfolding int64_range_def by simp
qed

section \<open>Properties\<close>

text \<open>
  \<open>MaxInstances\<close> is optimal: for a profile and a budget of whole bytes it is the greatest number of
  instances whose slices and whose memory both fit one card.
\<close>

theorem MaxInstances_greatest:
  assumes laws: "quantity_laws Q amt" and "0 < pr_Slices p" "0 \<le> bd_Slices b"
    and m: "amt (pr_Memory p) = of_int pm" "0 < pm" "pm < 2 ^ 63"
    and bm: "amt (bd_Memory b) = of_int bm" "0 \<le> bm" "bm < 2 ^ 63"
  shows "k \<le> MaxInstances Q p b \<longleftrightarrow> k * pr_Slices p \<le> bd_Slices b \<and> k * pm \<le> bm"
proof -
  have "q_Value Q (pr_Memory p) = pm" using m by (intro Value_of_int [OF laws]) simp_all
  moreover have "q_Value Q (bd_Memory b) = bm" using bm by (intro Value_of_int [OF laws]) simp_all
  ultimately show ?thesis using assms(2,3) m bm by (simp add: MaxInstances_def sdiv_greatest)
qed

theorem MaxInstances_greatest_witness:
  "MaxInstances int_quantity \<lparr> pr_Name = ''1g.20gb'', pr_Memory = 20, pr_Slices = 1 \<rparr> \<lparr> bd_Memory = 80, bd_Slices = 7 \<rparr> \<ge> 4
   \<and> \<not> MaxInstances int_quantity \<lparr> pr_Name = ''1g.20gb'', pr_Memory = 20, pr_Slices = 1 \<rparr> \<lparr> bd_Memory = 80, bd_Slices = 7 \<rparr> \<ge> 5"
  using MaxInstances_greatest [OF int_quantity_laws, of "\<lparr> pr_Name = ''1g.20gb'', pr_Memory = 20, pr_Slices = 1 \<rparr>"
    "\<lparr> bd_Memory = 80, bd_Slices = 7 \<rparr>" 20 80 4]
    MaxInstances_greatest [OF int_quantity_laws, of "\<lparr> pr_Name = ''1g.20gb'', pr_Memory = 20, pr_Slices = 1 \<rparr>"
    "\<lparr> bd_Memory = 80, bd_Slices = 7 \<rparr>" 20 80 5]
  by simp

text \<open>
  C23: a node's capacity and allocatable advertise the same resources, so nothing vanishes when every card
  is busy; allocatable never exceeds capacity, and equals it when no card is busy or broken.
\<close>

theorem allocatable_within_capacity:
  assumes laws: "quantity_laws Q amt" and g: "0 \<le> ps_GPUsPerNode (pool_Spec pool)" "ps_GPUsPerNode (pool_Spec pool) < 2 ^ 31"
    and "int32_range (bd_Slices (tb_Budget t))" "distinct (map pr_Name (tb_Profiles t))"
  shows "fmdom' (NodeAllocatable Q pool t (StateFor pool n)) = fmdom' (NodeResources Q pool t)
    \<and> (\<forall>k a c. fmlookup (NodeAllocatable Q pool t (StateFor pool n)) k = Some a
         \<and> fmlookup (NodeResources Q pool t) k = Some c \<longrightarrow> amt a \<le> amt c)
    \<and> (Unavailable (StateFor pool n) = 0 \<longrightarrow>
         NodeAllocatable Q pool t (StateFor pool n) = NodeResources Q pool t)"
proof -
  let ?g = "ps_GPUsPerNode (pool_Spec pool)" and ?u = "Unavailable (StateFor pool n)"
  note u = StateFor_range(5,6) [OF g(1), of n]
  have "int32_range (?g - ?u)" unfolding int32_range_def using g u by simp
  then have alloc: "NodeAllocatable Q pool t (StateFor pool n) = nodeResourcesFor Q pool t (?g - ?u)"
    using u by (simp add: NodeAllocatable_def)
  have mono: "amt a \<le> amt c"
    if a: "fmlookup (nodeResourcesFor Q pool t (?g - ?u)) k = Some a" and c: "fmlookup (nodeResourcesFor Q pool t ?g) k = Some c" for k a c
  proof (cases "k = GPUResourceName")
    case True
    then show ?thesis using a c u by (auto simp: nodeResourcesFor_GPU quantity_laws_NewQuantity [OF laws])
  next
    case False
    from a have "k \<in> fmdom' (nodeResourcesFor Q pool t (?g - ?u))" by (rule fmdom'I)
    with False obtain p where mig: "MIGEnabled (pool_Spec pool)" and p: "p \<in> set (tb_Profiles t)" "0 < perCard Q pool t p"
      and k: "k = MIGResourceName (pr_Name p)" by (auto simp: nodeResourcesFor_dom split: if_splits)
    have le: "perCard Q pool t p * (?g - ?u) \<le> perCard Q pool t p * ?g" using p u by (intro mult_left_mono) simp_all
    moreover have "?g - ?u < 2 ^ 31" using g u by simp
    ultimately have "a = q_NewQuantity Q (perCard Q pool t p * (?g - ?u)) DecimalSI"
      and "c = q_NewQuantity Q (perCard Q pool t p * ?g) DecimalSI"
      using a c u g by (simp_all add: k nodeResourcesFor_MIG [OF mig assms(5) p] perCard_product [OF assms(4) p(2)])
    then show ?thesis using le by (simp only: quantity_laws_NewQuantity [OF laws] of_int_le_iff)
  qed
  show ?thesis unfolding alloc NodeResources_def using mono by (auto simp: nodeResourcesFor_dom)
qed

theorem allocatable_within_capacity_witness:
  "fmdom' (NodeAllocatable int_quantity (example_pool 8 SharingModeNone [] [busy_default 5] [])
      \<lparr> tb_Budget = \<lparr> bd_Memory = 80, bd_Slices = 7 \<rparr>, tb_Profiles = [] \<rparr>
      (StateFor (example_pool 8 SharingModeNone [] [busy_default 5] []) example_node)) =
    fmdom' (NodeResources int_quantity (example_pool 8 SharingModeNone [] [busy_default 5] [])
      \<lparr> tb_Budget = \<lparr> bd_Memory = 80, bd_Slices = 7 \<rparr>, tb_Profiles = [] \<rparr>)"
  using allocatable_within_capacity [OF int_quantity_laws, of "example_pool 8 SharingModeNone [] [busy_default 5] []"
    "\<lparr> tb_Budget = \<lparr> bd_Memory = 80, bd_Slices = 7 \<rparr>, tb_Profiles = [] \<rparr>" example_node]
  by (simp add: example_pool_def int32_range_def)

text \<open>
  The node labels follow GPU Feature Discovery: the two compute labels are there exactly when the
  capability has a dot, and then spell it; the memory label is the memory in MiB, rounded down; the card
  count is the pool's, or 0 once every card is partitioned, and the MIG labels appear only then.
\<close>

theorem NodeLabels_spec:
  assumes "quantity_laws Q amt" "amt (ms_Memory (model_Spec m)) = of_int bytes" "0 \<le> bytes" "bytes < 2 ^ 63"
  shows "(case (fmlookup (NodeLabels Q p m) LabelComputeMajor, fmlookup (NodeLabels Q p m) LabelComputeMinor) of
      (Some major, Some minor) \<Rightarrow> ms_ComputeCapability (model_Spec m) = major @ ''.'' @ minor
    | (None, None) \<Rightarrow> CHR ''.'' \<notin> set (ms_ComputeCapability (model_Spec m))
    | _ \<Rightarrow> False)
   \<and> fmlookup (NodeLabels Q p m) LabelGPUMemory = Some (Itoa (bytes div (1024 * 1024)))
   \<and> fmlookup (NodeLabels Q p m) LabelGPUCount =
       Some (if MIGEnabled (pool_Spec p) then ''0'' else Itoa (ps_GPUsPerNode (pool_Spec p)))
   \<and> fmlookup (NodeLabels Q p m) LabelMIGStrategy = (if MIGEnabled (pool_Spec p) then Some MIGStrategyMixed else None)"
proof -
  note v = Value_of_int [OF assms]
  obtain a b f where cut: "Cut (ms_ComputeCapability (model_Spec m)) CHR ''.'' = (a, b, f)" by (cases "Cut (ms_ComputeCapability (model_Spec m)) CHR ''.''")
  have f: "if f then ms_ComputeCapability (model_Spec m) = a @ ''.'' @ b else CHR ''.'' \<notin> set (ms_ComputeCapability (model_Spec m))"
  proof (cases f)
    case True
    then show ?thesis using Cut_found [of _ _ a b] cut by simp
  next
    case False
    have "CHR ''.'' \<notin> set s" if "Cut s CHR ''.'' = (x, y, False)" for s x y
      using that by (induction s arbitrary: x) (auto split: if_splits prod.splits)
    then show ?thesis using cut False by simp
  qed
  then show ?thesis using v assms(3)
    by (simp add: NodeLabels_def Let_def cut label_key_defs fmlookup_of_list mib_def sdiv_nonneg split: if_splits)
qed

theorem NodeLabels_spec_witness:
  "fmlookup (NodeLabels int_quantity (example_pool 8 SharingModeMIG [] [] [])
     \<lparr> model_Name = ''h100'', model_Spec = \<lparr> ms_Vendor = ''nvidia'', ms_ProductName = ''NVIDIA-H100'',
        ms_Memory = 80 * 2 ^ 30, ms_ComputeCapability = ''9.0'', ms_MIGProfiles = [], ms_MIGBudget = None \<rparr> \<rparr>) LabelGPUMemory
   = Some (Itoa 81920)"
  using NodeLabels_spec [OF int_quantity_laws, of "\<lparr> model_Name = ''h100'', model_Spec = \<lparr> ms_Vendor = ''nvidia'',
     ms_ProductName = ''NVIDIA-H100'', ms_Memory = 80 * 2 ^ 30, ms_ComputeCapability = ''9.0'', ms_MIGProfiles = [],
     ms_MIGBudget = None \<rparr> \<rparr>" "80 * 2 ^ 30" "example_pool 8 SharingModeMIG [] [] []"]
  by simp

end
