(* ===== verification/Gpu_Slices.thy ===== *)
theory Gpu_Slices
  imports Gpu_Resources
begin

text \<open>
  \<open>internal/gpu/resourceslice.go\<close> and \<open>internal/gpu/migslices.go\<close>: the \<open>ResourceSlice\<close> objects that publish
  the cards of one node, whole or partitioned. \<open>dra_pool_ok\<close> collects what the DRA API demands of the
  slices of one pool: a shared header with the right slice count, names without repetition, counters and
  devices in different slices, the limits on both, and no consumption of an undeclared counter set. Both
  builders produce such pools; the sharding of the MIG builder loses and repeats nothing.

  The MIG builder uses an expansion only through the contract of the locale \<open>expansion\<close>, so what is
  proved of it holds for dynamic and for static MIG.
\<close>

section \<open>resourceslice.go\<close>

definition DriverName :: string where "DriverName = ''gpu.ghostgpu.dev''"
definition AttrProductName :: string where "AttrProductName = ''productName''"
definition AttrVendor :: string where "AttrVendor = ''vendor''"
definition AttrUUID :: string where "AttrUUID = ''uuid''"
definition AttrNVLinkDomain :: string where "AttrNVLinkDomain = ''nvlinkDomain''"
definition AttrNUMANode :: string where "AttrNUMANode = ''numaNode''"
definition AttrMIGProfile :: string where "AttrMIGProfile = ''migProfile''"
definition AttrMIGInstanceID :: string where "AttrMIGInstanceID = ''migInstanceID''"
definition MaxDevicesPerSlice :: nat where "MaxDevicesPerSlice = 128"

lemmas attr_defs = AttrProductName_def AttrVendor_def AttrUUID_def AttrNVLinkDomain_def AttrNUMANode_def
  AttrMIGProfile_def AttrMIGInstanceID_def

definition SliceName :: "string \<Rightarrow> string \<Rightarrow> string" where
  "SliceName poolName nodeName = poolName @ ''-'' @ nodeName"

definition stringAttr :: "string \<Rightarrow> DeviceAttribute" where
  "stringAttr s = \<lparr> da_StringValue = Some s, da_IntValue = None \<rparr>"

definition intAttr :: "int \<Rightarrow> DeviceAttribute" where
  "intAttr i = \<lparr> da_StringValue = None, da_IntValue = Some i \<rparr>"

text \<open>The body of the loop of \<open>BuildResourceSlice\<close>: one card as a device.\<close>

definition gpu_device :: "'m GPUPool \<Rightarrow> 'q GPUModel \<Rightarrow> string \<Rightarrow> NodeState \<Rightarrow> int \<Rightarrow> 'q Device" where
  "gpu_device pool model nodeName state i =
     (let attrs0 = fmap_of_list
            [(AttrProductName, stringAttr (ms_ProductName (model_Spec model))),
             (AttrVendor, stringAttr (ms_Vendor (model_Spec model))),
             (AttrUUID, stringAttr (DeviceUUID nodeName i))];
          size = top_NVLinkDomainSize (ps_Topology (pool_Spec pool));
          domain = NVLinkDomain i size;
          attrs1 = (if domain \<noteq> [] then fmupd AttrNVLinkDomain (stringAttr domain) attrs0 else attrs0);
          attrs2 = (if top_NUMAAware (ps_Topology (pool_Spec pool))
                    then fmupd AttrNUMANode (intAttr (NUMANode i size)) attrs1 else attrs1);
          device = \<lparr> dv_Name = DeviceName nodeName i, dv_Attributes = attrs2,
                     dv_Capacity = fmupd ''memory'' (ms_Memory (model_Spec model)) fmempty,
                     dv_ConsumesCounters = [], dv_Taints = [] \<rparr>
      in case Taint state i of None \<Rightarrow> device | Some taint \<Rightarrow> device\<lparr> dv_Taints := [taint] \<rparr>)"

definition BuildResourceSlice ::
  "'m GPUPool \<Rightarrow> 'q GPUModel \<Rightarrow> string \<Rightarrow> NodeState \<Rightarrow> 'q ResourceSlice option" where
  "BuildResourceSlice pool model nodeName state =
     (if ps_GPUsPerNode (pool_Spec pool) < 0 then None
      else Some
        \<lparr> rs_Name = SliceName (pool_Name pool) nodeName, rs_Labels = fmempty, rs_Owner = None,
          rs_Spec = \<lparr> rss_Driver = DriverName, rss_NodeName = Some nodeName,
            rss_Pool = \<lparr> rp_Name = nodeName, rp_Generation = 1, rp_ResourceSliceCount = 1 \<rparr>,
            rss_SharedCounters = [],
            rss_Devices = map (gpu_device pool model nodeName state) (range_int (ps_GPUsPerNode (pool_Spec pool))) \<rparr> \<rparr>)"

section \<open>migslices.go\<close>

definition MaxCounterSetsPerSlice :: int where "MaxCounterSetsPerSlice = 8"
definition MaxMIGDevicesPerSlice :: int where "MaxMIGDevicesPerSlice = 64"
definition counterMemory :: string where "counterMemory = ''memory''"
definition counterSlices :: string where "counterSlices = ''slices''"

definition MIGCounterSliceName :: "string \<Rightarrow> string \<Rightarrow> int \<Rightarrow> string" where
  "MIGCounterSliceName poolName nodeName shard = poolName @ ''-'' @ nodeName @ ''-counters-'' @ Itoa shard"

definition MIGDeviceSliceName :: "string \<Rightarrow> string \<Rightarrow> int \<Rightarrow> string" where
  "MIGDeviceSliceName poolName nodeName shard = poolName @ ''-'' @ nodeName @ ''-devices-'' @ Itoa shard"

definition ceilDiv :: "int \<Rightarrow> int \<Rightarrow> int" where
  "ceilDiv a b = (if a \<le> 0 then 0 else (a + b - 1) sdiv b)"

definition newMIGSlice :: "string \<Rightarrow> string \<Rightarrow> int \<Rightarrow> 'q ResourceSlice" where
  "newMIGSlice name nodeName totalSlices =
     \<lparr> rs_Name = name, rs_Labels = fmempty, rs_Owner = None,
       rs_Spec = \<lparr> rss_Driver = DriverName, rss_NodeName = Some nodeName,
         rss_Pool = \<lparr> rp_Name = nodeName, rp_Generation = 1, rp_ResourceSliceCount = totalSlices \<rparr>,
         rss_SharedCounters = [], rss_Devices = [] \<rparr> \<rparr>"

definition budgetCounters :: "'q quantity_ops \<Rightarrow> 'q Budget \<Rightarrow> (string, 'q) fmap" where
  "budgetCounters Q budget = fmap_of_list
     [(counterMemory, bd_Memory budget), (counterSlices, q_NewQuantity Q (bd_Slices budget) DecimalSI)]"

definition migDevice :: "'q quantity_ops \<Rightarrow> 'm GPUPool \<Rightarrow> 'q GPUModel \<Rightarrow> 'q Instance \<Rightarrow> string \<Rightarrow> 'q Device" where
  "migDevice Q pool model inst nodeName =
     (let attrs0 = fmap_of_list
            [(AttrProductName, stringAttr (ms_ProductName (model_Spec model))),
             (AttrVendor, stringAttr (ms_Vendor (model_Spec model))),
             (AttrUUID, stringAttr (DeviceUUID nodeName (in_GPUIndex inst))),
             (AttrMIGProfile, stringAttr (pr_Name (in_Profile inst))),
             (AttrMIGInstanceID, intAttr (in_InstanceID inst))];
          size = top_NVLinkDomainSize (ps_Topology (pool_Spec pool));
          domain = NVLinkDomain (in_GPUIndex inst) size;
          attrs1 = (if domain \<noteq> [] then fmupd AttrNVLinkDomain (stringAttr domain) attrs0 else attrs0);
          attrs2 = (if top_NUMAAware (ps_Topology (pool_Spec pool))
                    then fmupd AttrNUMANode (intAttr (NUMANode (in_GPUIndex inst) size)) attrs1 else attrs1)
      in \<lparr> dv_Name = in_DeviceName inst, dv_Attributes = attrs2,
           dv_Capacity = fmupd counterMemory (pr_Memory (in_Profile inst)) fmempty,
           dv_ConsumesCounters =
             [\<lparr> dcc_CounterSet = in_CounterSet inst,
                dcc_Counters = fmap_of_list
                  [(counterMemory, pr_Memory (in_Profile inst)),
                   (counterSlices, q_NewQuantity Q (pr_Slices (in_Profile inst)) DecimalSI)] \<rparr>],
           dv_Taints = [] \<rparr>)"

text \<open>The body of the loop over the instances of a shard: the device with its card's taint.\<close>

definition tainted_migDevice ::
  "'q quantity_ops \<Rightarrow> 'm GPUPool \<Rightarrow> 'q GPUModel \<Rightarrow> string \<Rightarrow> NodeState \<Rightarrow> 'q Instance \<Rightarrow> 'q Device" where
  "tainted_migDevice Q pool model nodeName state inst =
     (let device = migDevice Q pool model inst nodeName in
      case Taint state (in_GPUIndex inst) of None \<Rightarrow> device | Some taint \<Rightarrow> device\<lparr> dv_Taints := [taint] \<rparr>)"

text \<open>The bodies of the two loops over the shards.\<close>

definition counter_slice ::
  "'q quantity_ops \<Rightarrow> 'm GPUPool \<Rightarrow> 'q Table \<Rightarrow> string \<Rightarrow> int \<Rightarrow> int \<Rightarrow> 'q ResourceSlice" where
  "counter_slice Q pool table nodeName totalSlices shard =
     (let gpus = ps_GPUsPerNode (pool_Spec pool);
          first = wrap32 (shard * MaxCounterSetsPerSlice);
          last = min (wrap32 (first + MaxCounterSetsPerSlice)) gpus;
          sets = map (\<lambda>gpu. \<lparr> cs_Name = CounterSetName gpu, cs_Counters = budgetCounters Q (tb_Budget table) \<rparr>)
                     [first..last - 1];
          slice = newMIGSlice (MIGCounterSliceName (pool_Name pool) nodeName shard) nodeName totalSlices
      in slice\<lparr> rs_Spec := (rs_Spec slice)\<lparr> rss_SharedCounters := sets \<rparr> \<rparr>)"

definition device_slice ::
  "'q quantity_ops \<Rightarrow> 'm GPUPool \<Rightarrow> 'q GPUModel \<Rightarrow> string \<Rightarrow> NodeState \<Rightarrow> 'q Instance list \<Rightarrow> int \<Rightarrow> int \<Rightarrow> 'q ResourceSlice" where
  "device_slice Q pool model nodeName state instances totalSlices shard =
     (let first = shard * MaxMIGDevicesPerSlice;
          last = min (first + MaxMIGDevicesPerSlice) (int (length instances));
          devices = map (tainted_migDevice Q pool model nodeName state) (subslice instances (nat first) (nat last));
          slice = newMIGSlice (MIGDeviceSliceName (pool_Name pool) nodeName shard) nodeName totalSlices
      in slice\<lparr> rs_Spec := (rs_Spec slice)\<lparr> rss_Devices := devices \<rparr> \<rparr>)"

text \<open>The instances to publish; \<open>Expand\<close> runs in either mode, so its panic counts in either mode.\<close>

definition mig_instances :: "'m GPUPool \<Rightarrow> 'q Table \<Rightarrow> 'q Instance list option" where
  "mig_instances pool table =
     (case Expand (ps_GPUsPerNode (pool_Spec pool)) table of
        None \<Rightarrow> None
      | Some instances \<Rightarrow>
          if ps_MIGPartition (pool_Spec pool) \<noteq> []
          then ExpandPartitioned (ps_GPUsPerNode (pool_Spec pool)) table (ps_MIGPartition (pool_Spec pool))
          else Some instances)"

definition BuildMIGSlices ::
  "'q quantity_ops \<Rightarrow> 'm GPUPool \<Rightarrow> 'q GPUModel \<Rightarrow> 'q Table \<Rightarrow> string \<Rightarrow> NodeState \<Rightarrow> 'q ResourceSlice list option" where
  "BuildMIGSlices Q pool model table nodeName state =
     (case mig_instances pool table of
        None \<Rightarrow> None
      | Some instances \<Rightarrow>
          (let counterShards = ceilDiv (ps_GPUsPerNode (pool_Spec pool)) MaxCounterSetsPerSlice;
               deviceShards = ceilDiv (int (length instances)) MaxMIGDevicesPerSlice;
               totalSlices = wrap32 (counterShards + deviceShards)
           in Some (map (counter_slice Q pool table nodeName totalSlices) (range_int counterShards)
                    @ map (device_slice Q pool model nodeName state instances totalSlices) (range_int deviceShards))))"

section \<open>What the DRA API demands of one pool's slices\<close>

definition pool_devices :: "'q ResourceSlice list \<Rightarrow> 'q Device list" where
  "pool_devices slices = concat (map (\<lambda>s. rss_Devices (rs_Spec s)) slices)"

definition pool_counters :: "'q ResourceSlice list \<Rightarrow> 'q CounterSet list" where
  "pool_counters slices = concat (map (\<lambda>s. rss_SharedCounters (rs_Spec s)) slices)"

definition slice_header_ok :: "string \<Rightarrow> nat \<Rightarrow> 'q ResourceSlice \<Rightarrow> bool" where
  "slice_header_ok nodeName n s \<longleftrightarrow>
     rss_Driver (rs_Spec s) = DriverName \<and> rss_NodeName (rs_Spec s) = Some nodeName
   \<and> rss_Pool (rs_Spec s) = \<lparr> rp_Name = nodeName, rp_Generation = 1, rp_ResourceSliceCount = int n \<rparr>"

definition slice_limits_ok :: "'q ResourceSlice \<Rightarrow> bool" where
  "slice_limits_ok s \<longleftrightarrow>
     (rss_SharedCounters (rs_Spec s) = [] \<or> rss_Devices (rs_Spec s) = [])
   \<and> int (length (rss_SharedCounters (rs_Spec s))) \<le> MaxCounterSetsPerSlice
   \<and> length (rss_Devices (rs_Spec s)) \<le> MaxDevicesPerSlice
   \<and> (list_ex (\<lambda>d. dv_ConsumesCounters d \<noteq> [] \<or> dv_Taints d \<noteq> []) (rss_Devices (rs_Spec s)) \<longrightarrow>
        int (length (rss_Devices (rs_Spec s))) \<le> MaxMIGDevicesPerSlice)"

definition counters_declared :: "'q ResourceSlice list \<Rightarrow> bool" where
  "counters_declared slices \<longleftrightarrow>
     (\<forall>d \<in> set (pool_devices slices). \<forall>c \<in> set (dv_ConsumesCounters d).
        dcc_CounterSet c \<in> cs_Name ` set (pool_counters slices))"

definition dra_pool_ok :: "string \<Rightarrow> 'q ResourceSlice list \<Rightarrow> bool" where
  "dra_pool_ok nodeName slices \<longleftrightarrow>
     list_all (slice_header_ok nodeName (length slices)) slices
   \<and> distinct (map rs_Name slices)
   \<and> distinct (map dv_Name (pool_devices slices))
   \<and> distinct (map cs_Name (pool_counters slices))
   \<and> counters_declared slices"

section \<open>Lemmas: sharding\<close>

text \<open>Consecutive shards of \<open>n\<close> indices, the last one cut off at the end, are the indices in order.\<close>

lemma concat_shards: "concat (map (\<lambda>k. [k * n..<min (k * n + n) len]) [0..<m]) = [0..<min (m * n) len]"
proof (induction m)
  case (Suc m)
  show ?case
  proof (cases "m * n \<le> len")
    case True
    then have "[0..<min (m * n) len] @ [m * n..<min (m * n + n) len] = [0..<min (m * n + n) len]"
      using upt_add_eq_append [of 0 "m * n" "min (m * n + n) len - m * n"] by simp
    with Suc show ?thesis by (simp add: add.commute)
  next
    case False
    with Suc show ?thesis by simp
  qed
qed simp

lemma subslice_nth: "j \<le> length xs \<Longrightarrow> subslice xs i j = map ((!) xs) [i..<j]"
  by (rule nth_equalityI) (auto simp: subslice_def)

lemma concat_subslices:
  "length xs \<le> m * n \<Longrightarrow> concat (map (\<lambda>k. subslice xs (k * n) (min (k * n + n) (length xs))) [0..<m]) = xs"
proof -
  assume l: "length xs \<le> m * n"
  have "concat (map (\<lambda>k. subslice xs (k * n) (min (k * n + n) (length xs))) [0..<m])
      = map ((!) xs) (concat (map (\<lambda>k. [k * n..<min (k * n + n) (length xs)]) [0..<m]))"
    by (simp add: map_concat o_def subslice_nth)
  also have "\<dots> = xs" using l by (simp add: concat_shards min.absorb2 map_nth)
  finally show ?thesis .
qed

lemma ceilDiv_bounds:
  assumes "0 \<le> a" "0 < b"
  shows "0 \<le> ceilDiv a b" "a \<le> ceilDiv a b * b" "ceilDiv a b * b < a + b"
proof -
  have c: "ceilDiv a b = (a + b - 1) div b" using assms by (auto simp: ceilDiv_def sdiv_nonneg)
  moreover have "a + b - 1 = ceilDiv a b * b + (a + b - 1) mod b" by (simp add: c)
  moreover have "0 \<le> (a + b - 1) mod b" "(a + b - 1) mod b < b" using assms by simp_all
  moreover have "0 \<le> (a + b - 1) div b" using assms by (simp add: pos_imp_zdiv_nonneg_iff)
  ultimately show "0 \<le> ceilDiv a b" "a \<le> ceilDiv a b * b" "ceilDiv a b * b < a + b" by linarith+
qed

lemma upto_upt: "0 \<le> i \<Longrightarrow> [i..j - 1] = map int [nat i..<nat j]"
proof (cases "0 \<le> j")
  case True
  moreover assume "0 \<le> i"
  ultimately show ?thesis
    by (intro nth_equalityI) (simp_all add: nth_upto)
next
  case False
  moreover assume "0 \<le> i"
  ultimately show ?thesis by simp
qed

lemma concat_map_Nil [simp]: "concat (map (\<lambda>x. []) xs) = []"
  by (induction xs) simp_all

section \<open>Lemmas: fields\<close>

lemma newMIGSlice_simps [simp]:
  "rs_Name (newMIGSlice name n k) = name"
  "rss_Driver (rs_Spec (newMIGSlice name n k)) = DriverName"
  "rss_NodeName (rs_Spec (newMIGSlice name n k)) = Some n"
  "rss_Pool (rs_Spec (newMIGSlice name n k)) = \<lparr> rp_Name = n, rp_Generation = 1, rp_ResourceSliceCount = k \<rparr>"
  "rss_SharedCounters (rs_Spec (newMIGSlice name n k)) = []"
  "rss_Devices (rs_Spec (newMIGSlice name n k)) = []"
  by (simp_all add: newMIGSlice_def)

lemma counter_slice_simps [simp]:
  "rs_Name (counter_slice Q pool t n k sh) = MIGCounterSliceName (pool_Name pool) n sh"
  "rss_Driver (rs_Spec (counter_slice Q pool t n k sh)) = DriverName"
  "rss_NodeName (rs_Spec (counter_slice Q pool t n k sh)) = Some n"
  "rss_Pool (rs_Spec (counter_slice Q pool t n k sh)) = \<lparr> rp_Name = n, rp_Generation = 1, rp_ResourceSliceCount = k \<rparr>"
  "rss_Devices (rs_Spec (counter_slice Q pool t n k sh)) = []"
  by (simp_all add: counter_slice_def Let_def)

lemma device_slice_simps [simp]:
  "rs_Name (device_slice Q pool m n st is k sh) = MIGDeviceSliceName (pool_Name pool) n sh"
  "rss_Driver (rs_Spec (device_slice Q pool m n st is k sh)) = DriverName"
  "rss_NodeName (rs_Spec (device_slice Q pool m n st is k sh)) = Some n"
  "rss_Pool (rs_Spec (device_slice Q pool m n st is k sh)) = \<lparr> rp_Name = n, rp_Generation = 1, rp_ResourceSliceCount = k \<rparr>"
  "rss_SharedCounters (rs_Spec (device_slice Q pool m n st is k sh)) = []"
  by (simp_all add: device_slice_def Let_def)

lemma device_slice_devices:
  "rss_Devices (rs_Spec (device_slice Q pool m n st is k (int sh))) =
     map (tainted_migDevice Q pool m n st) (subslice is (sh * 64) (min (sh * 64 + 64) (length is)))"
proof -
  have "nat (min (int sh * 64 + 64) (int l)) = min (sh * 64 + 64) l" for l by linarith
  moreover have "nat (int sh * 64) = sh * 64" by (simp add: nat_mult_distrib)
  ultimately show ?thesis by (simp add: device_slice_def Let_def MaxMIGDevicesPerSlice_def)
qed

lemma counter_slice_sets:
  assumes "int sh * 8 + 8 < 2 ^ 31"
  shows "map cs_Name (rss_SharedCounters (rs_Spec (counter_slice Q pool t n k (int sh)))) =
    map (\<lambda>g. CounterSetName (int g)) [sh * 8..<min (sh * 8 + 8) (nat (ps_GPUsPerNode (pool_Spec pool)))]"
proof -
  have r: "int32_range (int sh * 8)" "int32_range (int sh * 8 + 8)" using assms by (simp_all add: int32_range_def)
  have "nat (min (int sh * 8 + 8) g) = min (sh * 8 + 8) (nat g)" for g by linarith
  moreover have "nat (int sh * 8) = sh * 8" by (simp add: nat_mult_distrib)
  ultimately show ?thesis using r by (simp add: counter_slice_def Let_def MaxCounterSetsPerSlice_def upto_upt o_def)
qed

lemma tainted_migDevice_simps [simp]:
  "dv_Name (tainted_migDevice Q pool m n st i) = in_DeviceName i"
  "map dcc_CounterSet (dv_ConsumesCounters (tainted_migDevice Q pool m n st i)) = [in_CounterSet i]"
  "dv_Taints (tainted_migDevice Q pool m n st i) = (case Taint st (in_GPUIndex i) of None \<Rightarrow> [] | Some t \<Rightarrow> [t])"
  by (simp_all add: tainted_migDevice_def migDevice_def Let_def split: option.splits)

lemma gpu_device_simps [simp]:
  "dv_Name (gpu_device pool m n st i) = DeviceName n i"
  "dv_ConsumesCounters (gpu_device pool m n st i) = []"
  "dv_Taints (gpu_device pool m n st i) = (case Taint st i of None \<Rightarrow> [] | Some t \<Rightarrow> [t])"
  by (simp_all add: gpu_device_def Let_def split: option.splits)

section \<open>Lemmas: the slices of a partitioned node\<close>

lemma mig_instances_cases:
  assumes "mig_instances pool t = Some is"
  obtains "Expand (ps_GPUsPerNode (pool_Spec pool)) t = Some is"
  | "ExpandPartitioned (ps_GPUsPerNode (pool_Spec pool)) t (ps_MIGPartition (pool_Spec pool)) = Some is"
    "ps_MIGPartition (pool_Spec pool) \<noteq> []"
  using assms by (auto simp: mig_instances_def split: option.splits if_splits)

text \<open>Either way the contract of an expansion holds.\<close>

lemma mig_instances_contract:
  assumes "mig_instances pool t = Some is"
  shows "i \<in> set is \<Longrightarrow> in_CounterSet i \<in> CounterSetName ` {0..<ps_GPUsPerNode (pool_Spec pool)}"
    and "names_ok t \<Longrightarrow> distinct (map in_DeviceName is)"
    and "sorted (map in_GPUIndex is)"
    and "i \<in> set is \<Longrightarrow> instance_ok (ps_GPUsPerNode (pool_Spec pool)) t i"
    and "i \<in> set is \<Longrightarrow> \<exists>r. in_DeviceName i = ''gpu-'' @ Itoa (in_GPUIndex i) @ ''-'' @ r"
    and "names_ok t \<Longrightarrow> int (length (on_gpu gpu is)) < 2 ^ 31 \<Longrightarrow>
      distinct (map (\<lambda>i. (in_InstanceID i, pr_Name (in_Profile i))) (on_gpu gpu is))"
  using assms by (rule mig_instances_cases;
      blast dest: dynamic.expand_prefix static.expand_prefix dynamic.expand_ids static.expand_ids dynamic.expand_counter_set static.expand_counter_set dynamic.expand_names static.expand_names
        dynamic.expand_sorted static.expand_sorted dynamic.expand_instance static.expand_instance)+

lemma BuildMIGSlices_Some:
  assumes "BuildMIGSlices Q pool m t n st = Some slices"
  obtains "is" cs ds where "mig_instances pool t = Some is"
    "cs = nat (ceilDiv (ps_GPUsPerNode (pool_Spec pool)) 8)" "ds = nat (ceilDiv (int (length is)) 64)"
    "length slices = cs + ds"
    "slices = map (\<lambda>k. counter_slice Q pool t n (wrap32 (int (cs + ds))) (int k)) [0..<cs]
      @ map (\<lambda>k. device_slice Q pool m n st is (wrap32 (int (cs + ds))) (int k)) [0..<ds]"
proof -
  from assms obtain "is" where i: "mig_instances pool t = Some is"
    by (auto simp: BuildMIGSlices_def split: option.splits)
  let ?c = "ceilDiv (ps_GPUsPerNode (pool_Spec pool)) 8" and ?d = "ceilDiv (int (length is)) 64"
  have c: "0 \<le> ?c"
    using ceilDiv_bounds(1) [of "ps_GPUsPerNode (pool_Spec pool)" 8]
    by (cases "0 \<le> ps_GPUsPerNode (pool_Spec pool)") (simp_all add: ceilDiv_def)
  have d: "0 \<le> ?d" by (rule ceilDiv_bounds) simp_all
  show ?thesis
    by (rule that [of "is" "nat ?c" "nat ?d"])
      (use assms i c d in \<open>auto simp: BuildMIGSlices_def Let_def MaxCounterSetsPerSlice_def MaxMIGDevicesPerSlice_def
        range_int_def o_def\<close>)
qed

lemma BuildMIGSlices_contents:
  assumes b: "BuildMIGSlices Q pool m t n st = Some slices"
    and g: "0 \<le> ps_GPUsPerNode (pool_Spec pool)" "ps_GPUsPerNode (pool_Spec pool) + 16 < 2 ^ 31"
  obtains "is" where "mig_instances pool t = Some is"
    "pool_devices slices = map (tainted_migDevice Q pool m n st) is"
    "map cs_Name (pool_counters slices) = map CounterSetName (range_int (ps_GPUsPerNode (pool_Spec pool)))"
proof -
  let ?g = "ps_GPUsPerNode (pool_Spec pool)"
  from b obtain "is" cs ds where i: "mig_instances pool t = Some is"
    and cs: "cs = nat (ceilDiv ?g 8)" and ds: "ds = nat (ceilDiv (int (length is)) 64)"
    and slices: "slices = map (\<lambda>k. counter_slice Q pool t n (wrap32 (int (cs + ds))) (int k)) [0..<cs]
      @ map (\<lambda>k. device_slice Q pool m n st is (wrap32 (int (cs + ds))) (int k)) [0..<ds]"
    by (rule BuildMIGSlices_Some) blast
  have "length is \<le> ds * 64" using ceilDiv_bounds [of "int (length is)" 64] by (simp add: ds)
  then have "concat (map (\<lambda>k. subslice is (k * 64) (min (k * 64 + 64) (length is))) [0..<ds]) = is"
    by (rule concat_subslices)
  moreover have "pool_devices slices = map (tainted_migDevice Q pool m n st)
      (concat (map (\<lambda>k. subslice is (k * 64) (min (k * 64 + 64) (length is))) [0..<ds]))"
    by (simp add: slices pool_devices_def o_def device_slice_devices map_concat)
  ultimately have "pool_devices slices = map (tainted_migDevice Q pool m n st) is" by simp
  moreover have "map cs_Name (pool_counters slices) = map CounterSetName (range_int ?g)"
  proof -
    note cb = ceilDiv_bounds [OF g(1), of 8]
    have small: "int k * 8 + 8 < 2 ^ 31" if "k < cs" for k
    proof -
      have "int k + 1 \<le> ceilDiv ?g 8" using that cs by linarith
      then have "(int k + 1) * 8 \<le> ceilDiv ?g 8 * 8" by (intro mult_right_mono) simp_all
      then show ?thesis using cb g(2) by simp
    qed
    have "map cs_Name (pool_counters slices) =
        concat (map (\<lambda>k. map cs_Name (rss_SharedCounters (rs_Spec
          (counter_slice Q pool t n (wrap32 (int (cs + ds))) (int k))))) [0..<cs])"
      by (simp add: slices pool_counters_def map_concat o_def)
    also have "\<dots> = concat (map (\<lambda>k. map (\<lambda>g. CounterSetName (int g)) [k * 8..<min (k * 8 + 8) (nat ?g)]) [0..<cs])"
      by (intro arg_cong [of _ _ concat] map_cong refl counter_slice_sets small) simp
    also have "\<dots> = map (\<lambda>g. CounterSetName (int g)) (concat (map (\<lambda>k. [k * 8..<min (k * 8 + 8) (nat ?g)]) [0..<cs]))"
      by (simp add: map_concat o_def)
    also have "\<dots> = map CounterSetName (range_int ?g)"
    proof -
      have "nat ?g \<le> cs * 8" using cb(2) cs g(1) by linarith
      then show ?thesis by (simp add: concat_shards min.absorb2 range_int_def)
    qed
    finally show ?thesis .
  qed
  ultimately show ?thesis using that i by blast
qed

lemma MIG_slice_names_distinct:
  "distinct (map (\<lambda>k. MIGCounterSliceName p n (int k)) [0..<cs] @ map (\<lambda>k. MIGDeviceSliceName p n (int k)) [0..<ds])"
  by (auto simp: distinct_map inj_on_def MIGCounterSliceName_def MIGDeviceSliceName_def)

lemma BuildMIGSlices_headers:
  assumes b: "BuildMIGSlices Q pool m t n st = Some slices" and "int (length slices) < 2 ^ 31"
  shows "list_all (slice_header_ok n (length slices)) slices" "distinct (map rs_Name slices)"
proof -
  from b obtain "is" cs ds where len: "length slices = cs + ds"
    and slices: "slices = map (\<lambda>k. counter_slice Q pool t n (wrap32 (int (cs + ds))) (int k)) [0..<cs]
      @ map (\<lambda>k. device_slice Q pool m n st is (wrap32 (int (cs + ds))) (int k)) [0..<ds]"
    by (rule BuildMIGSlices_Some)
  have "wrap32 (int (cs + ds)) = int (cs + ds)" using assms(2) len by (intro wrap32_id) (simp add: int32_range_def)
  then show "list_all (slice_header_ok n (length slices)) slices"
    unfolding len by (auto simp: slices list_all_iff slice_header_ok_def)
  show "distinct (map rs_Name slices)"
    using MIG_slice_names_distinct [of "pool_Name pool" n cs ds] by (simp add: slices o_def)
qed

lemma BuildMIGSlices_limits:
  assumes b: "BuildMIGSlices Q pool m t n st = Some slices"
    and g: "0 \<le> ps_GPUsPerNode (pool_Spec pool)" "ps_GPUsPerNode (pool_Spec pool) + 16 < 2 ^ 31"
  shows "list_all slice_limits_ok slices"
proof -
  from b obtain "is" cs ds where cs: "cs = nat (ceilDiv (ps_GPUsPerNode (pool_Spec pool)) 8)"
    and slices: "slices = map (\<lambda>k. counter_slice Q pool t n (wrap32 (int (cs + ds))) (int k)) [0..<cs]
      @ map (\<lambda>k. device_slice Q pool m n st is (wrap32 (int (cs + ds))) (int k)) [0..<ds]"
    by (rule BuildMIGSlices_Some)
  have "slice_limits_ok (counter_slice Q pool t n w (int k))" if "k < cs" for k w
  proof -
    have "int k + 1 \<le> ceilDiv (ps_GPUsPerNode (pool_Spec pool)) 8" using that cs by linarith
    then have "(int k + 1) * 8 \<le> ceilDiv (ps_GPUsPerNode (pool_Spec pool)) 8 * 8" by (intro mult_right_mono) simp_all
    then have "int k * 8 + 8 < 2 ^ 31" using ceilDiv_bounds [OF g(1), of 8] g(2) by simp
    from arg_cong [OF counter_slice_sets [OF this, of Q pool t n w], of length]
    have "length (rss_SharedCounters (rs_Spec (counter_slice Q pool t n w (int k)))) \<le> 8" by simp
    then show ?thesis by (simp add: slice_limits_ok_def MaxCounterSetsPerSlice_def)
  qed
  moreover have "slice_limits_ok (device_slice Q pool m n st is w (int k))" for k w
  proof -
    have "min (k * 64 + 64) (length is) - k * 64 \<le> 64" by linarith
    then show ?thesis
      by (simp add: slice_limits_ok_def MaxCounterSetsPerSlice_def MaxMIGDevicesPerSlice_def MaxDevicesPerSlice_def
          device_slice_devices)
  qed
  ultimately show ?thesis by (auto simp: slices list_all_iff)
qed

text \<open>How many of the published devices of a profile are free.\<close>

definition free_devices :: "string \<Rightarrow> 'q ResourceSlice list \<Rightarrow> 'q Device list" where
  "free_devices prof slices =
     filter (\<lambda>d. dv_Taints d = [] \<and> fmlookup (dv_Attributes d) AttrMIGProfile = Some (stringAttr prof)) (pool_devices slices)"

lemma migDevice_profile:
  "fmlookup (dv_Attributes (tainted_migDevice Q pool m n st i)) AttrMIGProfile = Some (stringAttr (pr_Name (in_Profile i)))"
  by (simp add: tainted_migDevice_def migDevice_def Let_def fmlookup_of_list attr_defs split: option.splits)

lemma stringAttr_inject [simp]: "stringAttr a = stringAttr b \<longleftrightarrow> a = b"
  by (simp add: stringAttr_def)

lemma free_devices_length:
  assumes "pool_devices slices = map (tainted_migDevice Q pool m n st) is"
  shows "length (free_devices prof slices) =
    length (filter (\<lambda>i. Unavailable st \<le> in_GPUIndex i \<and> pr_Name (in_Profile i) = prof) is)"
proof -
  have "dv_Taints (tainted_migDevice Q pool m n st i) = [] \<longleftrightarrow> Unavailable st \<le> in_GPUIndex i" for i
    by (simp add: taint_simps(1) [symmetric] split: option.splits)
  then show ?thesis by (simp add: free_devices_def assms filter_map o_def migDevice_profile)
qed

text \<open>Counting card by card: each of the cards from \<open>u\<close> on contributes the same number.\<close>

lemma count_groups:
  assumes "\<And>gpu. gpu \<in> set xs \<Longrightarrow> length (filter P (f gpu)) = (if u \<le> gpu then c else 0)"
  shows "length (filter P (concat (map f xs))) = length (filter (\<lambda>gpu. u \<le> gpu) xs) * c"
  using assms by (induction xs) auto

lemma count_from:
  assumes "0 \<le> u" "u \<le> n"
  shows "length (filter (\<lambda>i. u \<le> i) (range_int n)) = nat (n - u)"
  using sum_length_filter_compl [of "\<lambda>i. i < u" "range_int n"] count_below [OF assms] assms
  by (simp add: not_less nat_diff_distrib)

lemma static_free_count:
  assumes "counts_ok es" "distinct (map pr_Name (tb_Profiles t))" "ExpandPartitioned g t es = Some is"
    and "p \<in> set (tb_Profiles t)" "0 \<le> u" "u \<le> g"
  shows "length (filter (\<lambda>i. u \<le> in_GPUIndex i \<and> pr_Name (in_Profile i) = pr_Name p) is) =
    nat (g - u) * nat (declared es (pr_Name p))"
proof -
  let ?f = "\<lambda>gpu. expand_profiles gpu (partition_counts es) 0 (tb_Profiles t)"
  have "length (filter (\<lambda>i. u \<le> in_GPUIndex i \<and> pr_Name (in_Profile i) = pr_Name p) (?f gpu)) =
      (if u \<le> gpu then nat (declared es (pr_Name p)) else 0)" for gpu
  proof -
    have "filter (\<lambda>i. u \<le> in_GPUIndex i \<and> pr_Name (in_Profile i) = pr_Name p) (?f gpu) =
        filter (\<lambda>i. u \<le> gpu \<and> pr_Name (in_Profile i) = pr_Name p) (?f gpu)"
      by (rule filter_cong) (auto simp: expand_profiles_fields(3))
    moreover have "length (filter (\<lambda>i. pr_Name (in_Profile i) = pr_Name p) (?f gpu)) =
        length (filter (\<lambda>x. pr_Name x = pr_Name p) (map in_Profile (?f gpu)))"
      by (simp add: filter_map o_def)
    ultimately show ?thesis using assms
      by (simp add: expand_profiles_fields(1) filter_replicate_pick get_partition_counts_ok)
  qed
  then show ?thesis
    unfolding ExpandPartitioned_Some [OF assms(3)] using count_from [OF assms(5,6)] by (subst count_groups) auto
qed

section \<open>Properties\<close>

text \<open>
  C7: the slices of a partitioned node form a valid DRA pool, in dynamic and in static mode: every slice
  carries the driver, the node, generation 1 and the true number of slices; slice, device and counter set
  names do not repeat; each card has exactly one counter set, in order; every device draws on a declared
  set; counters and devices never share a slice, and the limits of 8 counter sets and 64 devices hold.
\<close>

theorem BuildMIGSlices_valid:
  assumes "BuildMIGSlices Q pool m t n st = Some slices" "names_ok t" "int (length slices) < 2 ^ 31"
    and g: "0 \<le> ps_GPUsPerNode (pool_Spec pool)" "ps_GPUsPerNode (pool_Spec pool) + 16 < 2 ^ 31"
  shows "dra_pool_ok n slices \<and> list_all slice_limits_ok slices
    \<and> map cs_Name (pool_counters slices) = map CounterSetName (range_int (ps_GPUsPerNode (pool_Spec pool)))"
proof -
  obtain "is" where i: "mig_instances pool t = Some is"
    and dev: "pool_devices slices = map (tainted_migDevice Q pool m n st) is"
    and cnt: "map cs_Name (pool_counters slices) = map CounterSetName (range_int (ps_GPUsPerNode (pool_Spec pool)))"
    by (rule BuildMIGSlices_contents [OF assms(1) g])
  note contract = mig_instances_contract [OF i]
  have "distinct (map dv_Name (pool_devices slices))" using contract(2) [OF assms(2)] by (simp add: dev o_def)
  moreover have "distinct (map cs_Name (pool_counters slices))" by (simp add: cnt distinct_map inj_on_def)
  moreover have "counters_declared slices"
  proof -
    have "cs_Name ` set (pool_counters slices) = CounterSetName ` {0..<ps_GPUsPerNode (pool_Spec pool)}"
      using arg_cong [OF cnt, of set] by simp
    moreover have "dcc_CounterSet c = in_CounterSet x" if "c \<in> set (dv_ConsumesCounters (tainted_migDevice Q pool m n st x))" for c x
    proof -
      from that have "dcc_CounterSet c \<in> set (map dcc_CounterSet (dv_ConsumesCounters (tainted_migDevice Q pool m n st x)))"
        by (simp only: set_map image_eqI)
      then show ?thesis by (simp only: tainted_migDevice_simps) simp
    qed
    ultimately show ?thesis using contract(1) by (auto simp: counters_declared_def dev)
  qed
  ultimately have "dra_pool_ok n slices"
    unfolding dra_pool_ok_def using BuildMIGSlices_headers [OF assms(1,3)] by blast
  then show ?thesis using BuildMIGSlices_limits [OF assms(1) g] cnt by blast
qed

definition example_model :: "int GPUModel" where
  "example_model = \<lparr> model_Name = ''h100'', model_Spec = \<lparr> ms_Vendor = ''nvidia'', ms_ProductName = ''NVIDIA-H100'',
     ms_Memory = 80, ms_ComputeCapability = ''9.0'', ms_MIGProfiles = [], ms_MIGBudget = None \<rparr> \<rparr>"

definition example_table :: "int Table" where
  "example_table = \<lparr> tb_Budget = \<lparr> bd_Memory = 80, bd_Slices = 7 \<rparr>,
     tb_Profiles = [\<lparr> pr_Name = ''1g.10gb'', pr_Memory = 10, pr_Slices = 1 \<rparr>,
                    \<lparr> pr_Name = ''7g.80gb'', pr_Memory = 80, pr_Slices = 7 \<rparr>] \<rparr>"

lemma example_table_simps [simp]:
  "names_ok example_table" "slices_ok example_table" "length (tb_Profiles example_table) = 2"
  "distinct (map pr_Name (tb_Profiles example_table))"
  by (simp_all add: example_table_def names_ok_def slices_ok_def)

lemma example_pool_simps [simp]:
  "ps_GPUsPerNode (pool_Spec (example_pool g mode part occ fs)) = g"
  "ps_MIGPartition (pool_Spec (example_pool g mode part occ fs)) = part"
  "ps_Occupancy (pool_Spec (example_pool g mode part occ fs)) = occ"
  "ps_Faults (pool_Spec (example_pool g mode part occ fs)) = fs"
  "MIGEnabled (pool_Spec (example_pool g mode part occ fs)) \<longleftrightarrow> mode = SharingModeMIG"
  by (simp_all add: example_pool_def MIGEnabled_def)

lemma example_instances:
  "\<exists>is. mig_instances (example_pool 8 SharingModeMIG [] occ fs) example_table = Some is \<and> length is = 16"
proof -
  obtain "is" where e: "Expand 8 example_table = Some is"
    and "is = concat (map (\<lambda>gpu. map (dynamic_instance gpu) (tb_Profiles example_table)) (range_int 8))"
    using Expand_total [of 8 example_table] by simp
  then have "length is = 16"
    using length_concat_const [of "range_int 8" "\<lambda>gpu. map (dynamic_instance gpu) (tb_Profiles example_table)" 2] by simp
  with e show ?thesis by (simp add: mig_instances_def)
qed

lemma example_dynamic:
  "\<exists>slices. BuildMIGSlices int_quantity (example_pool 8 SharingModeMIG [] occ fs) example_model example_table n st = Some slices
     \<and> length slices = 2"
  using example_instances [of occ fs]
  by (auto simp: BuildMIGSlices_def Let_def ceilDiv_def MaxCounterSetsPerSlice_def MaxMIGDevicesPerSlice_def
      sdiv_nonneg wrap32_def)

theorem BuildMIGSlices_valid_witness:
  "\<exists>slices. BuildMIGSlices int_quantity (example_pool 8 SharingModeMIG [] [] []) example_model example_table ''node-0''
      (StateFor (example_pool 8 SharingModeMIG [] [] []) example_node) = Some slices
    \<and> dra_pool_ok ''node-0'' slices"
proof -
  obtain slices where b: "BuildMIGSlices int_quantity (example_pool 8 SharingModeMIG [] [] []) example_model example_table ''node-0''
      (StateFor (example_pool 8 SharingModeMIG [] [] []) example_node) = Some slices" "length slices = 2"
    using example_dynamic by blast
  from BuildMIGSlices_valid [OF b(1)] b show ?thesis by simp
qed

text \<open>
  C8: under a declared partition the two ways of advertising agree exactly: the allocatable count of every
  declared profile's extended resource is the number of published devices of that profile that carry no
  taint.
\<close>

theorem static_MIG_agreement:
  assumes laws: "quantity_laws Q amt" and mig: "MIGEnabled (pool_Spec pool)" "ps_MIGPartition (pool_Spec pool) \<noteq> []"
    and c: "counts_ok (ps_MIGPartition (pool_Spec pool))" and d: "distinct (map pr_Name (tb_Profiles t))"
    and b: "BuildMIGSlices Q pool m t n (StateFor pool node) = Some slices"
    and g: "0 \<le> ps_GPUsPerNode (pool_Spec pool)" "ps_GPUsPerNode (pool_Spec pool) + 16 < 2 ^ 31"
    and p: "p \<in> set (tb_Profiles t)" "0 < declared (ps_MIGPartition (pool_Spec pool)) (pr_Name p)"
    and s: "int32_range (bd_Slices (tb_Budget t))"
  shows "\<exists>q. fmlookup (NodeAllocatable Q pool t (StateFor pool node)) (MIGResourceName (pr_Name p)) = Some q
    \<and> amt q = of_nat (length (free_devices (pr_Name p) slices))"
proof -
  let ?g = "ps_GPUsPerNode (pool_Spec pool)" and ?u = "Unavailable (StateFor pool node)"
  let ?es = "ps_MIGPartition (pool_Spec pool)"
  note u = StateFor_range(5,6) [OF g(1), of node]
  obtain "is" where i: "mig_instances pool t = Some is"
    and dev: "pool_devices slices = map (tainted_migDevice Q pool m n (StateFor pool node)) is"
    by (rule BuildMIGSlices_contents [OF b g])
  from i mig have e: "ExpandPartitioned ?g t ?es = Some is"
    by (auto simp: mig_instances_def split: option.splits)
  have len: "length (free_devices (pr_Name p) slices) = nat (?g - ?u) * nat (declared ?es (pr_Name p))"
    unfolding free_devices_length [OF dev] by (rule static_free_count [OF c d e p(1) u])
  have "int32_range (?g - ?u)" unfolding int32_range_def using g u by simp
  then have alloc: "NodeAllocatable Q pool t (StateFor pool node) = nodeResourcesFor Q pool t (?g - ?u)"
    using u by (simp add: NodeAllocatable_def)
  have "int32_range (declared ?es (pr_Name p))" using declared_range [OF c, of "pr_Name p"] by (simp add: int32_range_def)
  then have pc: "perCard Q pool t p = declared ?es (pr_Name p)" using perCard_declared [OF mig(2), of Q t p] by simp
  with p have pos: "0 < perCard Q pool t p" by simp
  have "wrap64 (perCard Q pool t p * (?g - ?u)) = perCard Q pool t p * (?g - ?u)"
    using g u by (intro perCard_product [OF s pos]) simp_all
  moreover have "of_nat (length (free_devices (pr_Name p) slices)) = (of_int (declared ?es (pr_Name p) * (?g - ?u)) :: rat)"
    using u p(2) unfolding len by (simp add: mult.commute)
  ultimately show ?thesis
    unfolding alloc nodeResourcesFor_MIG [OF mig(1) d p(1) pos] pc by (simp add: quantity_laws_NewQuantity [OF laws])
qed



lemma example_static:
  "\<exists>slices. BuildMIGSlices int_quantity
     (example_pool 8 SharingModeMIG [\<lparr> mpe_Profile = ''1g.10gb'', mpe_Count = 7 \<rparr>] [busy_default 5] []) example_model example_table n st
   = Some slices"
proof -
  let ?es = "[\<lparr> mpe_Profile = ''1g.10gb'', mpe_Count = 7 \<rparr>]"
  have "counts_ok ?es" by (simp add: counts_ok_def)
  then obtain "is" where "ExpandPartitioned 8 example_table ?es = Some is"
    using ExpandPartitioned_total [of 8 ?es example_table] by simp
  moreover obtain is' where "Expand 8 example_table = Some is'" using Expand_total [of 8 example_table] by simp
  ultimately show ?thesis by (simp add: BuildMIGSlices_def mig_instances_def Let_def)
qed

theorem static_MIG_agreement_witness:
  "\<exists>slices q. BuildMIGSlices int_quantity
      (example_pool 8 SharingModeMIG [\<lparr> mpe_Profile = ''1g.10gb'', mpe_Count = 7 \<rparr>] [busy_default 5] []) example_model example_table ''node-0''
      (StateFor (example_pool 8 SharingModeMIG [\<lparr> mpe_Profile = ''1g.10gb'', mpe_Count = 7 \<rparr>] [busy_default 5] []) example_node) = Some slices
    \<and> fmlookup (NodeAllocatable int_quantity
      (example_pool 8 SharingModeMIG [\<lparr> mpe_Profile = ''1g.10gb'', mpe_Count = 7 \<rparr>] [busy_default 5] []) example_table
      (StateFor (example_pool 8 SharingModeMIG [\<lparr> mpe_Profile = ''1g.10gb'', mpe_Count = 7 \<rparr>] [busy_default 5] []) example_node))
      (MIGResourceName ''1g.10gb'') = Some q
    \<and> rat_of_int q = of_nat (length (free_devices ''1g.10gb'' slices))"
proof -
  let ?p = "example_pool 8 SharingModeMIG [\<lparr> mpe_Profile = ''1g.10gb'', mpe_Count = 7 \<rparr>] [busy_default 5] []"
  let ?q = "\<lparr> pr_Name = ''1g.10gb'', pr_Memory = 10, pr_Slices = 1 \<rparr>"
  obtain slices where b: "BuildMIGSlices int_quantity ?p example_model example_table ''node-0'' (StateFor ?p example_node) = Some slices"
    using example_static by blast
  have "MIGEnabled (pool_Spec ?p)" "ps_MIGPartition (pool_Spec ?p) \<noteq> []" by simp_all
  moreover have "counts_ok (ps_MIGPartition (pool_Spec ?p))" by (simp add: counts_ok_def)
  moreover have "?q \<in> set (tb_Profiles example_table)" by (simp add: example_table_def)
  moreover have "0 < declared (ps_MIGPartition (pool_Spec ?p)) (pr_Name ?q)" by (simp add: declared_def)
  moreover have "int32_range (bd_Slices (tb_Budget example_table))" by (simp add: example_table_def int32_range_def)
  ultimately show ?thesis
    using static_MIG_agreement [OF int_quantity_laws, of ?p example_table example_model "''node-0''" example_node slices ?q] b by simp
qed

text \<open>
  C24: the slice of a node without MIG respects the limits on devices exactly when the node has at most 128
  cards, and at most 64 once any of them is busy or broken. The schema admits 128 cards in every case, so
  a pool of 65 to 128 cards that declares occupancy or faults publishes a slice over the limit.
\<close>

theorem BuildResourceSlice_limits_iff:
  assumes "BuildResourceSlice pool m n (StateFor pool node) = Some s"
  shows "slice_limits_ok s \<longleftrightarrow> ps_GPUsPerNode (pool_Spec pool) \<le> 128
    \<and> (0 < Unavailable (StateFor pool node) \<longrightarrow> ps_GPUsPerNode (pool_Spec pool) \<le> 64)"
proof -
  let ?g = "ps_GPUsPerNode (pool_Spec pool)" and ?st = "StateFor pool node"
  have g: "0 \<le> ?g" and dev: "rss_Devices (rs_Spec s) = map (gpu_device pool m n ?st) (range_int ?g)"
    and "rss_SharedCounters (rs_Spec s) = []"
    using assms by (auto simp: BuildResourceSlice_def split: if_splits)
  moreover have ex: "list_ex (\<lambda>d. dv_ConsumesCounters d \<noteq> [] \<or> dv_Taints d \<noteq> []) (rss_Devices (rs_Spec s))
      \<longleftrightarrow> 0 < Unavailable ?st"
  proof -
    have t: "dv_Taints (gpu_device pool m n ?st i) \<noteq> [] \<longleftrightarrow> i < Unavailable ?st" for i
      using taint_simps(2) [of ?st i] by (cases "Taint ?st i") simp_all
    have "list_ex (\<lambda>d. dv_ConsumesCounters d \<noteq> [] \<or> dv_Taints d \<noteq> []) (rss_Devices (rs_Spec s))
        \<longleftrightarrow> (\<exists>i. 0 \<le> i \<and> i < ?g \<and> i < Unavailable ?st)"
      unfolding dev list_ex_iff using t by (simp add: Bex_def conj_assoc)
    also have "\<dots> \<longleftrightarrow> 0 < Unavailable ?st" using StateFor_range(6) [OF g, of node] by presburger
    finally show ?thesis .
  qed
  moreover have "length (rss_Devices (rs_Spec s)) = nat ?g" by (simp add: dev)
  ultimately show ?thesis
    unfolding slice_limits_ok_def ex
    by (simp add: MaxCounterSetsPerSlice_def MaxDevicesPerSlice_def MaxMIGDevicesPerSlice_def nat_le_iff)
qed

theorem BuildResourceSlice_limits_iff_witness:
  "\<exists>s. BuildResourceSlice (example_pool 128 SharingModeNone [] [busy_default 1] []) example_model ''node-0''
      (StateFor (example_pool 128 SharingModeNone [] [busy_default 1] []) example_node) = Some s
    \<and> \<not> slice_limits_ok s"
proof -
  let ?p = "example_pool 128 SharingModeNone [] [busy_default 1] []"
  obtain s where s: "BuildResourceSlice ?p example_model ''node-0'' (StateFor ?p example_node) = Some s"
    by (simp add: BuildResourceSlice_def)
  moreover have "Unavailable (StateFor ?p example_node) = 1"
    by (simp add: StateFor_def BusyGPUs_def busy_default_def selectorMatches_def Unavailable_def)
  ultimately show ?thesis using BuildResourceSlice_limits_iff [OF s] by simp
qed

text \<open>
  Slice names join the pool's and the node's name with a dash that both may contain, so two pools can
  claim the same cluster-scoped object.
\<close>

theorem SliceName_collision:
  "SliceName ''gpu'' ''pool-node'' = SliceName ''gpu-pool'' ''node''"
  by (simp add: SliceName_def)

end
