(* ===== verification/Safety.thy ===== *)
theory Safety
  imports Api_Types
begin

text \<open>
  \<open>internal/safety/guard.go\<close>: the test by which every write to a node is guarded. A node is simulated when
  it carries kwok's annotation, whatever its value.
\<close>

definition KwokNodeAnnotation :: string where
  "KwokNodeAnnotation = ''kwok.x-k8s.io/node''"

text \<open>The argument is a pointer in the source; \<open>None\<close> is the nil pointer.\<close>

definition IsSimulatedNode :: "'q Node option \<Rightarrow> bool" where
  "IsSimulatedNode node =
     (case node of None \<Rightarrow> False | Some n \<Rightarrow> fmlookup (nd_Annotations n) KwokNodeAnnotation \<noteq> None)"

abbreviation simulated :: "'q Node \<Rightarrow> bool" where
  "simulated n \<equiv> IsSimulatedNode (Some n)"

text \<open>The loop of \<open>FilterSimulated\<close>, with the nodes kept so far.\<close>

fun filter_loop :: "'q Node list \<Rightarrow> 'q Node list \<Rightarrow> 'q Node list" where
  "filter_loop out [] = out"
| "filter_loop out (n # ns) = filter_loop (if IsSimulatedNode (Some n) then out @ [n] else out) ns"

definition FilterSimulated :: "'q Node list \<Rightarrow> 'q Node list" where
  "FilterSimulated nodes = filter_loop [] nodes"

lemma filter_loop_eq: "filter_loop out ns = out @ filter simulated ns"
  by (induction ns arbitrary: out) simp_all

text \<open>
  \<open>FilterSimulated\<close> keeps exactly the simulated nodes, in their order and as often as they occur.
\<close>

theorem FilterSimulated_eq: "FilterSimulated nodes = filter (\<lambda>n. fmlookup (nd_Annotations n) KwokNodeAnnotation \<noteq> None) nodes"
  by (simp add: FilterSimulated_def filter_loop_eq IsSimulatedNode_def)

end
