(* ===== verification/Controller.thy ===== *)
theory Controller
  imports Gpu_Slices Safety
begin

text \<open>
  \<open>internal/controller/gpupool_controller.go\<close>: the reconciler of a \<open>GPUPool\<close>. The API server behind
  controller-runtime's client is not part of the repository, so it is a parameter: a record of operations
  on a world \<open>'w\<close>, which may fail and may change the world in any way, including what other writers do
  between two calls. Every call that reaches the client is recorded in a log, in order; the theorems about
  what the controller writes are statements about that log and hold for every client, those about what a
  cluster looks like afterwards assume a client that stores what it is given (\<open>store_client\<close>).

  An outcome is a value, an error that ends the reconciliation, or a panic. The text of a condition is kept
  as a value (\<open>ReadyMessage\<close>); only the summary of a successful run is rendered.
\<close>

section \<open>The client\<close>

datatype ApiError = NotFound | ApiFailure string

datatype 'q ReadyMessage =
    MsgModelNotFound string
  | MsgMig "'q MigError"
  | MsgDecl DeclError
  | MsgSummary string

type_synonym 'q pool = "'q ReadyMessage GPUPool"

record ('w, 'q) client =
  c_GetPool :: "string \<Rightarrow> 'w \<Rightarrow> (ApiError + 'q pool) \<times> 'w"
  c_GetModel :: "string \<Rightarrow> 'w \<Rightarrow> (ApiError + 'q GPUModel) \<times> 'w"
  c_ListNodes :: "labels \<Rightarrow> 'w \<Rightarrow> (ApiError + 'q Node list) \<times> 'w"
  c_ListSlices :: "labels \<Rightarrow> 'w \<Rightarrow> (ApiError + 'q ResourceSlice list) \<times> 'w"
  c_ListPools :: "'w \<Rightarrow> (ApiError + 'q pool list) \<times> 'w"
  c_UpdatePoolStatus :: "'q pool \<Rightarrow> 'w \<Rightarrow> (ApiError + unit) \<times> 'w"
  c_PatchNodeStatus :: "'q Node \<Rightarrow> 'q Node \<Rightarrow> 'w \<Rightarrow> (ApiError + 'q Node) \<times> 'w"
  c_PatchNode :: "'q Node \<Rightarrow> 'q Node \<Rightarrow> 'w \<Rightarrow> (ApiError + 'q Node) \<times> 'w"
  c_DeleteSlice :: "'q ResourceSlice \<Rightarrow> 'w \<Rightarrow> (ApiError + unit) \<times> 'w"
  c_CreateOrUpdateSlice ::
    "string \<Rightarrow> ('q ResourceSlice \<Rightarrow> ApiError + 'q ResourceSlice) \<Rightarrow> 'w \<Rightarrow> (ApiError + unit) \<times> 'w"
  c_SetControllerReference :: "'q pool \<Rightarrow> 'q ResourceSlice \<Rightarrow> ApiError + 'q ResourceSlice"
  c_SetStatusCondition ::
    "'q ReadyMessage Condition list \<Rightarrow> 'q ReadyMessage Condition \<Rightarrow> 'q ReadyMessage Condition list"

text \<open>The calls as they are logged. A list call is logged with what it returned.\<close>

datatype 'q call =
    ListNodesCall labels "'q Node list"
  | ListSlicesCall labels "'q ResourceSlice list"
  | UpdatePoolStatusCall "'q pool"
  | PatchNodeStatusCall "'q Node" "'q Node"
  | PatchNodeCall "'q Node" "'q Node"
  | DeleteSliceCall "'q ResourceSlice"
  | ApplySliceCall "'q pool" "'q ResourceSlice"

datatype 'a outcome = Ok 'a | Err ApiError | Panic

type_synonym ('w, 'q) cstate = "'w \<times> 'q call list"

fun to_outcome :: "ApiError + 'a \<Rightarrow> 'a outcome" where
  "to_outcome (Inl e) = Err e"
| "to_outcome (Inr a) = Ok a"

text \<open>A call through the client: the world moves on and the call is logged.\<close>

definition call :: "('w \<Rightarrow> (ApiError + 'a) \<times> 'w) \<Rightarrow> (ApiError + 'a \<Rightarrow> 'q call list) \<Rightarrow> ('w, 'q) cstate \<Rightarrow> 'a outcome \<times> ('w, 'q) cstate" where
  "call f event s = (case f (fst s) of (r, w') \<Rightarrow> (to_outcome r, (w', snd s @ event r)))"

text \<open>Go's early return on an error: the rest of the function runs only on success.\<close>

definition andThen :: "('s \<Rightarrow> 'a outcome \<times> 's) \<Rightarrow> ('a \<Rightarrow> 's \<Rightarrow> 'b outcome \<times> 's) \<Rightarrow> 's \<Rightarrow> 'b outcome \<times> 's" where
  "andThen f g s = (case f s of (Ok a, s') \<Rightarrow> g a s' | (Err e, s') \<Rightarrow> (Err e, s') | (Panic, s') \<Rightarrow> (Panic, s'))"

section \<open>Conditions and summary\<close>

definition ConditionReady :: string where "ConditionReady = ''Ready''"
definition PoolLabel :: string where "PoolLabel = ''ghostgpu.dev/pool''"

definition setReady :: "('w, 'q) client \<Rightarrow> 'q pool \<Rightarrow> ConditionStatus \<Rightarrow> string \<Rightarrow> 'q ReadyMessage \<Rightarrow> 'q pool" where
  "setReady C pool status reason msg =
     pool\<lparr> pool_Status := (pool_Status pool)\<lparr> st_Conditions :=
       c_SetStatusCondition C (st_Conditions (pool_Status pool))
         \<lparr> cond_Type = ConditionReady, cond_Status = status, cond_Reason = reason, cond_Message = msg,
           cond_ObservedGeneration = pool_Generation pool \<rparr> \<rparr> \<rparr>"

definition summarize :: "'q pool \<Rightarrow> int \<Rightarrow> int \<Rightarrow> int \<Rightarrow> int \<Rightarrow> 'q Table \<Rightarrow> string" where
  "summarize pool devices matched occupied faulted table =
     (if MIGEnabled (pool_Spec pool)
      then ''simulated '' @ Itoa devices @ '' MIG instances across '' @ Itoa matched @ '' nodes (''
           @ Itoa (int (length (tb_Profiles table))) @ '' profiles per GPU)''
      else ''simulated '' @ Itoa devices @ '' GPUs across '' @ Itoa matched @ '' nodes'')
     @ (if occupied > 0 then ''; '' @ Itoa occupied @ '' GPUs declared occupied'' else [])
     @ (if faulted > 0 then ''; '' @ Itoa faulted @ '' GPUs declared faulted'' else [])"

section \<open>Slices\<close>

text \<open>The mutation that \<open>applySlice\<close> hands to \<open>CreateOrUpdate\<close>.\<close>

definition apply_mutation ::
  "('w, 'q) client \<Rightarrow> 'q pool \<Rightarrow> 'q ResourceSlice \<Rightarrow> 'q ResourceSlice \<Rightarrow> ApiError + 'q ResourceSlice" where
  "apply_mutation C pool desired sl =
     c_SetControllerReference C pool
       (sl\<lparr> rs_Spec := rs_Spec desired, rs_Labels := fmupd PoolLabel (pool_Name pool) (rs_Labels sl) \<rparr>)"

definition applySlice ::
  "('w, 'q) client \<Rightarrow> 'q pool \<Rightarrow> 'q ResourceSlice \<Rightarrow> ('w, 'q) cstate \<Rightarrow> unit outcome \<times> ('w, 'q) cstate" where
  "applySlice C pool desired =
     call (c_CreateOrUpdateSlice C (rs_Name desired) (apply_mutation C pool desired))
          (\<lambda>_. [ApplySliceCall pool desired])"

text \<open>The loop of \<open>reconcileSlices\<close> over the MIG slices, with the devices counted and the live names so far.\<close>

fun apply_loop ::
  "('w, 'q) client \<Rightarrow> 'q pool \<Rightarrow> int \<Rightarrow> string set \<Rightarrow> 'q ResourceSlice list \<Rightarrow> ('w, 'q) cstate
   \<Rightarrow> (int \<times> string set) outcome \<times> ('w, 'q) cstate" where
  "apply_loop C pool devices live [] s = (Ok (devices, live), s)"
| "apply_loop C pool devices live (desired # ds) s =
     andThen (applySlice C pool desired)
       (\<lambda>_. apply_loop C pool (wrap32 (devices + wrap32 (int (length (rss_Devices (rs_Spec desired))))))
              (insert (rs_Name desired) live) ds) s"

definition reconcileSlices ::
  "('w, 'q) client \<Rightarrow> 'q quantity_ops \<Rightarrow> 'q pool \<Rightarrow> 'q GPUModel \<Rightarrow> 'q Table \<Rightarrow> string \<Rightarrow> NodeState \<Rightarrow> string set
   \<Rightarrow> ('w, 'q) cstate \<Rightarrow> (int \<times> string set) outcome \<times> ('w, 'q) cstate" where
  "reconcileSlices C Q pool model table nodeName state live s =
     (if \<not> MIGEnabled (pool_Spec pool)
      then (case BuildResourceSlice pool model nodeName state of
              None \<Rightarrow> (Panic, s)
            | Some sl \<Rightarrow>
                andThen (applySlice C pool sl)
                  (\<lambda>_ s'. (Ok (ps_GPUsPerNode (pool_Spec pool), insert (SliceName (pool_Name pool) nodeName) live), s')) s)
      else (case BuildMIGSlices Q pool model table nodeName state of
              None \<Rightarrow> (Panic, s)
            | Some slices \<Rightarrow> apply_loop C pool 0 live slices s))"

fun prune_loop ::
  "('w, 'q) client \<Rightarrow> string set \<Rightarrow> 'q ResourceSlice list \<Rightarrow> ('w, 'q) cstate \<Rightarrow> unit outcome \<times> ('w, 'q) cstate" where
  "prune_loop C live [] s = (Ok (), s)"
| "prune_loop C live (sl # slices) s =
     (if rs_Name sl \<in> live then prune_loop C live slices s
      else (case call (c_DeleteSlice C sl) (\<lambda>_. [DeleteSliceCall sl]) s of
              (Ok _, s') \<Rightarrow> prune_loop C live slices s'
            | (Err NotFound, s') \<Rightarrow> prune_loop C live slices s'
            | (Err e, s') \<Rightarrow> (Err e, s')
            | (Panic, s') \<Rightarrow> (Panic, s')))"

definition pruneSlices ::
  "('w, 'q) client \<Rightarrow> 'q pool \<Rightarrow> string set \<Rightarrow> ('w, 'q) cstate \<Rightarrow> unit outcome \<times> ('w, 'q) cstate" where
  "pruneSlices C pool live =
     (let sel = fmupd PoolLabel (pool_Name pool) fmempty in
      andThen (call (c_ListSlices C sel) (\<lambda>r. case r of Inl _ \<Rightarrow> [] | Inr ss \<Rightarrow> [ListSlicesCall sel ss]))
              (\<lambda>slices. prune_loop C live slices))"

section \<open>Nodes\<close>

definition managesResource :: "string \<Rightarrow> bool" where
  "managesResource name \<longleftrightarrow> name = GPUResourceName \<or> HasPrefix name MIGResourcePrefix"

definition resourcesMatch :: "'q quantity_ops \<Rightarrow> (string, 'q) fmap \<Rightarrow> (string, 'q) fmap \<Rightarrow> bool" where
  "resourcesMatch Q has want \<longleftrightarrow>
     fmpred (\<lambda>name wantQty. case fmlookup has name of None \<Rightarrow> False | Some haveQty \<Rightarrow> q_Cmp Q haveQty wantQty = 0) want
   \<and> fmpred (\<lambda>name _. managesResource name \<longrightarrow> fmlookup want name \<noteq> None) has"

definition applyGPUResources :: "(string, 'q) fmap \<Rightarrow> (string, 'q) fmap \<Rightarrow> (string, 'q) fmap" where
  "applyGPUResources lst want = fmfilter (\<lambda>name. \<not> managesResource name) lst ++\<^sub>f want"

definition labelsMatch :: "labels \<Rightarrow> labels \<Rightarrow> bool" where
  "labelsMatch has desired = fmpred (\<lambda>k v. get_str has k = v) desired"

definition reconcileNode ::
  "('w, 'q) client \<Rightarrow> 'q quantity_ops \<Rightarrow> 'q pool \<Rightarrow> 'q GPUModel \<Rightarrow> 'q Table \<Rightarrow> 'q Node \<Rightarrow> NodeState
   \<Rightarrow> ('w, 'q) cstate \<Rightarrow> unit outcome \<times> ('w, 'q) cstate" where
  "reconcileNode C Q pool model table node state =
     andThen
       (let capacity = NodeResources Q pool table;
            allocatable = NodeAllocatable Q pool table state
        in if ExtendedResourceEnabled (ps_Advertise (pool_Spec pool))
              \<and> (\<not> resourcesMatch Q (nd_Capacity node) capacity \<or> \<not> resourcesMatch Q (nd_Allocatable node) allocatable)
           then (let patched = node\<lparr> nd_Capacity := applyGPUResources (nd_Capacity node) capacity,
                                     nd_Allocatable := applyGPUResources (nd_Allocatable node) allocatable \<rparr>
                 in call (c_PatchNodeStatus C patched node) (\<lambda>_. [PatchNodeStatusCall patched node]))
           else (\<lambda>s. (Ok node, s)))
       (\<lambda>node. let desired = NodeLabels Q pool model in
          if labelsMatch (nd_Labels node) desired then (\<lambda>s. (Ok (), s))
          else (let patched = node\<lparr> nd_Labels := nd_Labels node ++\<^sub>f desired \<rparr>
                in andThen (call (c_PatchNode C patched node) (\<lambda>_. [PatchNodeCall patched node])) (\<lambda>_ s. (Ok (), s))))"

section \<open>Reconcile\<close>

text \<open>The counters and the live names of the loop over the nodes.\<close>

record tally =
  ta_matched :: int
  ta_devices :: int
  ta_occupied :: int
  ta_faulted :: int
  ta_live :: "string set"

fun node_loop ::
  "('w, 'q) client \<Rightarrow> 'q quantity_ops \<Rightarrow> 'q pool \<Rightarrow> 'q GPUModel \<Rightarrow> 'q Table \<Rightarrow> tally \<Rightarrow> 'q Node list
   \<Rightarrow> ('w, 'q) cstate \<Rightarrow> tally outcome \<times> ('w, 'q) cstate" where
  "node_loop C Q pool model table t [] s = (Ok t, s)"
| "node_loop C Q pool model table t (node # nodes) s =
     (if \<not> IsSimulatedNode (Some node) then node_loop C Q pool model table t nodes s
      else
        (let state = StateFor pool node;
             t1 = t\<lparr> ta_matched := wrap32 (ta_matched t + 1),
                     ta_occupied := wrap32 (ta_occupied t + ns_Busy state),
                     ta_faulted := wrap32 (ta_faulted t + ns_Faulted state) \<rparr>
         in andThen
              (if DRAEnabled (ps_Advertise (pool_Spec pool))
               then andThen (reconcileSlices C Q pool model table (nd_Name node) state (ta_live t1))
                      (\<lambda>(published, live) s'. (Ok (t1\<lparr> ta_devices := wrap32 (ta_devices t1 + published), ta_live := live \<rparr>), s'))
               else (\<lambda>s'. (Ok t1, s')))
              (\<lambda>t2. andThen (reconcileNode C Q pool model table node state)
                      (\<lambda>_. node_loop C Q pool model table t2 nodes)) s))"

definition emptyTable :: "'q quantity_ops \<Rightarrow> 'q Table" where
  "emptyTable Q = \<lparr> tb_Budget = \<lparr> bd_Memory = q_NewQuantity Q 0 DecimalSI, bd_Slices = 0 \<rparr>, tb_Profiles = [] \<rparr>"

text \<open>The checks before anything is written: the table, or the reason and the message of the refusal.\<close>

definition check_pool :: "'q quantity_ops \<Rightarrow> 'q pool \<Rightarrow> 'q GPUModel \<Rightarrow> (string \<times> 'q ReadyMessage) + 'q Table" where
  "check_pool Q pool model =
     (case (if MIGEnabled (pool_Spec pool)
            then (case Resolve Q model of
                    Inl e \<Rightarrow> Inl (''MIGProfilesInvalid'', MsgMig e)
                  | Inr table \<Rightarrow>
                      (case ValidatePartition Q (ps_MIGPartition (pool_Spec pool)) table of
                         Inl e \<Rightarrow> Inl (''MIGPartitionInvalid'', MsgMig e)
                       | Inr _ \<Rightarrow> Inr table))
            else Inr (emptyTable Q)) of
        Inl r \<Rightarrow> Inl r
      | Inr table \<Rightarrow>
          (case ValidateOccupancy pool of
             Inl e \<Rightarrow> Inl (''OccupancyInvalid'', MsgDecl e)
           | Inr _ \<Rightarrow>
               (case ValidateFaults pool of
                  Inl e \<Rightarrow> Inl (''FaultsInvalid'', MsgDecl e)
                | Inr _ \<Rightarrow> Inr table)))"

definition updateStatus :: "('w, 'q) client \<Rightarrow> 'q pool \<Rightarrow> ('w, 'q) cstate \<Rightarrow> unit outcome \<times> ('w, 'q) cstate" where
  "updateStatus C pool = call (c_UpdatePoolStatus C pool) (\<lambda>_. [UpdatePoolStatusCall pool])"

text \<open>The second half of \<open>Reconcile\<close>: the pool has passed its checks.\<close>

definition publish ::
  "('w, 'q) client \<Rightarrow> 'q quantity_ops \<Rightarrow> 'q pool \<Rightarrow> 'q GPUModel \<Rightarrow> 'q Table \<Rightarrow> ('w, 'q) cstate \<Rightarrow> unit outcome \<times> ('w, 'q) cstate" where
  "publish C Q pool model table =
     (let sel = ps_NodeSelector (pool_Spec pool) in
      andThen (call (c_ListNodes C sel) (\<lambda>r. case r of Inl _ \<Rightarrow> [] | Inr ns \<Rightarrow> [ListNodesCall sel ns]))
        (\<lambda>nodes. andThen
           (node_loop C Q pool model table
              \<lparr> ta_matched = 0, ta_devices = 0, ta_occupied = 0, ta_faulted = 0, ta_live = {} \<rparr> nodes)
           (\<lambda>t. andThen (pruneSlices C pool (ta_live t))
              (\<lambda>_. updateStatus C
                 (setReady C
                    (pool\<lparr> pool_Status := (pool_Status pool)
                       \<lparr> st_ObservedGeneration := pool_Generation pool, st_NodesMatched := ta_matched t,
                         st_DevicesPublished := ta_devices t, st_GPUsOccupied := ta_occupied t,
                         st_GPUsFaulted := ta_faulted t,
                         st_MIGProfilesPublished := wrap32 (int (length (tb_Profiles table))) \<rparr> \<rparr>)
                    ConditionTrue ''Reconciled''
                    (MsgSummary (summarize pool (ta_devices t) (ta_matched t) (ta_occupied t) (ta_faulted t) table)))))))"

definition Reconcile ::
  "('w, 'q) client \<Rightarrow> 'q quantity_ops \<Rightarrow> string \<Rightarrow> ('w, 'q) cstate \<Rightarrow> unit outcome \<times> ('w, 'q) cstate" where
  "Reconcile C Q req s =
     (case call (c_GetPool C req) (\<lambda>_. []) s of
        (Err NotFound, s1) \<Rightarrow> (Ok (), s1)
      | (Err e, s1) \<Rightarrow> (Err e, s1)
      | (Panic, s1) \<Rightarrow> (Panic, s1)
      | (Ok pool, s1) \<Rightarrow>
          (case call (c_GetModel C (ps_ModelRef (pool_Spec pool))) (\<lambda>_. []) s1 of
             (Err NotFound, s2) \<Rightarrow>
               updateStatus C (setReady C pool ConditionFalse ''ModelNotFound''
                 (MsgModelNotFound (ps_ModelRef (pool_Spec pool)))) s2
           | (Err e, s2) \<Rightarrow> (Err e, s2)
           | (Panic, s2) \<Rightarrow> (Panic, s2)
           | (Ok model, s2) \<Rightarrow>
               (case check_pool Q pool model of
                  Inl (reason, msg) \<Rightarrow> updateStatus C (setReady C pool ConditionFalse reason msg) s2
                | Inr table \<Rightarrow> publish C Q pool model table s2)))"

definition poolsForNode :: "('w, 'q) client \<Rightarrow> 'w \<Rightarrow> string list \<times> 'w" where
  "poolsForNode C w =
     (case c_ListPools C w of (Inl _, w') \<Rightarrow> ([], w') | (Inr pools, w') \<Rightarrow> (map pool_Name pools, w'))"

section \<open>A concrete client\<close>

text \<open>
  The instance on which witnesses are evaluated: it answers every read with fixed objects and accepts
  every write. Its world counts the calls.
\<close>

definition fixed_client ::
  "'q pool \<Rightarrow> ApiError + 'q GPUModel \<Rightarrow> 'q Node list \<Rightarrow> 'q ResourceSlice list \<Rightarrow> (nat, 'q) client" where
  "fixed_client pool model nodes slices =
     \<lparr> c_GetPool = (\<lambda>n w. (Inr pool, Suc w)), c_GetModel = (\<lambda>n w. (model, Suc w)),
       c_ListNodes = (\<lambda>sel w. (Inr nodes, Suc w)), c_ListSlices = (\<lambda>sel w. (Inr slices, Suc w)),
       c_ListPools = (\<lambda>w. (Inr [pool], Suc w)), c_UpdatePoolStatus = (\<lambda>p w. (Inr (), Suc w)),
       c_PatchNodeStatus = (\<lambda>p b w. (Inr p, Suc w)), c_PatchNode = (\<lambda>p b w. (Inr p, Suc w)),
       c_DeleteSlice = (\<lambda>sl w. (Inr (), Suc w)), c_CreateOrUpdateSlice = (\<lambda>n m w. (Inr (), Suc w)),
       c_SetControllerReference = (\<lambda>p sl. Inr (sl\<lparr> rs_Owner := Some (pool_Name p) \<rparr>)),
       c_SetStatusCondition = (\<lambda>cs c. c # filter (\<lambda>x. cond_Type x \<noteq> cond_Type c) cs) \<rparr>"

definition witness_pool :: "OccupancyEntry list \<Rightarrow> int pool" where
  "witness_pool occ =
     \<lparr> pool_Name = ''pool'', pool_Generation = 1,
       pool_Spec = \<lparr> ps_ModelRef = ''h100'', ps_NodeSelector = fmempty, ps_GPUsPerNode = 8,
         ps_Advertise = \<lparr> adv_DRA = None, adv_ExtendedResource = None \<rparr>,
         ps_MIGPartition = [], ps_Faults = [], ps_Utilization = None, ps_Occupancy = occ,
         ps_SharingMode = SharingModeNone, ps_Topology = \<lparr> top_NVLinkDomainSize = 4, top_NUMAAware = True \<rparr> \<rparr>,
       pool_Status = \<lparr> st_Conditions = [], st_ObservedGeneration = 0, st_NodesMatched = 0, st_DevicesPublished = 0,
         st_GPUsOccupied = 0, st_GPUsFaulted = 0, st_MIGProfilesPublished = 0 \<rparr> \<rparr>"

definition kwok_node :: "int Node" where
  "kwok_node = example_node\<lparr> nd_Annotations := fmupd KwokNodeAnnotation ''fake'' fmempty,
     nd_Labels := fmupd LabelMIGCapable labelTrue fmempty \<rparr>"

definition witness_client :: "OccupancyEntry list \<Rightarrow> (nat, int) client" where
  "witness_client occ = fixed_client (witness_pool occ) (Inr example_model) [kwok_node, example_node] []"

section \<open>What a run logs and returns\<close>

text \<open>
  \<open>runs P R f\<close>: whatever the state, \<open>f\<close> only appends calls that satisfy \<open>P\<close> to the log, and a result it
  returns satisfies \<open>R\<close>.
\<close>

definition runs :: "('q call \<Rightarrow> bool) \<Rightarrow> ('a \<Rightarrow> bool) \<Rightarrow> (('w, 'q) cstate \<Rightarrow> 'a outcome \<times> ('w, 'q) cstate) \<Rightarrow> bool" where
  "runs P R f \<longleftrightarrow> (\<forall>s. (\<exists>l. snd (snd (f s)) = snd s @ l \<and> list_all P l) \<and> (\<forall>a. fst (f s) = Ok a \<longrightarrow> R a))"

named_theorems run_intros \<open>rules for what a run logs\<close>

lemma runs_return [run_intros]: "R a \<Longrightarrow> runs P R (\<lambda>s. (Ok a, s))"
  by (simp add: runs_def)

lemma runs_panic [run_intros]: "runs P R (\<lambda>s. (Panic, s))"
  by (simp add: runs_def)

lemma runs_call:
  assumes "\<And>r. list_all P (ev r)" "\<And>w a w'. f w = (Inr a, w') \<Longrightarrow> R a"
  shows "runs P R (call f ev)"
proof -
  have "R a" if "to_outcome r = Ok a" "f w = (r, w')" for r a w w'
    using that assms(2) by (cases r) auto
  then show ?thesis using assms(1) by (auto simp: runs_def call_def split: prod.splits)
qed

lemma runs_andThen:
  assumes "runs P R f" "\<And>a. R a \<Longrightarrow> runs P S (g a)"
  shows "runs P S (andThen f g)"
  unfolding runs_def
proof
  fix s
  obtain r s' where f: "f s = (r, s')" by (cases "f s")
  from assms(1) obtain l where l: "snd s' = snd s @ l" "list_all P l"
    unfolding runs_def using f by (metis snd_conv)
  show "(\<exists>l. snd (snd (andThen f g s)) = snd s @ l \<and> list_all P l) \<and> (\<forall>a. fst (andThen f g s) = Ok a \<longrightarrow> S a)"
  proof (cases r)
    case (Ok a)
    then have "R a" using assms(1) f unfolding runs_def by (metis fst_conv)
    from assms(2) [OF this] obtain l' where l': "snd (snd (g a s')) = snd s' @ l'" "list_all P l'"
      and S: "\<forall>b. fst (g a s') = Ok b \<longrightarrow> S b"
      unfolding runs_def by blast
    have "snd (snd (andThen f g s)) = snd s @ (l @ l')" "list_all P (l @ l')"
      using Ok f l l' by (simp_all add: andThen_def)
    with S Ok f show ?thesis by (auto simp: andThen_def)
  next
    case (Err e)
    with f l show ?thesis by (auto simp: andThen_def)
  next
    case Panic
    with f l show ?thesis by (auto simp: andThen_def)
  qed
qed

lemma runs_mono: "runs P R f \<Longrightarrow> (\<And>c. P c \<Longrightarrow> P' c) \<Longrightarrow> (\<And>a. R a \<Longrightarrow> R' a) \<Longrightarrow> runs P' R' f"
  unfolding runs_def list_all_iff by blast

lemma runs_log: "runs P R f \<Longrightarrow> f s = (r, s') \<Longrightarrow> \<exists>l. snd s' = snd s @ l \<and> list_all P l"
  unfolding runs_def by (metis snd_conv)

lemma runs_eta: "runs P R (\<lambda>s. f s) \<Longrightarrow> runs P R f"
  by simp

section \<open>What each part may call\<close>

text \<open>The node a call writes to.\<close>

fun node_written :: "'q call \<Rightarrow> string option" where
  "node_written (PatchNodeStatusCall patched base) = Some (nd_Name patched)"
| "node_written (PatchNodeCall patched base) = Some (nd_Name patched)"
| "node_written _ = None"

text \<open>A patch answers with the object that was patched: the documented behaviour of the client.\<close>

definition patch_keeps_name :: "('w, 'q) client \<Rightarrow> bool" where
  "patch_keeps_name C \<longleftrightarrow>
     (\<forall>p b w n w'. c_PatchNodeStatus C p b w = (Inr n, w') \<longrightarrow> nd_Name n = nd_Name p)"

lemma patch_keeps_nameD:
  "patch_keeps_name C \<Longrightarrow> c_PatchNodeStatus C p b w = (Inr n, w') \<Longrightarrow> nd_Name n = nd_Name p"
  unfolding patch_keeps_name_def by blast

abbreviation writes_within :: "string set \<Rightarrow> 'q call \<Rightarrow> bool" where
  "writes_within N c \<equiv> (\<forall>nm. node_written c = Some nm \<longrightarrow> nm \<in> N)"

lemma applySlice_runs: "runs (\<lambda>c. c = ApplySliceCall pool d) (\<lambda>_. True) (applySlice C pool d)"
  unfolding applySlice_def by (rule runs_call) simp_all

lemma apply_loop_runs:
  "runs (\<lambda>c. \<exists>d \<in> set ds. c = ApplySliceCall pool d) (\<lambda>(n, l). l = live \<union> rs_Name ` set ds) (apply_loop C pool n0 live ds)"
proof (induction ds arbitrary: n0 live)
  case Nil
  have "apply_loop C pool n0 live [] = (\<lambda>s. (Ok (n0, live), s))" by (simp add: fun_eq_iff)
  then show ?case by (simp add: runs_return)
next
  case (Cons d ds)
  have eq: "apply_loop C pool n0 live (d # ds) = andThen (applySlice C pool d)
       (\<lambda>_. apply_loop C pool (wrap32 (n0 + wrap32 (int (length (rss_Devices (rs_Spec d))))))
              (insert (rs_Name d) live) ds)"
    by (simp add: fun_eq_iff)
  show ?case unfolding eq
    by (rule runs_andThen [OF runs_mono [OF applySlice_runs] runs_mono [OF Cons.IH]]) auto
qed

lemma reconcileSlices_runs:
  "runs (\<lambda>c. \<exists>d. c = ApplySliceCall pool d) (\<lambda>_. True) (reconcileSlices C Q pool model table nodeName state live)"
proof (cases "MIGEnabled (pool_Spec pool)")
  case True
  then show ?thesis
    by (cases "BuildMIGSlices Q pool model table nodeName state")
      (auto simp: reconcileSlices_def [abs_def] intro: runs_panic runs_mono [OF apply_loop_runs])
next
  case False
  then show ?thesis
    by (cases "BuildResourceSlice pool model nodeName state")
      (auto simp: reconcileSlices_def [abs_def] intro: runs_panic
        intro!: runs_andThen [OF runs_mono [OF applySlice_runs]] runs_return)
qed

lemma reconcileNode_runs:
  assumes "patch_keeps_name C"
  shows "runs (\<lambda>c. node_written c = Some (nd_Name node)) (\<lambda>_. True) (reconcileNode C Q pool model table node state)"
  unfolding reconcileNode_def
proof (rule runs_andThen)
  let ?P = "\<lambda>c. node_written c = Some (nd_Name node)"
  show "runs ?P (\<lambda>n. nd_Name n = nd_Name node)
     (let capacity = NodeResources Q pool table; allocatable = NodeAllocatable Q pool table state
      in if ExtendedResourceEnabled (ps_Advertise (pool_Spec pool))
            \<and> (\<not> resourcesMatch Q (nd_Capacity node) capacity \<or> \<not> resourcesMatch Q (nd_Allocatable node) allocatable)
         then (let patched = node\<lparr> nd_Capacity := applyGPUResources (nd_Capacity node) capacity,
                                   nd_Allocatable := applyGPUResources (nd_Allocatable node) allocatable \<rparr>
               in call (c_PatchNodeStatus C patched node) (\<lambda>_. [PatchNodeStatusCall patched node]))
         else (\<lambda>s. (Ok node, s)))"
    by (auto simp: Let_def intro!: runs_return runs_call dest!: patch_keeps_nameD [OF assms])
  show "runs ?P (\<lambda>_. True) (let desired = NodeLabels Q pool model in
      if labelsMatch (nd_Labels n) desired then (\<lambda>s. (Ok (), s))
      else (let patched = n\<lparr> nd_Labels := nd_Labels n ++\<^sub>f desired \<rparr>
            in andThen (call (c_PatchNode C patched n) (\<lambda>_. [PatchNodeCall patched n])) (\<lambda>_ s. (Ok (), s))))"
    if "nd_Name n = nd_Name node" for n
    using that by (auto simp: Let_def intro!: runs_return runs_andThen [where R = "\<lambda>_. True"] runs_call)
qed

text \<open>One turn of the loop over the nodes.\<close>

definition count_node :: "tally \<Rightarrow> NodeState \<Rightarrow> tally" where
  "count_node t state = t\<lparr> ta_matched := wrap32 (ta_matched t + 1), ta_occupied := wrap32 (ta_occupied t + ns_Busy state),
     ta_faulted := wrap32 (ta_faulted t + ns_Faulted state) \<rparr>"

definition publish_node ::
  "('w, 'q) client \<Rightarrow> 'q quantity_ops \<Rightarrow> 'q pool \<Rightarrow> 'q GPUModel \<Rightarrow> 'q Table \<Rightarrow> tally \<Rightarrow> 'q Node
   \<Rightarrow> ('w, 'q) cstate \<Rightarrow> tally outcome \<times> ('w, 'q) cstate" where
  "publish_node C Q pool model table t1 node =
     (if DRAEnabled (ps_Advertise (pool_Spec pool))
      then andThen (reconcileSlices C Q pool model table (nd_Name node) (StateFor pool node) (ta_live t1))
             (\<lambda>(published, live) s'. (Ok (t1\<lparr> ta_devices := wrap32 (ta_devices t1 + published), ta_live := live \<rparr>), s'))
      else (\<lambda>s'. (Ok t1, s')))"

lemma node_loop_Nil: "node_loop C Q pool model table t [] = (\<lambda>s. (Ok t, s))"
  by (simp add: fun_eq_iff)

lemma node_loop_skip:
  "\<not> simulated node \<Longrightarrow> node_loop C Q pool model table t (node # nodes) = node_loop C Q pool model table t nodes"
  by (simp add: fun_eq_iff)

lemma node_loop_step:
  "simulated node \<Longrightarrow> node_loop C Q pool model table t (node # nodes) =
     andThen (publish_node C Q pool model table (count_node t (StateFor pool node)) node)
       (\<lambda>t2. andThen (reconcileNode C Q pool model table node (StateFor pool node))
               (\<lambda>_. node_loop C Q pool model table t2 nodes))"
  by (simp add: fun_eq_iff publish_node_def count_node_def Let_def)

lemma node_loop_runs:
  assumes "patch_keeps_name C"
  shows "runs (writes_within (nd_Name ` {n \<in> set nodes. simulated n})) (\<lambda>_. True) (node_loop C Q pool model table t nodes)"
proof (induction nodes arbitrary: t)
  case Nil
  then show ?case by (simp add: node_loop_Nil runs_return)
next
  case (Cons node nodes)
  let ?N = "nd_Name ` {n \<in> set (node # nodes). simulated n}"
  have rest: "runs (writes_within ?N) (\<lambda>_. True) (node_loop C Q pool model table t' nodes)" for t'
    by (rule runs_mono [OF Cons.IH]) auto
  show ?case
  proof (cases "simulated node")
    case False
    then show ?thesis using rest [of t] by (simp add: node_loop_skip)
  next
    case True
    have slices: "runs (writes_within ?N) (\<lambda>_. True) (reconcileSlices C Q pool model table nm st live)" for nm st live
      by (rule runs_mono [OF reconcileSlices_runs]) auto
    have pub: "runs (writes_within ?N) (\<lambda>_. True) (publish_node C Q pool model table t1 node)" for t1
    proof (cases "DRAEnabled (ps_Advertise (pool_Spec pool))")
      case True
      show ?thesis unfolding publish_node_def if_P [OF True]
        by (rule runs_andThen [OF slices]) (auto simp: case_prod_beta intro: runs_return)
    next
      case False
      then show ?thesis by (simp add: publish_node_def runs_return)
    qed
    have nd: "runs (writes_within ?N) (\<lambda>_. True) (reconcileNode C Q pool model table node st)" for st
      by (rule runs_mono [OF reconcileNode_runs [OF assms]]) (use True in auto)
    show ?thesis unfolding node_loop_step [OF True]
      by (rule runs_andThen [OF pub runs_andThen [OF nd rest]])
  qed
qed

lemma prune_loop_Cons:
  "prune_loop C live (sl # slices) =
     (if rs_Name sl \<in> live then prune_loop C live slices
      else (\<lambda>s. case call (c_DeleteSlice C sl) (\<lambda>_. [DeleteSliceCall sl]) s of
              (Ok _, s') \<Rightarrow> prune_loop C live slices s'
            | (Err NotFound, s') \<Rightarrow> prune_loop C live slices s'
            | (Err e, s') \<Rightarrow> (Err e, s')
            | (Panic, s') \<Rightarrow> (Panic, s')))"
  by (simp add: fun_eq_iff)

lemma prune_loop_log:
  "\<exists>l. snd (snd (prune_loop C live ss s)) = snd s @ l
     \<and> set l \<subseteq> DeleteSliceCall ` {sl \<in> set ss. rs_Name sl \<notin> live}
     \<and> (fst (prune_loop C live ss s) = Ok () \<longrightarrow> l = map DeleteSliceCall (filter (\<lambda>sl. rs_Name sl \<notin> live) ss))
     \<and> fst (prune_loop C live ss s) \<noteq> Panic"
proof (induction ss arbitrary: s)
  case (Cons sl ss)
  show ?case
  proof (cases "rs_Name sl \<in> live")
    case True
    from Cons.IH [of s] True show ?thesis by fastforce
  next
    case False
    obtain r w' where c: "c_DeleteSlice C sl (fst s) = (r, w')" by (cases "c_DeleteSlice C sl (fst s)")
    let ?s = "(w', snd s @ [DeleteSliceCall sl])"
    from Cons.IH [of ?s] obtain l where l: "snd (snd (prune_loop C live ss ?s)) = snd ?s @ l"
      "set l \<subseteq> DeleteSliceCall ` {sl \<in> set ss. rs_Name sl \<notin> live}"
      "fst (prune_loop C live ss ?s) = Ok () \<longrightarrow> l = map DeleteSliceCall (filter (\<lambda>sl. rs_Name sl \<notin> live) ss)"
      "fst (prune_loop C live ss ?s) \<noteq> Panic" by blast
    show ?thesis
    proof (cases "r = Inl NotFound \<or> (\<exists>a. r = Inr a)")
      case True
      then have eq: "prune_loop C live (sl # ss) s = prune_loop C live ss ?s"
        using False c by (auto simp: call_def)
      have "set (DeleteSliceCall sl # l) \<subseteq> DeleteSliceCall ` {x \<in> set (sl # ss). rs_Name x \<notin> live}"
        using l(2) False by auto
      then show ?thesis unfolding eq
        using l False by (intro exI [of _ "DeleteSliceCall sl # l"]) simp
    next
      case err: False
      then obtain m where "r = Inl (ApiFailure m)" by (cases r) (use ApiError.exhaust in auto)
      then have eq: "prune_loop C live (sl # ss) s = (Err (ApiFailure m), ?s)"
        using False c by (auto simp: call_def)
      show ?thesis unfolding eq
        using False by (intro exI [of _ "[DeleteSliceCall sl]"]) simp
    qed
  qed
qed simp

section \<open>What a successful run logs exactly\<close>

definition yields ::
  "('a \<Rightarrow> 'q call list \<Rightarrow> bool) \<Rightarrow> (('w, 'q) cstate \<Rightarrow> 'a outcome \<times> ('w, 'q) cstate) \<Rightarrow> bool" where
  "yields X f \<longleftrightarrow> (\<forall>s a s'. f s = (Ok a, s') \<longrightarrow> (\<exists>l. snd s' = snd s @ l \<and> X a l))"

lemma yields_return: "X a [] \<Longrightarrow> yields X (\<lambda>s. (Ok a, s))"
  by (simp add: yields_def)

lemma yields_panic: "yields X (\<lambda>s. (Panic, s))"
  by (simp add: yields_def)

lemma yields_call:
  assumes "\<And>a. X a (ev (Inr a))"
  shows "yields X (call f ev)"
proof -
  have "X a (ev r)" if "to_outcome r = Ok a" for r a
    using that assms by (cases r) auto
  then show ?thesis by (auto simp: yields_def call_def split: prod.splits)
qed

lemma yields_andThen:
  assumes "yields X f" "\<And>a l. X a l \<Longrightarrow> yields (Y a l) (g a)"
    and "\<And>a l1 b l2. X a l1 \<Longrightarrow> Y a l1 b l2 \<Longrightarrow> Z b (l1 @ l2)"
  shows "yields Z (andThen f g)"
  unfolding yields_def
proof (intro allI impI)
  fix s b s2 assume "andThen f g s = (Ok b, s2)"
  then obtain a s1 where f: "f s = (Ok a, s1)" and g: "g a s1 = (Ok b, s2)"
    by (auto simp: andThen_def split: prod.splits outcome.splits)
  from assms(1) f obtain l1 where l1: "snd s1 = snd s @ l1" "X a l1" unfolding yields_def by blast
  from assms(2) [OF l1(2)] g obtain l2 where l2: "snd s2 = snd s1 @ l2" "Y a l1 b l2" unfolding yields_def by blast
  from l1 l2 assms(3) show "\<exists>l. snd s2 = snd s @ l \<and> Z b l" by (intro exI [of _ "l1 @ l2"]) simp
qed

lemma yields_mono: "yields X f \<Longrightarrow> (\<And>a l. X a l \<Longrightarrow> X' a l) \<Longrightarrow> yields X' f"
  unfolding yields_def by blast

text \<open>The slices that a log applies and deletes, in order, and the status updates.\<close>

definition applied :: "'q call list \<Rightarrow> 'q ResourceSlice list" where
  "applied l = concat (map (\<lambda>c. case c of ApplySliceCall p d \<Rightarrow> [d] | _ \<Rightarrow> []) l)"

definition deleted :: "'q call list \<Rightarrow> 'q ResourceSlice list" where
  "deleted l = concat (map (\<lambda>c. case c of DeleteSliceCall d \<Rightarrow> [d] | _ \<Rightarrow> []) l)"

definition status_updates :: "'q call list \<Rightarrow> 'q pool list" where
  "status_updates l = concat (map (\<lambda>c. case c of UpdatePoolStatusCall p \<Rightarrow> [p] | _ \<Rightarrow> []) l)"

lemmas projections = applied_def deleted_def status_updates_def

lemma projections_append [simp]:
  "applied (l @ l') = applied l @ applied l'" "deleted (l @ l') = deleted l @ deleted l'"
  "status_updates (l @ l') = status_updates l @ status_updates l'"
  by (simp_all add: projections)

lemma projections_apply [simp]:
  "applied (map (ApplySliceCall p) ds) = ds" "deleted (map (ApplySliceCall p) ds) = []"
  "status_updates (map (ApplySliceCall p) ds) = []"
  "applied (map DeleteSliceCall ds) = []" "deleted (map DeleteSliceCall ds) = ds"
  "status_updates (map DeleteSliceCall ds) = []" "applied [] = []" "deleted [] = []" "status_updates [] = []"
  by (induction ds) (simp_all add: projections)

lemma projections_single [simp]:
  "applied [ApplySliceCall p d] = [d]" "deleted [ApplySliceCall p d] = []" "status_updates [ApplySliceCall p d] = []"
  "applied [PatchNodeStatusCall a b] = []" "deleted [PatchNodeStatusCall a b] = []" "status_updates [PatchNodeStatusCall a b] = []"
  "applied [PatchNodeCall a b] = []" "deleted [PatchNodeCall a b] = []" "status_updates [PatchNodeCall a b] = []"
  "applied [ListNodesCall x ns] = []" "deleted [ListNodesCall x ns] = []" "status_updates [ListNodesCall x ns] = []"
  "applied [ListSlicesCall x ss] = []" "deleted [ListSlicesCall x ss] = []" "status_updates [ListSlicesCall x ss] = []"
  "applied [UpdatePoolStatusCall p] = []" "deleted [UpdatePoolStatusCall p] = []" "status_updates [UpdatePoolStatusCall p] = [p]"
  by (simp_all add: projections)

text \<open>What the pool should publish for one node; \<open>None\<close> where the builder panics.\<close>

definition desired_slices ::
  "'q quantity_ops \<Rightarrow> 'q pool \<Rightarrow> 'q GPUModel \<Rightarrow> 'q Table \<Rightarrow> 'q Node \<Rightarrow> 'q ResourceSlice list option" where
  "desired_slices Q pool model table node =
     (if \<not> DRAEnabled (ps_Advertise (pool_Spec pool)) then Some []
      else if MIGEnabled (pool_Spec pool) then BuildMIGSlices Q pool model table (nd_Name node) (StateFor pool node)
      else map_option (\<lambda>sl. [sl]) (BuildResourceSlice pool model (nd_Name node) (StateFor pool node)))"

abbreviation device_count :: "'q ResourceSlice list \<Rightarrow> int" where
  "device_count ds \<equiv> int (length (pool_devices ds))"

lemma apply_loop_yields:
  "int32_range n0 \<Longrightarrow> yields (\<lambda>(n, l) log. log = map (ApplySliceCall pool) ds \<and> l = live \<union> rs_Name ` set ds
     \<and> n = wrap32 (n0 + device_count ds)) (apply_loop C pool n0 live ds)"
proof (induction ds arbitrary: n0 live)
  case Nil
  have "apply_loop C pool n0 live [] = (\<lambda>s. (Ok (n0, live), s))" by (simp add: fun_eq_iff)
  then show ?case using Nil by (simp add: yields_return pool_devices_def)
next
  case (Cons d ds)
  have eq: "apply_loop C pool n0 live (d # ds) = andThen (applySlice C pool d)
       (\<lambda>_. apply_loop C pool (wrap32 (n0 + wrap32 (int (length (rss_Devices (rs_Spec d))))))
              (insert (rs_Name d) live) ds)"
    by (simp add: fun_eq_iff)
  have one: "yields (\<lambda>_ log. log = [ApplySliceCall pool d]) (applySlice C pool d)"
    unfolding applySlice_def by (rule yields_call) simp
  show ?case unfolding eq
    by (rule yields_andThen [OF one Cons.IH]) (auto simp: pool_devices_def add.assoc)
qed

lemma publish_node_yields:
  assumes "int32_range (ps_GPUsPerNode (pool_Spec pool))" "int32_range (ta_devices t)"
  shows "yields (\<lambda>t' log. \<exists>ds. desired_slices Q pool model table node = Some ds \<and> log = map (ApplySliceCall pool) ds
      \<and> t' = t\<lparr> ta_devices := wrap32 (ta_devices t + device_count ds), ta_live := ta_live t \<union> rs_Name ` set ds \<rparr>)
    (publish_node C Q pool model table t node)"
proof (cases "DRAEnabled (ps_Advertise (pool_Spec pool))")
  case dra: True
  let ?st = "StateFor pool node"
  have slices: "yields (\<lambda>(n, live) log. \<exists>ds. desired_slices Q pool model table node = Some ds \<and> log = map (ApplySliceCall pool) ds
      \<and> live = ta_live t \<union> rs_Name ` set ds \<and> n = wrap32 (device_count ds))
    (reconcileSlices C Q pool model table (nd_Name node) ?st (ta_live t))"
  proof (cases "MIGEnabled (pool_Spec pool)")
    case True
    then show ?thesis using dra
      by (cases "BuildMIGSlices Q pool model table (nd_Name node) ?st")
        (auto simp: reconcileSlices_def [abs_def] desired_slices_def int32_range_def
          intro: yields_panic yields_mono [OF apply_loop_yields])
  next
    case False
    show ?thesis
    proof (cases "BuildResourceSlice pool model (nd_Name node) ?st")
      case None
      with False show ?thesis by (simp add: reconcileSlices_def [abs_def] yields_panic)
    next
      case (Some sl)
      then have dev: "device_count [sl] = ps_GPUsPerNode (pool_Spec pool)"
        and nm: "rs_Name sl = SliceName (pool_Name pool) (nd_Name node)"
        by (auto simp: BuildResourceSlice_def pool_devices_def split: if_splits)
      have one: "yields (\<lambda>_ log. log = [ApplySliceCall pool sl]) (applySlice C pool sl)"
        unfolding applySlice_def by (rule yields_call) simp
      have eq: "reconcileSlices C Q pool model table (nd_Name node) ?st (ta_live t) = andThen (applySlice C pool sl)
          (\<lambda>_ s'. (Ok (ps_GPUsPerNode (pool_Spec pool), insert (SliceName (pool_Name pool) (nd_Name node)) (ta_live t)), s'))"
        using False Some by (simp add: reconcileSlices_def [abs_def])
      show ?thesis unfolding eq
        by (rule yields_andThen [OF one yields_return [where X = "\<lambda>b l2. b = (ps_GPUsPerNode (pool_Spec pool),
              insert (SliceName (pool_Name pool) (nd_Name node)) (ta_live t)) \<and> l2 = []"]])
          (use dra False Some dev nm assms(1) in \<open>auto simp: desired_slices_def\<close>)
    qed
  qed
  show ?thesis unfolding publish_node_def if_P [OF dra]
    by (rule yields_andThen [OF slices, where Y = "\<lambda>a l b l2.
          b = t\<lparr> ta_devices := wrap32 (ta_devices t + fst a), ta_live := snd a \<rparr> \<and> l2 = []"])
      (auto simp: case_prod_beta intro: yields_return)
next
  case False
  then show ?thesis using assms(2) by (simp add: publish_node_def desired_slices_def pool_devices_def yields_return)
qed

lemma reconcileNode_yields:
  "yields (\<lambda>_ l. applied l = [] \<and> deleted l = [] \<and> status_updates l = []) (reconcileNode C Q pool model table node state)"
  unfolding reconcileNode_def
proof (rule yields_andThen)
  let ?X = "\<lambda>_ l. applied l = [] \<and> deleted l = [] \<and> status_updates l = []"
  show "yields ?X (let capacity = NodeResources Q pool table; allocatable = NodeAllocatable Q pool table state
      in if ExtendedResourceEnabled (ps_Advertise (pool_Spec pool))
            \<and> (\<not> resourcesMatch Q (nd_Capacity node) capacity \<or> \<not> resourcesMatch Q (nd_Allocatable node) allocatable)
         then (let patched = node\<lparr> nd_Capacity := applyGPUResources (nd_Capacity node) capacity,
                                   nd_Allocatable := applyGPUResources (nd_Allocatable node) allocatable \<rparr>
               in call (c_PatchNodeStatus C patched node) (\<lambda>_. [PatchNodeStatusCall patched node]))
         else (\<lambda>s. (Ok node, s)))"
    by (auto simp: Let_def intro!: yields_return yields_call)
  show "yields ?X (let desired = NodeLabels Q pool model in
      if labelsMatch (nd_Labels n) desired then (\<lambda>s. (Ok (), s))
      else (let patched = n\<lparr> nd_Labels := nd_Labels n ++\<^sub>f desired \<rparr>
            in andThen (call (c_PatchNode C patched n) (\<lambda>_. [PatchNodeCall patched n])) (\<lambda>_ s. (Ok (), s))))" for n
    by (auto simp: Let_def intro!: yields_return yields_andThen [where X = ?X and Y = "\<lambda>_ _. ?X"] yields_call)
qed auto

text \<open>The tally of a loop over the nodes, as a specification.\<close>

definition tally_of :: "'q pool \<Rightarrow> 'q ResourceSlice list list \<Rightarrow> 'q Node list \<Rightarrow> tally \<Rightarrow> tally \<Rightarrow> bool" where
  "tally_of pool dss nodes t t' \<longleftrightarrow>
     ta_matched t' = wrap32 (ta_matched t + int (length nodes))
   \<and> ta_devices t' = wrap32 (ta_devices t + device_count (concat dss))
   \<and> ta_occupied t' = wrap32 (ta_occupied t + (\<Sum>n\<leftarrow>nodes. ns_Busy (StateFor pool n)))
   \<and> ta_faulted t' = wrap32 (ta_faulted t + (\<Sum>n\<leftarrow>nodes. ns_Faulted (StateFor pool n)))
   \<and> ta_live t' = ta_live t \<union> rs_Name ` set (concat dss)"

definition tally_range :: "tally \<Rightarrow> bool" where
  "tally_range t \<longleftrightarrow> int32_range (ta_matched t) \<and> int32_range (ta_devices t) \<and> int32_range (ta_occupied t) \<and> int32_range (ta_faulted t)"

lemma pool_devices_append [simp]: "pool_devices (a @ b) = pool_devices a @ pool_devices b"
  by (simp add: pool_devices_def)

text \<open>What the loop over the nodes has done when it ends: the slices of exactly the simulated nodes are applied.\<close>

definition loop_result ::
  "'q quantity_ops \<Rightarrow> 'q pool \<Rightarrow> 'q GPUModel \<Rightarrow> 'q Table \<Rightarrow> 'q Node list \<Rightarrow> tally \<Rightarrow> tally \<Rightarrow> 'q call list \<Rightarrow> bool" where
  "loop_result Q pool model table nodes t t' l \<longleftrightarrow>
     (\<exists>dss. map (desired_slices Q pool model table) (filter simulated nodes) = map Some dss
      \<and> applied l = concat dss \<and> deleted l = [] \<and> status_updates l = [] \<and> tally_of pool dss (filter simulated nodes) t t')"

definition published_tally :: "tally \<Rightarrow> 'q ResourceSlice list \<Rightarrow> tally" where
  "published_tally t ds = t\<lparr> ta_devices := wrap32 (ta_devices t + device_count ds), ta_live := ta_live t \<union> rs_Name ` set ds \<rparr>"

lemma loop_result_step:
  assumes "simulated node" "desired_slices Q pool model table node = Some ds"
    and "loop_result Q pool model table nodes (published_tally (count_node t (StateFor pool node)) ds) t' l"
  shows "loop_result Q pool model table (node # nodes) t t' (map (ApplySliceCall pool) ds @ l)"
proof -
  from assms(3) obtain dss where r: "map (desired_slices Q pool model table) (filter simulated nodes) = map Some dss"
    "applied l = concat dss" "deleted l = []" "status_updates l = []"
    "tally_of pool dss (filter simulated nodes) (published_tally (count_node t (StateFor pool node)) ds) t'"
    unfolding loop_result_def by blast
  have "tally_of pool (ds # dss) (node # filter simulated nodes) t t'"
    using r(5) by (auto simp: tally_of_def count_node_def published_tally_def add.assoc)
  then show ?thesis unfolding loop_result_def using assms r by (intro exI [of _ "ds # dss"]) simp
qed

lemma node_loop_yields:
  assumes "int32_range (ps_GPUsPerNode (pool_Spec pool))"
  shows "tally_range t \<Longrightarrow> yields (loop_result Q pool model table nodes t) (node_loop C Q pool model table t nodes)"
proof (induction nodes arbitrary: t)
  case Nil
  then show ?case
    by (simp add: node_loop_Nil yields_return loop_result_def tally_of_def tally_range_def pool_devices_def)
next
  case (Cons node nodes)
  show ?case
  proof (cases "simulated node")
    case False
    then show ?thesis using Cons by (simp add: node_loop_skip loop_result_def)
  next
    case True
    let ?t1 = "count_node t (StateFor pool node)"
    have r1: "int32_range (ta_devices ?t1)" using Cons.prems by (simp add: count_node_def tally_range_def)
    have r2: "tally_range (published_tally ?t1 ds)" for ds
      by (simp add: tally_range_def count_node_def published_tally_def)
    have rest: "yields (loop_result Q pool model table nodes t2)
      (andThen (reconcileNode C Q pool model table node (StateFor pool node)) (\<lambda>_. node_loop C Q pool model table t2 nodes))"
      if "tally_range t2" for t2
      by (rule yields_andThen [OF reconcileNode_yields Cons.IH [OF that]]) (auto simp: loop_result_def)
    show ?thesis unfolding node_loop_step [OF True]
    proof (rule yields_andThen [OF publish_node_yields [OF assms r1, folded published_tally_def],
          where Y = "\<lambda>t2 _. loop_result Q pool model table nodes t2"])
      show "yields (loop_result Q pool model table nodes t2)
          (andThen (reconcileNode C Q pool model table node (StateFor pool node)) (\<lambda>_. node_loop C Q pool model table t2 nodes))"
        if "\<exists>ds. desired_slices Q pool model table node = Some ds \<and> l = map (ApplySliceCall pool) ds
          \<and> t2 = published_tally ?t1 ds" for t2 l
        using that r2 rest by blast
      show "loop_result Q pool model table (node # nodes) t t' (l1 @ l2)"
        if "\<exists>ds. desired_slices Q pool model table node = Some ds \<and> l1 = map (ApplySliceCall pool) ds
            \<and> t2 = published_tally ?t1 ds"
          "loop_result Q pool model table nodes t2 t' l2" for t2 t' l1 l2
        using that loop_result_step [OF True] by blast
    qed
  qed
qed

lemma pruneSlices_yields:
  "yields (\<lambda>_ l. \<exists>ss. l = ListSlicesCall (fmupd PoolLabel (pool_Name pool) fmempty) ss
      # map DeleteSliceCall (filter (\<lambda>sl. rs_Name sl \<notin> live) ss)) (pruneSlices C pool live)"
proof -
  let ?sel = "fmupd PoolLabel (pool_Name pool) fmempty"
  have "yields (\<lambda>_ l. l = map DeleteSliceCall (filter (\<lambda>sl. rs_Name sl \<notin> live) ss)) (prune_loop C live ss)" for ss
    unfolding yields_def
  proof (intro allI impI)
    fix s a s' assume "prune_loop C live ss s = (Ok a, s')"
    then show "\<exists>l. snd s' = snd s @ l \<and> l = map DeleteSliceCall (filter (\<lambda>sl. rs_Name sl \<notin> live) ss)"
      using prune_loop_log [of C live ss s] by auto
  qed
  from yields_andThen [OF yields_call [of "\<lambda>ss l. l = [ListSlicesCall ?sel ss]"
      "\<lambda>r. case r of Inl _ \<Rightarrow> [] | Inr ss \<Rightarrow> [ListSlicesCall ?sel ss]" "c_ListSlices C ?sel"] this]
  show ?thesis unfolding pruneSlices_def Let_def by fastforce
qed

text \<open>The status a successful run reports.\<close>

definition reported_status :: "'q pool \<Rightarrow> tally \<Rightarrow> 'q Table \<Rightarrow> 'q pool" where
  "reported_status pool t table =
     pool\<lparr> pool_Status := (pool_Status pool)
       \<lparr> st_ObservedGeneration := pool_Generation pool, st_NodesMatched := ta_matched t,
         st_DevicesPublished := ta_devices t, st_GPUsOccupied := ta_occupied t, st_GPUsFaulted := ta_faulted t,
         st_MIGProfilesPublished := wrap32 (int (length (tb_Profiles table))) \<rparr> \<rparr>"

definition no_tally :: tally where
  "no_tally = \<lparr> ta_matched = 0, ta_devices = 0, ta_occupied = 0, ta_faulted = 0, ta_live = {} \<rparr>"

text \<open>What a successful second half of \<open>Reconcile\<close> has done.\<close>

definition publish_result ::
  "('w, 'q) client \<Rightarrow> 'q quantity_ops \<Rightarrow> 'q pool \<Rightarrow> 'q GPUModel \<Rightarrow> 'q Table \<Rightarrow> 'q call list \<Rightarrow> bool" where
  "publish_result C Q pool model table l \<longleftrightarrow>
     (\<exists>ns ss dss t. ListNodesCall (ps_NodeSelector (pool_Spec pool)) ns \<in> set l
       \<and> ListSlicesCall (fmupd PoolLabel (pool_Name pool) fmempty) ss \<in> set l
       \<and> map (desired_slices Q pool model table) (filter simulated ns) = map Some dss
       \<and> applied l = concat dss
       \<and> deleted l = filter (\<lambda>sl. rs_Name sl \<notin> rs_Name ` set (concat dss)) ss
       \<and> tally_of pool dss (filter simulated ns) no_tally t
       \<and> status_updates l = [setReady C (reported_status pool t table) ConditionTrue ''Reconciled''
           (MsgSummary (summarize pool (ta_devices t) (ta_matched t) (ta_occupied t) (ta_faulted t) table))])"

lemma publish_yields:
  assumes "int32_range (ps_GPUsPerNode (pool_Spec pool))"
  shows "yields (\<lambda>_. publish_result C Q pool model table) (publish C Q pool model table)"
proof -
  let ?sel = "ps_NodeSelector (pool_Spec pool)"
  have nodes: "yields (\<lambda>ns l. l = [ListNodesCall ?sel ns])
      (call (c_ListNodes C ?sel) (\<lambda>r. case r of Inl _ \<Rightarrow> [] | Inr ns \<Rightarrow> [ListNodesCall ?sel ns]))"
    by (rule yields_call) simp
  have loop: "yields (loop_result Q pool model table ns no_tally) (node_loop C Q pool model table no_tally ns)" for ns
    by (rule node_loop_yields [OF assms]) (simp add: no_tally_def tally_range_def int32_range_def)
  have status: "yields (\<lambda>_ l. l = [UpdatePoolStatusCall p]) (updateStatus C p)" for p
    unfolding updateStatus_def by (rule yields_call) simp
  let ?p = "\<lambda>t. setReady C (reported_status pool t table) ConditionTrue ''Reconciled''
    (MsgSummary (summarize pool (ta_devices t) (ta_matched t) (ta_occupied t) (ta_faulted t) table))"
  let ?del = "\<lambda>t ss. ListSlicesCall (fmupd PoolLabel (pool_Name pool) fmempty) ss
    # map DeleteSliceCall (filter (\<lambda>sl. rs_Name sl \<notin> ta_live t) ss)"
  have tail: "yields (\<lambda>_ l. \<exists>ss. l = ?del t ss @ [UpdatePoolStatusCall (?p t)])
      (andThen (pruneSlices C pool (ta_live t)) (\<lambda>_. updateStatus C (?p t)))" for t
    by (rule yields_andThen [OF pruneSlices_yields status]) auto
  have rest: "yields (\<lambda>_ l. \<exists>t l1 ss. loop_result Q pool model table ns no_tally t l1
        \<and> l = l1 @ ?del t ss @ [UpdatePoolStatusCall (?p t)])
      (andThen (node_loop C Q pool model table no_tally ns)
        (\<lambda>t. andThen (pruneSlices C pool (ta_live t)) (\<lambda>_. updateStatus C (?p t))))" for ns
    by (rule yields_andThen [OF loop tail]) blast
  have result: "publish_result C Q pool model table (ListNodesCall ?sel ns # l1 @ ?del t ss @ [UpdatePoolStatusCall (?p t)])"
    if "loop_result Q pool model table ns no_tally t l1" for ns t l1 ss
  proof -
    from that obtain dss where r: "map (desired_slices Q pool model table) (filter simulated ns) = map Some dss"
      "applied l1 = concat dss" "deleted l1 = []" "status_updates l1 = []" "tally_of pool dss (filter simulated ns) no_tally t"
      unfolding loop_result_def by blast
    let ?l = "[ListNodesCall ?sel ns] @ l1 @ [ListSlicesCall (fmupd PoolLabel (pool_Name pool) fmempty) ss]
      @ map DeleteSliceCall (filter (\<lambda>sl. rs_Name sl \<notin> ta_live t) ss) @ [UpdatePoolStatusCall (?p t)]"
    have "ta_live t = rs_Name ` set (concat dss)" using r(5) by (simp add: tally_of_def no_tally_def)
    then have "applied ?l = concat dss" "deleted ?l = filter (\<lambda>sl. rs_Name sl \<notin> rs_Name ` set (concat dss)) ss"
      "status_updates ?l = [?p t]"
      unfolding projections_append by (simp_all add: r)
    then have "publish_result C Q pool model table ?l"
      unfolding publish_result_def using r by (intro exI [of _ ns] exI [of _ ss] exI [of _ dss] exI [of _ t]) simp
    then show ?thesis by simp
  qed
  show ?thesis unfolding publish_def Let_def no_tally_def [symmetric] reported_status_def [symmetric]
    by (rule yields_andThen [OF nodes rest]) (use result in auto)
qed

section \<open>Lemmas: no panic\<close>

text \<open>Objects of a size an API server stores; far above what fits one.\<close>

definition sane_sizes :: "'q pool \<Rightarrow> 'q GPUModel \<Rightarrow> bool" where
  "sane_sizes pool model \<longleftrightarrow>
     length (ms_MIGProfiles (model_Spec model)) < 2 ^ 24 \<and> length (ps_MIGPartition (pool_Spec pool)) < 2 ^ 24"

lemma Resolve_table:
  assumes "Resolve Q model = Inr table" "model_schema model" "length (ms_MIGProfiles (model_Spec model)) < 2 ^ 24"
  shows "slices_ok table" "bd_Slices (tb_Budget table) \<le> 8" "length (tb_Profiles table) < 2 ^ 24" "names_ok table"
proof -
  have t: "table = baseTable Q model" and ok: "tableOK Q table" using assms(1) unfolding Resolve_Inr_iff by blast+
  let ?b = "ProfilesFor Q (ms_ProductName (model_Spec model))" and ?ps = "ms_MIGProfiles (model_Spec model)"
  have shapes: "list_all (\<lambda>(n, k). CHR ''-'' \<notin> set n \<and> 1 \<le> k \<and> k \<le> 8) (map (\<lambda>p. (pr_Name p, pr_Slices p)) (tb_Profiles bt))
      \<and> length (tb_Profiles bt) < 2 ^ 24" if "?b = Some bt" for bt
  proof -
    let ?l = "map (\<lambda>p. (pr_Name p, pr_Slices p)) (tb_Profiles bt)"
    have "list_all (\<lambda>(n, k). CHR ''-'' \<notin> set n \<and> 1 \<le> k \<and> k \<le> 8) ?l \<and> length ?l < 2 ^ 24"
      using builtIn_shapes [OF that] by (elim insertE emptyE) simp_all
    then show ?thesis by simp
  qed
  have budget: "bd_Slices (tb_Budget bt) = 7" if "?b = Some bt" for bt
    using that by (rule builtIn_cases) (auto simp: builtIn_lookup tableA10040_def tableA10080_def tableH10080_def)
  have declared: "tb_Profiles table = map (\<lambda>p. \<lparr> pr_Name = mps_Name p, pr_Memory = mps_Memory p, pr_Slices = mps_Slices p \<rparr>) ?ps"
    if "?ps \<noteq> []" using that by (simp add: t baseTable_def Let_def)
  have inherited: "tb_Profiles table = (case ?b of None \<Rightarrow> [] | Some bt \<Rightarrow> tb_Profiles bt)" if "?ps = []"
    using that by (simp add: t baseTable_def Let_def)
  have each: "(\<forall>p \<in> set (tb_Profiles table). CHR ''-'' \<notin> set (pr_Name p) \<and> 1 \<le> pr_Slices p \<and> pr_Slices p \<le> 8)
      \<and> length (tb_Profiles table) < 2 ^ 24"
  proof (cases "?ps = []")
    case True
    then show ?thesis using shapes inherited by (cases ?b) (auto simp: list_all_iff)
  next
    case False
    then show ?thesis using declared assms(2,3)
      by (auto simp: model_schema_def profile_name_pattern_no_dash)
  qed
  then show "slices_ok table" "length (tb_Profiles table) < 2 ^ 24" by (auto simp: slices_ok_def)
  show "names_ok table" using ok each by (simp add: names_ok_def tableOK_def)
  show "bd_Slices (tb_Budget table) \<le> 8"
    using assms(2) budget by (cases ?b) (auto simp: t baseTable_def Let_def defaultSlices_def model_schema_def split: option.splits)
qed

lemma sum_counts_le:
  assumes "counts_ok es" "slices_ok t" "known_profiles t es"
  shows "(\<Sum>e\<leftarrow>es. mpe_Count e) \<le> declared_total t pr_Slices es"
  unfolding declared_total_def
proof (rule sum_list_mono)
  fix e assume e: "e \<in> set es"
  then have "1 \<le> pr_Slices (profile_named t (mpe_Profile e))"
    using assms profile_named_in [of "mpe_Profile e" t] by (auto simp: slices_ok_def known_profiles_def)
  moreover have "0 \<le> mpe_Count e" using assms(1) e by (auto simp: counts_ok_def)
  ultimately show "mpe_Count e \<le> of_int (mpe_Count e) * pr_Slices (profile_named t (mpe_Profile e))"
    using mult_left_mono [of 1 "pr_Slices (profile_named t (mpe_Profile e))" "mpe_Count e"] by simp
qed

text \<open>A pool that passes the checks can be published without a panic.\<close>

lemma check_pool_buildable:
  assumes laws: "quantity_laws Q amt" and schema: "pool_schema pool" "model_schema model" "sane_sizes pool model"
    and c: "check_pool Q pool model = Inr table"
  shows "desired_slices Q pool model table node \<noteq> None"
proof (cases "MIGEnabled (pool_Spec pool)")
  case False
  then show ?thesis using schema(1) by (simp add: desired_slices_def BuildResourceSlice_def pool_schema_def)
next
  case True
  let ?g = "ps_GPUsPerNode (pool_Spec pool)" and ?es = "ps_MIGPartition (pool_Spec pool)"
  have g: "0 \<le> ?g" "?g \<le> 128" using schema(1) by (simp_all add: pool_schema_def)
  from c True have r: "Resolve Q model = Inr table" and v: "ValidatePartition Q ?es table = Inr ()"
    by (auto simp: check_pool_def split: sum.splits)
  have sizes: "length (ms_MIGProfiles (model_Spec model)) < 2 ^ 24" "length ?es < 2 ^ 24"
    using schema(3) by (simp_all add: sane_sizes_def)
  note table = Resolve_table [OF r schema(2) sizes(1)]
  have counts: "counts_ok ?es" using schema(1) sizes(2) by (simp add: counts_ok_def pool_schema_def)
  have "?g * int (length (tb_Profiles table)) \<le> 128 * (2 ^ 24 - 1)"
    using g table(3) by (intro mult_mono) simp_all
  then have e: "Expand ?g table \<noteq> None" using Expand_total [OF g(1), of table] by simp
  have "ExpandPartitioned ?g table ?es \<noteq> None" if "?es \<noteq> []"
  proof -
    have fits: "partition_fits amt table ?es"
      using ValidatePartition_iff [OF laws counts table(1) that] v by simp
    then have "(\<Sum>e\<leftarrow>?es. mpe_Count e) \<le> 8"
      using sum_counts_le [OF counts table(1), of] table(2) by (fastforce simp: partition_fits_def)
    then have "?g * (\<Sum>e\<leftarrow>?es. mpe_Count e) \<le> 128 * 8"
      using g total_range [OF counts] by (intro mult_mono) simp_all
    then show ?thesis using ExpandPartitioned_total [OF g(1) counts, of table] by simp
  qed
  with e True show ?thesis
    by (auto simp: desired_slices_def BuildMIGSlices_def mig_instances_def Let_def split: option.splits)
qed

text \<open>
  \<open>fails_only E f\<close>: \<open>f\<close> never panics, and an error it returns satisfies \<open>E\<close>. A client whose errors satisfy
  \<open>E\<close> gives a run whose errors do; with no errors at all the run succeeds.
\<close>

definition fails_only :: "(ApiError \<Rightarrow> bool) \<Rightarrow> ('s \<Rightarrow> 'a outcome \<times> 's) \<Rightarrow> bool" where
  "fails_only E f \<longleftrightarrow> (\<forall>s. case fst (f s) of Ok _ \<Rightarrow> True | Err e \<Rightarrow> E e | Panic \<Rightarrow> False)"

definition op_errors :: "(ApiError \<Rightarrow> bool) \<Rightarrow> ('w \<Rightarrow> (ApiError + 'a) \<times> 'w) \<Rightarrow> bool" where
  "op_errors E f \<longleftrightarrow> (\<forall>w e w'. f w = (Inl e, w') \<longrightarrow> E e)"

definition client_errors :: "(ApiError \<Rightarrow> bool) \<Rightarrow> ('w, 'q) client \<Rightarrow> bool" where
  "client_errors E C \<longleftrightarrow>
     (\<forall>sel. op_errors E (c_ListNodes C sel)) \<and> (\<forall>sel. op_errors E (c_ListSlices C sel))
   \<and> (\<forall>p. op_errors E (c_UpdatePoolStatus C p)) \<and> (\<forall>p b. op_errors E (c_PatchNodeStatus C p b))
   \<and> (\<forall>p b. op_errors E (c_PatchNode C p b)) \<and> (\<forall>sl. op_errors E (c_DeleteSlice C sl))
   \<and> (\<forall>n m. op_errors E (c_CreateOrUpdateSlice C n m))"

lemma fails_only_call: "op_errors E f \<Longrightarrow> fails_only E (call f ev)"
proof -
  assume f: "op_errors E f"
  have "case to_outcome r of Ok _ \<Rightarrow> True | Err e \<Rightarrow> E e | Panic \<Rightarrow> False" if "f w = (r, w')" for r w w'
    using f that by (cases r) (auto simp: op_errors_def)
  then show ?thesis by (auto simp: fails_only_def call_def split: prod.splits)
qed

lemma fails_only_return: "fails_only E (\<lambda>s. (Ok a, s))"
  by (simp add: fails_only_def)

lemma fails_onlyD: "fails_only E f \<Longrightarrow> f s = (r, s') \<Longrightarrow> (case r of Ok _ \<Rightarrow> True | Err e \<Rightarrow> E e | Panic \<Rightarrow> False)"
  unfolding fails_only_def by (metis fst_conv)

lemma fails_onlyI:
  "(\<And>s r s'. f s = (r, s') \<Longrightarrow> (case r of Ok _ \<Rightarrow> True | Err e \<Rightarrow> E e | Panic \<Rightarrow> False)) \<Longrightarrow> fails_only E f"
  unfolding fails_only_def by (metis prod.collapse)

lemma fails_only_andThen:
  assumes "fails_only E f" "\<And>a. fails_only E (g a)"
  shows "fails_only E (andThen f g)"
proof (rule fails_onlyI)
  fix s r s' assume r: "andThen f g s = (r, s')"
  obtain q s1 where f: "f s = (q, s1)" by (cases "f s")
  show "case r of Ok _ \<Rightarrow> True | Err e \<Rightarrow> E e | Panic \<Rightarrow> False"
  proof (cases q)
    case (Ok a)
    then have "g a s1 = (r, s')" using r f by (simp add: andThen_def)
    then show ?thesis by (rule fails_onlyD [OF assms(2)])
  qed (use r f fails_onlyD [OF assms(1) f] in \<open>auto simp: andThen_def\<close>)
qed

lemmas fails_only_intros = fails_only_andThen fails_only_call fails_only_return

lemma fails_only_applySlice: "client_errors E C \<Longrightarrow> fails_only E (applySlice C pool d)"
  unfolding applySlice_def by (rule fails_only_call) (simp add: client_errors_def)

lemma fails_only_apply_loop: "client_errors E C \<Longrightarrow> fails_only E (apply_loop C pool n live ds)"
proof (induction ds arbitrary: n live)
  case Nil
  then show ?case by (simp add: fails_only_def)
next
  case (Cons d ds)
  have eq: "apply_loop C pool n live (d # ds) = andThen (applySlice C pool d)
       (\<lambda>_. apply_loop C pool (wrap32 (n + wrap32 (int (length (rss_Devices (rs_Spec d)))))) (insert (rs_Name d) live) ds)"
    by (simp add: fun_eq_iff)
  show ?case unfolding eq using Cons by (intro fails_only_andThen fails_only_applySlice)
qed

lemma fails_only_reconcileNode: "client_errors E C \<Longrightarrow> fails_only E (reconcileNode C Q pool model table node state)"
  unfolding reconcileNode_def Let_def
  by (auto simp: client_errors_def intro!: fails_only_intros)

lemma fails_only_publish_node:
  assumes C: "client_errors E C" and "desired_slices Q pool model table node \<noteq> None"
  shows "fails_only E (publish_node C Q pool model table t node)"
proof (cases "DRAEnabled (ps_Advertise (pool_Spec pool))")
  case True
  have "fails_only E (reconcileSlices C Q pool model table (nd_Name node) (StateFor pool node) (ta_live t))"
    using assms True by (auto simp: reconcileSlices_def [abs_def] desired_slices_def
        intro!: fails_only_andThen fails_only_applySlice fails_only_apply_loop fails_only_return split: if_splits)
  then show ?thesis unfolding publish_node_def if_P [OF True]
    by (rule fails_only_andThen) (simp add: case_prod_beta fails_only_return)
next
  case False
  then show ?thesis by (simp add: publish_node_def fails_only_return)
qed

lemma fails_only_node_loop:
  assumes "client_errors E C"
  shows "(\<And>n. n \<in> set nodes \<Longrightarrow> desired_slices Q pool model table n \<noteq> None) \<Longrightarrow>
    fails_only E (node_loop C Q pool model table t nodes)"
proof (induction nodes arbitrary: t)
  case Nil
  then show ?case by (simp add: node_loop_Nil fails_only_return)
next
  case (Cons node nodes)
  then show ?case
    by (cases "simulated node")
      (simp_all add: node_loop_skip node_loop_step fails_only_andThen fails_only_publish_node [OF assms]
        fails_only_reconcileNode [OF assms])
qed

lemma fails_only_prune_loop: "client_errors E C \<Longrightarrow> fails_only E (prune_loop C live ss)"
proof (induction ss)
  case (Cons sl ss)
  let ?d = "call (c_DeleteSlice C sl) (\<lambda>_. [DeleteSliceCall sl])"
  have del: "fails_only E ?d" using Cons.prems by (intro fails_only_call) (simp add: client_errors_def)
  have "fails_only E (\<lambda>s. case ?d s of
              (Ok _, s') \<Rightarrow> prune_loop C live ss s'
            | (Err NotFound, s') \<Rightarrow> prune_loop C live ss s'
            | (Err e, s') \<Rightarrow> (Err e, s')
            | (Panic, s') \<Rightarrow> (Panic, s'))" (is "fails_only E ?p")
  proof (rule fails_onlyI)
    fix s r s' assume r: "?p s = (r, s')"
    obtain q s1 where d: "?d s = (q, s1)" by (cases "?d s")
    show "case r of Ok _ \<Rightarrow> True | Err e \<Rightarrow> E e | Panic \<Rightarrow> False"
    proof (cases "q = Err NotFound \<or> (\<exists>a. q = Ok a)")
      case True
      then have "prune_loop C live ss s1 = (r, s')" using r d by auto
      then show ?thesis by (rule fails_onlyD [OF Cons.IH [OF Cons.prems]])
    next
      case False
      then show ?thesis using r d fails_onlyD [OF del d] by (auto split: outcome.splits ApiError.splits)
    qed
  qed
  with Cons show ?case unfolding prune_loop_Cons by simp
qed (simp add: fails_only_def)

lemma fails_only_publish:
  assumes C: "client_errors E C" and "\<And>n. desired_slices Q pool model table n \<noteq> None"
  shows "fails_only E (publish C Q pool model table)"
  unfolding publish_def pruneSlices_def updateStatus_def Let_def
  using C by (auto simp: client_errors_def intro!: fails_only_intros fails_only_node_loop fails_only_prune_loop assms)

section \<open>Patching only when something differs\<close>

text \<open>
  The rule by which the controller writes to a node: compare first, patch only on a difference. The
  contract: a patch makes the comparison succeed, changes no key that is not its own. The clients' lemmas: one turn settles, a second one does not write, and foreign keys stay.
\<close>

locale patching =
  fixes wf :: "('k, 'v) fmap \<Rightarrow> bool" and matches :: "('k, 'v) fmap \<Rightarrow> ('k, 'v) fmap \<Rightarrow> bool"
    and upd :: "('k, 'v) fmap \<Rightarrow> ('k, 'v) fmap \<Rightarrow> ('k, 'v) fmap" and owned :: "('k, 'v) fmap \<Rightarrow> 'k \<Rightarrow> bool"
  assumes upd_matches: "wf want \<Longrightarrow> matches (upd has want) want"
    and upd_frame: "wf want \<Longrightarrow> \<not> owned want k \<Longrightarrow> fmlookup (upd has want) k = fmlookup has k"
begin

definition settle :: "('k, 'v) fmap \<Rightarrow> ('k, 'v) fmap \<Rightarrow> ('k, 'v) fmap" where
  "settle has want = (if matches has want then has else upd has want)"

lemma settle_matches: "wf want \<Longrightarrow> matches (settle has want) want"
  by (simp add: settle_def upd_matches)

lemma settle_settled: "wf want \<Longrightarrow> settle (settle has want) want = settle has want"
  by (simp add: settle_def upd_matches)

lemma settle_frame: "wf want \<Longrightarrow> \<not> owned want k \<Longrightarrow> fmlookup (settle has want) k = fmlookup has k"
  by (simp add: settle_def upd_frame)

end

interpretation labels_patch: patching "\<lambda>_. True" labelsMatch "(++\<^sub>f)" "\<lambda>want k. k |\<in>| fmdom want"
proof
  fix has want :: labels and k
  show "labelsMatch (has ++\<^sub>f want) want"
    by (auto simp: labelsMatch_def get_str_def fmpred_iff fmdomI)
  show "fmlookup (has ++\<^sub>f want) k = fmlookup has k" if "k |\<notin>| fmdom want" using that by simp
qed

text \<open>Resources that the controller may advertise: its own names, and quantities that equal themselves.\<close>

definition resources_wf :: "'q quantity_ops \<Rightarrow> (string, 'q) fmap \<Rightarrow> bool" where
  "resources_wf Q want \<longleftrightarrow> fmpred (\<lambda>name q. managesResource name \<and> q_Cmp Q q q = 0) want"

lemma resources_wf_lookup: "resources_wf Q want \<Longrightarrow> fmlookup want k = Some q \<Longrightarrow> managesResource k \<and> q_Cmp Q q q = 0"
  by (auto simp: resources_wf_def fmpred_iff)

lemma applyGPUResources_lookup:
  "fmlookup (applyGPUResources has want) k =
     (if k |\<in>| fmdom want then fmlookup want k else if managesResource k then None else fmlookup has k)"
  by (simp add: applyGPUResources_def)

interpretation resources_patch: patching "resources_wf Q" "resourcesMatch Q" applyGPUResources "\<lambda>_. managesResource" for Q
proof
  fix has want :: "(string, 'a) fmap" and k
  assume wf: "resources_wf Q want"
  show "resourcesMatch Q (applyGPUResources has want) want"
    using resources_wf_lookup [OF wf]
    by (auto simp: resourcesMatch_def fmpred_iff applyGPUResources_lookup fmdomI fmlookup_dom_iff split: if_splits option.splits)
  show "fmlookup (applyGPUResources has want) k = fmlookup has k" if "\<not> managesResource k"
    using that resources_wf_lookup [OF wf, of k] by (auto simp: applyGPUResources_lookup fmlookup_dom_iff)
qed

lemma nodeResourcesFor_wf:
  assumes "quantity_laws Q amt"
  shows "resources_wf Q (nodeResourcesFor Q pool table n)"
  unfolding resources_wf_def fmpred_iff
proof (intro allI impI)
  fix k q assume "fmlookup (nodeResourcesFor Q pool table n) k = Some q"
  then have "k \<in> fmdom' (nodeResourcesFor Q pool table n)" by (rule fmdom'I)
  then show "managesResource k \<and> q_Cmp Q q q = 0"
    by (auto simp: nodeResourcesFor_dom managesResource_def MIGResourceName_def quantity_laws_Cmp_zero [OF assms] split: if_splits)
qed

text \<open>A node on which the controller has nothing left to do.\<close>

definition node_settled :: "'q quantity_ops \<Rightarrow> 'q pool \<Rightarrow> 'q GPUModel \<Rightarrow> 'q Table \<Rightarrow> 'q Node \<Rightarrow> NodeState \<Rightarrow> bool" where
  "node_settled Q pool model table node state \<longleftrightarrow>
     (ExtendedResourceEnabled (ps_Advertise (pool_Spec pool)) \<longrightarrow>
        resourcesMatch Q (nd_Capacity node) (NodeResources Q pool table)
      \<and> resourcesMatch Q (nd_Allocatable node) (NodeAllocatable Q pool table state))
   \<and> labelsMatch (nd_Labels node) (NodeLabels Q pool model)"

text \<open>The node as one reconciliation leaves it, when the server stores the patches as they are.\<close>

definition settled_node :: "'q quantity_ops \<Rightarrow> 'q pool \<Rightarrow> 'q GPUModel \<Rightarrow> 'q Table \<Rightarrow> 'q Node \<Rightarrow> NodeState \<Rightarrow> 'q Node" where
  "settled_node Q pool model table node state =
     (let node1 =
        (if ExtendedResourceEnabled (ps_Advertise (pool_Spec pool))
            \<and> (\<not> resourcesMatch Q (nd_Capacity node) (NodeResources Q pool table)
               \<or> \<not> resourcesMatch Q (nd_Allocatable node) (NodeAllocatable Q pool table state))
         then node\<lparr> nd_Capacity := applyGPUResources (nd_Capacity node) (NodeResources Q pool table),
                    nd_Allocatable := applyGPUResources (nd_Allocatable node) (NodeAllocatable Q pool table state) \<rparr>
         else node)
      in node1\<lparr> nd_Labels := labels_patch.settle (nd_Labels node) (NodeLabels Q pool model) \<rparr>)"

text \<open>A server without other writers: a patch answers with the patched object.\<close>

definition patch_stores :: "('w, 'q) client \<Rightarrow> bool" where
  "patch_stores C \<longleftrightarrow> (\<forall>p b w. fst (c_PatchNodeStatus C p b w) = Inr p \<and> fst (c_PatchNode C p b w) = Inr p)"

lemma settled_node_settled:
  assumes "quantity_laws Q amt"
  shows "node_settled Q pool model table (settled_node Q pool model table node state) state"
  using resources_patch.upd_matches [OF nodeResourcesFor_wf [OF assms]] labels_patch.settle_matches
  by (auto simp: node_settled_def settled_node_def Let_def NodeResources_def NodeAllocatable_def)

lemma settled_node_frame:
  assumes "quantity_laws Q amt"
  shows "nd_Name (settled_node Q pool model table node state) = nd_Name node"
    and "nd_Annotations (settled_node Q pool model table node state) = nd_Annotations node"
    and "\<not> managesResource k \<Longrightarrow> fmlookup (nd_Capacity (settled_node Q pool model table node state)) k = fmlookup (nd_Capacity node) k"
    and "\<not> managesResource k \<Longrightarrow> fmlookup (nd_Allocatable (settled_node Q pool model table node state)) k = fmlookup (nd_Allocatable node) k"
    and "k |\<notin>| fmdom (NodeLabels Q pool model) \<Longrightarrow> fmlookup (nd_Labels (settled_node Q pool model table node state)) k = fmlookup (nd_Labels node) k"
  using resources_patch.upd_frame [OF nodeResourcesFor_wf [OF assms]] labels_patch.settle_frame
  by (auto simp: settled_node_def Let_def NodeResources_def NodeAllocatable_def)

lemma reconcileNode_settled:
  "node_settled Q pool model table node state \<Longrightarrow> reconcileNode C Q pool model table node state s = (Ok (), s)"
  by (auto simp: reconcileNode_def node_settled_def andThen_def Let_def)

lemma publish_safe:
  assumes "patch_keeps_name C" "publish C Q pool model table s = (r, s')"
  shows "\<exists>l. snd s' = snd s @ l \<and> (\<forall>c \<in> set l. \<forall>nm. node_written c = Some nm \<longrightarrow>
    (\<exists>sel ns n. ListNodesCall sel ns \<in> set l \<and> n \<in> set ns \<and> nd_Name n = nm \<and> simulated n))"
proof -
  let ?sel = "ps_NodeSelector (pool_Spec pool)"
  obtain q w1 where list: "c_ListNodes C ?sel (fst s) = (q, w1)" by (cases "c_ListNodes C ?sel (fst s)")
  show ?thesis
  proof (cases q)
    case (Inl e)
    then show ?thesis using assms(2) list by (auto simp: publish_def Let_def andThen_def call_def)
  next
    case (Inr ns)
    let ?N = "nd_Name ` {n \<in> set ns. simulated n}"
    let ?rest = "andThen (node_loop C Q pool model table no_tally ns)
      (\<lambda>t. andThen (pruneSlices C pool (ta_live t)) (\<lambda>_. updateStatus C
         (setReady C (reported_status pool t table) ConditionTrue ''Reconciled''
           (MsgSummary (summarize pool (ta_devices t) (ta_matched t) (ta_occupied t) (ta_faulted t) table)))))"
    have run: "?rest (w1, snd s @ [ListNodesCall ?sel ns]) = (r, s')"
      using assms(2) list Inr
      by (simp add: publish_def Let_def andThen_def call_def no_tally_def reported_status_def)
    have "runs (writes_within ?N) (\<lambda>_. True) (prune_loop C live ss)" for live ss
      using prune_loop_log [of C live ss] unfolding runs_def list_all_iff by fastforce
    then have "runs (writes_within ?N) (\<lambda>_. True) (pruneSlices C pool live)" for live
      unfolding pruneSlices_def Let_def
      by (intro runs_andThen [where R = "\<lambda>_. True"] runs_call) (auto split: sum.splits)
    moreover have "runs (writes_within ?N) (\<lambda>_. True) (updateStatus C p)" for p
      unfolding updateStatus_def by (rule runs_call) simp_all
    ultimately have "runs (writes_within ?N) (\<lambda>_. True) ?rest"
      by (intro runs_andThen [OF node_loop_runs [OF assms(1)]] runs_andThen [where R = "\<lambda>_. True"])
    from runs_log [OF this run] obtain l where l: "snd s' = snd s @ [ListNodesCall ?sel ns] @ l" "list_all (writes_within ?N) l"
      by auto
    have "\<exists>sel ns' n. ListNodesCall sel ns' \<in> set ([ListNodesCall ?sel ns] @ l) \<and> n \<in> set ns' \<and> nd_Name n = nm \<and> simulated n"
      if "c \<in> set ([ListNodesCall ?sel ns] @ l)" "node_written c = Some nm" for c nm
    proof -
      from that l(2) have "nm \<in> ?N" by (auto simp: list_all_iff)
      then show ?thesis by force
    qed
    with l(1) show ?thesis by blast
  qed
qed

lemma Reconcile_accepted:
  assumes "c_GetPool C req (fst s) = (Inr pool, w1)" "c_GetModel C (ps_ModelRef (pool_Spec pool)) w1 = (Inr model, w2)"
    and "check_pool Q pool model = Inr table"
  shows "Reconcile C Q req s = publish C Q pool model table (w2, snd s)"
  using assms by (simp add: Reconcile_def call_def)

lemma Reconcile_Ok:
  assumes "c_GetPool C req (fst s) = (Inr pool, w1)" "c_GetModel C (ps_ModelRef (pool_Spec pool)) w1 = (Inr model, w2)"
    and "check_pool Q pool model = Inr table" "int32_range (ps_GPUsPerNode (pool_Spec pool))"
    and "Reconcile C Q req s = (Ok (), s')"
  obtains l where "snd s' = snd s @ l" "publish_result C Q pool model table l"
  using publish_yields [OF assms(4), of C Q model table] assms(5)
  unfolding Reconcile_accepted [OF assms(1-3)] yields_def by fastforce

text \<open>The object a patch call sends.\<close>

fun patched_node :: "'q call \<Rightarrow> 'q Node option" where
  "patched_node (PatchNodeStatusCall patched base) = Some patched"
| "patched_node (PatchNodeCall patched base) = Some patched"
| "patched_node _ = None"

lemma reconcileNode_stores:
  assumes "patch_stores C"
  shows "\<exists>w l. reconcileNode C Q pool model table node state s = (Ok (), (w, snd s @ l))
    \<and> (l = [] \<longleftrightarrow> node_settled Q pool model table node state)
    \<and> (l \<noteq> [] \<longrightarrow> patched_node (last l) = Some (settled_node Q pool model table node state))"
proof -
  let ?cap = "NodeResources Q pool table" and ?all = "NodeAllocatable Q pool table state"
  let ?need = "ExtendedResourceEnabled (ps_Advertise (pool_Spec pool))
     \<and> (\<not> resourcesMatch Q (nd_Capacity node) ?cap \<or> \<not> resourcesMatch Q (nd_Allocatable node) ?all)"
  let ?p = "node\<lparr> nd_Capacity := applyGPUResources (nd_Capacity node) ?cap, nd_Allocatable := applyGPUResources (nd_Allocatable node) ?all \<rparr>"
  let ?n = "if ?need then ?p else node" and ?l1 = "if ?need then [PatchNodeStatusCall ?p node] else []"
  let ?want = "NodeLabels Q pool model"
  obtain w1 where w1: "c_PatchNodeStatus C ?p node (fst s) = (Inr ?p, w1)"
    using assms unfolding patch_stores_def by (metis prod.collapse)
  let ?s1 = "(if ?need then w1 else fst s, snd s @ ?l1)"
  let ?q = "?n\<lparr> nd_Labels := nd_Labels ?n ++\<^sub>f ?want \<rparr>"
  obtain w2 where w2: "c_PatchNode C ?q ?n (fst ?s1) = (Inr ?q, w2)"
    using assms unfolding patch_stores_def by (metis prod.collapse)
  have run: "reconcileNode C Q pool model table node state s =
      (if labelsMatch (nd_Labels ?n) ?want then (Ok (), ?s1) else (Ok (), (w2, snd ?s1 @ [PatchNodeCall ?q ?n])))"
    using w1 w2 by (cases ?need) (auto simp: reconcileNode_def Let_def andThen_def call_def)
  have lab: "nd_Labels ?n = nd_Labels node" by simp
  have settled: "node_settled Q pool model table node state \<longleftrightarrow> \<not> ?need \<and> labelsMatch (nd_Labels ?n) ?want"
    by (auto simp: node_settled_def)
  show ?thesis
  proof (cases "labelsMatch (nd_Labels ?n) ?want")
    case True
    then have "labelsMatch (nd_Labels node) ?want" unfolding lab .
    then have "settled_node Q pool model table node state = ?n"
      by (auto simp: settled_node_def Let_def labels_patch.settle_def)
    then show ?thesis using True settled
      by (intro exI [of _ "fst ?s1"] exI [of _ ?l1]) (auto simp: run)
  next
    case False
    then have "\<not> labelsMatch (nd_Labels node) ?want" unfolding lab .
    then have "settled_node Q pool model table node state = ?q"
      by (auto simp: settled_node_def Let_def labels_patch.settle_def)
    then show ?thesis using False settled
      by (intro exI [of _ w2] exI [of _ "?l1 @ [PatchNodeCall ?q ?n]"]) (auto simp: run)
  qed
qed

lemma witness_client_ok:
  "patch_keeps_name (witness_client occ)" "patch_stores (witness_client occ)" "client_errors (\<lambda>_. False) (witness_client occ)"
  "c_GetPool (witness_client occ) req w = (Inr (witness_pool occ), Suc w)"
  "c_GetModel (witness_client occ) n w = (Inr example_model, Suc w)"
  by (simp_all add: witness_client_def fixed_client_def patch_keeps_name_def patch_stores_def client_errors_def op_errors_def)

lemma witness_pool_ok:
  "check_pool Q (witness_pool []) model = Inr (emptyTable Q)"
  "int32_range (ps_GPUsPerNode (pool_Spec (witness_pool occ)))"
  "pool_schema (witness_pool [])" "model_schema example_model" "sane_sizes (witness_pool []) example_model"
  "\<not> MIGEnabled (pool_Spec (witness_pool occ))"
  "check_pool Q (witness_pool [busy_default 9]) model = Inl (''OccupancyInvalid'', MsgDecl (BusyExceeds fmempty 9 8))"
  by (simp_all add: check_pool_def witness_pool_def MIGEnabled_def ValidateOccupancy_def ValidateFaults_def int32_range_def
      pool_schema_def model_schema_def example_model_def sane_sizes_def busy_default_def)

lemma witness_run: "\<exists>s'. Reconcile (witness_client []) int_quantity ''pool'' (0, []) = (Ok (), s')"
proof -
  obtain r s' where rec: "Reconcile (witness_client []) int_quantity ''pool'' (0, []) = (r, s')"
    by (cases "Reconcile (witness_client []) int_quantity ''pool'' (0, [])")
  have ok: "fails_only (\<lambda>_. False) (publish (witness_client []) int_quantity (witness_pool []) example_model (emptyTable int_quantity))"
    by (rule fails_only_publish [OF witness_client_ok(3)
          check_pool_buildable [OF int_quantity_laws witness_pool_ok(3-5) witness_pool_ok(1)]])
  have "publish (witness_client []) int_quantity (witness_pool []) example_model (emptyTable int_quantity) (Suc (Suc 0), []) = (r, s')"
    using Reconcile_accepted [OF witness_client_ok(4,5) witness_pool_ok(1), where s = "(0, [])" and req = "''pool''"] rec by simp
  from fails_onlyD [OF ok this] have "r = Ok ()" by (simp split: outcome.splits)
  with rec show ?thesis by blast
qed

section \<open>Properties\<close>

text \<open>
  C1: the safety invariant, for every client and every way the run ends, success, error or panic: each node
  the reconciler writes to is one that a list call of this very run returned and that carried kwok's
  annotation. A node without the annotation is never written, whatever the pool's selector matches.
\<close>

theorem Reconcile_safe:
  assumes "patch_keeps_name C" "Reconcile C Q req s = (r, s')"
  shows "\<exists>l. snd s' = snd s @ l \<and> (\<forall>c \<in> set l. \<forall>nm. node_written c = Some nm \<longrightarrow>
    (\<exists>sel ns n. ListNodesCall sel ns \<in> set l \<and> n \<in> set ns \<and> nd_Name n = nm \<and> simulated n))"
proof -
  obtain q1 w1 where g1: "c_GetPool C req (fst s) = (q1, w1)" by (cases "c_GetPool C req (fst s)")
  show ?thesis
  proof (cases q1)
    case (Inl e)
    then show ?thesis using assms(2) g1 by (cases e) (auto simp: Reconcile_def call_def)
  next
    case (Inr pool)
    obtain q2 w2 where g2: "c_GetModel C (ps_ModelRef (pool_Spec pool)) w1 = (q2, w2)"
      by (cases "c_GetModel C (ps_ModelRef (pool_Spec pool)) w1")
    have status: "\<exists>l. snd s2 = snd s @ l \<and> (\<forall>c \<in> set l. \<forall>nm. node_written c = Some nm \<longrightarrow>
        (\<exists>sel ns n. ListNodesCall sel ns \<in> set l \<and> n \<in> set ns \<and> nd_Name n = nm \<and> simulated n))"
      if "updateStatus C p (w2, snd s) = (r2, s2)" for p r2 s2
      using that by (auto simp: updateStatus_def call_def split: prod.splits)
    show ?thesis
    proof (cases q2)
      case (Inl e)
      then show ?thesis using assms(2) g1 g2 Inr status by (cases e) (auto simp: Reconcile_def call_def)
    next
      case model: (Inr model)
      show ?thesis
      proof (cases "check_pool Q pool model")
        case (Inl rm)
        then show ?thesis using assms(2) g1 g2 Inr model status by (cases rm) (auto simp: Reconcile_def call_def)
      next
        case table: (Inr table)
        then have "publish C Q pool model table (w2, snd s) = (r, s')"
          using assms(2) g1 g2 Inr model by (simp add: Reconcile_def call_def)
        from publish_safe [OF assms(1) this] show ?thesis by simp
      qed
    qed
  qed
qed

theorem Reconcile_safe_witness:
  "\<exists>l. snd (snd (Reconcile (witness_client []) int_quantity ''pool'' (0, []))) = l
    \<and> (\<forall>c \<in> set l. \<forall>nm. node_written c = Some nm \<longrightarrow>
      (\<exists>sel ns n. ListNodesCall sel ns \<in> set l \<and> n \<in> set ns \<and> nd_Name n = nm \<and> simulated n))"
proof -
  obtain r s' where "Reconcile (witness_client []) int_quantity ''pool'' (0, []) = (r, s')"
    by (cases "Reconcile (witness_client []) int_quantity ''pool'' (0, [])")
  from Reconcile_safe [OF witness_client_ok(1) this] this show ?thesis by simp
qed



text \<open>
  C3: after a reconciliation that succeeds, the slices of the pool are exactly the desired ones: the slices
  applied are, node by node, those that the builders make for the simulated nodes the list call returned,
  and those deleted are exactly the pool's listed slices that are not among them. With DRA switched off
  nothing is desired, so everything the pool had published goes.
\<close>

theorem Reconcile_publishes:
  assumes "c_GetPool C req (fst s) = (Inr pool, w1)" "c_GetModel C (ps_ModelRef (pool_Spec pool)) w1 = (Inr model, w2)"
    and "check_pool Q pool model = Inr table" "int32_range (ps_GPUsPerNode (pool_Spec pool))"
    and "Reconcile C Q req s = (Ok (), s')"
  shows "\<exists>l ns ss dss. snd s' = snd s @ l
    \<and> ListNodesCall (ps_NodeSelector (pool_Spec pool)) ns \<in> set l
    \<and> ListSlicesCall (fmupd PoolLabel (pool_Name pool) fmempty) ss \<in> set l
    \<and> map (desired_slices Q pool model table) (filter simulated ns) = map Some dss
    \<and> applied l = concat dss
    \<and> deleted l = filter (\<lambda>sl. rs_Name sl \<notin> rs_Name ` set (applied l)) ss"
proof -
  from assms obtain l where "snd s' = snd s @ l" "publish_result C Q pool model table l" by (rule Reconcile_Ok)
  then show ?thesis unfolding publish_result_def by metis
qed

theorem Reconcile_publishes_witness:
  "\<exists>l ns dss. snd (snd (Reconcile (witness_client []) int_quantity ''pool'' (0, []))) = l
    \<and> ListNodesCall fmempty ns \<in> set l \<and> applied l = concat dss
    \<and> map (desired_slices int_quantity (witness_pool []) example_model (emptyTable int_quantity)) (filter simulated ns) = map Some dss"
proof -
  obtain s' where rec: "Reconcile (witness_client []) int_quantity ''pool'' (0, []) = (Ok (), s')"
    using witness_run by blast
  from Reconcile_publishes [OF witness_client_ok(4,5) witness_pool_ok(1,2) rec] rec
  show ?thesis by (fastforce simp: witness_pool_def)
qed

text \<open>
  C9: the status of a successful reconciliation counts what is really there: the nodes matched are the
  simulated ones, the devices published are the devices in the slices applied, and the GPUs occupied and
  faulted are the sums over those nodes of what the pool declares, each as an int32.
\<close>

theorem Reconcile_status:
  assumes "c_GetPool C req (fst s) = (Inr pool, w1)" "c_GetModel C (ps_ModelRef (pool_Spec pool)) w1 = (Inr model, w2)"
    and "check_pool Q pool model = Inr table" "int32_range (ps_GPUsPerNode (pool_Spec pool))"
    and "Reconcile C Q req s = (Ok (), s')"
  shows "\<exists>l ns p. snd s' = snd s @ l \<and> ListNodesCall (ps_NodeSelector (pool_Spec pool)) ns \<in> set l
    \<and> status_updates l = [p] \<and> pool_Spec p = pool_Spec pool
    \<and> st_ObservedGeneration (pool_Status p) = pool_Generation pool
    \<and> st_NodesMatched (pool_Status p) = wrap32 (int (length (FilterSimulated ns)))
    \<and> st_DevicesPublished (pool_Status p) = wrap32 (device_count (applied l))
    \<and> st_GPUsOccupied (pool_Status p) = wrap32 (\<Sum>n\<leftarrow>FilterSimulated ns. ns_Busy (StateFor pool n))
    \<and> st_GPUsFaulted (pool_Status p) = wrap32 (\<Sum>n\<leftarrow>FilterSimulated ns. ns_Faulted (StateFor pool n))"
proof -
  from assms obtain l where l: "snd s' = snd s @ l" "publish_result C Q pool model table l" by (rule Reconcile_Ok)
  then obtain ns dss t where r: "ListNodesCall (ps_NodeSelector (pool_Spec pool)) ns \<in> set l" "applied l = concat dss"
    "tally_of pool dss (filter simulated ns) no_tally t"
    "status_updates l = [setReady C (reported_status pool t table) ConditionTrue ''Reconciled''
       (MsgSummary (summarize pool (ta_devices t) (ta_matched t) (ta_occupied t) (ta_faulted t) table))]"
    unfolding publish_result_def by blast
  let ?p = "setReady C (reported_status pool t table) ConditionTrue ''Reconciled''
       (MsgSummary (summarize pool (ta_devices t) (ta_matched t) (ta_occupied t) (ta_faulted t) table))"
  have "pool_Spec ?p = pool_Spec pool" "st_ObservedGeneration (pool_Status ?p) = pool_Generation pool"
    "st_NodesMatched (pool_Status ?p) = ta_matched t" "st_DevicesPublished (pool_Status ?p) = ta_devices t"
    "st_GPUsOccupied (pool_Status ?p) = ta_occupied t" "st_GPUsFaulted (pool_Status ?p) = ta_faulted t"
    by (simp_all add: setReady_def reported_status_def)
  with r l(1) show ?thesis
    by (intro exI [of _ l] exI [of _ ns] exI [of _ ?p])
      (simp add: tally_of_def no_tally_def FilterSimulated_def filter_loop_eq)
qed

theorem Reconcile_status_witness:
  "\<exists>l ns p. snd (snd (Reconcile (witness_client []) int_quantity ''pool'' (0, []))) = l
    \<and> status_updates l = [p] \<and> st_NodesMatched (pool_Status p) = wrap32 (int (length (FilterSimulated ns)))
    \<and> ListNodesCall fmempty ns \<in> set l"
proof -
  obtain s' where rec: "Reconcile (witness_client []) int_quantity ''pool'' (0, []) = (Ok (), s')"
    using witness_run by blast
  from Reconcile_status [OF witness_client_ok(4,5) witness_pool_ok(1,2) rec] rec
  show ?thesis by (fastforce simp: witness_pool_def)
qed

text \<open>
  C11: a pool and a model that came through the API server's schema never make the reconciler panic, and its
  errors are only ever those of the client: if no call of the client fails, the reconciliation succeeds.
\<close>

theorem Reconcile_no_panic:
  assumes "quantity_laws Q amt" "client_errors E C"
    and "c_GetPool C req (fst s) = (Inr pool, w1)" "c_GetModel C (ps_ModelRef (pool_Spec pool)) w1 = (Inr model, w2)"
    and "pool_schema pool" "model_schema model" "sane_sizes pool model"
  shows "case fst (Reconcile C Q req s) of Ok _ \<Rightarrow> True | Err e \<Rightarrow> E e | Panic \<Rightarrow> False"
proof (cases "check_pool Q pool model")
  case (Inl rm)
  obtain reason msg where rm: "rm = (reason, msg)" by (cases rm)
  have "Reconcile C Q req s = updateStatus C (setReady C pool ConditionFalse reason msg) (w2, snd s)"
    using assms(3,4) Inl rm by (simp add: Reconcile_def call_def)
  moreover have "fails_only E (updateStatus C p)" for p
    unfolding updateStatus_def using assms(2) by (intro fails_only_call) (simp add: client_errors_def)
  ultimately show ?thesis by (simp add: fails_only_def)
next
  case (Inr table)
  have "fails_only E (publish C Q pool model table)"
    by (rule fails_only_publish [OF assms(2) check_pool_buildable [OF assms(1) assms(5-7) Inr]])
  then show ?thesis unfolding Reconcile_accepted [OF assms(3,4) Inr] by (simp add: fails_only_def)
qed

theorem Reconcile_no_panic_witness:
  "case fst (Reconcile (witness_client []) int_quantity ''pool'' (0, [])) of Ok _ \<Rightarrow> True | Err e \<Rightarrow> False | Panic \<Rightarrow> False"
  by (rule Reconcile_no_panic [OF int_quantity_laws witness_client_ok(3-5) witness_pool_ok(3-5)])

text \<open>
  C4: a node is written only when something differs, and one reconciliation settles it. With a server that
  stores patches as sent: the reconciler sends nothing exactly when the node already carries the desired
  resources and labels; otherwise the last patch leaves the node settled, so that the next reconciliation
  sends nothing; and the node's annotations, its other resources and its other labels are left alone.
\<close>

theorem reconcileNode_settles:
  assumes "quantity_laws Q amt" "patch_stores C"
  shows "\<exists>w l. reconcileNode C Q pool model table node state s = (Ok (), (w, snd s @ l))
    \<and> (l = [] \<longleftrightarrow> node_settled Q pool model table node state)
    \<and> (l \<noteq> [] \<longrightarrow> (\<exists>n. patched_node (last l) = Some n
         \<and> reconcileNode C Q pool model table n state s = (Ok (), s)
         \<and> nd_Annotations n = nd_Annotations node
         \<and> (\<forall>k. \<not> managesResource k \<longrightarrow> fmlookup (nd_Capacity n) k = fmlookup (nd_Capacity node) k
                \<and> fmlookup (nd_Allocatable n) k = fmlookup (nd_Allocatable node) k)
         \<and> (\<forall>k. k |\<notin>| fmdom (NodeLabels Q pool model) \<longrightarrow> fmlookup (nd_Labels n) k = fmlookup (nd_Labels node) k)))"
proof -
  obtain w l where r: "reconcileNode C Q pool model table node state s = (Ok (), (w, snd s @ l))"
    "l = [] \<longleftrightarrow> node_settled Q pool model table node state"
    "l \<noteq> [] \<longrightarrow> patched_node (last l) = Some (settled_node Q pool model table node state)"
    using reconcileNode_stores [OF assms(2), of Q pool model table node state s] by blast
  have again: "reconcileNode C Q pool model table (settled_node Q pool model table node state) state s = (Ok (), s)"
    by (rule reconcileNode_settled [OF settled_node_settled [OF assms(1)]])
  show ?thesis
    by (rule exI [of _ w], rule exI [of _ l])
      (use r again settled_node_frame [OF assms(1), where pool = pool and model = model and table = table and node = node and state = state] in auto)
qed

theorem reconcileNode_settles_witness:
  "\<exists>w l. reconcileNode (witness_client []) int_quantity (witness_pool []) example_model (emptyTable int_quantity) kwok_node
      (StateFor (witness_pool []) kwok_node) (0, []) = (Ok (), (w, l))
    \<and> (l = [] \<longleftrightarrow> node_settled int_quantity (witness_pool []) example_model (emptyTable int_quantity) kwok_node
      (StateFor (witness_pool []) kwok_node))"
proof -
  obtain w l where
    "reconcileNode (witness_client []) int_quantity (witness_pool []) example_model (emptyTable int_quantity) kwok_node
      (StateFor (witness_pool []) kwok_node) (0, []) = (Ok (), (w, snd (0 :: nat, [] :: int call list) @ l))"
    "l = [] \<longleftrightarrow> node_settled int_quantity (witness_pool []) example_model (emptyTable int_quantity) kwok_node
      (StateFor (witness_pool []) kwok_node)"
    using reconcileNode_settles [OF int_quantity_laws witness_client_ok(2) [of "[]"], where s = "(0, [])" and pool = "witness_pool []"
      and model = example_model and table = "emptyTable int_quantity" and node = kwok_node and state = "StateFor (witness_pool []) kwok_node"]
    by blast
  then show ?thesis by simp
qed

text \<open>
  Labels are only ever added or overwritten, never taken back: a pool switched from MIG to whole GPUs
  leaves the MIG labels of its nodes in place, unlike the MIG resources, which are removed.
\<close>

theorem MIG_labels_stay:
  assumes "quantity_laws Q amt" "patch_stores C" "\<not> MIGEnabled (pool_Spec pool)"
    and "reconcileNode C Q pool model table node state s = (Ok (), (w, snd s @ l))" "l \<noteq> []"
    and "fmlookup (nd_Labels node) LabelMIGCapable = Some labelTrue"
  shows "\<exists>n. patched_node (last l) = Some n \<and> fmlookup (nd_Labels n) LabelMIGCapable = Some labelTrue"
proof -
  have "patched_node (last l) = Some (settled_node Q pool model table node state)"
    using reconcileNode_stores [OF assms(2), of Q pool model table node state s] assms(4,5) by auto
  moreover have "LabelMIGCapable |\<notin>| fmdom (NodeLabels Q pool model)"
    using assms(3) by (simp add: NodeLabels_def Let_def label_key_defs fmlookup_dom_iff [symmetric] case_prod_beta)
  ultimately show ?thesis using settled_node_frame(5) [OF assms(1)] assms(6) by simp
qed

theorem MIG_labels_stay_witness:
  "\<exists>w l n. reconcileNode (witness_client []) int_quantity (witness_pool []) example_model (emptyTable int_quantity) kwok_node
      (StateFor (witness_pool []) kwok_node) (0, []) = (Ok (), (w, l))
    \<and> patched_node (last l) = Some n \<and> fmlookup (nd_Labels n) LabelMIGCapable = Some labelTrue"
proof -
  let ?run = "\<lambda>s. reconcileNode (witness_client []) int_quantity (witness_pool []) example_model (emptyTable int_quantity) kwok_node
      (StateFor (witness_pool []) kwok_node) s"
  have lab: "fmlookup (nd_Labels kwok_node) LabelMIGCapable = Some labelTrue" by (simp add: kwok_node_def)
  have "\<not> node_settled int_quantity (witness_pool []) example_model (emptyTable int_quantity) kwok_node (StateFor (witness_pool []) kwok_node)"
    by (simp add: node_settled_def witness_pool_def ExtendedResourceEnabled_def kwok_node_def example_node_def resourcesMatch_def
        NodeResources_def nodeResourcesFor_def MIGEnabled_def fmpred_iff)
  then obtain w l where r: "?run (0, []) = (Ok (), (w, snd (0 :: nat, [] :: int call list) @ l))" "l \<noteq> []"
    using reconcileNode_stores [OF witness_client_ok(2) [of "[]"], where s = "(0, [])" and Q = int_quantity and pool = "witness_pool []"
      and model = example_model and table = "emptyTable int_quantity" and node = kwok_node and state = "StateFor (witness_pool []) kwok_node"]
    by fastforce
  from MIG_labels_stay [OF int_quantity_laws witness_client_ok(2) witness_pool_ok(6) r lab] r(1) show ?thesis by auto
qed

end
