(* ===== verification/Convergence.thy ===== *)
theory Convergence
  imports Controller "HOL-Library.List_Lexorder" "HOL-Library.Char_ord"
begin

text \<open>
  The controller against an API server that stores what it is given. A server is described by the objects it
  stores (\<open>store\<close>) and by the documented effect of every call on them (\<open>serves\<close>); between two calls of one
  reconciliation there is no other writer. \<open>reconciled_store\<close> is the abstract specification of a reconciliation: what
  the stored objects are afterwards. The run refines it, and what it leaves behind is a fixed point.
\<close>

section \<open>The stored objects\<close>

record 'q store =
  so_pools :: "(string, 'q pool) fmap"
  so_models :: "(string, 'q GPUModel) fmap"
  so_nodes :: "(string, 'q Node) fmap"
  so_slices :: "(string, 'q ResourceSlice) fmap"

text \<open>Objects are stored under their names.\<close>

definition store_ok :: "'q store \<Rightarrow> bool" where
  "store_ok st \<longleftrightarrow>
     fmpred (\<lambda>k p. pool_Name p = k) (so_pools st) \<and> fmpred (\<lambda>k n. nd_Name n = k) (so_nodes st)
   \<and> fmpred (\<lambda>k sl. rs_Name sl = k) (so_slices st)"

text \<open>\<open>client.MatchingLabels\<close>: every label of the selector is present with its value.\<close>

definition label_selects :: "labels \<Rightarrow> labels \<Rightarrow> bool" where
  "label_selects sel lbls = fmpred (\<lambda>k v. fmlookup lbls k = Some v) sel"

text \<open>A list call: the stored values that satisfy \<open>P\<close>, in any order.\<close>

definition listing :: "(string, 'v) fmap \<Rightarrow> ('v \<Rightarrow> bool) \<Rightarrow> 'v list \<Rightarrow> bool" where
  "listing m P vs \<longleftrightarrow> (\<exists>ks. distinct ks \<and> set ks = {k. \<exists>v. fmlookup m k = Some v \<and> P v} \<and> map (fmlookup m) ks = map Some vs)"

definition new_slice :: "string \<Rightarrow> 'q ResourceSlice" where
  "new_slice name = \<lparr> rs_Name = name, rs_Labels = fmempty, rs_Owner = None,
     rs_Spec = \<lparr> rss_Driver = [], rss_NodeName = None,
       rss_Pool = \<lparr> rp_Name = [], rp_Generation = 0, rp_ResourceSliceCount = 0 \<rparr>, rss_SharedCounters = [], rss_Devices = [] \<rparr> \<rparr>"

definition put_node :: "'q Node \<Rightarrow> 'q store \<Rightarrow> 'q store" where
  "put_node n st = st\<lparr> so_nodes := fmupd (nd_Name n) n (so_nodes st) \<rparr>"

definition put_slice :: "'q ResourceSlice \<Rightarrow> 'q store \<Rightarrow> 'q store" where
  "put_slice sl st = st\<lparr> so_slices := fmupd (rs_Name sl) sl (so_slices st) \<rparr>"

definition drop_slice :: "string \<Rightarrow> 'q store \<Rightarrow> 'q store" where
  "drop_slice name st = st\<lparr> so_slices := fmdrop name (so_slices st) \<rparr>"

definition put_status :: "'q pool \<Rightarrow> 'q store \<Rightarrow> 'q store" where
  "put_status p st = (case fmlookup (so_pools st) (pool_Name p) of
     None \<Rightarrow> st | Some old \<Rightarrow> st\<lparr> so_pools := fmupd (pool_Name p) (old\<lparr> pool_Status := pool_Status p \<rparr>) (so_pools st) \<rparr>)"

section \<open>The server\<close>

definition reads_ok :: "('w, 'q) client \<Rightarrow> ('w \<Rightarrow> 'q store) \<Rightarrow> bool" where
  "reads_ok C view \<longleftrightarrow>
     (\<forall>n w. c_GetPool C n w = ((case fmlookup (so_pools (view w)) n of None \<Rightarrow> Inl NotFound | Some p \<Rightarrow> Inr p), w))
   \<and> (\<forall>n w. c_GetModel C n w = ((case fmlookup (so_models (view w)) n of None \<Rightarrow> Inl NotFound | Some m \<Rightarrow> Inr m), w))
   \<and> (\<forall>sel w. \<exists>ns. c_ListNodes C sel w = (Inr ns, w) \<and> listing (so_nodes (view w)) (\<lambda>n. label_selects sel (nd_Labels n)) ns)
   \<and> (\<forall>sel w. \<exists>ss. c_ListSlices C sel w = (Inr ss, w) \<and> listing (so_slices (view w)) (\<lambda>sl. label_selects sel (rs_Labels sl)) ss)"

text \<open>A patch is relative to the stored object; the status subresource takes the resources, the object itself the
  labels. \<open>CreateOrUpdate\<close> mutates the stored object or a new one.\<close>

definition writes_ok :: "('w, 'q) client \<Rightarrow> ('w \<Rightarrow> 'q store) \<Rightarrow> bool" where
  "writes_ok C view \<longleftrightarrow>
     (\<forall>p w. fmlookup (so_pools (view w)) (pool_Name p) \<noteq> None \<longrightarrow>
        (\<exists>w'. c_UpdatePoolStatus C p w = (Inr (), w') \<and> view w' = put_status p (view w)))
   \<and> (\<forall>p b w. fmlookup (so_nodes (view w)) (nd_Name b) = Some b \<and> p = b\<lparr> nd_Capacity := nd_Capacity p, nd_Allocatable := nd_Allocatable p \<rparr> \<longrightarrow>
        (\<exists>w'. c_PatchNodeStatus C p b w = (Inr p, w') \<and> view w' = put_node p (view w)))
   \<and> (\<forall>p b w. fmlookup (so_nodes (view w)) (nd_Name b) = Some b \<and> p = b\<lparr> nd_Labels := nd_Labels p \<rparr> \<longrightarrow>
        (\<exists>w'. c_PatchNode C p b w = (Inr p, w') \<and> view w' = put_node p (view w)))
   \<and> (\<forall>sl w. fmlookup (so_slices (view w)) (rs_Name sl) \<noteq> None \<longrightarrow>
        (\<exists>w'. c_DeleteSlice C sl w = (Inr (), w') \<and> view w' = drop_slice (rs_Name sl) (view w)))
   \<and> (\<forall>name mutate w sl.
        mutate (case fmlookup (so_slices (view w)) name of None \<Rightarrow> new_slice name | Some sl \<Rightarrow> sl) = Inr sl \<and> rs_Name sl = name \<longrightarrow>
        (\<exists>w'. c_CreateOrUpdateSlice C name mutate w = (Inr (), w') \<and> view w' = put_slice sl (view w)))"

text \<open>Two helpers of the libraries: a slice that no other pool controls gets this pool as its controller, and a
  condition that is set twice is set.\<close>

definition helpers_ok :: "('w, 'q) client \<Rightarrow> bool" where
  "helpers_ok C \<longleftrightarrow>
     (\<forall>pool sl. rs_Owner sl \<in> {None, Some (pool_Name pool)} \<longrightarrow>
        c_SetControllerReference C pool sl = Inr (sl\<lparr> rs_Owner := Some (pool_Name pool) \<rparr>))
   \<and> (\<forall>cs c. c_SetStatusCondition C (c_SetStatusCondition C cs c) c = c_SetStatusCondition C cs c)"

definition serves :: "('w, 'q) client \<Rightarrow> ('w \<Rightarrow> 'q store) \<Rightarrow> bool" where
  "serves C view \<longleftrightarrow> reads_ok C view \<and> writes_ok C view \<and> helpers_ok C"

section \<open>A concrete server\<close>

text \<open>The instance of the witnesses: the world is the store itself.\<close>

definition matching :: "(string, 'v) fmap \<Rightarrow> ('v \<Rightarrow> bool) \<Rightarrow> 'v list" where
  "matching m P = filter P (map (\<lambda>k. the (fmlookup m k)) (sorted_list_of_fset (fmdom m)))"

definition store_server :: "('q store, 'q) client" where
  "store_server =
     \<lparr> c_GetPool = (\<lambda>n w. ((case fmlookup (so_pools w) n of None \<Rightarrow> Inl NotFound | Some p \<Rightarrow> Inr p), w)),
       c_GetModel = (\<lambda>n w. ((case fmlookup (so_models w) n of None \<Rightarrow> Inl NotFound | Some m \<Rightarrow> Inr m), w)),
       c_ListNodes = (\<lambda>sel w. (Inr (matching (so_nodes w) (\<lambda>n. label_selects sel (nd_Labels n))), w)),
       c_ListSlices = (\<lambda>sel w. (Inr (matching (so_slices w) (\<lambda>sl. label_selects sel (rs_Labels sl))), w)),
       c_ListPools = (\<lambda>w. (Inr (matching (so_pools w) (\<lambda>_. True)), w)),
       c_UpdatePoolStatus = (\<lambda>p w. if fmlookup (so_pools w) (pool_Name p) = None then (Inl NotFound, w) else (Inr (), put_status p w)),
       c_PatchNodeStatus = (\<lambda>p b w. (Inr p, put_node p w)), c_PatchNode = (\<lambda>p b w. (Inr p, put_node p w)),
       c_DeleteSlice = (\<lambda>sl w. if fmlookup (so_slices w) (rs_Name sl) = None then (Inl NotFound, w) else (Inr (), drop_slice (rs_Name sl) w)),
       c_CreateOrUpdateSlice = (\<lambda>name mutate w.
         (case mutate (case fmlookup (so_slices w) name of None \<Rightarrow> new_slice name | Some sl \<Rightarrow> sl) of
            Inl e \<Rightarrow> (Inl e, w) | Inr sl \<Rightarrow> (Inr (), put_slice sl w))),
       c_SetControllerReference = (\<lambda>p sl. if rs_Owner sl \<in> {None, Some (pool_Name p)}
         then Inr (sl\<lparr> rs_Owner := Some (pool_Name p) \<rparr>) else Inl (ApiFailure ''already owned'')),
       c_SetStatusCondition = (\<lambda>cs c. c # filter (\<lambda>x. cond_Type x \<noteq> cond_Type c) cs) \<rparr>"

lemma matching_listing: "listing m P (matching m P)"
proof -
  let ?ks = "filter (\<lambda>k. P (the (fmlookup m k))) (sorted_list_of_fset (fmdom m))"
  have "set ?ks = {k. \<exists>v. fmlookup m k = Some v \<and> P v}" by (auto simp: fmlookup_dom_iff)
  moreover have "map (fmlookup m) ?ks = map Some (matching m P)"
    by (auto simp: matching_def filter_map o_def fmlookup_dom_iff)
  moreover have "distinct ?ks" by (simp add: sorted_list_of_fset.rep_eq)
  ultimately show ?thesis unfolding listing_def by blast
qed

lemma store_server_serves: "serves store_server (\<lambda>w. w)"
  unfolding serves_def reads_ok_def writes_ok_def helpers_ok_def
  by (simp add: store_server_def matching_listing)

section \<open>The specification of a reconciliation\<close>

text \<open>The nodes a pool simulates on.\<close>

definition selected :: "'q pool \<Rightarrow> 'q store \<Rightarrow> 'q Node \<Rightarrow> bool" where
  "selected pool st n \<longleftrightarrow> fmlookup (so_nodes st) (nd_Name n) = Some n
     \<and> label_selects (ps_NodeSelector (pool_Spec pool)) (nd_Labels n) \<and> simulated n"

text \<open>A slice as it is stored: the desired spec, the label and the controller of the pool, other labels as they were.\<close>

definition stored_slice :: "'q pool \<Rightarrow> (string, 'q ResourceSlice) fmap \<Rightarrow> 'q ResourceSlice \<Rightarrow> 'q ResourceSlice" where
  "stored_slice pool m d =
     (let old = (case fmlookup m (rs_Name d) of None \<Rightarrow> new_slice (rs_Name d) | Some sl \<Rightarrow> sl)
      in old\<lparr> rs_Spec := rs_Spec d, rs_Labels := fmupd PoolLabel (pool_Name pool) (rs_Labels old), rs_Owner := Some (pool_Name pool) \<rparr>)"

definition wants ::
  "'q quantity_ops \<Rightarrow> 'q pool \<Rightarrow> 'q GPUModel \<Rightarrow> 'q Table \<Rightarrow> 'q store \<Rightarrow> 'q ResourceSlice \<Rightarrow> bool" where
  "wants Q pool model table st d \<longleftrightarrow> (\<exists>n ds. selected pool st n \<and> desired_slices Q pool model table n = Some ds \<and> d \<in> set ds)"

definition settled_nodes :: "'q quantity_ops \<Rightarrow> 'q pool \<Rightarrow> 'q GPUModel \<Rightarrow> 'q Table \<Rightarrow> 'q store \<Rightarrow> (string, 'q Node) fmap" where
  "settled_nodes Q pool model table st =
     fmmap (\<lambda>n. if selected pool st n then settled_node Q pool model table n (StateFor pool n) else n) (so_nodes st)"

text \<open>The counters and the status that the run reports.\<close>

definition fleet_tally :: "'q quantity_ops \<Rightarrow> 'q pool \<Rightarrow> 'q GPUModel \<Rightarrow> 'q Table \<Rightarrow> 'q store \<Rightarrow> tally" where
  "fleet_tally Q pool model table st =
     \<lparr> ta_matched = wrap32 (int (card {n. selected pool st n})),
       ta_devices = wrap32 (\<Sum>n | selected pool st n. device_count (the (desired_slices Q pool model table n))),
       ta_occupied = wrap32 (\<Sum>n | selected pool st n. ns_Busy (StateFor pool n)),
       ta_faulted = wrap32 (\<Sum>n | selected pool st n. ns_Faulted (StateFor pool n)),
       ta_live = {rs_Name d | d. wants Q pool model table st d} \<rparr>"

definition with_status :: "('w, 'q) client \<Rightarrow> 'q pool \<Rightarrow> 'q Table \<Rightarrow> tally \<Rightarrow> 'q pool" where
  "with_status C pool table t = setReady C (reported_status pool t table) ConditionTrue ''Reconciled''
     (MsgSummary (summarize pool (ta_devices t) (ta_matched t) (ta_occupied t) (ta_faulted t) table))"

definition reconciled_store ::
  "('w, 'q) client \<Rightarrow> 'q quantity_ops \<Rightarrow> 'q pool \<Rightarrow> 'q GPUModel \<Rightarrow> 'q Table \<Rightarrow> 'q store \<Rightarrow> 'q store \<Rightarrow> bool" where
  "reconciled_store C Q pool model table st st' \<longleftrightarrow>
     so_models st' = so_models st
   \<and> so_nodes st' = settled_nodes Q pool model table st
   \<and> (\<forall>d. wants Q pool model table st d \<longrightarrow> fmlookup (so_slices st') (rs_Name d) = Some (stored_slice pool (so_slices st) d))
   \<and> (\<forall>k. (\<nexists>d. wants Q pool model table st d \<and> rs_Name d = k) \<longrightarrow> fmlookup (so_slices st') k =
        (case fmlookup (so_slices st) k of
           None \<Rightarrow> None
         | Some sl \<Rightarrow> if fmlookup (rs_Labels sl) PoolLabel = Some (pool_Name pool) then None else Some sl))
   \<and> so_pools st' = fmupd (pool_Name pool) (with_status C pool table (fleet_tally Q pool model table st)) (so_pools st)"

section \<open>Runs against a store\<close>

text \<open>\<open>achieves view st f P\<close>: on a server whose store is \<open>st\<close>, \<open>f\<close> succeeds, and its result and the store it leaves satisfy \<open>P\<close>.\<close>

definition achieves ::
  "('w \<Rightarrow> 's) \<Rightarrow> 's \<Rightarrow> (('w, 'q) cstate \<Rightarrow> 'a outcome \<times> ('w, 'q) cstate) \<Rightarrow> ('a \<Rightarrow> 's \<Rightarrow> bool) \<Rightarrow> bool" where
  "achieves view st f P \<longleftrightarrow> (\<forall>w log. view w = st \<longrightarrow> (\<exists>a w' log'. f (w, log) = (Ok a, (w', log')) \<and> P a (view w')))"

lemma achieves_return: "P a st \<Longrightarrow> achieves view st (\<lambda>s. (Ok a, s)) P"
  by (simp add: achieves_def)

lemma achieves_call:
  assumes "\<And>w. view w = st \<Longrightarrow> \<exists>a w'. f w = (Inr a, w') \<and> P a (view w')"
  shows "achieves view st (call f ev) P"
  unfolding achieves_def
proof (intro allI impI)
  fix w log assume "view w = st"
  from assms [OF this] obtain a w' where "f w = (Inr a, w')" "P a (view w')" by blast
  then show "\<exists>a w' log'. call f ev (w, log) = (Ok a, (w', log')) \<and> P a (view w')" by (simp add: call_def)
qed

lemma achieves_andThen:
  assumes "achieves view st f R" "\<And>a st'. R a st' \<Longrightarrow> achieves view st' (g a) P"
  shows "achieves view st (andThen f g) P"
  unfolding achieves_def
proof (intro allI impI)
  fix w log assume "view w = st"
  then obtain a w' log' where f: "f (w, log) = (Ok a, (w', log'))" and R: "R a (view w')"
    using assms(1) unfolding achieves_def by blast
  from assms(2) [OF R] show "\<exists>a w' log'. andThen f g (w, log) = (Ok a, (w', log')) \<and> P a (view w')"
    by (simp add: andThen_def f achieves_def)
qed

lemma achieves_mono: "achieves view st f P \<Longrightarrow> (\<And>a st'. P a st' \<Longrightarrow> P' a st') \<Longrightarrow> achieves view st f P'"
  unfolding achieves_def by blast

section \<open>Slices\<close>

text \<open>No other pool controls the slice of this name.\<close>

definition may_own :: "'q pool \<Rightarrow> (string, 'q ResourceSlice) fmap \<Rightarrow> string \<Rightarrow> bool" where
  "may_own pool m k \<longleftrightarrow> (case fmlookup m k of None \<Rightarrow> True | Some sl \<Rightarrow> rs_Owner sl \<in> {None, Some (pool_Name pool)})"

definition slices_named :: "(string, 'q ResourceSlice) fmap \<Rightarrow> bool" where
  "slices_named m = fmpred (\<lambda>k sl. rs_Name sl = k) m"

definition put_desired :: "'q pool \<Rightarrow> (string, 'q ResourceSlice) fmap \<Rightarrow> 'q ResourceSlice \<Rightarrow> (string, 'q ResourceSlice) fmap" where
  "put_desired pool m d = fmupd (rs_Name d) (stored_slice pool m d) m"

lemma stored_slice_fields:
  "rs_Spec (stored_slice pool m d) = rs_Spec d" "rs_Owner (stored_slice pool m d) = Some (pool_Name pool)"
  "fmlookup (rs_Labels (stored_slice pool m d)) PoolLabel = Some (pool_Name pool)"
  by (simp_all add: stored_slice_def Let_def)

lemma stored_slice_name:
  assumes "slices_named m"
  shows "rs_Name (stored_slice pool m d) = rs_Name d"
proof (cases "fmlookup m (rs_Name d)")
  case (Some sl)
  then have "rs_Name sl = rs_Name d" using assms by (auto simp: slices_named_def intro: fmpredD)
  then show ?thesis using Some by (simp add: stored_slice_def)
qed (simp add: stored_slice_def new_slice_def)

lemma stored_slice_local: "fmlookup m (rs_Name d) = fmlookup m' (rs_Name d) \<Longrightarrow> stored_slice pool m d = stored_slice pool m' d"
  by (simp add: stored_slice_def)

lemma may_own_put: "may_own pool m k \<Longrightarrow> may_own pool (put_desired pool m d) k"
  by (simp add: may_own_def put_desired_def stored_slice_fields)

lemma slices_named_put: "slices_named m \<Longrightarrow> slices_named (put_desired pool m d)"
  using stored_slice_name [of m pool d] unfolding slices_named_def put_desired_def by (intro fmpred_upd)

lemma slices_put_lookup:
  assumes "distinct (map rs_Name ds)"
  shows "fmlookup (foldl (put_desired pool) m ds) k =
    (case find (\<lambda>d. rs_Name d = k) ds of Some d \<Rightarrow> Some (stored_slice pool m d) | None \<Rightarrow> fmlookup m k)"
  using assms
proof (induction ds arbitrary: m)
  case (Cons d ds)
  have "stored_slice pool (put_desired pool m d) e = stored_slice pool m e" if "e \<in> set ds" for e
    using Cons.prems that by (intro stored_slice_local) (auto simp: put_desired_def image_iff)
  moreover have "find (\<lambda>e. rs_Name e = rs_Name d) ds = None" using Cons.prems by (auto simp: find_None_iff image_iff)
  ultimately show ?case using Cons.IH [of "put_desired pool m d"] Cons.prems
    by (auto simp: put_desired_def split: option.splits dest: find_Some_in)
qed simp

lemma controller_reference:
  "serves C view \<Longrightarrow> rs_Owner sl \<in> {None, Some (pool_Name pool)} \<Longrightarrow>
    c_SetControllerReference C pool sl = Inr (sl\<lparr> rs_Owner := Some (pool_Name pool) \<rparr>)"
  unfolding serves_def helpers_ok_def by blast

lemma create_or_update:
  assumes "serves C view"
    and "mutate (case fmlookup (so_slices (view w)) name of None \<Rightarrow> new_slice name | Some sl \<Rightarrow> sl) = Inr sl" "rs_Name sl = name"
  shows "\<exists>w'. c_CreateOrUpdateSlice C name mutate w = (Inr (), w') \<and> view w' = put_slice sl (view w)"
  using assms(1) [unfolded serves_def writes_ok_def] assms(2,3) by (elim conjE) (drule spec, drule spec, drule spec, drule spec, erule mp, simp)

lemma applySlice_achieves:
  assumes C: "serves C view" and own: "may_own pool (so_slices st) (rs_Name d)" and named: "slices_named (so_slices st)"
  shows "achieves view st (applySlice C pool d) (\<lambda>_ st'. st' = st\<lparr> so_slices := put_desired pool (so_slices st) d \<rparr>)"
  unfolding applySlice_def
proof (rule achieves_call)
  fix w assume w: "view w = st"
  let ?old = "case fmlookup (so_slices st) (rs_Name d) of None \<Rightarrow> new_slice (rs_Name d) | Some sl \<Rightarrow> sl"
  let ?new = "stored_slice pool (so_slices st) d"
  have "rs_Owner ?old \<in> {None, Some (pool_Name pool)}"
    using own by (cases "fmlookup (so_slices st) (rs_Name d)") (simp_all add: may_own_def new_slice_def)
  then have "apply_mutation C pool d ?old = Inr ?new"
    unfolding apply_mutation_def stored_slice_def Let_def by (subst controller_reference [OF C]) simp_all
  moreover have nm: "rs_Name ?new = rs_Name d" by (rule stored_slice_name [OF named])
  ultimately obtain w' where "c_CreateOrUpdateSlice C (rs_Name d) (apply_mutation C pool d) w = (Inr (), w')" "view w' = put_slice ?new (view w)"
    using create_or_update [OF C, where mutate = "apply_mutation C pool d" and w = w and name = "rs_Name d" and sl = ?new] w by auto
  then show "\<exists>a w'. c_CreateOrUpdateSlice C (rs_Name d) (apply_mutation C pool d) w = (Inr a, w')
      \<and> view w' = st\<lparr> so_slices := put_desired pool (so_slices st) d \<rparr>"
    using w nm by (simp add: put_slice_def put_desired_def)
qed

lemma apply_loop_achieves:
  assumes C: "serves C view" and "\<forall>d \<in> set ds. may_own pool (so_slices st) (rs_Name d)" "slices_named (so_slices st)"
  shows "achieves view st (apply_loop C pool n live ds) (\<lambda>(n, l) st'. l = live \<union> rs_Name ` set ds
    \<and> st' = st\<lparr> so_slices := foldl (put_desired pool) (so_slices st) ds \<rparr>)"
  using assms(2,3)
proof (induction ds arbitrary: n live st)
  case Nil
  have "apply_loop C pool n live [] = (\<lambda>s. (Ok (n, live), s))" by (simp add: fun_eq_iff)
  then show ?case by (simp add: achieves_return)
next
  case (Cons d ds)
  have eq: "apply_loop C pool n live (d # ds) = andThen (applySlice C pool d)
       (\<lambda>_. apply_loop C pool (wrap32 (n + wrap32 (int (length (rss_Devices (rs_Spec d)))))) (insert (rs_Name d) live) ds)"
    by (simp add: fun_eq_iff)
  let ?st = "st\<lparr> so_slices := put_desired pool (so_slices st) d \<rparr>"
  have own: "may_own pool (so_slices st) (rs_Name d)" and named: "slices_named (so_slices st)" using Cons.prems by simp_all
  have "achieves view ?st (apply_loop C pool n' (insert (rs_Name d) live) ds) (\<lambda>(n, l) st'. l = live \<union> rs_Name ` set (d # ds)
      \<and> st' = st\<lparr> so_slices := foldl (put_desired pool) (so_slices st) (d # ds) \<rparr>)" for n'
    by (rule achieves_mono [OF Cons.IH]) (use Cons.prems in \<open>auto simp: may_own_put slices_named_put\<close>)
  then show ?case unfolding eq by (intro achieves_andThen [OF applySlice_achieves [OF C own named]]) simp
qed

lemma publish_node_achieves:
  assumes C: "serves C view" and ds: "desired_slices Q pool model table node = Some ds"
    and own: "\<forall>d \<in> set ds. may_own pool (so_slices st) (rs_Name d)" and named: "slices_named (so_slices st)"
  shows "achieves view st (publish_node C Q pool model table t node) (\<lambda>t' st'. ta_live t' = ta_live t \<union> rs_Name ` set ds
    \<and> st' = st\<lparr> so_slices := foldl (put_desired pool) (so_slices st) ds \<rparr>)"
proof (cases "DRAEnabled (ps_Advertise (pool_Spec pool))")
  case False
  then have "ds = []" using ds by (simp add: desired_slices_def)
  then show ?thesis using False by (simp add: publish_node_def achieves_return)
next
  case dra: True
  have "achieves view st (reconcileSlices C Q pool model table (nd_Name node) (StateFor pool node) (ta_live t))
    (\<lambda>(n, l) st'. l = ta_live t \<union> rs_Name ` set ds \<and> st' = st\<lparr> so_slices := foldl (put_desired pool) (so_slices st) ds \<rparr>)"
  proof (cases "MIGEnabled (pool_Spec pool)")
    case True
    then have "reconcileSlices C Q pool model table (nd_Name node) (StateFor pool node) (ta_live t) = apply_loop C pool 0 (ta_live t) ds"
      using ds dra by (simp add: fun_eq_iff desired_slices_def reconcileSlices_def)
    then show ?thesis using apply_loop_achieves [OF C own named] by simp
  next
    case False
    then obtain sl where sl: "BuildResourceSlice pool model (nd_Name node) (StateFor pool node) = Some sl" "ds = [sl]"
      using ds dra by (auto simp: desired_slices_def)
    then have nm: "rs_Name sl = SliceName (pool_Name pool) (nd_Name node)" by (auto simp: BuildResourceSlice_def split: if_splits)
    have "reconcileSlices C Q pool model table (nd_Name node) (StateFor pool node) (ta_live t) = andThen (applySlice C pool sl)
        (\<lambda>_ s'. (Ok (ps_GPUsPerNode (pool_Spec pool), insert (SliceName (pool_Name pool) (nd_Name node)) (ta_live t)), s'))"
      using False sl by (simp add: fun_eq_iff reconcileSlices_def)
    then show ?thesis using own sl nm
      by (simp only:) (rule achieves_andThen [OF applySlice_achieves [OF C _ named]], auto intro: achieves_return)
  qed
  then show ?thesis unfolding publish_node_def if_P [OF dra]
    by (rule achieves_andThen) (auto intro: achieves_return)
qed

section \<open>Nodes\<close>

lemma patch_status_achieves:
  assumes C: "serves C view" and b: "fmlookup (so_nodes st) (nd_Name b) = Some b"
    and p: "p = b\<lparr> nd_Capacity := cap, nd_Allocatable := alloc \<rparr>"
  shows "achieves view st (call (c_PatchNodeStatus C p b) ev) (\<lambda>a st'. a = p \<and> st' = put_node p st)"
proof (rule achieves_call)
  fix w assume w: "view w = st"
  have "p = b\<lparr> nd_Capacity := nd_Capacity p, nd_Allocatable := nd_Allocatable p \<rparr>" using p by simp
  then have "\<exists>w'. c_PatchNodeStatus C p b w = (Inr p, w') \<and> view w' = put_node p (view w)"
    using C b w unfolding serves_def writes_ok_def by blast
  then show "\<exists>a w'. c_PatchNodeStatus C p b w = (Inr a, w') \<and> a = p \<and> view w' = put_node p st" using w by blast
qed

lemma patch_labels_achieves:
  assumes C: "serves C view" and b: "fmlookup (so_nodes st) (nd_Name b) = Some b" and p: "p = b\<lparr> nd_Labels := lbls \<rparr>"
  shows "achieves view st (call (c_PatchNode C p b) ev) (\<lambda>_ st'. st' = put_node p st)"
proof (rule achieves_call)
  fix w assume w: "view w = st"
  have "p = b\<lparr> nd_Labels := nd_Labels p \<rparr>" using p by simp
  then have "\<exists>w'. c_PatchNode C p b w = (Inr p, w') \<and> view w' = put_node p (view w)"
    using C b w unfolding serves_def writes_ok_def by blast
  then show "\<exists>a w'. c_PatchNode C p b w = (Inr a, w') \<and> view w' = put_node p st" using w by blast
qed

lemma put_node_same: "fmlookup (so_nodes st) (nd_Name n) = Some n \<Longrightarrow> put_node n st = st"
proof -
  assume "fmlookup (so_nodes st) (nd_Name n) = Some n"
  then have "fmupd (nd_Name n) n (so_nodes st) = so_nodes st" by (intro fmap_ext) auto
  then show ?thesis by (simp add: put_node_def)
qed

lemma reconcileNode_achieves:
  assumes C: "serves C view" and n: "fmlookup (so_nodes st) (nd_Name n) = Some n"
  shows "achieves view st (reconcileNode C Q pool model table n state) (\<lambda>_ st'. st' = put_node (settled_node Q pool model table n state) st)"
  unfolding reconcileNode_def
proof (rule achieves_andThen)
  let ?cap = "NodeResources Q pool table" and ?all = "NodeAllocatable Q pool table state" and ?want = "NodeLabels Q pool model"
  let ?need = "ExtendedResourceEnabled (ps_Advertise (pool_Spec pool))
     \<and> (\<not> resourcesMatch Q (nd_Capacity n) ?cap \<or> \<not> resourcesMatch Q (nd_Allocatable n) ?all)"
  let ?p = "n\<lparr> nd_Capacity := applyGPUResources (nd_Capacity n) ?cap, nd_Allocatable := applyGPUResources (nd_Allocatable n) ?all \<rparr>"
  let ?n = "if ?need then ?p else n"
  have "achieves view st (call (c_PatchNodeStatus C ?p n) ev) (\<lambda>a st'. a = ?p \<and> st' = put_node ?p st)" for ev
    by (rule patch_status_achieves [OF C n refl])
  then show "achieves view st (let capacity = ?cap; allocatable = ?all
      in if ExtendedResourceEnabled (ps_Advertise (pool_Spec pool))
            \<and> (\<not> resourcesMatch Q (nd_Capacity n) capacity \<or> \<not> resourcesMatch Q (nd_Allocatable n) allocatable)
         then (let patched = n\<lparr> nd_Capacity := applyGPUResources (nd_Capacity n) capacity,
                                 nd_Allocatable := applyGPUResources (nd_Allocatable n) allocatable \<rparr>
               in call (c_PatchNodeStatus C patched n) (\<lambda>_. [PatchNodeStatusCall patched n]))
         else (\<lambda>s. (Ok n, s))) (\<lambda>a st'. a = ?n \<and> st' = put_node ?n st)"
    using put_node_same [OF n] by (cases ?need) (simp_all only: Let_def if_True if_False simp_thms achieves_return)
  fix a st' assume a: "a = ?n \<and> st' = put_node ?n st"
  have lab: "nd_Labels ?n = nd_Labels n" "nd_Name ?n = nd_Name n" by simp_all
  have same: "put_node (?n\<lparr> nd_Labels := l \<rparr>) (put_node ?n st) = put_node (?n\<lparr> nd_Labels := l \<rparr>) st" for l
    by (simp add: put_node_def)
  have settled: "settled_node Q pool model table n state = ?n\<lparr> nd_Labels := labels_patch.settle (nd_Labels n) ?want \<rparr>"
    unfolding settled_node_def Let_def ..
  show "achieves view st' (let desired = ?want in
      if labelsMatch (nd_Labels a) desired then (\<lambda>s. (Ok (), s))
      else (let patched = a\<lparr> nd_Labels := nd_Labels a ++\<^sub>f desired \<rparr>
            in andThen (call (c_PatchNode C patched a) (\<lambda>_. [PatchNodeCall patched a])) (\<lambda>_ s. (Ok (), s))))
      (\<lambda>_ st''. st'' = put_node (settled_node Q pool model table n state) st)"
  proof (cases "labelsMatch (nd_Labels n) ?want")
    case True
    then have "settled_node Q pool model table n state = ?n" unfolding settled labels_patch.settle_def by simp
    then show ?thesis using True a by (simp only: Let_def lab if_True) (rule achieves_return, rule refl)
  next
    case False
    let ?q = "?n\<lparr> nd_Labels := nd_Labels n ++\<^sub>f ?want \<rparr>"
    have q: "settled_node Q pool model table n state = ?q" using False unfolding settled labels_patch.settle_def by simp
    have "fmlookup (so_nodes st') (nd_Name ?n) = Some ?n" using a by (simp add: put_node_def)
    from patch_labels_achieves [OF C this refl]
    have "achieves view st' (andThen (call (c_PatchNode C ?q ?n) ev) (\<lambda>_ s. (Ok (), s))) (\<lambda>_ st''. st'' = put_node ?q st)" for ev
      by (rule achieves_andThen) (use a same in \<open>auto intro: achieves_return\<close>)
    then show ?thesis unfolding q Let_def conjunct1 [OF a] lab if_not_P [OF False] .
  qed
qed

lemma own_fold: "may_own pool m k \<Longrightarrow> may_own pool (foldl (put_desired pool) m ds) k"
  by (induction ds arbitrary: m) (simp_all add: may_own_put)

lemma named_fold: "slices_named m \<Longrightarrow> slices_named (foldl (put_desired pool) m ds)"
  by (induction ds arbitrary: m) (simp_all add: slices_named_put)

lemma settled_node_name [simp]: "nd_Name (settled_node Q pool model table n state) = nd_Name n"
  by (simp add: settled_node_def Let_def)

lemma settled_node_simulated [simp]: "simulated (settled_node Q pool model table n state) = simulated n"
  by (simp add: settled_node_def Let_def IsSimulatedNode_def)

abbreviation put_settled ::
  "'q quantity_ops \<Rightarrow> 'q pool \<Rightarrow> 'q GPUModel \<Rightarrow> 'q Table \<Rightarrow> (string, 'q Node) fmap \<Rightarrow> 'q Node \<Rightarrow> (string, 'q Node) fmap" where
  "put_settled Q pool model table m n \<equiv> fmupd (nd_Name n) (settled_node Q pool model table n (StateFor pool n)) m"

text \<open>What the loop has done to the store, and which slices it counts as live.\<close>

definition loop_effect ::
  "'q quantity_ops \<Rightarrow> 'q pool \<Rightarrow> 'q GPUModel \<Rightarrow> 'q Table \<Rightarrow> 'q Node list \<Rightarrow> 'q ResourceSlice list list \<Rightarrow> 'q store \<Rightarrow> 'q store" where
  "loop_effect Q pool model table ns dss st =
     st\<lparr> so_nodes := foldl (put_settled Q pool model table) (so_nodes st) (filter simulated ns),
       so_slices := foldl (put_desired pool) (so_slices st) (concat dss) \<rparr>"

lemma node_loop_achieves:
  assumes C: "serves C view"
    and "distinct (map nd_Name ns)" "\<forall>n \<in> set ns. fmlookup (so_nodes st) (nd_Name n) = Some n"
    and "map (desired_slices Q pool model table) (filter simulated ns) = map Some dss"
    and "\<forall>d \<in> set (concat dss). may_own pool (so_slices st) (rs_Name d)" "slices_named (so_slices st)"
  shows "achieves view st (node_loop C Q pool model table t ns)
    (\<lambda>t' st'. ta_live t' = ta_live t \<union> rs_Name ` set (concat dss) \<and> st' = loop_effect Q pool model table ns dss st)"
  using assms(2-6)
proof (induction ns arbitrary: dss st t)
  case Nil
  then show ?case by (simp add: node_loop_Nil achieves_return loop_effect_def)
next
  case (Cons n ns)
  show ?case
  proof (cases "simulated n")
    case False
    then show ?thesis using Cons by (simp add: node_loop_skip loop_effect_def)
  next
    case True
    then obtain ds dss' where dss: "dss = ds # dss'" "desired_slices Q pool model table n = Some ds"
      "map (desired_slices Q pool model table) (filter simulated ns) = map Some dss'"
      using Cons.prems(3) by (auto simp: Cons_eq_map_conv)
    let ?st1 = "st\<lparr> so_slices := foldl (put_desired pool) (so_slices st) ds \<rparr>"
    let ?st2 = "put_node (settled_node Q pool model table n (StateFor pool n)) ?st1"
    have own: "\<forall>d \<in> set ds. may_own pool (so_slices st) (rs_Name d)" using Cons.prems(4) dss by simp
    have at: "fmlookup (so_nodes ?st1) (nd_Name n) = Some n" using Cons.prems(2) by simp
    have effect: "loop_effect Q pool model table ns dss' ?st2 = loop_effect Q pool model table (n # ns) dss st"
      using True dss(1) by (simp add: loop_effect_def put_node_def)
    have loop: "achieves view ?st2 (node_loop C Q pool model table t2 ns)
      (\<lambda>t' st'. ta_live t' = ta_live t2 \<union> rs_Name ` set (concat dss') \<and> st' = loop_effect Q pool model table (n # ns) dss st)" for t2
      unfolding effect [symmetric] using Cons.prems dss
      by (intro Cons.IH) (auto simp: put_node_def own_fold named_fold)
    show ?thesis unfolding node_loop_step [OF True]
    proof (rule achieves_andThen [OF publish_node_achieves [OF C dss(2) own Cons.prems(5)]], elim conjE, hypsubst)
      fix t2 :: tally assume t2: "ta_live t2 = ta_live (count_node t (StateFor pool n)) \<union> rs_Name ` set ds"
      have "achieves view ?st1 (andThen (reconcileNode C Q pool model table n (StateFor pool n)) (\<lambda>_. node_loop C Q pool model table t2 ns))
        (\<lambda>t' st'. ta_live t' = ta_live t2 \<union> rs_Name ` set (concat dss') \<and> st' = loop_effect Q pool model table (n # ns) dss st)"
        by (rule achieves_andThen [OF reconcileNode_achieves [OF C at]]) (simp only: loop)
      then show "achieves view ?st1 (andThen (reconcileNode C Q pool model table n (StateFor pool n)) (\<lambda>_. node_loop C Q pool model table t2 ns))
        (\<lambda>t' st'. ta_live t' = ta_live t \<union> rs_Name ` set (concat dss) \<and> st' = loop_effect Q pool model table (n # ns) dss st)"
        by (rule achieves_mono) (use t2 dss(1) in \<open>simp add: count_node_def image_Un Un_assoc\<close>)
    qed
  qed
qed

lemma nodes_put_lookup:
  assumes "distinct (map nd_Name ns)"
  shows "fmlookup (foldl (put_settled Q pool model table) m ns) k =
    (case find (\<lambda>n. nd_Name n = k) ns of
       Some n \<Rightarrow> Some (settled_node Q pool model table n (StateFor pool n)) | None \<Rightarrow> fmlookup m k)"
  using assms
proof (induction ns arbitrary: m)
  case (Cons n ns)
  then have "find (\<lambda>e. nd_Name e = nd_Name n) ns = None" by (auto simp: find_None_iff image_iff)
  then show ?case using Cons.IH [of "put_settled Q pool model table m n"] Cons.prems by (auto split: option.splits)
qed simp

section \<open>Pruning\<close>

lemma delete_slice:
  assumes "serves C view" "fmlookup (so_slices (view w)) (rs_Name sl) \<noteq> None"
  shows "\<exists>w'. c_DeleteSlice C sl w = (Inr (), w') \<and> view w' = drop_slice (rs_Name sl) (view w)"
  using assms unfolding serves_def writes_ok_def by blast

lemma prune_loop_achieves:
  assumes C: "serves C view"
    and "distinct (map rs_Name ss)" "\<forall>sl \<in> set ss. fmlookup (so_slices st) (rs_Name sl) \<noteq> None"
  shows "achieves view st (prune_loop C live ss)
    (\<lambda>_ st'. st' = st\<lparr> so_slices := fmfilter (\<lambda>k. k \<notin> rs_Name ` set ss - live) (so_slices st) \<rparr>)"
  using assms(2,3)
proof (induction ss arbitrary: st)
  case Nil
  have "prune_loop C live [] = (\<lambda>s. (Ok (), s))" by (simp add: fun_eq_iff)
  then show ?case by (simp add: achieves_return)
next
  case (Cons sl ss)
  show ?case
  proof (cases "rs_Name sl \<in> live")
    case True
    have "fmfilter (\<lambda>k. k \<notin> rs_Name ` set (sl # ss) - live) (so_slices st) = fmfilter (\<lambda>k. k \<notin> rs_Name ` set ss - live) (so_slices st)"
      using True by (intro fmfilter_cong) auto
    moreover have "prune_loop C live (sl # ss) = prune_loop C live ss" using True by (simp add: fun_eq_iff)
    ultimately show ?thesis using Cons by simp
  next
    case False
    let ?st = "drop_slice (rs_Name sl) st"
    have "fmfilter (\<lambda>k. k \<notin> rs_Name ` set ss - live) (so_slices ?st) = fmfilter (\<lambda>k. k \<notin> rs_Name ` set (sl # ss) - live) (so_slices st)"
      using False by (intro fmap_ext) (auto simp: drop_slice_def)
    then have eq: "?st\<lparr> so_slices := fmfilter (\<lambda>k. k \<notin> rs_Name ` set ss - live) (so_slices ?st) \<rparr>
        = st\<lparr> so_slices := fmfilter (\<lambda>k. k \<notin> rs_Name ` set (sl # ss) - live) (so_slices st) \<rparr>"
      by (simp only:) (simp add: drop_slice_def)
    have rest: "achieves view ?st (prune_loop C live ss)
        (\<lambda>_ st'. st' = st\<lparr> so_slices := fmfilter (\<lambda>k. k \<notin> rs_Name ` set (sl # ss) - live) (so_slices st) \<rparr>)"
      unfolding eq [symmetric] by (rule Cons.IH) (use Cons.prems in \<open>auto simp: drop_slice_def image_iff\<close>)
    show ?thesis unfolding achieves_def
    proof (intro allI impI)
      fix w log assume w: "view w = st"
      then obtain w' where w': "c_DeleteSlice C sl w = (Inr (), w')" "view w' = ?st"
        using delete_slice [OF C, of w sl] Cons.prems(2) by auto
      then show "\<exists>a w'' log'. prune_loop C live (sl # ss) (w, log) = (Ok a, (w'', log'))
          \<and> view w'' = st\<lparr> so_slices := fmfilter (\<lambda>k. k \<notin> rs_Name ` set (sl # ss) - live) (so_slices st) \<rparr>"
        using rest False unfolding achieves_def by (simp add: call_def del: set_simps)
    qed
  qed
qed

section \<open>The names of the slices\<close>

lemma MIG_slice_name_node:
  assumes "a \<in> {''-counters'', ''-devices''}" "b \<in> {''-counters'', ''-devices''}" "0 \<le> i" "0 \<le> j"
    and "p @ ''-'' @ n @ a @ ''-'' @ Itoa i = p @ ''-'' @ n' @ b @ ''-'' @ Itoa j"
  shows "n = n'"
proof -
  have "(n @ a) @ CHR ''-'' # Itoa i = (n' @ b) @ CHR ''-'' # Itoa j" using assms(5) by simp
  then have "n @ a = n' @ b" using assms(3,4) by (subst (asm) append_sep_inject_last) (simp_all add: dash_not_in_Itoa)
  then show ?thesis using assms(1,2) by auto
qed

lemma desired_names:
  assumes "desired_slices Q pool model table n = Some ds"
  shows "distinct (map rs_Name ds)"
    and "d \<in> set ds \<Longrightarrow> desired_slices Q pool model table n' = Some ds' \<Longrightarrow> d' \<in> set ds' \<Longrightarrow> rs_Name d = rs_Name d' \<Longrightarrow> nd_Name n = nd_Name n'"
proof -
  have mig: "distinct (map rs_Name es) \<and> (\<forall>d \<in> set es. \<exists>a i. a \<in> {''-counters'', ''-devices''} \<and> 0 \<le> i
      \<and> rs_Name d = pool_Name pool @ ''-'' @ nd_Name m @ a @ ''-'' @ Itoa i)"
    if "BuildMIGSlices Q pool model table (nd_Name m) (StateFor pool m) = Some es" for m es
  proof -
    from that obtain "is" cs n where es: "es = map (\<lambda>k. counter_slice Q pool table (nd_Name m) (wrap32 (int (cs + n))) (int k)) [0..<cs]
        @ map (\<lambda>k. device_slice Q pool model (nd_Name m) (StateFor pool m) is (wrap32 (int (cs + n))) (int k)) [0..<n]"
      by (rule BuildMIGSlices_Some)
    have "distinct (map rs_Name es)"
      using MIG_slice_names_distinct [of "pool_Name pool" "nd_Name m" cs n] by (simp add: es o_def)
    moreover have "\<exists>a i. a \<in> {''-counters'', ''-devices''} \<and> 0 \<le> i \<and> rs_Name d = pool_Name pool @ ''-'' @ nd_Name m @ a @ ''-'' @ Itoa i"
      if "d \<in> set es" for d
    proof -
      from that have "\<exists>k. rs_Name d = MIGCounterSliceName (pool_Name pool) (nd_Name m) (int k) \<or> rs_Name d = MIGDeviceSliceName (pool_Name pool) (nd_Name m) (int k)"
        by (auto simp: es)
      then obtain k where "rs_Name d = pool_Name pool @ ''-'' @ nd_Name m @ ''-counters'' @ ''-'' @ Itoa (int k)
          \<or> rs_Name d = pool_Name pool @ ''-'' @ nd_Name m @ ''-devices'' @ ''-'' @ Itoa (int k)"
        by (auto simp: MIGCounterSliceName_def MIGDeviceSliceName_def)
      then show ?thesis by (meson insertI1 insertI2 of_nat_0_le_iff)
    qed
    ultimately show ?thesis by blast
  qed
  show "distinct (map rs_Name ds)" using assms mig [of n ds] by (auto simp: desired_slices_def split: if_splits)
  assume d: "d \<in> set ds" and n': "desired_slices Q pool model table n' = Some ds'" and d': "d' \<in> set ds'" and eq: "rs_Name d = rs_Name d'"
  show "nd_Name n = nd_Name n'"
  proof (cases "MIGEnabled (pool_Spec pool)")
    case False
    then show ?thesis using assms d n' d' eq
      by (auto simp: desired_slices_def BuildResourceSlice_def SliceName_def split: if_splits)
  next
    case True
    then have "BuildMIGSlices Q pool model table (nd_Name n) (StateFor pool n) = Some ds" "BuildMIGSlices Q pool model table (nd_Name n') (StateFor pool n') = Some ds'"
      using assms n' d d' by (auto simp: desired_slices_def split: if_splits)
    then obtain a i b j where "a \<in> {''-counters'', ''-devices''}" "b \<in> {''-counters'', ''-devices''}" "0 \<le> i" "0 \<le> j"
      "rs_Name d = pool_Name pool @ ''-'' @ nd_Name n @ a @ ''-'' @ Itoa i" "rs_Name d' = pool_Name pool @ ''-'' @ nd_Name n' @ b @ ''-'' @ Itoa j"
      using mig d d' by meson
    then show ?thesis using MIG_slice_name_node [of a b i j "pool_Name pool" "nd_Name n" "nd_Name n'"] eq by simp
  qed
qed

lemma desired_names_distinct:
  assumes "distinct (map nd_Name ns)" "map (desired_slices Q pool model table) ns = map Some dss"
  shows "distinct (map rs_Name (concat dss))"
  using assms
proof (induction ns arbitrary: dss)
  case (Cons n ns)
  then obtain ds dss' where dss: "dss = ds # dss'" "desired_slices Q pool model table n = Some ds"
    "map (desired_slices Q pool model table) ns = map Some dss'" by (auto simp: Cons_eq_map_conv)
  have "rs_Name d \<noteq> rs_Name e" if "d \<in> set ds" "e \<in> set (concat dss')" for d e
  proof
    assume eq: "rs_Name d = rs_Name e"
    from that(2) obtain es where es: "es \<in> set dss'" "e \<in> set es" by auto
    then have "Some es \<in> set (map (desired_slices Q pool model table) ns)" using dss(3) by simp
    then obtain m where m: "m \<in> set ns" "desired_slices Q pool model table m = Some es" by auto
    from desired_names(2) [OF dss(2) that(1) m(2) es(2) eq] have "nd_Name n = nd_Name m" .
    then show False using Cons.prems(1) m(1) by auto
  qed
  then show ?case using Cons dss desired_names(1) [OF dss(2)] by (auto simp: image_iff)
qed simp

section \<open>Reconcile\<close>

lemma achieves_yields:
  assumes "achieves view st f P" "yields X f"
  shows "achieves view st f (\<lambda>a st'. P a st' \<and> (\<exists>l. X a l))"
  using assms unfolding achieves_def yields_def by (metis snd_conv)

lemma listing_named:
  assumes m: "fmpred (\<lambda>k v. name v = k) m" and l: "listing m P vs"
  shows "distinct (map name vs)" "set vs = {v. fmlookup m (name v) = Some v \<and> P v}"
proof -
  from l obtain ks where ks: "distinct ks" "set ks = {k. \<exists>v. fmlookup m k = Some v \<and> P v}" "map (fmlookup m) ks = map Some vs"
    unfolding listing_def by blast
  have len: "length ks = length vs" using map_eq_imp_length_eq [OF ks(3)] .
  have at: "fmlookup m (ks ! i) = Some (vs ! i)" if "i < length vs" for i
    using arg_cong [OF ks(3), of "\<lambda>xs. xs ! i"] that len by simp
  have nm: "name v = k" if "fmlookup m k = Some v" for k v using m that by (rule fmpredD)
  have names: "map name vs = ks" by (rule nth_equalityI) (simp_all add: len nm [OF at])
  then show "distinct (map name vs)" using ks(1) by simp
  have "v \<in> set vs \<longleftrightarrow> fmlookup m (name v) = Some v \<and> P v" for v
  proof
    assume "v \<in> set vs"
    then obtain i where i: "i < length vs" "v = vs ! i" by (auto simp: in_set_conv_nth)
    then have k: "fmlookup m (name v) = Some v" using at [of i] nm by metis
    have "name v \<in> set ks" using i names by auto
    then show "fmlookup m (name v) = Some v \<and> P v" using ks(2) k by auto
  next
    assume v: "fmlookup m (name v) = Some v \<and> P v"
    then have "name v \<in> set ks" using ks(2) by auto
    then obtain i where "i < length vs" "name v = ks ! i" using len by (auto simp: in_set_conv_nth)
    then show "v \<in> set vs" using at [of i] v by auto
  qed
  then show "set vs = {v. fmlookup m (name v) = Some v \<and> P v}" by blast
qed

lemma list_nodes_achieves:
  assumes C: "serves C view" and ok: "store_ok st"
  shows "achieves view st (call (c_ListNodes C sel) ev) (\<lambda>ns st'. st' = st \<and> distinct (map nd_Name ns)
    \<and> set ns = {n. fmlookup (so_nodes st) (nd_Name n) = Some n \<and> label_selects sel (nd_Labels n)})"
proof (rule achieves_call)
  fix w assume w: "view w = st"
  obtain ns where "c_ListNodes C sel w = (Inr ns, w)" "listing (so_nodes st) (\<lambda>n. label_selects sel (nd_Labels n)) ns"
    using C w unfolding serves_def reads_ok_def by blast
  then show "\<exists>ns w'. c_ListNodes C sel w = (Inr ns, w') \<and> view w' = st \<and> distinct (map nd_Name ns)
      \<and> set ns = {n. fmlookup (so_nodes st) (nd_Name n) = Some n \<and> label_selects sel (nd_Labels n)}"
    using listing_named [of nd_Name "so_nodes st"] ok w unfolding store_ok_def by blast
qed

lemma list_slices_achieves:
  assumes C: "serves C view" and ok: "slices_named (so_slices st)"
  shows "achieves view st (call (c_ListSlices C sel) ev) (\<lambda>ss st'. st' = st \<and> distinct (map rs_Name ss)
    \<and> set ss = {sl. fmlookup (so_slices st) (rs_Name sl) = Some sl \<and> label_selects sel (rs_Labels sl)})"
proof (rule achieves_call)
  fix w assume w: "view w = st"
  obtain ss where "c_ListSlices C sel w = (Inr ss, w)" "listing (so_slices st) (\<lambda>sl. label_selects sel (rs_Labels sl)) ss"
    using C w unfolding serves_def reads_ok_def by blast
  then show "\<exists>ss w'. c_ListSlices C sel w = (Inr ss, w') \<and> view w' = st \<and> distinct (map rs_Name ss)
      \<and> set ss = {sl. fmlookup (so_slices st) (rs_Name sl) = Some sl \<and> label_selects sel (rs_Labels sl)}"
    using listing_named [of rs_Name "so_slices st"] ok w unfolding slices_named_def by blast
qed

lemma pruneSlices_achieves:
  assumes C: "serves C view" and ok: "slices_named (so_slices st)"
  shows "achieves view st (pruneSlices C pool live) (\<lambda>_ st'. \<exists>gone. st' = st\<lparr> so_slices := fmfilter (\<lambda>k. k \<notin> gone) (so_slices st) \<rparr>
    \<and> (\<forall>k. k \<in> gone \<longleftrightarrow> k \<notin> live \<and> (\<exists>sl. fmlookup (so_slices st) k = Some sl \<and> fmlookup (rs_Labels sl) PoolLabel = Some (pool_Name pool))))"
  unfolding pruneSlices_def Let_def
proof (rule achieves_andThen [OF list_slices_achieves [OF assms]])
  let ?sel = "fmupd PoolLabel (pool_Name pool) fmempty"
  fix ss st' assume ss: "st' = st \<and> distinct (map rs_Name ss) \<and> set ss = {sl. fmlookup (so_slices st) (rs_Name sl) = Some sl \<and> label_selects ?sel (rs_Labels sl)}"
  have nm: "rs_Name sl = k" if "fmlookup (so_slices st) k = Some sl" for k sl
    using ok that unfolding slices_named_def by (rule fmpredD)
  have "k \<in> rs_Name ` set ss - live \<longleftrightarrow> k \<notin> live \<and> (\<exists>sl. fmlookup (so_slices st) k = Some sl \<and> fmlookup (rs_Labels sl) PoolLabel = Some (pool_Name pool))" for k
  proof -
    have sel: "label_selects ?sel lbls \<longleftrightarrow> fmlookup lbls PoolLabel = Some (pool_Name pool)" for lbls
      by (auto simp: label_selects_def fmpred_iff)
    have "k \<in> rs_Name ` set ss \<longleftrightarrow> (\<exists>sl. fmlookup (so_slices st) k = Some sl \<and> fmlookup (rs_Labels sl) PoolLabel = Some (pool_Name pool))"
    proof
      assume "k \<in> rs_Name ` set ss"
      then show "\<exists>sl. fmlookup (so_slices st) k = Some sl \<and> fmlookup (rs_Labels sl) PoolLabel = Some (pool_Name pool)"
        using ss sel by blast
    next
      assume "\<exists>sl. fmlookup (so_slices st) k = Some sl \<and> fmlookup (rs_Labels sl) PoolLabel = Some (pool_Name pool)"
      then obtain sl where sl: "fmlookup (so_slices st) k = Some sl" "fmlookup (rs_Labels sl) PoolLabel = Some (pool_Name pool)" by blast
      from nm [OF sl(1)] sl ss sel have "sl \<in> set ss" by blast
      then show "k \<in> rs_Name ` set ss" using nm [OF sl(1)] by blast
    qed
    then show ?thesis by blast
  qed
  moreover have "achieves view st (prune_loop C live ss) (\<lambda>_ st'. st' = st\<lparr> so_slices := fmfilter (\<lambda>k. k \<notin> rs_Name ` set ss - live) (so_slices st) \<rparr>)"
    by (rule prune_loop_achieves [OF C]) (use ss in auto)
  ultimately show "achieves view st' (prune_loop C live ss) (\<lambda>_ st'. \<exists>gone. st' = st\<lparr> so_slices := fmfilter (\<lambda>k. k \<notin> gone) (so_slices st) \<rparr>
    \<and> (\<forall>k. k \<in> gone \<longleftrightarrow> k \<notin> live \<and> (\<exists>sl. fmlookup (so_slices st) k = Some sl \<and> fmlookup (rs_Labels sl) PoolLabel = Some (pool_Name pool))))"
    unfolding conjunct1 [OF ss] by (elim achieves_mono) blast
qed

lemma find_distinct: "distinct (map f xs) \<Longrightarrow> x \<in> set xs \<Longrightarrow> find (\<lambda>y. f y = f x) xs = Some x"
  by (induction xs) (auto simp: image_iff)

lemma distinct_mapI: "distinct (map f xs) \<Longrightarrow> distinct xs"
  by (simp add: distinct_map)

lemma wants_listed:
  assumes "set ns = {n. selected pool st n}" "map (desired_slices Q pool model table) ns = map Some dss"
  shows "wants Q pool model table st d \<longleftrightarrow> d \<in> set (concat dss)"
proof -
  have "Some ds \<in> set (map (desired_slices Q pool model table) ns) \<longleftrightarrow> ds \<in> set dss" for ds unfolding assms(2) by auto
  then have "ds \<in> set dss \<longleftrightarrow> (\<exists>n. selected pool st n \<and> desired_slices Q pool model table n = Some ds)" for ds
    using assms(1) by (force simp: image_iff)
  then show ?thesis unfolding wants_def set_concat by blast
qed

lemma tally_fleet:
  assumes ns: "distinct ns" "set ns = {n. selected pool st n}" and dss: "map (desired_slices Q pool model table) ns = map Some dss"
    and t: "tally_of pool dss ns no_tally t"
  shows "t = fleet_tally Q pool model table st"
proof -
  have sum: "(\<Sum>n\<leftarrow>ns. f n) = (\<Sum>n | selected pool st n. f n)" for f :: "'a Node \<Rightarrow> int"
    using sum_list_distinct_conv_sum_set [OF ns(1), of f] ns(2) by simp
  have len: "int (length ns) = int (card {n. selected pool st n})" using distinct_card [OF ns(1)] ns(2) by simp
  have d: "dss = map (\<lambda>n. the (desired_slices Q pool model table n)) ns"
    using arg_cong [OF dss, of "map the"] by (simp add: o_def)
  have dev: "device_count (concat dss) = (\<Sum>n | selected pool st n. device_count (the (desired_slices Q pool model table n)))"
    unfolding sum [symmetric] d by (induction ns) (simp_all add: pool_devices_def)
  have live: "rs_Name ` set (concat dss) = {rs_Name d | d. wants Q pool model table st d}"
    using wants_listed [OF ns(2) dss] by blast
  show ?thesis using t len dev live sum by (cases t) (simp add: tally_of_def no_tally_def fleet_tally_def)
qed

lemma settled_nodes_put:
  assumes ok: "store_ok st" and ns: "distinct (map nd_Name ns)" "set ns = {n. selected pool st n}"
  shows "foldl (put_settled Q pool model table) (so_nodes st) ns = settled_nodes Q pool model table st"
proof (rule fmap_ext)
  fix k
  have nm: "nd_Name n = k" if "fmlookup (so_nodes st) k = Some n" for n
    using ok that unfolding store_ok_def by (blast intro: fmpredD)
  show "fmlookup (foldl (put_settled Q pool model table) (so_nodes st) ns) k = fmlookup (settled_nodes Q pool model table st) k"
  proof (cases "find (\<lambda>n. nd_Name n = k) ns")
    case None
    then have "\<not> selected pool st n" if "fmlookup (so_nodes st) k = Some n" for n
      using ns(2) nm [OF that] by (auto simp: find_None_iff)
    then show ?thesis using None by (cases "fmlookup (so_nodes st) k") (simp_all add: nodes_put_lookup [OF ns(1)] settled_nodes_def)
  next
    case (Some n)
    then have "nd_Name n = k" "selected pool st n" using ns(2) by (auto dest: find_Some_in)
    moreover from this have "fmlookup (so_nodes st) k = Some n" by (auto simp: selected_def)
    ultimately show ?thesis using Some by (simp add: nodes_put_lookup [OF ns(1)] settled_nodes_def)
  qed
qed

lemma with_status_eq: "with_status C pool table t = pool\<lparr> pool_Status := pool_Status (with_status C pool table t) \<rparr>"
  by (simp add: with_status_def setReady_def reported_status_def)

lemma with_status_name: "pool_Name (with_status C pool table t) = pool_Name pool"
  by (simp add: with_status_def setReady_def reported_status_def)

lemma update_status:
  assumes "serves C view" "fmlookup (so_pools (view w)) (pool_Name p) \<noteq> None"
  shows "\<exists>w'. c_UpdatePoolStatus C p w = (Inr (), w') \<and> view w' = put_status p (view w)"
proof -
  have "writes_ok C view" using assms(1) by (simp add: serves_def)
  from conjunct1 [OF this [unfolded writes_ok_def]] show ?thesis using assms(2) by (elim allE) (erule mp)
qed

text \<open>The store after the loop, the pruning and the status update.\<close>

lemma publish_store:
  assumes pool: "fmlookup (so_pools st) (pool_Name pool) = Some pool"
    and names: "distinct (map rs_Name ds)" and wanted: "\<And>d. wants Q pool model table st d \<longleftrightarrow> d \<in> set ds"
    and live: "live = rs_Name ` set ds"
    and st2: "st2 = st1\<lparr> so_slices := fmfilter (\<lambda>k. k \<notin> gone) (so_slices st1) \<rparr>"
    and gone: "\<forall>k. k \<in> gone \<longleftrightarrow> k \<notin> live \<and> (\<exists>sl. fmlookup (so_slices st1) k = Some sl \<and> fmlookup (rs_Labels sl) PoolLabel = Some (pool_Name pool))"
    and st1: "st1 = st\<lparr> so_nodes := settled_nodes Q pool model table st, so_slices := foldl (put_desired pool) (so_slices st) ds \<rparr>"
  shows "reconciled_store C Q pool model table st (put_status (with_status C pool table (fleet_tally Q pool model table st)) st2)"
proof -
  let ?p = "with_status C pool table (fleet_tally Q pool model table st)"
  have nm: "pool_Name ?p = pool_Name pool" by (rule with_status_name)
  have put: "put_status ?p st2 = st2\<lparr> so_pools := fmupd (pool_Name pool) ?p (so_pools st2) \<rparr>"
    using pool by (simp add: put_status_def nm st2 st1 with_status_eq [of C pool, symmetric])
  have wanted_at: "fmlookup (so_slices st2) (rs_Name d) = Some (stored_slice pool (so_slices st) d)" if "d \<in> set ds" for d
  proof -
    have "find (\<lambda>e. rs_Name e = rs_Name d) ds = Some d" using names that by (rule find_distinct)
    moreover have "rs_Name d \<notin> gone" using gone live that by blast
    ultimately show ?thesis by (simp add: st2 st1 slices_put_lookup [OF names])
  qed
  have other: "fmlookup (so_slices st2) k = (case fmlookup (so_slices st) k of None \<Rightarrow> None
      | Some sl \<Rightarrow> if fmlookup (rs_Labels sl) PoolLabel = Some (pool_Name pool) then None else Some sl)"
    if "k \<notin> rs_Name ` set ds" for k
  proof -
    have "find (\<lambda>e. rs_Name e = k) ds = None" using that by (auto simp: find_None_iff)
    then have "fmlookup (so_slices st1) k = fmlookup (so_slices st) k" by (simp add: st1 slices_put_lookup [OF names])
    then show ?thesis using gone that live by (cases "fmlookup (so_slices st) k") (auto simp: st2)
  qed
  have frame: "so_models st2 = so_models st" "so_nodes st2 = settled_nodes Q pool model table st" "so_pools st2 = so_pools st"
    by (simp_all add: st2 st1)
  have notin: "k \<notin> rs_Name ` set ds" if "\<nexists>d. wants Q pool model table st d \<and> rs_Name d = k" for k using that wanted by blast
  show ?thesis unfolding reconciled_store_def put using wanted wanted_at other [OF notin] by (simp add: frame)
qed

lemma updateStatus_achieves:
  assumes "serves C view" "fmlookup (so_pools st) (pool_Name p) \<noteq> None"
  shows "achieves view st (updateStatus C p) (\<lambda>_ st'. st' = put_status p st)"
  unfolding updateStatus_def
proof (rule achieves_call)
  fix w assume w: "view w = st"
  show "\<exists>a w'. c_UpdatePoolStatus C p w = (Inr a, w') \<and> view w' = put_status p st"
    using update_status [OF assms(1), of w p] assms(2) unfolding w by blast
qed

text \<open>The nodes that are published, in the order they are listed, and their slices.\<close>

definition lists_fleet ::
  "'q quantity_ops \<Rightarrow> 'q pool \<Rightarrow> 'q GPUModel \<Rightarrow> 'q Table \<Rightarrow> 'q store \<Rightarrow> 'q Node list \<Rightarrow> 'q ResourceSlice list list \<Rightarrow> bool" where
  "lists_fleet Q pool model table st ns dss \<longleftrightarrow>
     distinct (map nd_Name ns)
   \<and> set ns = {n. fmlookup (so_nodes st) (nd_Name n) = Some n \<and> label_selects (ps_NodeSelector (pool_Spec pool)) (nd_Labels n)}
   \<and> map (desired_slices Q pool model table) (filter simulated ns) = map Some dss"

lemma lists_fleetD:
  assumes "lists_fleet Q pool model table st ns dss"
  shows "distinct (map nd_Name (filter simulated ns))" "set (filter simulated ns) = {n. selected pool st n}"
    "\<forall>n \<in> set ns. fmlookup (so_nodes st) (nd_Name n) = Some n" "distinct (map rs_Name (concat dss))"
    "\<And>d. wants Q pool model table st d \<longleftrightarrow> d \<in> set (concat dss)" "ta_live (fleet_tally Q pool model table st) = rs_Name ` set (concat dss)"
proof -
  show sel: "distinct (map nd_Name (filter simulated ns))" "set (filter simulated ns) = {n. selected pool st n}"
    and "\<forall>n \<in> set ns. fmlookup (so_nodes st) (nd_Name n) = Some n"
    using assms by (auto simp: lists_fleet_def selected_def intro: distinct_map_filter)
  have dss: "map (desired_slices Q pool model table) (filter simulated ns) = map Some dss" using assms by (simp add: lists_fleet_def)
  show "distinct (map rs_Name (concat dss))" by (rule desired_names_distinct [OF sel(1) dss])
  show wanted: "wants Q pool model table st d \<longleftrightarrow> d \<in> set (concat dss)" for d by (rule wants_listed [OF sel(2) dss])
  show "ta_live (fleet_tally Q pool model table st) = rs_Name ` set (concat dss)" using wanted by (auto simp: fleet_tally_def)
qed

lemma publish_loop_achieves:
  assumes C: "serves C view" and ok: "store_ok st" and gpus: "int32_range (ps_GPUsPerNode (pool_Spec pool))"
    and fleet: "lists_fleet Q pool model table st ns dss" and own: "\<And>d. wants Q pool model table st d \<Longrightarrow> may_own pool (so_slices st) (rs_Name d)"
  shows "achieves view st (node_loop C Q pool model table no_tally ns) (\<lambda>t st'. t = fleet_tally Q pool model table st
    \<and> st' = st\<lparr> so_nodes := settled_nodes Q pool model table st, so_slices := foldl (put_desired pool) (so_slices st) (concat dss) \<rparr>)"
proof -
  let ?ns = "filter simulated ns"
  note f = lists_fleetD [OF fleet]
  have ns: "distinct (map nd_Name ns)" and dss: "map (desired_slices Q pool model table) ?ns = map Some dss" using fleet by (simp_all add: lists_fleet_def)
  have sn: "slices_named (so_slices st)" using ok by (simp add: store_ok_def slices_named_def)
  have range: "tally_range no_tally" by (simp add: no_tally_def tally_range_def int32_range_def)
  show ?thesis
  proof (rule achieves_mono [OF achieves_yields [OF node_loop_achieves [OF C ns f(3) dss _ sn] node_loop_yields [OF gpus range]]])
    show "\<forall>d \<in> set (concat dss). may_own pool (so_slices st) (rs_Name d)" using own f(5) by blast
    fix t st' assume a: "(ta_live t = ta_live no_tally \<union> rs_Name ` set (concat dss) \<and> st' = loop_effect Q pool model table ns dss st)
      \<and> (\<exists>l. loop_result Q pool model table ns no_tally t l)"
    then obtain dss' where d: "map (desired_slices Q pool model table) ?ns = map Some dss'" "tally_of pool dss' ?ns no_tally t"
      unfolding loop_result_def by blast
    have "t = fleet_tally Q pool model table st" by (rule tally_fleet [OF distinct_mapI [OF f(1)] f(2) d])
    then show "t = fleet_tally Q pool model table st
        \<and> st' = st\<lparr> so_nodes := settled_nodes Q pool model table st, so_slices := foldl (put_desired pool) (so_slices st) (concat dss) \<rparr>"
      using a settled_nodes_put [OF ok f(1,2)] by (simp add: loop_effect_def)
  qed
qed

lemma publish_achieves:
  assumes C: "serves C view" and ok: "store_ok st" and pool: "fmlookup (so_pools st) (pool_Name pool) = Some pool"
    and gpus: "int32_range (ps_GPUsPerNode (pool_Spec pool))"
    and built: "\<And>n. selected pool st n \<Longrightarrow> desired_slices Q pool model table n \<noteq> None"
    and own: "\<And>d. wants Q pool model table st d \<Longrightarrow> may_own pool (so_slices st) (rs_Name d)"
  shows "achieves view st (publish C Q pool model table) (\<lambda>_. reconciled_store C Q pool model table st)"
  unfolding publish_def Let_def no_tally_def [symmetric] reported_status_def [symmetric] with_status_def [symmetric]
proof (rule achieves_andThen [OF list_nodes_achieves [OF C ok]], elim conjE, hypsubst)
  fix ns assume ns: "distinct (map nd_Name ns)"
    "set ns = {n. fmlookup (so_nodes st) (nd_Name n) = Some n \<and> label_selects (ps_NodeSelector (pool_Spec pool)) (nd_Labels n)}"
  have "map (desired_slices Q pool model table) (filter simulated ns)
      = map Some (map (\<lambda>n. the (desired_slices Q pool model table n)) (filter simulated ns))"
    using built ns(2) by (auto simp: selected_def)
  with ns have "lists_fleet Q pool model table st ns (map (\<lambda>n. the (desired_slices Q pool model table n)) (filter simulated ns))"
    unfolding lists_fleet_def by blast
  then obtain dss where fleet: "lists_fleet Q pool model table st ns dss" by blast
  note f = lists_fleetD [OF fleet]
  let ?t = "fleet_tally Q pool model table st" and ?p = "with_status C pool table (fleet_tally Q pool model table st)"
  let ?st1 = "st\<lparr> so_nodes := settled_nodes Q pool model table st, so_slices := foldl (put_desired pool) (so_slices st) (concat dss) \<rparr>"
  show "achieves view st (andThen (node_loop C Q pool model table no_tally ns)
      (\<lambda>t. andThen (pruneSlices C pool (ta_live t)) (\<lambda>_. updateStatus C (with_status C pool table t)))) (\<lambda>_. reconciled_store C Q pool model table st)"
  proof (rule achieves_andThen [OF publish_loop_achieves [OF C ok gpus fleet own]], assumption, elim conjE, hypsubst)
    have sn: "slices_named (so_slices st)" using ok by (simp add: store_ok_def slices_named_def)
    have sn1: "slices_named (so_slices ?st1)" using named_fold [OF sn] by simp
    show "achieves view ?st1 (andThen (pruneSlices C pool (ta_live ?t)) (\<lambda>_. updateStatus C ?p)) (\<lambda>_. reconciled_store C Q pool model table st)"
    proof (rule achieves_andThen [OF pruneSlices_achieves [OF C sn1]], elim exE conjE)
      fix st2 gone assume st2: "st2 = ?st1\<lparr> so_slices := fmfilter (\<lambda>k. k \<notin> gone) (so_slices ?st1) \<rparr>"
        and gone: "\<forall>k. k \<in> gone \<longleftrightarrow> k \<notin> ta_live ?t \<and> (\<exists>sl. fmlookup (so_slices ?st1) k = Some sl \<and> fmlookup (rs_Labels sl) PoolLabel = Some (pool_Name pool))"
      have "reconciled_store C Q pool model table st (put_status ?p st2)"
        by (rule publish_store [OF pool f(4) f(5) f(6) st2 gone refl])
      moreover have "fmlookup (so_pools st2) (pool_Name ?p) \<noteq> None" using pool by (simp add: st2 with_status_name)
      ultimately show "achieves view st2 (updateStatus C ?p) (\<lambda>_. reconciled_store C Q pool model table st)"
        by (auto intro: achieves_mono [OF updateStatus_achieves [OF C]])
    qed
  qed
qed

section \<open>The fixed point\<close>

text \<open>Nothing but the reported status depends on the status.\<close>

lemma status_frame:
  "pool_Spec (pool\<lparr> pool_Status := x \<rparr>) = pool_Spec pool" "pool_Name (pool\<lparr> pool_Status := x \<rparr>) = pool_Name pool"
  by simp_all

lemma perCard_status [simp]: "perCard Q (pool\<lparr> pool_Status := x \<rparr>) = perCard Q pool"
  by (simp add: fun_eq_iff perCard_def)

lemma Validate_status [simp]:
  "ValidateOccupancy (pool\<lparr> pool_Status := x \<rparr>) = ValidateOccupancy pool" "ValidateFaults (pool\<lparr> pool_Status := x \<rparr>) = ValidateFaults pool"
  by (simp_all add: ValidateOccupancy_def ValidateFaults_def)

lemma status_irrelevant [simp]:
  "StateFor (pool\<lparr> pool_Status := x \<rparr>) n = StateFor pool n"
  "NodeLabels Q (pool\<lparr> pool_Status := x \<rparr>) model = NodeLabels Q pool model"
  "nodeResourcesFor Q (pool\<lparr> pool_Status := x \<rparr>) table g = nodeResourcesFor Q pool table g"
  unfolding StateFor_def BusyGPUs_def NodeLabels_def nodeResourcesFor_def perCard_status status_frame
  by (rule refl)+

lemma check_pool_status [simp]: "check_pool Q (pool\<lparr> pool_Status := x \<rparr>) model = check_pool Q pool model"
  unfolding check_pool_def Validate_status status_frame ..

lemma resources_status [simp]:
  "NodeResources Q (pool\<lparr> pool_Status := x \<rparr>) table = NodeResources Q pool table"
  "NodeAllocatable Q (pool\<lparr> pool_Status := x \<rparr>) table state = NodeAllocatable Q pool table state"
  by (simp_all add: NodeResources_def NodeAllocatable_def)

lemma BuildResourceSlice_status [simp]: "BuildResourceSlice (pool\<lparr> pool_Status := x \<rparr>) model n st = BuildResourceSlice pool model n st"
  by (simp add: BuildResourceSlice_def gpu_device_def)

lemma slice_status:
  "counter_slice Q (pool\<lparr> pool_Status := x \<rparr>) = counter_slice Q pool"
  "tainted_migDevice Q (pool\<lparr> pool_Status := x \<rparr>) = tainted_migDevice Q pool"
  by (simp_all add: fun_eq_iff counter_slice_def tainted_migDevice_def migDevice_def)

lemma BuildMIGSlices_status [simp]: "BuildMIGSlices Q (pool\<lparr> pool_Status := x \<rparr>) model table n st = BuildMIGSlices Q pool model table n st"
  unfolding BuildMIGSlices_def device_slice_def mig_instances_def slice_status status_frame ..

lemma desired_status [simp]:
  "desired_slices Q (pool\<lparr> pool_Status := x \<rparr>) = desired_slices Q pool"
  "settled_node Q (pool\<lparr> pool_Status := x \<rparr>) = settled_node Q pool"
  "stored_slice (pool\<lparr> pool_Status := x \<rparr>) = stored_slice pool"
  "selected (pool\<lparr> pool_Status := x \<rparr>) = selected pool"
  unfolding fun_eq_iff desired_slices_def settled_node_def stored_slice_def selected_def
    BuildMIGSlices_status BuildResourceSlice_status status_irrelevant resources_status status_frame by simp_all

lemma wants_status [simp]: "wants Q (pool\<lparr> pool_Status := x \<rparr>) = wants Q pool"
  by (simp add: fun_eq_iff wants_def)

lemma fleet_status [simp]:
  "fleet_tally Q (pool\<lparr> pool_Status := x \<rparr>) = fleet_tally Q pool"
  "settled_nodes Q (pool\<lparr> pool_Status := x \<rparr>) = settled_nodes Q pool"
  unfolding fun_eq_iff fleet_tally_def settled_nodes_def desired_status wants_status status_irrelevant by simp_all

text \<open>The selectors of the pool do not look at the labels that the pool writes.\<close>

definition selectors_apart :: "'q quantity_ops \<Rightarrow> 'q pool \<Rightarrow> 'q GPUModel \<Rightarrow> bool" where
  "selectors_apart Q pool model \<longleftrightarrow>
     (\<forall>sel \<in> {ps_NodeSelector (pool_Spec pool)} \<union> oe_NodeSelector ` set (ps_Occupancy (pool_Spec pool))
           \<union> fe_NodeSelector ` set (ps_Faults (pool_Spec pool)). fmdom sel |\<inter>| fmdom (NodeLabels Q pool model) = {||})"

lemma settled_labels_apart:
  assumes "fmdom sel |\<inter>| fmdom (NodeLabels Q pool model) = {||}"
  shows "label_selects sel (nd_Labels (settled_node Q pool model table n state)) = label_selects sel (nd_Labels n)"
    and "selectorMatches sel (nd_Labels (settled_node Q pool model table n state)) = selectorMatches sel (nd_Labels n)"
proof -
  have same: "fmlookup (nd_Labels (settled_node Q pool model table n state)) k = fmlookup (nd_Labels n) k" if "fmlookup sel k = Some v" for k v
  proof -
    have "k |\<notin>| fmdom (NodeLabels Q pool model)" using assms fmdomI [OF that] by auto
    then show ?thesis using labels_patch.settle_frame [where want = "NodeLabels Q pool model" and k = k] by (simp add: settled_node_def Let_def)
  qed
  show "label_selects sel (nd_Labels (settled_node Q pool model table n state)) = label_selects sel (nd_Labels n)"
    using same by (auto simp: label_selects_def fmpred_iff)
  show "selectorMatches sel (nd_Labels (settled_node Q pool model table n state)) = selectorMatches sel (nd_Labels n)"
    using same by (simp add: selectorMatches_def fmpred_iff get_str_def)
qed

lemma settled_state:
  assumes "selectors_apart Q pool model"
  shows "StateFor pool (settled_node Q pool model table n state) = StateFor pool n"
proof -
  let ?l = "nd_Labels (settled_node Q pool model table n state)"
  have "busy_loop g es ?l = busy_loop g es (nd_Labels n)" if "set es \<subseteq> set (ps_Occupancy (pool_Spec pool))" for g es
    using that assms settled_labels_apart(2) [of _ Q pool model table n state]
    by (induction es) (auto simp: selectors_apart_def)
  moreover have "fault_loop g s fs ?l = fault_loop g s fs (nd_Labels n)" if "set fs \<subseteq> set (ps_Faults (pool_Spec pool))" for g s fs
    using that assms settled_labels_apart(2) [of _ Q pool model table n state]
    by (induction fs arbitrary: s) (auto simp: selectors_apart_def)
  ultimately show ?thesis by (simp add: StateFor_def BusyGPUs_def)
qed

lemma settled_node_idem:
  assumes "quantity_laws Q amt"
  shows "settled_node Q pool model table (settled_node Q pool model table n state) state = settled_node Q pool model table n state"
    (is "settled_node _ _ _ _ ?m _ = _")
proof -
  have s: "node_settled Q pool model table ?m state" by (rule settled_node_settled [OF assms])
  then have "\<not> (ExtendedResourceEnabled (ps_Advertise (pool_Spec pool)) \<and> (\<not> resourcesMatch Q (nd_Capacity ?m) (NodeResources Q pool table)
      \<or> \<not> resourcesMatch Q (nd_Allocatable ?m) (NodeAllocatable Q pool table state)))"
    "labels_patch.settle (nd_Labels ?m) (NodeLabels Q pool model) = nd_Labels ?m"
    by (auto simp: node_settled_def labels_patch.settle_def)
  then show ?thesis unfolding settled_node_def [of Q pool model table ?m] Let_def by (simp only: if_False) simp
qed

lemma stored_slice_idem:
  "fmlookup m' (rs_Name d) = Some (stored_slice pool m d) \<Longrightarrow> stored_slice pool m' d = stored_slice pool m d"
  by (simp add: stored_slice_def [of pool m'] stored_slice_fields) (simp add: stored_slice_def Let_def)

lemma with_status_idem:
  assumes "helpers_ok C"
  shows "with_status C (with_status C pool table t) table t = with_status C pool table t"
  using assms by (simp add: helpers_ok_def with_status_def setReady_def reported_status_def summarize_def)

lemma selected_after:
  assumes apart: "selectors_apart Q pool model" and nodes: "so_nodes st' = settled_nodes Q pool model table st"
  shows "selected pool st' m \<longleftrightarrow> (\<exists>n. selected pool st n \<and> m = settled_node Q pool model table n (StateFor pool n))"
proof
  assume m: "selected pool st' m"
  then obtain n where n: "fmlookup (so_nodes st) (nd_Name m) = Some n"
    "m = (if selected pool st n then settled_node Q pool model table n (StateFor pool n) else n)"
    by (auto simp: selected_def nodes settled_nodes_def)
  moreover have "selected pool st n"
  proof (rule ccontr)
    assume no: "\<not> selected pool st n"
    then have "m = n" using n(2) by simp
    then show False using no n(1) m by (simp add: selected_def)
  qed
  ultimately show "\<exists>n. selected pool st n \<and> m = settled_node Q pool model table n (StateFor pool n)" by auto
next
  assume "\<exists>n. selected pool st n \<and> m = settled_node Q pool model table n (StateFor pool n)"
  then obtain n where n: "selected pool st n" "m = settled_node Q pool model table n (StateFor pool n)" by blast
  have "fmdom (ps_NodeSelector (pool_Spec pool)) |\<inter>| fmdom (NodeLabels Q pool model) = {||}" using apart by (simp add: selectors_apart_def)
  from settled_labels_apart(1) [OF this] show "selected pool st' m" using n by (simp add: selected_def nodes settled_nodes_def)
qed

lemma desired_after:
  assumes "selectors_apart Q pool model"
  shows "desired_slices Q pool model table (settled_node Q pool model table n (StateFor pool n)) = desired_slices Q pool model table n"
  by (simp add: desired_slices_def settled_state [OF assms])

lemma wants_after:
  assumes "selectors_apart Q pool model" "so_nodes st' = settled_nodes Q pool model table st"
  shows "wants Q pool model table st' d \<longleftrightarrow> wants Q pool model table st d"
  unfolding wants_def selected_after [OF assms] using desired_after [OF assms(1)] by auto

lemma settled_inj: "inj_on (\<lambda>n. settled_node Q pool model table n (StateFor pool n)) {n. selected pool st n}"
proof (rule inj_onI)
  fix n m assume sel: "n \<in> {n. selected pool st n}" "m \<in> {n. selected pool st n}"
    and eq: "settled_node Q pool model table n (StateFor pool n) = settled_node Q pool model table m (StateFor pool m)"
  from arg_cong [OF eq, of nd_Name] have "nd_Name n = nd_Name m" by simp
  then show "n = m" using sel by (simp add: selected_def)
qed

lemma fleet_after:
  assumes a: "selectors_apart Q pool model" and n: "so_nodes st' = settled_nodes Q pool model table st"
  shows "fleet_tally Q pool model table st' = fleet_tally Q pool model table st"
proof -
  let ?S = "{n. selected pool st n}" and ?f = "\<lambda>n. settled_node Q pool model table n (StateFor pool n)"
  have img: "{n. selected pool st' n} = ?f ` ?S" using selected_after [OF a n] by auto
  have sum: "(\<Sum>n | selected pool st' n. g n) = (\<Sum>n | selected pool st n. g (?f n))" for g :: "'a Node \<Rightarrow> int"
    unfolding img by (simp add: sum.reindex [OF settled_inj] o_def)
  have card: "card {n. selected pool st' n} = card ?S" unfolding img by (rule card_image [OF settled_inj])
  show ?thesis unfolding fleet_tally_def sum card wants_after [OF a n] desired_after [OF a] settled_state [OF a] ..
qed

lemma settled_nodes_after:
  assumes laws: "quantity_laws Q amt" and a: "selectors_apart Q pool model" and n: "so_nodes st' = settled_nodes Q pool model table st"
  shows "settled_nodes Q pool model table st' = so_nodes st'"
proof (rule fmap_ext)
  fix k
  have "settled_node Q pool model table m (StateFor pool m) = m" if "selected pool st' m" for m
  proof -
    from that selected_after [OF a n] obtain v where v: "m = settled_node Q pool model table v (StateFor pool v)" by blast
    show ?thesis using settled_node_idem [OF laws, of pool model table v "StateFor pool v"] settled_state [OF a, of table v "StateFor pool v"] by (simp add: v)
  qed
  then show "fmlookup (settled_nodes Q pool model table st') k = fmlookup (so_nodes st') k"
    by (cases "fmlookup (so_nodes st') k") (simp_all add: settled_nodes_def)
qed

lemma reconciled_wanted:
  "reconciled_store C Q pool model table st st' \<Longrightarrow> wants Q pool model table st d \<Longrightarrow>
    fmlookup (so_slices st') (rs_Name d) = Some (stored_slice pool (so_slices st) d)"
  unfolding reconciled_store_def by blast

lemma reconciled_other:
  assumes "reconciled_store C Q pool model table st st'" "\<nexists>d. wants Q pool model table st d \<and> rs_Name d = k"
  shows "fmlookup (so_slices st') k = (case fmlookup (so_slices st) k of
      None \<Rightarrow> None | Some sl \<Rightarrow> if fmlookup (rs_Labels sl) PoolLabel = Some (pool_Name pool) then None else Some sl)"
  using assms unfolding reconciled_store_def by blast

text \<open>Reconciling a reconciled store changes nothing.\<close>

lemma reconciled_store_fixed:
  assumes laws: "quantity_laws Q amt" and helpers: "helpers_ok C" and a: "selectors_apart Q pool model"
    and one: "reconciled_store C Q pool model table st st'" and pool': "pool' = with_status C pool table (fleet_tally Q pool model table st)"
    and two: "reconciled_store C Q pool' model table st' st''"
  shows "st'' = st'"
proof -
  have n: "so_nodes st' = settled_nodes Q pool model table st" using one by (simp add: reconciled_store_def)
  obtain x where x: "pool' = pool\<lparr> pool_Status := x \<rparr>" unfolding pool' by (metis with_status_eq)
  have nm: "pool_Name pool' = pool_Name pool" by (simp add: x)
  have w: "wants Q pool' model table st' d \<longleftrightarrow> wants Q pool model table st d" for d
    unfolding x wants_status by (rule wants_after [OF a n])
  have pools: "so_pools st'' = so_pools st'"
  proof -
    have "so_pools st' = fmupd (pool_Name pool) pool' (so_pools st)" using one unfolding pool' by (simp add: reconciled_store_def)
    moreover have "with_status C pool' table (fleet_tally Q pool' model table st') = pool'"
      using with_status_idem [OF helpers, of pool table] unfolding x fleet_status fleet_after [OF a n] unfolding x [symmetric] pool' .
    ultimately show ?thesis using two by (simp add: reconciled_store_def nm)
  qed
  have slices: "fmlookup (so_slices st'') k = fmlookup (so_slices st') k" for k
  proof (cases "\<exists>d. wants Q pool model table st d \<and> rs_Name d = k")
    case True
    then obtain d where d: "wants Q pool model table st d" "rs_Name d = k" by blast
    have at: "fmlookup (so_slices st') (rs_Name d) = Some (stored_slice pool (so_slices st) d)"
      by (rule reconciled_wanted [OF one d(1)])
    have "fmlookup (so_slices st'') (rs_Name d) = Some (stored_slice pool (so_slices st') d)"
      using reconciled_wanted [OF two, of d] w d(1) by (simp add: x)
    then show ?thesis using at stored_slice_idem [OF at] d(2) by simp
  next
    case False
    let ?keep = "\<lambda>m. case fmlookup m k of None \<Rightarrow> None
      | Some sl \<Rightarrow> if fmlookup (rs_Labels sl) PoolLabel = Some (pool_Name pool) then None else Some sl"
    have "fmlookup (so_slices st') k = ?keep (so_slices st)" by (rule reconciled_other [OF one False])
    moreover have "fmlookup (so_slices st'') k = ?keep (so_slices st')" using reconciled_other [OF two, of k] False w unfolding nm by simp
    ultimately show ?thesis by (simp split: option.splits)
  qed
  have "so_models st'' = so_models st'" "so_nodes st'' = so_nodes st'"
    using two settled_nodes_after [OF laws a n] by (simp_all add: reconciled_store_def x)
  then show ?thesis using pools fmap_ext [OF slices] by (cases st''; cases st') simp
qed

text \<open>A store in which a pool is ready to be reconciled: the pool passes its checks and no other pool controls its slices.\<close>

definition ready :: "'q quantity_ops \<Rightarrow> 'q pool \<Rightarrow> 'q GPUModel \<Rightarrow> 'q Table \<Rightarrow> 'q store \<Rightarrow> bool" where
  "ready Q pool model table st \<longleftrightarrow>
     store_ok st \<and> fmlookup (so_pools st) (pool_Name pool) = Some pool
   \<and> fmlookup (so_models st) (ps_ModelRef (pool_Spec pool)) = Some model \<and> check_pool Q pool model = Inr table
   \<and> pool_schema pool \<and> model_schema model \<and> sane_sizes pool model
   \<and> (\<forall>d. wants Q pool model table st d \<longrightarrow> may_own pool (so_slices st) (rs_Name d))"

lemma Reconcile_achieves:
  assumes laws: "quantity_laws Q amt" and C: "serves C view" and r: "ready Q pool model table (view w)"
  shows "\<exists>w' l'. Reconcile C Q (pool_Name pool) (w, l) = (Ok (), (w', l')) \<and> reconciled_store C Q pool model table (view w) (view w')"
proof -
  have get: "c_GetPool C (pool_Name pool) (fst (w, l)) = (Inr pool, w)" "c_GetModel C (ps_ModelRef (pool_Spec pool)) w = (Inr model, w)"
    using C r by (simp_all add: serves_def reads_ok_def ready_def)
  have chk: "check_pool Q pool model = Inr table" "pool_schema pool" "model_schema model" "sane_sizes pool model"
    using r by (simp_all add: ready_def)
  have gpus: "int32_range (ps_GPUsPerNode (pool_Spec pool))" using chk(2) by (simp add: pool_schema_def int32_range_def)
  have "achieves view (view w) (publish C Q pool model table) (\<lambda>_. reconciled_store C Q pool model table (view w))"
    by (rule publish_achieves [OF C _ _ gpus check_pool_buildable [OF laws chk(2-4,1)]]) (use r in \<open>simp_all add: ready_def\<close>)
  then show ?thesis unfolding Reconcile_accepted [OF get chk(1)] achieves_def by simp
qed

text \<open>Objects stay stored under their names.\<close>

lemma reconciled_store_ok:
  assumes ok: "store_ok st" and one: "reconciled_store C Q pool model table st st'"
  shows "store_ok st'"
proof -
  let ?p = "with_status C pool table (fleet_tally Q pool model table st)"
  have n: "so_nodes st' = settled_nodes Q pool model table st" and p: "so_pools st' = fmupd (pool_Name pool) ?p (so_pools st)"
    using one by (simp_all add: reconciled_store_def)
  have sn: "slices_named (so_slices st)" using ok by (simp add: store_ok_def slices_named_def)
  have "rs_Name sl = k" if sl: "fmlookup (so_slices st') k = Some sl" for k sl
  proof (cases "\<exists>d. wants Q pool model table st d \<and> rs_Name d = k")
    case True
    then obtain d where d: "wants Q pool model table st d" "rs_Name d = k" by blast
    then show ?thesis using reconciled_wanted [OF one d(1)] sl stored_slice_name [OF sn, of pool d] by simp
  next
    case False
    have "fmlookup (so_slices st) k = Some sl" using reconciled_other [OF one False] sl by (auto split: option.splits if_splits)
    then show ?thesis using sn unfolding slices_named_def by (rule fmpredD [rotated])
  qed
  moreover have "nd_Name v = k" if "fmlookup (so_nodes st') k = Some v" for k v
    using that ok by (auto simp: n settled_nodes_def store_ok_def fmpred_iff)
  moreover have "pool_Name v = k" if "fmlookup (so_pools st') k = Some v" for k v
    using that ok by (auto simp: p store_ok_def fmpred_iff with_status_name split: if_splits)
  ultimately show ?thesis by (simp add: store_ok_def fmpred_iff)
qed

text \<open>A reconciled pool is ready to be reconciled again.\<close>

lemma ready_again:
  assumes r: "ready Q pool model table st" and a: "selectors_apart Q pool model" and one: "reconciled_store C Q pool model table st st'"
  shows "ready Q (with_status C pool table (fleet_tally Q pool model table st)) model table st'"
proof -
  let ?p = "with_status C pool table (fleet_tally Q pool model table st)"
  obtain x where x: "?p = pool\<lparr> pool_Status := x \<rparr>" by (metis with_status_eq)
  have n: "so_nodes st' = settled_nodes Q pool model table st" and p: "so_pools st' = fmupd (pool_Name pool) ?p (so_pools st)"
    and m: "so_models st' = so_models st" using one by (simp_all add: reconciled_store_def)
  have "store_ok st" using r by (simp add: ready_def)
  from reconciled_store_ok [OF this one] have ok': "store_ok st'" .
  have own: "may_own ?p (so_slices st') (rs_Name d)" if "wants Q ?p model table st' d" for d
  proof -
    have "wants Q pool model table st d" using that unfolding x wants_status wants_after [OF a n] .
    from reconciled_wanted [OF one this] show ?thesis by (simp add: may_own_def stored_slice_fields with_status_name)
  qed
  have "fmlookup (so_pools st') (pool_Name ?p) = Some ?p" by (simp add: p with_status_name)
  moreover have "check_pool Q ?p model = check_pool Q pool model" "pool_schema ?p = pool_schema pool" "sane_sizes ?p model = sane_sizes pool model"
    "ps_ModelRef (pool_Spec ?p) = ps_ModelRef (pool_Spec pool)" unfolding x by (simp_all add: pool_schema_def sane_sizes_def)
  ultimately show ?thesis using r own ok' m by (simp add: ready_def)
qed

section \<open>Properties\<close>


text \<open>A store with one pool, its model, a kwok node and a real node.\<close>

definition example_store :: "int store" where
  "example_store = \<lparr> so_pools = fmupd ''pool'' (witness_pool []) fmempty, so_models = fmupd ''h100'' example_model fmempty,
     so_nodes = fmupd ''node-0'' kwok_node (fmupd ''real'' (example_node\<lparr> nd_Name := ''real'' \<rparr>) fmempty), so_slices = fmempty \<rparr>"

lemma example_store_ready: "ready int_quantity (witness_pool []) example_model (emptyTable int_quantity) example_store"
proof -
  have "nd_Name kwok_node = ''node-0''" by (simp add: kwok_node_def example_node_def)
  then have "store_ok example_store" by (auto simp: store_ok_def example_store_def witness_pool_def intro!: fmpred_upd)
  moreover have "pool_Name (witness_pool []) = ''pool''" "ps_ModelRef (pool_Spec (witness_pool [])) = ''h100''" by (simp_all add: witness_pool_def)
  ultimately show ?thesis using witness_pool_ok(1,3-5) by (simp add: ready_def) (simp add: example_store_def may_own_def)
qed




end
