(* ===== verification/Operator.thy ===== *)
theory Operator
  imports Convergence
begin

text \<open>
  The operator as a whole: the controller of \<open>gpupool_controller.go\<close> behind the watches that \<open>SetupWithManager\<close> registers and
  the work queue of controller-runtime. A state is a world, whose stored objects \<open>view\<close> shows, and the set of pools
  that wait to be reconciled. A change of the store puts pools into the queue (\<open>requests\<close>); a reconciliation takes one out, and its
  own writes are changes like any other. Other writers may change pools, nodes and slices at any time between two runs.

  \<open>settled\<close> says that a pool has nothing left to do. The operator keeps: a pool that does not wait is settled. It does not
  watch models, so this needs that models do not change.
\<close>

section \<open>SetupWithManager\<close>

definition owner_at :: "'q store \<Rightarrow> string \<Rightarrow> string option" where
  "owner_at st k = (case fmlookup (so_slices st) k of None \<Rightarrow> None | Some sl \<Rightarrow> rs_Owner sl)"

text \<open>The three watches: \<open>For\<close> enqueues a pool that changed, \<open>Owns\<close> the pools that control, or controlled, a slice that
  changed, \<open>Watches\<close> what \<open>poolsForNode\<close> answers when a node changed. The queue is a set: it holds a pool once.\<close>

definition requests :: "('w, 'q) client \<Rightarrow> ('w \<Rightarrow> 'q store) \<Rightarrow> 'q store \<Rightarrow> 'w \<Rightarrow> string set" where
  "requests C view st w =
     {k. fmlookup (so_pools st) k \<noteq> fmlookup (so_pools (view w)) k}
   \<union> {p. \<exists>k. fmlookup (so_slices st) k \<noteq> fmlookup (so_slices (view w)) k \<and> (owner_at st k = Some p \<or> owner_at (view w) k = Some p)}
   \<union> (if so_nodes st = so_nodes (view w) then {} else set (fst (poolsForNode C w)))"

section \<open>The operator\<close>

text \<open>What the API server admits: objects under their names, valid against their schemas, and no slice with the label of a pool
  that does not control it.\<close>

definition labels_owned :: "'q store \<Rightarrow> bool" where
  "labels_owned st \<longleftrightarrow> (\<forall>k sl p. fmlookup (so_slices st) k = Some sl \<and> fmlookup (rs_Labels sl) PoolLabel = Some p \<longrightarrow> rs_Owner sl = Some p)"

definition admitted :: "'q store \<Rightarrow> bool" where
  "admitted st \<longleftrightarrow> store_ok st \<and> labels_owned st
   \<and> (\<forall>k p. fmlookup (so_pools st) k = Some p \<longrightarrow> pool_schema p)
   \<and> (\<forall>k m. fmlookup (so_models st) k = Some m \<longrightarrow> model_schema m)
   \<and> (\<forall>k p k' m. fmlookup (so_pools st) k = Some p \<and> fmlookup (so_models st) k' = Some m \<longrightarrow> sane_sizes p m)"

text \<open>A store that others may leave: admitted, and with the same models.\<close>

definition may_become :: "'q store \<Rightarrow> 'q store \<Rightarrow> bool" where
  "may_become st st' \<longleftrightarrow> admitted st' \<and> so_models st' = so_models st"

type_synonym 'w operator = "'w \<times> string set"

text \<open>The steps. A run that fails may have written something, and its pool is retried; \<open>enqueued\<close> is a resync.\<close>

inductive op_step :: "('w, 'q) client \<Rightarrow> 'q quantity_ops \<Rightarrow> ('w \<Rightarrow> 'q store) \<Rightarrow> 'w operator \<Rightarrow> 'w operator \<Rightarrow> bool" for C Q view where
  written: "may_become (view w) (view w') \<Longrightarrow> op_step C Q view (w, q) (w', q \<union> requests C view (view w) w')"
| enqueued: "op_step C Q view (w, q) (w, insert name q)"
| reconciled: "name \<in> q \<Longrightarrow> Reconcile C Q name (w, []) = (Ok (), (w', l)) \<Longrightarrow>
    op_step C Q view (w, q) (w', (q - {name}) \<union> requests C view (view w) w')"
| failed: "name \<in> q \<Longrightarrow> Reconcile C Q name (w, []) = (r, (w', l)) \<Longrightarrow> r \<noteq> Ok () \<Longrightarrow> may_become (view w) (view w') \<Longrightarrow>
    op_step C Q view (w, q) (w', insert name (q \<union> requests C view (view w) w'))"

text \<open>A pool with nothing left to do: refused with the reason in its status, or published as its specification says.\<close>

definition settled :: "('w, 'q) client \<Rightarrow> 'q quantity_ops \<Rightarrow> 'q store \<Rightarrow> string \<Rightarrow> bool" where
  "settled C Q st name \<longleftrightarrow>
     (case fmlookup (so_pools st) name of None \<Rightarrow> True | Some pool \<Rightarrow>
       (case fmlookup (so_models st) (ps_ModelRef (pool_Spec pool)) of
          None \<Rightarrow> setReady C pool ConditionFalse ''ModelNotFound'' (MsgModelNotFound (ps_ModelRef (pool_Spec pool))) = pool
        | Some model \<Rightarrow>
           (case check_pool Q pool model of
              Inl (reason, msg) \<Rightarrow> setReady C pool ConditionFalse reason msg = pool
            | Inr table \<Rightarrow> reconciled_store C Q pool model table st st)))"

section \<open>The laws\<close>

text \<open>Documented of the client, beyond \<open>serves\<close>: all pools can be listed, an object that another controls is not
  taken over, and a mutation that fails writes nothing.\<close>

definition lists_pools :: "('w, 'q) client \<Rightarrow> ('w \<Rightarrow> 'q store) \<Rightarrow> bool" where
  "lists_pools C view \<longleftrightarrow> (\<forall>w. \<exists>ps. c_ListPools C w = (Inr ps, w) \<and> listing (so_pools (view w)) (\<lambda>_. True) ps)"

definition guards_owner :: "('w, 'q) client \<Rightarrow> bool" where
  "guards_owner C \<longleftrightarrow>
     (\<forall>pool sl. rs_Owner sl \<notin> {None, Some (pool_Name pool)} \<longrightarrow> (\<exists>e. c_SetControllerReference C pool sl = Inl e))"

definition guards_update :: "('w, 'q) client \<Rightarrow> ('w \<Rightarrow> 'q store) \<Rightarrow> bool" where
  "guards_update C view \<longleftrightarrow>
     (\<forall>name mutate w e. mutate (case fmlookup (so_slices (view w)) name of None \<Rightarrow> new_slice name | Some sl \<Rightarrow> sl) = Inl e
        \<longrightarrow> (\<exists>e' w'. c_CreateOrUpdateSlice C name mutate w = (Inl e', w')))"

section \<open>A name that is taken\<close>

text \<open>\<open>rejects view st f\<close>: on a server whose store is \<open>st\<close>, \<open>f\<close> does not succeed.\<close>

definition rejects :: "('w \<Rightarrow> 's) \<Rightarrow> 's \<Rightarrow> (('w, 'q) cstate \<Rightarrow> 'a outcome \<times> ('w, 'q) cstate) \<Rightarrow> bool" where
  "rejects view st f \<longleftrightarrow> (\<forall>w l a s. view w = st \<longrightarrow> f (w, l) \<noteq> (Ok a, s))"

lemma rejects_first: "rejects view st f \<Longrightarrow> rejects view st (andThen f g)"
  by (auto simp: rejects_def andThen_def split: prod.splits outcome.splits)

lemma rejects_later:
  assumes "achieves view st f P" "\<And>a st'. P a st' \<Longrightarrow> rejects view st' (g a)"
  shows "rejects view st (andThen f g)"
  unfolding rejects_def
proof (intro allI impI)
  fix w l a s assume "view w = st"
  with assms(1) obtain b w' l' where "f (w, l) = (Ok b, (w', l'))" "P b (view w')" unfolding achieves_def by blast
  moreover from this(2) have "g b (w', l') \<noteq> (Ok a, s)" using assms(2) unfolding rejects_def by blast
  ultimately show "andThen f g (w, l) \<noteq> (Ok a, s)" by (simp add: andThen_def)
qed

lemma applySlice_rejects:
  assumes guards: "guards_owner C" "guards_update C view" and taken: "\<not> may_own pool (so_slices st) (rs_Name d)"
  shows "rejects view st (applySlice C pool d)"
  unfolding rejects_def
proof (intro allI impI)
  fix w l a s assume w: "view w = st"
  let ?old = "case fmlookup (so_slices st) (rs_Name d) of None \<Rightarrow> new_slice (rs_Name d) | Some sl \<Rightarrow> sl"
  have "rs_Owner ?old \<notin> {None, Some (pool_Name pool)}" using taken by (auto simp: may_own_def split: option.splits)
  then obtain e where "apply_mutation C pool d ?old = Inl e"
    using guards(1) unfolding guards_owner_def apply_mutation_def Let_def by (metis ResourceSlice.select_convs(3) ResourceSlice.surjective ResourceSlice.update_convs(2,4))
  then obtain e' w' where "c_CreateOrUpdateSlice C (rs_Name d) (apply_mutation C pool d) w = (Inl e', w')"
    using guards(2) w unfolding guards_update_def by blast
  then show "applySlice C pool d (w, l) \<noteq> (Ok a, s)" by (simp add: applySlice_def call_def)
qed

lemma put_other: "k \<notin> rs_Name ` set ds \<Longrightarrow> fmlookup (foldl (put_desired p) m ds) k = fmlookup m k"
  by (induction ds arbitrary: m) (auto simp: put_desired_def)

lemma own_other: "k \<notin> rs_Name ` set ds \<Longrightarrow> may_own pool (foldl (put_desired p) m ds) k = may_own pool m k"
  by (simp add: may_own_def put_other)

lemma apply_loop_rejects:
  assumes C: "serves C view" and guards: "guards_owner C" "guards_update C view"
    and "\<exists>d \<in> set ds. \<not> may_own pool (so_slices st) (rs_Name d)" "slices_named (so_slices st)"
  shows "rejects view st (apply_loop C pool n live ds)"
  using assms(4,5)
proof (induction ds arbitrary: n live st)
  case (Cons d ds)
  have eq: "apply_loop C pool n live (d # ds) = andThen (applySlice C pool d)
       (\<lambda>_. apply_loop C pool (wrap32 (n + wrap32 (int (length (rss_Devices (rs_Spec d)))))) (insert (rs_Name d) live) ds)"
    by (simp add: fun_eq_iff)
  show ?case
  proof (cases "may_own pool (so_slices st) (rs_Name d)")
    case False
    then show ?thesis unfolding eq by (intro rejects_first applySlice_rejects [OF guards])
  next
    case True
    then obtain e where e: "e \<in> set ds" "\<not> may_own pool (so_slices st) (rs_Name e)" using Cons.prems(1) by auto
    then have "rs_Name e \<noteq> rs_Name d" using True by auto
    then have "\<not> may_own pool (put_desired pool (so_slices st) d) (rs_Name e)" using e(2) by (simp add: put_desired_def may_own_def)
    then have "rejects view (st\<lparr> so_slices := put_desired pool (so_slices st) d \<rparr>) (apply_loop C pool n' live' ds)" for n' live'
      by (intro Cons.IH bexI [OF _ e(1)]) (simp_all add: slices_named_put Cons.prems(2))
    then show ?thesis unfolding eq by (intro rejects_later [OF applySlice_achieves [OF C True Cons.prems(2)]]) simp
  qed
qed simp

lemma publish_node_rejects:
  assumes C: "serves C view" and guards: "guards_owner C" "guards_update C view"
    and ds: "desired_slices Q pool model table node = Some ds"
    and taken: "\<exists>d \<in> set ds. \<not> may_own pool (so_slices st) (rs_Name d)" and named: "slices_named (so_slices st)"
  shows "rejects view st (publish_node C Q pool model table t node)"
proof -
  have dra: "DRAEnabled (ps_Advertise (pool_Spec pool))" using ds taken by (auto simp: desired_slices_def split: if_splits)
  have "rejects view st (reconcileSlices C Q pool model table (nd_Name node) (StateFor pool node) (ta_live t))"
  proof (cases "MIGEnabled (pool_Spec pool)")
    case True
    then have "reconcileSlices C Q pool model table (nd_Name node) (StateFor pool node) (ta_live t) = apply_loop C pool 0 (ta_live t) ds"
      using ds dra by (simp add: fun_eq_iff desired_slices_def reconcileSlices_def)
    then show ?thesis using apply_loop_rejects [OF C guards taken named] by simp
  next
    case False
    then obtain sl where sl: "BuildResourceSlice pool model (nd_Name node) (StateFor pool node) = Some sl" "ds = [sl]"
      using ds dra by (auto simp: desired_slices_def)
    have "reconcileSlices C Q pool model table (nd_Name node) (StateFor pool node) (ta_live t) = andThen (applySlice C pool sl)
        (\<lambda>_ s'. (Ok (ps_GPUsPerNode (pool_Spec pool), insert (SliceName (pool_Name pool) (nd_Name node)) (ta_live t)), s'))"
      using False sl by (simp add: fun_eq_iff reconcileSlices_def)
    then show ?thesis using taken sl(2) by (simp add: rejects_first applySlice_rejects [OF guards])
  qed
  then show ?thesis unfolding publish_node_def if_P [OF dra] by (rule rejects_first)
qed

lemma node_loop_rejects:
  assumes C: "serves C view" and guards: "guards_owner C" "guards_update C view"
    and "distinct (map nd_Name ns)" "\<forall>n \<in> set ns. fmlookup (so_nodes st) (nd_Name n) = Some n"
    and "map (desired_slices Q pool model table) (filter simulated ns) = map Some dss"
    and "\<exists>d \<in> set (concat dss). \<not> may_own pool (so_slices st) (rs_Name d)" "slices_named (so_slices st)"
  shows "rejects view st (node_loop C Q pool model table t ns)"
  using assms(4-8)
proof (induction ns arbitrary: dss st t)
  case (Cons n ns)
  show ?case
  proof (cases "simulated n")
    case False
    then show ?thesis using Cons by (simp add: node_loop_skip)
  next
    case True
    then obtain ds dss' where dss: "dss = ds # dss'" "desired_slices Q pool model table n = Some ds"
      "map (desired_slices Q pool model table) (filter simulated ns) = map Some dss'"
      using Cons.prems(3) by (auto simp: Cons_eq_map_conv)
    show ?thesis
    proof (cases "\<exists>d \<in> set ds. \<not> may_own pool (so_slices st) (rs_Name d)")
      case bad: True
      then show ?thesis unfolding node_loop_step [OF True]
        by (intro rejects_first publish_node_rejects [OF C guards dss(2) _ Cons.prems(5)])
    next
      case False
      then have own: "\<forall>d \<in> set ds. may_own pool (so_slices st) (rs_Name d)" by blast
      let ?st1 = "st\<lparr> so_slices := foldl (put_desired pool) (so_slices st) ds \<rparr>"
      let ?st2 = "put_node (settled_node Q pool model table n (StateFor pool n)) ?st1"
      obtain d where d: "d \<in> set (concat dss')" "\<not> may_own pool (so_slices st) (rs_Name d)" using Cons.prems(4) dss(1) own by auto
      then have "rs_Name d \<notin> rs_Name ` set ds" using own by auto
      with d(2) have "\<not> may_own pool (so_slices ?st2) (rs_Name d)" using own_other [of "rs_Name d" ds pool pool "so_slices st"] by (simp add: put_node_def)
      with d(1) have bad: "\<exists>d \<in> set (concat dss'). \<not> may_own pool (so_slices ?st2) (rs_Name d)" by blast
      have loop: "rejects view ?st2 (node_loop C Q pool model table t2 ns)" for t2
        by (rule Cons.IH [OF _ _ dss(3) bad]) (use Cons.prems in \<open>auto simp: put_node_def named_fold\<close>)
      have at: "fmlookup (so_nodes ?st1) (nd_Name n) = Some n" using Cons.prems(2) by simp
      have "rejects view ?st1 (andThen (reconcileNode C Q pool model table n (StateFor pool n)) (\<lambda>_. node_loop C Q pool model table t2 ns))" for t2
        by (rule rejects_later [OF reconcileNode_achieves [OF C at]]) (simp only: loop)
      then show ?thesis unfolding node_loop_step [OF True]
        by (intro rejects_later [OF publish_node_achieves [OF C dss(2) own Cons.prems(5)]]) simp
    qed
  qed
qed simp

text \<open>A pool that wants the name of a slice that another pool controls is not reconciled.\<close>

lemma publish_rejects:
  assumes C: "serves C view" and guards: "guards_owner C" "guards_update C view" and ok: "store_ok st"
    and built: "\<And>n. selected pool st n \<Longrightarrow> desired_slices Q pool model table n \<noteq> None"
    and taken: "wants Q pool model table st d" "\<not> may_own pool (so_slices st) (rs_Name d)"
  shows "rejects view st (publish C Q pool model table)"
  unfolding publish_def Let_def
proof (rule rejects_later [OF list_nodes_achieves [OF C ok]], elim conjE)
  let ?sel = "ps_NodeSelector (pool_Spec pool)"
  fix ns st0 assume st0: "st0 = st" and ns: "distinct (map nd_Name ns)"
    "set ns = {n. fmlookup (so_nodes st) (nd_Name n) = Some n \<and> label_selects ?sel (nd_Labels n)}"
  let ?ns = "filter simulated ns"
  have sel: "set ?ns = {n. selected pool st n}" using ns by (auto simp: selected_def)
  have "\<exists>dss. map (desired_slices Q pool model table) ?ns = map Some dss"
    using built sel by (intro exI [of _ "map (\<lambda>n. the (desired_slices Q pool model table n)) ?ns"]) (auto simp: o_def)
  then obtain dss where dss: "map (desired_slices Q pool model table) ?ns = map Some dss" by blast
  have "\<exists>d \<in> set (concat dss). \<not> may_own pool (so_slices st) (rs_Name d)" using taken wants_listed [OF sel dss] by blast
  moreover have "slices_named (so_slices st)" using ok by (simp add: store_ok_def slices_named_def)
  moreover have "\<forall>n \<in> set ns. fmlookup (so_nodes st) (nd_Name n) = Some n" using ns(2) by simp
  ultimately show "rejects view st0 (andThen (node_loop C Q pool model table t ns) g)" for t g
    unfolding st0 by (intro rejects_first node_loop_rejects [OF C guards ns(1) _ dss])
qed

lemma Reconcile_clash:
  assumes laws: "quantity_laws Q amt" and C: "serves C view" and guards: "guards_owner C" "guards_update C view"
    and st: "store_ok (view w)" "fmlookup (so_pools (view w)) name = Some pool" "fmlookup (so_models (view w)) (ps_ModelRef (pool_Spec pool)) = Some model"
    and pool: "check_pool Q pool model = Inr table" "pool_schema pool" "model_schema model" "sane_sizes pool model"
    and taken: "wants Q pool model table (view w) d" "\<not> may_own pool (so_slices (view w)) (rs_Name d)"
  shows "Reconcile C Q name (w, l) \<noteq> (Ok (), s)"
proof -
  have get: "c_GetPool C name (fst (w, l)) = (Inr pool, w)" "c_GetModel C (ps_ModelRef (pool_Spec pool)) w = (Inr model, w)"
    using C st by (simp_all add: serves_def reads_ok_def)
  have "rejects view (view w) (publish C Q pool model table)"
    by (rule publish_rejects [OF C guards st(1) check_pool_buildable [OF laws pool(2-4,1)] taken])
  then show ?thesis unfolding Reconcile_accepted [OF get pool(1)] rejects_def by (cases s) simp
qed

section \<open>What settled depends on\<close>

lemma nodes_decide:
  assumes "so_nodes st = so_nodes st'"
  shows "selected pool st = selected pool st'" "wants Q pool model table st = wants Q pool model table st'"
    "fleet_tally Q pool model table st = fleet_tally Q pool model table st'" "settled_nodes Q pool model table st = settled_nodes Q pool model table st'"
proof -
  show sel: "selected pool st = selected pool st'" using assms by (simp add: selected_def fun_eq_iff)
  show w: "wants Q pool model table st = wants Q pool model table st'" unfolding wants_def sel by simp
  show "fleet_tally Q pool model table st = fleet_tally Q pool model table st'" unfolding fleet_tally_def sel w ..
  show "settled_nodes Q pool model table st = settled_nodes Q pool model table st'" unfolding settled_nodes_def sel assms ..
qed

text \<open>The slices that a pool controls, or controlled, are as they were.\<close>

definition slices_kept :: "string \<Rightarrow> 'q store \<Rightarrow> 'q store \<Rightarrow> bool" where
  "slices_kept name st st' \<longleftrightarrow> (\<forall>k. owner_at st k = Some name \<or> owner_at st' k = Some name \<longrightarrow> fmlookup (so_slices st) k = fmlookup (so_slices st') k)"

text \<open>A store that a reconciliation left as it was, as far as the pool can see, is one that it would leave as it is.\<close>

lemma reconciled_again:
  assumes r: "reconciled_store C Q pool model table st st'" and nodes: "so_nodes st' = so_nodes st"
    and kept: "slices_kept (pool_Name pool) st st'"
  shows "reconciled_store C Q pool model table st' st'"
proof -
  note same = nodes_decide [OF nodes]
  have pools: "fmupd (pool_Name pool) (with_status C pool table (fleet_tally Q pool model table st')) (so_pools st') = so_pools st'"
    using r by (simp add: reconciled_store_def same)
  have "fmlookup (so_slices st') (rs_Name d) = Some (stored_slice pool (so_slices st') d)" if "wants Q pool model table st' d" for d
  proof -
    have at: "fmlookup (so_slices st') (rs_Name d) = Some (stored_slice pool (so_slices st) d)"
      using reconciled_wanted [OF r] that by (simp add: same)
    then have "owner_at st' (rs_Name d) = Some (pool_Name pool)" by (simp add: owner_at_def stored_slice_fields)
    then have "stored_slice pool (so_slices st) d = stored_slice pool (so_slices st') d"
      using kept unfolding slices_kept_def by (intro stored_slice_local) blast
    then show ?thesis using at by simp
  qed
  moreover have "fmlookup (so_slices st') k = (case fmlookup (so_slices st') k of
      None \<Rightarrow> None | Some sl \<Rightarrow> if fmlookup (rs_Labels sl) PoolLabel = Some (pool_Name pool) then None else Some sl)"
    if "\<nexists>d. wants Q pool model table st' d \<and> rs_Name d = k" for k
    using reconciled_other [OF r, of k] that by (auto simp: same split: option.splits if_splits)
  moreover have "so_nodes st' = settled_nodes Q pool model table st'" using r by (simp add: reconciled_store_def same)
  ultimately show ?thesis using pools unfolding reconciled_store_def by simp
qed

lemma reconciled_elsewhere:
  assumes r: "reconciled_store C Q pool model table st st" and nodes: "so_nodes st' = so_nodes st"
    and kept: "slices_kept (pool_Name pool) st st'" and owned: "labels_owned st'"
    and at: "fmlookup (so_pools st') (pool_Name pool) = fmlookup (so_pools st) (pool_Name pool)"
  shows "reconciled_store C Q pool model table st' st'"
proof -
  note same = nodes_decide [OF nodes]
  let ?p = "with_status C pool table (fleet_tally Q pool model table st)"
  have "so_pools st = fmupd (pool_Name pool) ?p (so_pools st)" using r by (simp add: reconciled_store_def)
  then have "fmlookup (so_pools st) (pool_Name pool) = Some ?p" by (metis fmupd_lookup)
  then have pools: "fmupd (pool_Name pool) ?p (so_pools st') = so_pools st'" using at by (intro fmap_ext) auto
  have "fmlookup (so_slices st') (rs_Name d) = Some (stored_slice pool (so_slices st') d)" if "wants Q pool model table st' d" for d
  proof -
    have here: "fmlookup (so_slices st) (rs_Name d) = Some (stored_slice pool (so_slices st) d)"
      using reconciled_wanted [OF r] that by (simp add: same)
    then have "owner_at st (rs_Name d) = Some (pool_Name pool)" by (simp add: owner_at_def stored_slice_fields)
    then have eq: "fmlookup (so_slices st) (rs_Name d) = fmlookup (so_slices st') (rs_Name d)" using kept unfolding slices_kept_def by blast
    then show ?thesis using here stored_slice_local [OF eq, of pool] by simp
  qed
  moreover have "fmlookup (so_slices st') k = (case fmlookup (so_slices st') k of
      None \<Rightarrow> None | Some sl \<Rightarrow> if fmlookup (rs_Labels sl) PoolLabel = Some (pool_Name pool) then None else Some sl)"
    if k: "\<nexists>d. wants Q pool model table st' d \<and> rs_Name d = k" for k
  proof (cases "fmlookup (so_slices st') k")
    case (Some sl)
    have "fmlookup (rs_Labels sl) PoolLabel \<noteq> Some (pool_Name pool)"
    proof
      assume l: "fmlookup (rs_Labels sl) PoolLabel = Some (pool_Name pool)"
      then have "rs_Owner sl = Some (pool_Name pool)" using owned Some unfolding labels_owned_def by blast
      then have "owner_at st' k = Some (pool_Name pool)" using Some by (simp add: owner_at_def)
      then have "fmlookup (so_slices st) k = Some sl" using kept Some unfolding slices_kept_def by metis
      then show False using reconciled_other [OF r, of k] k l by (simp add: same)
    qed
    then show ?thesis using Some by simp
  qed simp
  moreover have "so_nodes st' = settled_nodes Q pool model table st'" using r nodes by (simp add: reconciled_store_def same)
  ultimately show ?thesis using pools unfolding reconciled_store_def by (simp add: same)
qed

lemma settled_elsewhere:
  assumes s: "settled C Q st name" and ok: "store_ok st" and nodes: "so_nodes st' = so_nodes st" and models: "so_models st' = so_models st"
    and kept: "slices_kept name st st'" and owned: "labels_owned st'"
    and at: "fmlookup (so_pools st') name = fmlookup (so_pools st) name"
  shows "settled C Q st' name"
proof (cases "fmlookup (so_pools st) name")
  case None
  then show ?thesis using at by (simp add: settled_def)
next
  case (Some pool)
  have nm: "pool_Name pool = name" using ok Some by (auto simp: store_ok_def fmpred_iff)
  show ?thesis
  proof (cases "\<exists>model table. fmlookup (so_models st) (ps_ModelRef (pool_Spec pool)) = Some model \<and> check_pool Q pool model = Inr table")
    case True
    then obtain model table where m: "fmlookup (so_models st) (ps_ModelRef (pool_Spec pool)) = Some model" "check_pool Q pool model = Inr table"
      by blast
    then have "reconciled_store C Q pool model table st st" using s Some by (simp add: settled_def)
    from reconciled_elsewhere [OF this nodes _ owned] show ?thesis using kept at Some m models nm by (simp add: settled_def)
  next
    case False
    then show ?thesis using s Some at models by (auto simp: settled_def split: option.splits sum.splits)
  qed
qed

lemma not_requested:
  assumes "name \<notin> requests C view st w"
  shows "fmlookup (so_pools (view w)) name = fmlookup (so_pools st) name" "slices_kept name st (view w)"
    and "lists_pools C view \<Longrightarrow> store_ok (view w) \<Longrightarrow> fmlookup (so_pools (view w)) name = Some pool \<Longrightarrow> so_nodes (view w) = so_nodes st"
proof -
  show "fmlookup (so_pools (view w)) name = fmlookup (so_pools st) name" "slices_kept name st (view w)"
    using assms by (auto simp: requests_def slices_kept_def)
  assume lists: "lists_pools C view" and ok: "store_ok (view w)" and pool: "fmlookup (so_pools (view w)) name = Some pool"
  obtain ps where ps: "c_ListPools C w = (Inr ps, w)" "listing (so_pools (view w)) (\<lambda>_. True) ps" using lists unfolding lists_pools_def by blast
  obtain ks where ks: "name \<in> set ks" "map (fmlookup (so_pools (view w))) ks = map Some ps" using ps(2) pool by (auto simp: listing_def)
  then have "Some pool \<in> set (map Some ps)" using pool by (metis image_eqI list.set_map)
  then have "pool \<in> set ps" by auto
  moreover have "pool_Name pool = name" using ok pool by (auto simp: store_ok_def fmpred_iff)
  ultimately have "name \<in> set (fst (poolsForNode C w))" using ps(1) by (auto simp: poolsForNode_def)
  then show "so_nodes (view w) = so_nodes st" using assms by (auto simp: requests_def split: if_splits)
qed

lemma settled_quiet:
  assumes lists: "lists_pools C view" and s: "settled C Q st name" and st: "admitted st" "may_become st (view w)"
    and quiet: "name \<notin> requests C view st w"
  shows "settled C Q (view w) name"
proof (cases "fmlookup (so_pools (view w)) name")
  case None
  then show ?thesis by (simp add: settled_def)
next
  case (Some pool)
  note q = not_requested [OF quiet]
  have "so_nodes (view w) = so_nodes st" by (rule q(3) [OF lists _ Some]) (use st in \<open>simp add: may_become_def admitted_def\<close>)
  then show ?thesis using st by (intro settled_elsewhere [OF s _ _ _ q(2) _ q(1)]) (simp_all add: admitted_def may_become_def)
qed

section \<open>What a reconciliation does\<close>

text \<open>Why a pool is refused, if it is.\<close>

definition refusal :: "'q quantity_ops \<Rightarrow> 'q store \<Rightarrow> 'q pool \<Rightarrow> (string \<times> 'q ReadyMessage) option" where
  "refusal Q st pool =
     (case fmlookup (so_models st) (ps_ModelRef (pool_Spec pool)) of
        None \<Rightarrow> Some (''ModelNotFound'', MsgModelNotFound (ps_ModelRef (pool_Spec pool)))
      | Some model \<Rightarrow> (case check_pool Q pool model of Inl r \<Rightarrow> Some r | Inr _ \<Rightarrow> None))"

lemma Reconcile_missing:
  assumes "serves C view" "fmlookup (so_pools (view w)) name = None"
  shows "Reconcile C Q name (w, l) = (Ok (), (w, l))"
proof -
  have "c_GetPool C name w = (Inl NotFound, w)" using assms by (simp add: serves_def reads_ok_def)
  then show ?thesis by (simp add: Reconcile_def call_def)
qed

lemma Reconcile_refused:
  assumes C: "serves C view" and pool: "fmlookup (so_pools (view w)) (pool_Name pool) = Some pool" and r: "refusal Q (view w) pool = Some (reason, msg)"
  shows "\<exists>w' l'. Reconcile C Q (pool_Name pool) (w, l) = (Ok (), (w', l'))
    \<and> view w' = put_status (setReady C pool ConditionFalse reason msg) (view w)"
proof -
  let ?p = "setReady C pool ConditionFalse reason msg"
  have get: "c_GetPool C (pool_Name pool) w = (Inr pool, w)"
    "c_GetModel C (ps_ModelRef (pool_Spec pool)) w = ((case fmlookup (so_models (view w)) (ps_ModelRef (pool_Spec pool)) of None \<Rightarrow> Inl NotFound | Some m \<Rightarrow> Inr m), w)"
    using C pool by (simp_all add: serves_def reads_ok_def)
  have "Reconcile C Q (pool_Name pool) (w, l) = updateStatus C ?p (w, l)"
    using r get by (auto simp: Reconcile_def call_def refusal_def split: option.splits sum.splits)
  moreover have "fmlookup (so_pools (view w)) (pool_Name ?p) \<noteq> None" using pool by (simp add: setReady_def)
  ultimately show ?thesis using update_status [OF C] by (fastforce simp: updateStatus_def call_def)
qed

lemma schema_status [simp]:
  "pool_schema (pool\<lparr> pool_Status := x \<rparr>) = pool_schema pool" "sane_sizes (pool\<lparr> pool_Status := x \<rparr>) model = sane_sizes pool model"
  "labels_owned (st\<lparr> so_pools := ps \<rparr>) = labels_owned st"
  by (simp_all add: pool_schema_def sane_sizes_def labels_owned_def)

lemma status_admitted:
  assumes ok: "admitted st" and pool: "fmlookup (so_pools st) name = Some pool"
    and p: "so_pools st' = fmupd name (pool\<lparr> pool_Status := x \<rparr>) (so_pools st)" and m: "so_models st' = so_models st"
    and st': "store_ok st'" "labels_owned st'"
  shows "may_become st st'"
proof -
  have "pool_schema q" if q: "fmlookup (so_pools st') k = Some q" for k q
  proof -
    obtain q0 where "fmlookup (so_pools st) k = Some q0" "pool_schema q = pool_schema q0"
      using q pool unfolding p by (cases "k = name") auto
    then show ?thesis using ok unfolding admitted_def by blast
  qed
  moreover have "sane_sizes q mo" if q: "fmlookup (so_pools st') k = Some q" and mo: "fmlookup (so_models st') k' = Some mo" for k q k' mo
  proof -
    obtain q0 where "fmlookup (so_pools st) k = Some q0" "sane_sizes q mo = sane_sizes q0 mo"
      using q pool unfolding p by (cases "k = name") auto
    then show ?thesis using ok mo unfolding m admitted_def by blast
  qed
  moreover have "model_schema mo" if "fmlookup (so_models st') k = Some mo" for k mo using that ok unfolding m admitted_def by blast
  ultimately show ?thesis using st' m unfolding may_become_def admitted_def by blast
qed

lemma put_status_admitted:
  assumes ok: "admitted st" and pool: "fmlookup (so_pools st) (pool_Name pool) = Some pool"
  shows "may_become st (put_status (setReady C pool ConditionFalse reason msg) st)"
proof -
  let ?p = "setReady C pool ConditionFalse reason msg"
  have eq: "put_status ?p st = st\<lparr> so_pools := fmupd (pool_Name pool) (pool\<lparr> pool_Status := pool_Status ?p \<rparr>) (so_pools st) \<rparr>"
    using pool by (simp add: put_status_def setReady_def)
  have "fmpred (\<lambda>k p. pool_Name p = k) (so_pools st)" using ok by (simp add: admitted_def store_ok_def)
  then have "fmpred (\<lambda>k p. pool_Name p = k) (fmupd (pool_Name pool) (pool\<lparr> pool_Status := pool_Status ?p \<rparr>) (so_pools st))"
    by (rule fmpred_upd) simp
  then have "store_ok (put_status ?p st)" using ok unfolding eq by (simp add: admitted_def store_ok_def)
  moreover have "labels_owned (put_status ?p st)" using ok unfolding eq by (simp add: admitted_def)
  ultimately show ?thesis unfolding eq by (intro status_admitted [OF ok pool]) simp_all
qed

lemma reconciled_admitted:
  assumes ok: "admitted st" and r: "reconciled_store C Q pool model table st st'" and pool: "fmlookup (so_pools st) (pool_Name pool) = Some pool"
  shows "may_become st st'"
proof -
  have "rs_Owner sl = Some q" if sl: "fmlookup (so_slices st') k = Some sl" "fmlookup (rs_Labels sl) PoolLabel = Some q" for k sl q
  proof (cases "\<exists>d. wants Q pool model table st d \<and> rs_Name d = k")
    case True
    then obtain d where "wants Q pool model table st d" "rs_Name d = k" by blast
    then show ?thesis using reconciled_wanted [OF r] sl by (auto simp: stored_slice_fields)
  next
    case False
    have "fmlookup (so_slices st) k = Some sl" using reconciled_other [OF r False] sl(1) by (auto split: option.splits if_splits)
    then show ?thesis using ok sl(2) unfolding admitted_def labels_owned_def by blast
  qed
  then have "labels_owned st'" unfolding labels_owned_def by blast
  moreover have "store_ok st'" by (rule reconciled_store_ok [OF _ r]) (use ok in \<open>simp add: admitted_def\<close>)
  moreover obtain x where "with_status C pool table (fleet_tally Q pool model table st) = pool\<lparr> pool_Status := x \<rparr>" by (metis with_status_eq)
  ultimately show ?thesis using r by (intro status_admitted [OF ok pool]) (simp_all add: reconciled_store_def)
qed

text \<open>A run that succeeds leaves an admitted store; if none of its writes concerned its pool, the pool is settled.\<close>

lemma Reconcile_settles:
  assumes laws: "quantity_laws Q amt" and C: "serves C view" "lists_pools C view" "guards_owner C" "guards_update C view"
    and ok: "admitted (view w)" and run: "Reconcile C Q name (w, []) = (Ok (), (w', l))"
  shows "may_become (view w) (view w') \<and> (name \<notin> requests C view (view w) w' \<longrightarrow> settled C Q (view w') name)"
proof (cases "fmlookup (so_pools (view w)) name")
  case None
  then have "w' = w" using run Reconcile_missing [OF C(1) None] by simp
  then show ?thesis using ok None by (simp add: may_become_def settled_def)
next
  case (Some pool)
  have nm: "pool_Name pool = name" using ok Some by (auto simp: admitted_def store_ok_def fmpred_iff)
  have at: "fmlookup (so_pools (view w)) (pool_Name pool) = Some pool" using Some nm by simp
  show ?thesis
  proof (cases "refusal Q (view w) pool")
    case r: (Some rm)
    then obtain reason msg where rm: "refusal Q (view w) pool = Some (reason, msg)" by (cases rm) auto
    let ?p = "setReady C pool ConditionFalse reason msg"
    have v: "view w' = put_status ?p (view w)" using Reconcile_refused [OF C(1) at rm, of "[]"] run nm by auto
    then have v': "fmlookup (so_pools (view w')) name = Some ?p" using Some nm by (simp add: put_status_def setReady_def)
    have "so_models (view w') = so_models (view w)" using v Some nm by (simp add: put_status_def setReady_def)
    then have "settled C Q (view w') name" if "name \<notin> requests C view (view w) w'"
      using not_requested(1) [OF that] v' Some rm by (auto simp: settled_def refusal_def split: option.splits sum.splits)
    moreover have "may_become (view w) (view w')" unfolding v by (rule put_status_admitted [OF ok at])
    ultimately show ?thesis by blast
  next
    case None
    then obtain model table where m: "fmlookup (so_models (view w)) (ps_ModelRef (pool_Spec pool)) = Some model" "check_pool Q pool model = Inr table"
      by (auto simp: refusal_def split: option.splits sum.splits)
    have schema: "pool_schema pool" "model_schema model" "sane_sizes pool model" "store_ok (view w)"
      using ok Some m(1) unfolding admitted_def by blast+
    have own: "may_own pool (so_slices (view w)) (rs_Name d)" if "wants Q pool model table (view w) d" for d
      using Reconcile_clash [OF laws C(1,3,4) schema(4) Some m schema(1-3) that] run by blast
    then have ready: "ready Q pool model table (view w)" using schema at m by (simp add: ready_def)
    have r: "reconciled_store C Q pool model table (view w) (view w')" using Reconcile_achieves [OF laws C(1) ready, of "[]"] run nm by auto
    have mb: "may_become (view w) (view w')" by (rule reconciled_admitted [OF ok r at])
    have "settled C Q (view w') name" if quiet: "name \<notin> requests C view (view w) w'"
    proof -
      note q = not_requested [OF quiet]
      have p': "fmlookup (so_pools (view w')) name = Some pool" using q(1) Some by simp
      have "so_nodes (view w') = so_nodes (view w)" by (rule q(3) [OF C(2) _ p']) (use mb in \<open>simp add: may_become_def admitted_def\<close>)
      from reconciled_again [OF r this] q(2) nm have "reconciled_store C Q pool model table (view w') (view w')" by simp
      then show ?thesis using p' m r by (simp add: settled_def reconciled_store_def)
    qed
    with mb show ?thesis by blast
  qed
qed

section \<open>The invariant\<close>

definition op_inv :: "('w, 'q) client \<Rightarrow> 'q quantity_ops \<Rightarrow> ('w \<Rightarrow> 'q store) \<Rightarrow> 'w operator \<Rightarrow> bool" where
  "op_inv C Q view = (\<lambda>(w, q). admitted (view w) \<and> (\<forall>name. name \<notin> q \<longrightarrow> settled C Q (view w) name))"

lemma op_inv_change:
  assumes "lists_pools C view" "op_inv C Q view (w, q)" "may_become (view w) (view w')" "q \<union> requests C view (view w) w' \<subseteq> q'"
  shows "op_inv C Q view (w', q')"
proof -
  have ok: "admitted (view w)" and s: "name \<notin> q \<Longrightarrow> settled C Q (view w) name" for name using assms(2) by (simp_all add: op_inv_def)
  have "settled C Q (view w') name" if "name \<notin> q'" for name
  proof (rule settled_quiet [OF assms(1) s ok assms(3)])
    show "name \<notin> q" "name \<notin> requests C view (view w) w'" using that assms(4) by blast+
  qed
  then show ?thesis using assms(3) by (simp add: op_inv_def may_become_def)
qed

lemma op_inv_step:
  assumes laws: "quantity_laws Q amt" and C: "serves C view" "lists_pools C view" "guards_owner C" "guards_update C view"
    and step: "op_step C Q view x y" and inv: "op_inv C Q view x"
  shows "op_inv C Q view y"
  using step
proof cases
  case (written w w' q)
  show ?thesis unfolding written(2) by (rule op_inv_change [OF C(2) inv [unfolded written(1)] written(3)]) simp
next
  case (enqueued w q name)
  then show ?thesis using inv by (simp add: op_inv_def)
next
  case (reconciled name q w w' l)
  have ok: "admitted (view w)" and s: "k \<notin> q \<Longrightarrow> settled C Q (view w) k" for k
    using inv unfolding reconciled(1) by (simp_all add: op_inv_def)
  note r = Reconcile_settles [OF laws C ok reconciled(4)]
  have "settled C Q (view w') k" if k: "k \<notin> (q - {name}) \<union> requests C view (view w) w'" for k
  proof (cases "k = name")
    case True
    then show ?thesis using conjunct2 [OF r] k by blast
  next
    case False
    then have "k \<notin> q" "k \<notin> requests C view (view w) w'" using k by blast+
    then show ?thesis by (intro settled_quiet [OF C(2) s ok conjunct1 [OF r]])
  qed
  then show ?thesis using conjunct1 [OF r] unfolding reconciled(2) by (simp add: op_inv_def may_become_def)
next
  case (failed name q w r w' l)
  show ?thesis unfolding failed(2) by (rule op_inv_change [OF C(2) inv [unfolded failed(1)] failed(6)]) blast
qed

lemma op_inv_reachable:
  assumes laws: "quantity_laws Q amt" and C: "serves C view" "lists_pools C view" "guards_owner C" "guards_update C view"
    and run: "(op_step C Q view)\<^sup>*\<^sup>* x y" and inv: "op_inv C Q view x"
  shows "op_inv C Q view y"
  using run inv by (induction rule: rtranclp_induct) (auto intro: op_inv_step [OF laws C])

text \<open>The state in which the operator starts: the watches deliver every pool.\<close>

definition op_start :: "('w \<Rightarrow> 'q store) \<Rightarrow> 'w operator \<Rightarrow> bool" where
  "op_start view = (\<lambda>(w, q). admitted (view w) \<and> fset (fmdom (so_pools (view w))) \<subseteq> q)"

lemma op_start_inv: "op_start view x \<Longrightarrow> op_inv C Q view x"
proof -
  assume "op_start view x"
  moreover obtain w q where x: "x = (w, q)" by (cases x)
  moreover have "fmlookup (so_pools (view w)) name = None" if "name \<notin> q" "op_start view (w, q)" for name
    using that by (auto simp: op_start_def fmlookup_dom_iff intro: fmdom_notD)
  ultimately show ?thesis by (auto simp: op_inv_def op_start_def settled_def)
qed

section \<open>A pool alone\<close>

lemma requests_unchanged: "view w = st \<Longrightarrow> requests C view st w = {}"
  by (simp add: requests_def)

lemma poolsForNode_names:
  assumes "lists_pools C view" "store_ok (view w)"
  shows "set (fst (poolsForNode C w)) \<subseteq> fset (fmdom (so_pools (view w)))"
proof -
  obtain ps where ps: "c_ListPools C w = (Inr ps, w)" "listing (so_pools (view w)) (\<lambda>_. True) ps" using assms(1) unfolding lists_pools_def by blast
  obtain ks where ks: "map (fmlookup (so_pools (view w))) ks = map Some ps" using ps(2) by (auto simp: listing_def)
  have "pool_Name p |\<in>| fmdom (so_pools (view w))" if "p \<in> set ps" for p
  proof -
    have "Some p \<in> set (map (fmlookup (so_pools (view w))) ks)" unfolding ks using that by simp
    then obtain k where k: "fmlookup (so_pools (view w)) k = Some p" by auto
    then have "pool_Name p = k" using assms(2) by (auto simp: store_ok_def fmpred_iff)
    then show ?thesis using k by (auto intro: fmdomI)
  qed
  then show ?thesis using ps(1) by (auto simp: poolsForNode_def)
qed

text \<open>A run writes what concerns its own pool, and the nodes.\<close>

lemma own_requests:
  assumes lists: "lists_pools C view" and ok: "admitted st" "may_become st (view w)" and r: "reconciled_store C Q pool model table st (view w)"
    and own: "\<And>d. wants Q pool model table st d \<Longrightarrow> may_own pool (so_slices st) (rs_Name d)"
    and alone: "fset (fmdom (so_pools st)) \<subseteq> {pool_Name pool}"
  shows "requests C view st w \<subseteq> {pool_Name pool}"
proof -
  have p: "so_pools (view w) = fmupd (pool_Name pool) (with_status C pool table (fleet_tally Q pool model table st)) (so_pools st)"
    using r by (simp add: reconciled_store_def)
  have "p = pool_Name pool" if ch: "fmlookup (so_slices st) k \<noteq> fmlookup (so_slices (view w)) k" and o: "owner_at st k = Some p \<or> owner_at (view w) k = Some p" for k p
  proof (cases "\<exists>d. wants Q pool model table st d \<and> rs_Name d = k")
    case True
    then obtain d where d: "wants Q pool model table st d" "rs_Name d = k" by blast
    then show ?thesis using o reconciled_wanted [OF r d(1)] own [OF d(1)]
      by (auto simp: owner_at_def stored_slice_fields may_own_def split: option.splits)
  next
    case False
    then obtain sl where sl: "fmlookup (so_slices st) k = Some sl" "fmlookup (rs_Labels sl) PoolLabel = Some (pool_Name pool)" "fmlookup (so_slices (view w)) k = None"
      using ch reconciled_other [OF r False] by (auto split: option.splits if_splits)
    then have "rs_Owner sl = Some (pool_Name pool)" using ok(1) unfolding admitted_def labels_owned_def by blast
    then show ?thesis using o sl by (auto simp: owner_at_def)
  qed
  moreover have "set (fst (poolsForNode C w)) \<subseteq> {pool_Name pool}"
    using poolsForNode_names [OF lists, of w] ok(2) alone by (auto simp: may_become_def admitted_def p)
  ultimately show ?thesis by (auto simp: requests_def p split: if_splits)
qed

text \<open>Two reconciliations empty the queue of an operator with one pool, whose selectors do not look at the labels it writes.\<close>

lemma Operator_quiesces:
  assumes laws: "quantity_laws Q amt" and C: "serves C view" "lists_pools C view"
    and ok: "admitted (view w)" and ready: "ready Q pool model table (view w)" and apart: "selectors_apart Q pool model"
    and alone: "fset (fmdom (so_pools (view w))) \<subseteq> {pool_Name pool}"
  shows "\<exists>w'. (op_step C Q view)\<^sup>*\<^sup>* (w, {pool_Name pool}) (w', {})"
proof -
  let ?n = "pool_Name pool"
  from Reconcile_achieves [OF laws C(1) ready] obtain w1 l1 where
    one: "Reconcile C Q ?n (w, []) = (Ok (), (w1, l1))" "reconciled_store C Q pool model table (view w) (view w1)" by blast
  let ?p = "with_status C pool table (fleet_tally Q pool model table (view w))"
  from Reconcile_achieves [OF laws C(1) ready_again [OF ready apart one(2)]] obtain w2 l2 where
    two: "Reconcile C Q ?n (w1, []) = (Ok (), (w2, l2))" "reconciled_store C Q ?p model table (view w1) (view w2)"
    unfolding with_status_name by blast
  have "view w2 = view w1"
    using reconciled_store_fixed [OF laws _ apart one(2) refl two(2)] C(1) by (simp add: serves_def)
  then have still: "requests C view (view w1) w2 = {}" by (simp add: requests_unchanged)
  have at: "fmlookup (so_pools (view w)) ?n = Some pool" and own: "\<And>d. wants Q pool model table (view w) d \<Longrightarrow> may_own pool (so_slices (view w)) (rs_Name d)"
    using ready by (simp_all add: ready_def)
  have q: "requests C view (view w) w1 \<subseteq> {?n}"
    by (rule own_requests [OF C(2) ok reconciled_admitted [OF ok one(2) at] one(2) own alone])
  have step1: "op_step C Q view (w, {?n}) (w1, requests C view (view w) w1)"
    using op_step.reconciled [OF _ one(1), of "{?n}" view] by simp
  show ?thesis
  proof (cases "requests C view (view w) w1 = {}")
    case True
    then show ?thesis using step1 by auto
  next
    case False
    then have "requests C view (view w) w1 = {?n}" using q by blast
    then have "op_step C Q view (w1, requests C view (view w) w1) (w2, {})" using op_step.reconciled [OF _ two(1), of "{?n}" view] still by simp
    then show ?thesis using step1 by (meson converse_rtranclp_into_rtranclp r_into_rtranclp)
  qed
qed

lemma store_server_guards: "lists_pools store_server (\<lambda>w. w)" "guards_owner store_server" "guards_update store_server (\<lambda>w. w)"
  by (auto simp: lists_pools_def guards_owner_def guards_update_def store_server_def matching_listing)

section \<open>What a settled node carries\<close>

lemma settled_capacity:
  assumes laws: "quantity_laws Q amt" and s: "settled C Q st (pool_Name pool)" and pool: "fmlookup (so_pools st) (pool_Name pool) = Some pool"
    and acc: "refusal Q st pool = None" and sel: "selected pool st n"
    and ext: "ExtendedResourceEnabled (ps_Advertise (pool_Spec pool))" "\<not> MIGEnabled (pool_Spec pool)"
  shows "\<exists>v. fmlookup (nd_Capacity n) GPUResourceName = Some v \<and> amt v = of_int (ps_GPUsPerNode (pool_Spec pool))"
proof -
  obtain model table where r: "reconciled_store C Q pool model table st st"
    using s pool acc by (auto simp: settled_def refusal_def split: option.splits sum.splits)
  have "fmlookup (so_nodes st) (nd_Name n) = Some n" using sel by (simp add: selected_def)
  moreover have "so_nodes st = settled_nodes Q pool model table st" using r by (simp add: reconciled_store_def)
  moreover have "fmlookup (settled_nodes Q pool model table st) (nd_Name n) = Some (settled_node Q pool model table n (StateFor pool n))"
    using calculation(1) sel by (simp add: settled_nodes_def)
  ultimately have "settled_node Q pool model table n (StateFor pool n) = n" by simp
  then have "node_settled Q pool model table n (StateFor pool n)" using settled_node_settled [OF laws] by metis
  then have "resourcesMatch Q (nd_Capacity n) (NodeResources Q pool table)" using ext(1) by (simp add: node_settled_def)
  then show ?thesis using ext(2)
    by (auto simp: resourcesMatch_def NodeResources_def nodeResourcesFor_def quantity_laws_Cmp_zero [OF laws] quantity_laws_NewQuantity [OF laws] split: option.splits)
qed

section \<open>Properties\<close>




text \<open>Two such pools, and the kwok node they share.\<close>

definition second_pool :: "int pool" where
  "second_pool = (witness_pool [])\<lparr> pool_Name := ''other'', pool_Spec := (pool_Spec (witness_pool []))\<lparr> ps_GPUsPerNode := 4 \<rparr> \<rparr>"

definition shared_store :: "int store" where
  "shared_store = example_store\<lparr> so_pools := fmupd ''other'' second_pool (so_pools example_store) \<rparr>"


text \<open>
  A model that is created, or changed, wakes no pool: the watches do not cover models. A pool that was refused because its model did not
  exist stays refused when the model is created, and nothing waits in the queue.
\<close>

theorem model_unwatched:
  assumes "view w = st\<lparr> so_models := models \<rparr>"
  shows "requests C view st w = {}"
  by (simp add: requests_def assms owner_at_def)

text \<open>The store of the example before its model is created, with the pool refused.\<close>

definition orphan_pool :: "int pool" where
  "orphan_pool = setReady store_server (witness_pool []) ConditionFalse ''ModelNotFound'' (MsgModelNotFound ''h100'')"

definition orphan_store :: "int store" where
  "orphan_store = example_store\<lparr> so_pools := fmupd ''pool'' orphan_pool fmempty, so_models := fmempty \<rparr>"

theorem model_created_unnoticed:
  "settled store_server int_quantity orphan_store ''pool''
   \<and> requests store_server (\<lambda>w. w) orphan_store (orphan_store\<lparr> so_models := fmupd ''h100'' example_model fmempty \<rparr>) = {}
   \<and> \<not> settled store_server int_quantity (orphan_store\<lparr> so_models := fmupd ''h100'' example_model fmempty \<rparr>) ''pool''"
proof (intro conjI)
  let ?st = "orphan_store\<lparr> so_models := fmupd ''h100'' example_model fmempty \<rparr>"
  show "settled store_server int_quantity orphan_store ''pool''"
    by (simp add: settled_def orphan_store_def orphan_pool_def setReady_def witness_pool_def store_server_def)
  show "requests store_server (\<lambda>w. w) orphan_store ?st = {}" by (rule model_unwatched) simp
  obtain x where x: "orphan_pool = (witness_pool [])\<lparr> pool_Status := x \<rparr>" by (simp add: orphan_pool_def setReady_def)
  have chk: "check_pool int_quantity orphan_pool example_model = Inr (emptyTable int_quantity)"
    unfolding x check_pool_status by (rule witness_pool_ok(1))
  have nm: "pool_Name orphan_pool = ''pool''" "ps_ModelRef (pool_Spec orphan_pool) = ''h100''" unfolding x by (simp_all add: witness_pool_def)
  have "with_status store_server orphan_pool (emptyTable int_quantity) t \<noteq> orphan_pool" for t
  proof
    assume "with_status store_server orphan_pool (emptyTable int_quantity) t = orphan_pool"
    then have "map cond_Reason (st_Conditions (pool_Status (with_status store_server orphan_pool (emptyTable int_quantity) t)))
      = map cond_Reason (st_Conditions (pool_Status orphan_pool))" by simp
    then show False by (simp add: with_status_def setReady_def store_server_def orphan_pool_def)
  qed
  moreover have "fmlookup (so_pools ?st) ''pool'' = Some orphan_pool" by (simp add: orphan_store_def)
  moreover have "so_pools ?st = fmupd ''pool'' (with_status store_server orphan_pool (emptyTable int_quantity)
      (fleet_tally int_quantity orphan_pool example_model (emptyTable int_quantity) ?st)) (so_pools ?st)"
    if "reconciled_store store_server int_quantity orphan_pool example_model (emptyTable int_quantity) ?st ?st"
    using that unfolding reconciled_store_def nm by blast
  ultimately have "\<not> reconciled_store store_server int_quantity orphan_pool example_model (emptyTable int_quantity) ?st ?st"
    by (metis fmupd_lookup option.inject)
  then show "\<not> settled store_server int_quantity ?st ''pool''"
    using chk nm by (simp add: settled_def orphan_store_def)
qed

end
