(* ===== verification/Metrics_Series.thy ===== *)
theory Metrics_Series
  imports Gpu_Slices "HOL-Library.List_Lexorder" "HOL-Library.Char_ord" "HOL-Library.Product_Lexorder"
begin

text \<open>
  \<open>internal/metrics/names.go\<close> and \<open>internal/metrics/series.go\<close>: the readings of a card, and the DCGM samples they
  become.

  The meaning of a \<open>LabelSelector\<close> (\<open>LabelSelectorAsSelector\<close> and \<open>Matches\<close>; \<open>None\<close> where it does not parse) is a
  parameter. A \<open>float64\<close> sample is kept as what it is computed from: an integer, or an integer over 100.
  \<open>slices.SortFunc\<close> is a sort by the pair of name and label key; Go leaves the order of
  samples that agree in both open, here it is the order of appending, and no property depends on it.
\<close>

section \<open>names.go\<close>

definition metric_GPUUtil :: string where "metric_GPUUtil = ''DCGM_FI_DEV_GPU_UTIL''"
definition metric_MemCopyUtil :: string where "metric_MemCopyUtil = ''DCGM_FI_DEV_MEM_COPY_UTIL''"
definition FBUsed :: string where "FBUsed = ''DCGM_FI_DEV_FB_USED''"
definition FBFree :: string where "FBFree = ''DCGM_FI_DEV_FB_FREE''"
definition metric_GREngineActive :: string where "metric_GREngineActive = ''DCGM_FI_PROF_GR_ENGINE_ACTIVE''"
definition metric_TensorActive :: string where "metric_TensorActive = ''DCGM_FI_PROF_PIPE_TENSOR_ACTIVE''"
definition PowerUsage :: string where "PowerUsage = ''DCGM_FI_DEV_POWER_USAGE''"
definition GPUTemp :: string where "GPUTemp = ''DCGM_FI_DEV_GPU_TEMP''"
definition XIDErrors :: string where "XIDErrors = ''DCGM_FI_DEV_XID_ERRORS''"
definition LabelGPU :: string where "LabelGPU = ''gpu''"
definition LabelUUID :: string where "LabelUUID = ''UUID''"
definition LabelDevice :: string where "LabelDevice = ''device''"
definition LabelModelName :: string where "LabelModelName = ''modelName''"
definition LabelHostname :: string where "LabelHostname = ''Hostname''"
definition LabelNamespace :: string where "LabelNamespace = ''namespace''"
definition LabelPod :: string where "LabelPod = ''pod''"
definition LabelContainer :: string where "LabelContainer = ''container''"
definition LabelMIGInstanceID :: string where "LabelMIGInstanceID = ''GPU_I_ID''"
definition LabelMIGProfile :: string where "LabelMIGProfile = ''GPU_I_PROFILE''"

lemmas metric_name_defs = metric_GPUUtil_def metric_MemCopyUtil_def FBUsed_def FBFree_def metric_GREngineActive_def
  metric_TensorActive_def PowerUsage_def GPUTemp_def XIDErrors_def
lemmas metric_label_defs = LabelGPU_def LabelUUID_def LabelDevice_def LabelModelName_def LabelHostname_def
  LabelNamespace_def LabelPod_def LabelContainer_def LabelMIGInstanceID_def LabelMIGProfile_def

section \<open>series.go\<close>

record Reading =
  rd_GPUUtil :: int
  rd_MemCopyUtil :: int
  rd_FBUsedPercent :: int
  rd_GREngineActive :: int
  rd_TensorActive :: int
  rd_PowerWatts :: "int option"
  rd_TemperatureC :: "int option"
  rd_XID :: int

record Holder =
  ho_Namespace :: string
  ho_Pod :: string
  ho_Container :: string

record CardInstance =
  mi_Profile :: string
  mi_InstanceID :: int
  mi_MemoryMiB :: int
  mi_Holder :: Holder
  mi_Reading :: Reading

record Card =
  ca_Node :: string
  ca_Index :: int
  ca_UUID :: string
  ca_ProductName :: string
  ca_MemoryMiB :: int
  ca_Holder :: Holder
  ca_Reading :: Reading
  ca_Instances :: "CardInstance list"

datatype sample = IntSample int | PercentRatio int

record Series =
  sr_Name :: string
  sr_Value :: sample
  sr_Labels :: labels

definition zeroReading :: Reading where
  "zeroReading = \<lparr> rd_GPUUtil = 0, rd_MemCopyUtil = 0, rd_FBUsedPercent = 0, rd_GREngineActive = 0, rd_TensorActive = 0,
     rd_PowerWatts = None, rd_TemperatureC = None, rd_XID = 0 \<rparr>"

definition noHolder :: Holder where
  "noHolder = \<lparr> ho_Namespace = [], ho_Pod = [], ho_Container = [] \<rparr>"

definition utilizationSeries :: "labels \<Rightarrow> Reading \<Rightarrow> int \<Rightarrow> Series list" where
  "utilizationSeries lbls r memoryMiB =
     (let used = wrap64 (memoryMiB * rd_FBUsedPercent r) sdiv 100 in
      [\<lparr> sr_Name = metric_GPUUtil, sr_Value = IntSample (rd_GPUUtil r), sr_Labels = lbls \<rparr>,
       \<lparr> sr_Name = metric_MemCopyUtil, sr_Value = IntSample (rd_MemCopyUtil r), sr_Labels = lbls \<rparr>,
       \<lparr> sr_Name = FBUsed, sr_Value = IntSample used, sr_Labels = lbls \<rparr>,
       \<lparr> sr_Name = FBFree, sr_Value = IntSample (wrap64 (memoryMiB - used)), sr_Labels = lbls \<rparr>,
       \<lparr> sr_Name = metric_GREngineActive, sr_Value = PercentRatio (rd_GREngineActive r), sr_Labels = lbls \<rparr>,
       \<lparr> sr_Name = metric_TensorActive, sr_Value = PercentRatio (rd_TensorActive r), sr_Labels = lbls \<rparr>])"

definition addHolder :: "labels \<Rightarrow> Holder \<Rightarrow> labels" where
  "addHolder lbls holder =
     (if ho_Pod holder = [] then lbls
      else (let lbls1 = fmupd LabelPod (ho_Pod holder) (fmupd LabelNamespace (ho_Namespace holder) lbls)
            in if ho_Container holder \<noteq> [] then fmupd LabelContainer (ho_Container holder) lbls1 else lbls1))"

definition cardLabels :: "Card \<Rightarrow> labels" where
  "cardLabels crd =
     addHolder (fmap_of_list
       [(LabelGPU, Itoa (ca_Index crd)), (LabelUUID, ca_UUID crd), (LabelDevice, ''nvidia'' @ Itoa (ca_Index crd)),
        (LabelModelName, ca_ProductName crd), (LabelHostname, ca_Node crd)]) (ca_Holder crd)"

definition instanceLabels :: "Card \<Rightarrow> CardInstance \<Rightarrow> labels" where
  "instanceLabels crd inst =
     addHolder (fmap_of_list
       [(LabelGPU, Itoa (ca_Index crd)), (LabelUUID, ca_UUID crd), (LabelDevice, ''nvidia'' @ Itoa (ca_Index crd)),
        (LabelModelName, ca_ProductName crd), (LabelHostname, ca_Node crd),
        (LabelMIGInstanceID, Itoa (mi_InstanceID inst)), (LabelMIGProfile, mi_Profile inst)]) (mi_Holder inst)"

definition labelKey :: "labels \<Rightarrow> string" where
  "labelKey lbls = concat (map (\<lambda>k. k @ ''='' @ get_str lbls k @ '','') (sorted_list_of_fset (fmdom lbls)))"

text \<open>The body of the loop of \<open>Build\<close>: the samples of one card, in the order they are appended.\<close>

definition card_series :: "Card \<Rightarrow> Series list" where
  "card_series crd =
     (let base = cardLabels crd in
      utilizationSeries base (ca_Reading crd) (ca_MemoryMiB crd)
      @ (case rd_PowerWatts (ca_Reading crd) of None \<Rightarrow> []
         | Some w \<Rightarrow> [\<lparr> sr_Name = PowerUsage, sr_Value = IntSample w, sr_Labels = base \<rparr>])
      @ (case rd_TemperatureC (ca_Reading crd) of None \<Rightarrow> []
         | Some c \<Rightarrow> [\<lparr> sr_Name = GPUTemp, sr_Value = IntSample c, sr_Labels = base \<rparr>])
      @ [\<lparr> sr_Name = XIDErrors, sr_Value = IntSample (rd_XID (ca_Reading crd)), sr_Labels = base \<rparr>]
      @ concat (map (\<lambda>inst.
          let lbls = instanceLabels crd inst in
          utilizationSeries lbls (mi_Reading inst) (mi_MemoryMiB inst)
          @ [\<lparr> sr_Name = XIDErrors, sr_Value = IntSample (rd_XID (ca_Reading crd)), sr_Labels = lbls \<rparr>])
        (ca_Instances crd)))"

definition Build :: "Card list \<Rightarrow> Series list" where
  "Build cards = sort_key (\<lambda>s. (sr_Name s, labelKey (sr_Labels s))) (concat (map card_series cards))"

definition setIf :: "int \<Rightarrow> int option \<Rightarrow> int" where
  "setIf target value = (case value of None \<Rightarrow> target | Some v \<Rightarrow> v)"

definition metrics_apply :: "Reading \<Rightarrow> UtilizationSample option \<Rightarrow> Reading" where
  "metrics_apply reading smp =
     (case smp of
        None \<Rightarrow> reading
      | Some u \<Rightarrow>
          reading\<lparr> rd_GPUUtil := setIf (rd_GPUUtil reading) (us_GPUUtil u),
                   rd_MemCopyUtil := setIf (rd_MemCopyUtil reading) (us_MemCopyUtil u),
                   rd_FBUsedPercent := setIf (rd_FBUsedPercent reading) (us_FBUsedPercent u),
                   rd_GREngineActive := setIf (rd_GREngineActive reading) (us_GREngineActivePercent u),
                   rd_TensorActive := setIf (rd_TensorActive reading) (us_TensorActivePercent u),
                   rd_PowerWatts := (if us_PowerWatts u \<noteq> None then us_PowerWatts u else rd_PowerWatts reading),
                   rd_TemperatureC := (if us_TemperatureC u \<noteq> None then us_TemperatureC u else rd_TemperatureC reading) \<rparr>)"

type_synonym selector_sem = "LabelSelector \<Rightarrow> labels \<Rightarrow> bool option"

fun matchWorkload :: "selector_sem \<Rightarrow> WorkloadUtilization list \<Rightarrow> labels \<Rightarrow> UtilizationSample option" where
  "matchWorkload sel [] lbls = None"
| "matchWorkload sel (entry # entries) lbls =
     (case wu_PodSelector entry of
        None \<Rightarrow> Some (wu_UtilizationSample entry)
      | Some ps \<Rightarrow>
          (case sel ps lbls of
             None \<Rightarrow> matchWorkload sel entries lbls
           | Some m \<Rightarrow> if \<not> m then matchWorkload sel entries lbls else Some (wu_UtilizationSample entry)))"

definition metrics_Resolve :: "selector_sem \<Rightarrow> UtilizationSpec option \<Rightarrow> bool \<Rightarrow> labels \<Rightarrow> Reading" where
  "metrics_Resolve sel spec busy workload =
     (let reading = (if busy then zeroReading\<lparr> rd_GPUUtil := 100, rd_FBUsedPercent := 100, rd_GREngineActive := 100 \<rparr>
                     else zeroReading)
      in case spec of
           None \<Rightarrow> reading
         | Some sp \<Rightarrow>
             (let reading1 = metrics_apply reading (if busy then ut_WhenAllocated sp else ut_WhenIdle sp)
              in if busy then metrics_apply reading1 (matchWorkload sel (ut_Workloads sp) workload) else reading1))"

section \<open>Lemmas\<close>

interpretation workload: first_match
  "\<lambda>e lbls. case wu_PodSelector e of None \<Rightarrow> True | Some ps \<Rightarrow> sel ps lbls = Some True"
  "\<lambda>e. Some (wu_UtilizationSample e)" None "matchWorkload sel" for sel
  by unfold_locales (auto split: option.splits)

definition series_key :: "Series \<Rightarrow> string \<times> labels" where
  "series_key s = (sr_Name s, sr_Labels s)"

definition util_names :: "string list" where
  "util_names = [metric_GPUUtil, metric_MemCopyUtil, FBUsed, FBFree, metric_GREngineActive, metric_TensorActive]"

lemma metric_names_distinct: "distinct (util_names @ [PowerUsage, GPUTemp, XIDErrors])"
  by (simp add: util_names_def metric_name_defs)

lemma utilizationSeries_keys: "map series_key (utilizationSeries l r m) = map (\<lambda>n. (n, l)) util_names"
  by (simp add: utilizationSeries_def series_key_def util_names_def Let_def)

lemma addHolder_lookup:
  assumes "k \<notin> {LabelNamespace, LabelPod, LabelContainer}"
  shows "fmlookup (addHolder l h) k = fmlookup l k"
  using assms by (auto simp: addHolder_def Let_def)

lemma cardLabels_lookup:
  "fmlookup (cardLabels c) LabelGPU = Some (Itoa (ca_Index c))"
  "fmlookup (cardLabels c) LabelHostname = Some (ca_Node c)"
  "fmlookup (cardLabels c) LabelMIGInstanceID = None"
  by (simp_all add: cardLabels_def addHolder_lookup fmlookup_of_list metric_label_defs)

lemma instanceLabels_lookup:
  "fmlookup (instanceLabels c i) LabelGPU = Some (Itoa (ca_Index c))"
  "fmlookup (instanceLabels c i) LabelHostname = Some (ca_Node c)"
  "fmlookup (instanceLabels c i) LabelMIGInstanceID = Some (Itoa (mi_InstanceID i))"
  "fmlookup (instanceLabels c i) LabelMIGProfile = Some (mi_Profile i)"
  by (simp_all add: instanceLabels_def addHolder_lookup fmlookup_of_list metric_label_defs)

lemma instanceLabels_inject:
  "instanceLabels c i = instanceLabels c j \<Longrightarrow> mi_InstanceID i = mi_InstanceID j \<and> mi_Profile i = mi_Profile j"
  using instanceLabels_lookup(3,4) [of c i] instanceLabels_lookup(3,4) [of c j] by simp

lemma cardLabels_not_instanceLabels: "cardLabels c \<noteq> instanceLabels d i"
  using cardLabels_lookup(3) [of c] instanceLabels_lookup(3) [of d i] by force

text \<open>The names under which a card itself appears.\<close>

definition card_names :: "Card \<Rightarrow> string list" where
  "card_names c = util_names @ (if rd_PowerWatts (ca_Reading c) = None then [] else [PowerUsage])
     @ (if rd_TemperatureC (ca_Reading c) = None then [] else [GPUTemp]) @ [XIDErrors]"

lemma card_series_keys:
  "map series_key (card_series c) = map (\<lambda>n. (n, cardLabels c)) (card_names c)
     @ concat (map (\<lambda>i. map (\<lambda>n. (n, instanceLabels c i)) (util_names @ [XIDErrors])) (ca_Instances c))"
  by (simp add: card_series_def card_names_def Let_def utilizationSeries_keys map_concat o_def series_key_def
      split: option.splits)

lemma card_names_distinct: "distinct (card_names c)"
  using metric_names_distinct by (auto simp: card_names_def)

lemma card_series_labels:
  assumes "s \<in> set (card_series c)"
  shows "fmlookup (sr_Labels s) LabelGPU = Some (Itoa (ca_Index c)) \<and> fmlookup (sr_Labels s) LabelHostname = Some (ca_Node c)"
proof -
  have "series_key s \<in> set (map series_key (card_series c))" using assms by simp
  then show ?thesis
    unfolding card_series_keys by (auto simp: series_key_def cardLabels_lookup instanceLabels_lookup)
qed

lemma card_series_XID:
  assumes "s \<in> set (card_series c)" "sr_Name s = XIDErrors"
  shows "sr_Value s = IntSample (rd_XID (ca_Reading c))"
proof -
  have "sr_Name s \<noteq> XIDErrors" if "s \<in> set (utilizationSeries l r m)" for l r m
    using that metric_names_distinct by (auto simp: utilizationSeries_def util_names_def Let_def)
  with assms show ?thesis
    using metric_names_distinct by (auto simp: card_series_def Let_def split: option.splits)
qed

lemma card_series_distinct:
  assumes "distinct (map (\<lambda>i. (mi_InstanceID i, mi_Profile i)) (ca_Instances c))"
  shows "distinct (map series_key (card_series c))"
proof -
  let ?f = "\<lambda>i. map (\<lambda>n. (n, instanceLabels c i)) (util_names @ [XIDErrors])"
  have inj: "inj_on (\<lambda>i. (mi_InstanceID i, mi_Profile i)) (set (ca_Instances c))" "distinct (ca_Instances c)"
    using assms by (simp_all add: distinct_map)
  have "distinct (concat (map ?f (ca_Instances c)))"
  proof (rule distinct_concat_map [OF inj(2)])
    fix i show "distinct (?f i)" using metric_names_distinct by (auto simp: distinct_map inj_on_def)
  next
    fix i j assume ij: "i \<in> set (ca_Instances c)" "j \<in> set (ca_Instances c)" "i \<noteq> j"
    have "(mi_InstanceID i, mi_Profile i) \<noteq> (mi_InstanceID j, mi_Profile j)" using inj_onD [OF inj(1) _ ij(1,2)] ij(3) by blast
    then have "instanceLabels c i \<noteq> instanceLabels c j" using instanceLabels_inject by blast
    then show "set (?f i) \<inter> set (?f j) = {}" by auto
  qed
  moreover have "distinct (map (\<lambda>n. (n, cardLabels c)) (card_names c))"
    using card_names_distinct by (simp add: distinct_map inj_on_def)
  ultimately show ?thesis unfolding card_series_keys using cardLabels_not_instanceLabels by auto
qed

lemma Build_mset: "mset (Build cards) = mset (concat (map card_series cards))"
  by (simp add: Build_def)

lemma Build_set: "set (Build cards) = (\<Union>c \<in> set cards. set (card_series c))"
  by (simp add: Build_def)

text \<open>Samples of cards with different keys have different labels.\<close>

lemma all_series_distinct:
  assumes "distinct (map (\<lambda>c. (ca_Node c, ca_Index c)) cards)"
    and "\<And>c. c \<in> set cards \<Longrightarrow> distinct (map (\<lambda>i. (mi_InstanceID i, mi_Profile i)) (ca_Instances c))"
  shows "distinct (concat (map (\<lambda>c. map series_key (card_series c)) cards))"
proof (rule distinct_concat_map)
  show "distinct cards" using assms(1) by (simp add: distinct_map)
  fix c assume c: "c \<in> set cards"
  then show "distinct (map series_key (card_series c))" by (rule card_series_distinct [OF assms(2)])
  fix d assume d: "d \<in> set cards" "c \<noteq> d"
  have "(ca_Node c, ca_Index c) \<noteq> (ca_Node d, ca_Index d)"
    using assms(1) c d by (auto simp: distinct_map inj_on_def)
  then have "series_key s \<noteq> series_key t" if "s \<in> set (card_series c)" "t \<in> set (card_series d)" for s t
    using that [THEN card_series_labels] by (auto simp: series_key_def)
  then show "set (map series_key (card_series c)) \<inter> set (map series_key (card_series d)) = {}"
    by (auto simp: image_iff) metis
qed

lemma Build_distinct_keys:
  assumes "distinct (map (\<lambda>c. (ca_Node c, ca_Index c)) cards)"
    and "\<And>c. c \<in> set cards \<Longrightarrow> distinct (map (\<lambda>i. (mi_InstanceID i, mi_Profile i)) (ca_Instances c))"
  shows "distinct (map series_key (Build cards))"
proof -
  have "mset (map series_key (Build cards)) = mset (concat (map (\<lambda>c. map series_key (card_series c)) cards))"
    by (simp only: mset_map Build_mset) (simp only: mset_map [symmetric] map_concat map_map o_def)
  then show ?thesis using all_series_distinct [OF assms] mset_eq_imp_distinct_iff by blast
qed

section \<open>Properties\<close>

text \<open>
  The samples of a scrape are those of its cards and nothing else, sorted by name and then by label key,
  and no two of them have the same name and labels, which a Prometheus registry would refuse, as long as
  the cards differ in node or index and the instances of a card in ID or profile.
\<close>

theorem Build_distinct:
  assumes "distinct (map (\<lambda>c. (ca_Node c, ca_Index c)) cards)"
    and "\<And>c. c \<in> set cards \<Longrightarrow> distinct (map (\<lambda>i. (mi_InstanceID i, mi_Profile i)) (ca_Instances c))"
  shows "mset (Build cards) = mset (concat (map card_series cards))
    \<and> sorted (map (\<lambda>s. (sr_Name s, labelKey (sr_Labels s))) (Build cards))
    \<and> distinct (map (\<lambda>s. (sr_Name s, sr_Labels s)) (Build cards))"
  using Build_mset Build_distinct_keys [OF assms] by (simp add: Build_def series_key_def [abs_def])

definition example_card :: "int \<Rightarrow> CardInstance list \<Rightarrow> Card" where
  "example_card i is = \<lparr> ca_Node = ''node-0'', ca_Index = i, ca_UUID = ''GPU-0'', ca_ProductName = ''NVIDIA-H100'',
     ca_MemoryMiB = 81920, ca_Holder = noHolder, ca_Reading = zeroReading, ca_Instances = is \<rparr>"

definition example_instance :: "int \<Rightarrow> CardInstance" where
  "example_instance k = \<lparr> mi_Profile = ''1g.10gb'', mi_InstanceID = k, mi_MemoryMiB = 10240, mi_Holder = noHolder,
     mi_Reading = zeroReading \<rparr>"

theorem Build_distinct_witness:
  "distinct (map (\<lambda>s. (sr_Name s, sr_Labels s))
     (Build [example_card 0 [example_instance 0, example_instance 1], example_card 1 []]))"
proof -
  let ?cards = "[example_card 0 [example_instance 0, example_instance 1], example_card 1 []]"
  have "distinct (map (\<lambda>c. (ca_Node c, ca_Index c)) ?cards)" by (simp add: example_card_def)
  moreover have "distinct (map (\<lambda>i. (mi_InstanceID i, mi_Profile i)) (ca_Instances c))" if "c \<in> set ?cards" for c
    using that by (auto simp: example_card_def example_instance_def)
  ultimately show ?thesis using Build_distinct [of ?cards] by blast
qed

text \<open>
  The framebuffer samples of a card or an instance: used is the declared percentage rounded down to a
  MiB, never negative and never more than there is, and free is the rest.
\<close>

theorem framebuffer_adds_up:
  assumes m: "0 \<le> m" "m * 100 < 2 ^ 63" and p: "0 \<le> rd_FBUsedPercent r" "rd_FBUsedPercent r \<le> 100"
  shows "\<exists>used. filter (\<lambda>s. sr_Name s \<in> {FBUsed, FBFree}) (utilizationSeries l r m)
      = [\<lparr> sr_Name = FBUsed, sr_Value = IntSample used, sr_Labels = l \<rparr>,
         \<lparr> sr_Name = FBFree, sr_Value = IntSample (m - used), sr_Labels = l \<rparr>]
    \<and> 0 \<le> used \<and> used \<le> m \<and> 100 * used \<le> m * rd_FBUsedPercent r \<and> m * rd_FBUsedPercent r < 100 * (used + 1)"
proof -
  let ?x = "m * rd_FBUsedPercent r"
  have x: "0 \<le> ?x" "?x \<le> m * 100" using m p by (simp_all add: mult_left_mono)
  then have w: "wrap64 ?x = ?x" using m by (simp add: int64_range_def)
  have d: "0 \<le> ?x div 100" "?x div 100 \<le> m" using x by simp_all
  then have "int64_range (m - ?x div 100)" using m by (simp add: int64_range_def)
  then have "filter (\<lambda>s. sr_Name s \<in> {FBUsed, FBFree}) (utilizationSeries l r m)
      = [\<lparr> sr_Name = FBUsed, sr_Value = IntSample (?x div 100), sr_Labels = l \<rparr>,
         \<lparr> sr_Name = FBFree, sr_Value = IntSample (m - ?x div 100), sr_Labels = l \<rparr>]"
    using metric_names_distinct x by (auto simp: utilizationSeries_def util_names_def Let_def w sdiv_nonneg)
  moreover have "100 * (?x div 100) \<le> ?x" "?x < 100 * (?x div 100 + 1)" by simp_all
  ultimately show ?thesis using d by blast
qed

theorem framebuffer_adds_up_witness:
  "\<exists>used. filter (\<lambda>s. sr_Name s \<in> {FBUsed, FBFree}) (utilizationSeries fmempty (zeroReading\<lparr> rd_FBUsedPercent := 33 \<rparr>) 81920)
      = [\<lparr> sr_Name = FBUsed, sr_Value = IntSample used, sr_Labels = fmempty \<rparr>,
         \<lparr> sr_Name = FBFree, sr_Value = IntSample (81920 - used), sr_Labels = fmempty \<rparr>]"
  using framebuffer_adds_up [of 81920 "zeroReading\<lparr> rd_FBUsedPercent := 33 \<rparr>" fmempty] by auto

lemma metrics_apply_fields:
  "metrics_apply r smp =
     (let over = (\<lambda>f d. case Option.bind smp f of None \<Rightarrow> d | Some v \<Rightarrow> v);
          over' = (\<lambda>f d. case Option.bind smp f of None \<Rightarrow> d | Some v \<Rightarrow> Some v)
      in \<lparr> rd_GPUUtil = over us_GPUUtil (rd_GPUUtil r), rd_MemCopyUtil = over us_MemCopyUtil (rd_MemCopyUtil r),
           rd_FBUsedPercent = over us_FBUsedPercent (rd_FBUsedPercent r),
           rd_GREngineActive = over us_GREngineActivePercent (rd_GREngineActive r),
           rd_TensorActive = over us_TensorActivePercent (rd_TensorActive r),
           rd_PowerWatts = over' us_PowerWatts (rd_PowerWatts r),
           rd_TemperatureC = over' us_TemperatureC (rd_TemperatureC r), rd_XID = rd_XID r \<rparr>)"
proof (cases smp)
  case (Some u)
  have "(if x \<noteq> None then x else y) = (case x of None \<Rightarrow> y | Some v \<Rightarrow> Some v)" for x y :: "int option"
    by (cases x) simp_all
  then show ?thesis unfolding metrics_apply_def Some by (simp add: setIf_def)
qed (simp add: metrics_apply_def)

text \<open>
  A reading is layered: a field comes from the first workload entry that matches the pod holding the
  device if that entry sets it, else from the pool's sample for the device's state if that sets it, else
  it is the default of the state, 100 percent on a busy device and 0 on an idle one. Power and temperature
  have no default. On an idle device no workload entry counts.
\<close>

theorem metrics_Resolve_layers:
  "metrics_Resolve sel (Some sp) busy w =
     (let entry = find (\<lambda>e. case wu_PodSelector e of None \<Rightarrow> True | Some ps \<Rightarrow> sel ps w = Some True) (ut_Workloads sp);
          override = (if busy then map_option wu_UtilizationSample entry else None);
          base = (if busy then ut_WhenAllocated sp else ut_WhenIdle sp);
          declared = (\<lambda>f. case Option.bind override f of None \<Rightarrow> Option.bind base f | Some v \<Rightarrow> Some v);
          orElse = (\<lambda>f d. case declared f of None \<Rightarrow> d | Some v \<Rightarrow> v);
          full = (if busy then 100 else 0)
      in \<lparr> rd_GPUUtil = orElse us_GPUUtil full, rd_MemCopyUtil = orElse us_MemCopyUtil 0,
           rd_FBUsedPercent = orElse us_FBUsedPercent full, rd_GREngineActive = orElse us_GREngineActivePercent full,
           rd_TensorActive = orElse us_TensorActivePercent 0, rd_PowerWatts = declared us_PowerWatts,
           rd_TemperatureC = declared us_TemperatureC, rd_XID = 0 \<rparr>)"
proof -
  let ?e = "find (\<lambda>e. case wu_PodSelector e of None \<Rightarrow> True | Some ps \<Rightarrow> sel ps w = Some True) (ut_Workloads sp)"
  have "matchWorkload sel (ut_Workloads sp) w = map_option wu_UtilizationSample ?e"
    unfolding workload.pick_eq_find by (simp split: option.split)
  then show ?thesis
    by (cases busy) (simp_all add: metrics_Resolve_def metrics_apply_fields Let_def zeroReading_def split: option.split)
qed

end
