(* ===== verification/Metrics_Collector.thy ===== *)
theory Metrics_Collector
  imports Metrics_Series
begin

text \<open>
  \<open>internal/metrics/collector.go\<close>: the published slices become cards with readings. Nothing is stored between
  scrapes.

  The nested loops are one pass over the devices of the slices that belong to a known pool (\<open>events\<close>); a card
  depends on its own devices alone (\<open>cards_local\<close>), which reduces every statement about a card to its devices.
  What the slice builders publish is read back: indices, instance IDs and profiles, XIDs, occupancy.
\<close>

section \<open>collector.go\<close>

definition metrics_PoolLabel :: string where "metrics_PoolLabel = ''ghostgpu.dev/pool''"

record Allocation =
  al_Pool :: string
  al_Device :: string

type_synonym Workloads = "(Holder, labels) fmap"

definition metrics_mib :: int where "metrics_mib = 1024 * 1024"

definition cardIndex :: "string \<Rightarrow> int option" where
  "cardIndex deviceName =
     (case CutPrefix deviceName ''gpu-'' of
        None \<Rightarrow> None
      | Some rest \<Rightarrow>
          (case Cut rest CHR ''-'' of (digits, _, _) \<Rightarrow>
             (case ParseInt 32 digits of
                None \<Rightarrow> None
              | Some index \<Rightarrow> if index < 0 then None else Some (wrap32 index))))"

definition occupied :: "'q Device \<Rightarrow> bool" where
  "occupied device = list_ex (\<lambda>t. dt_Key t = OccupiedTaintKey) (dv_Taints device)"

fun xid_loop :: "DeviceTaint list \<Rightarrow> int \<times> bool" where
  "xid_loop [] = (0, False)"
| "xid_loop (t # ts) =
     (if dt_Key t \<noteq> FaultedTaintKey then xid_loop ts
      else (case CutPrefix (dt_Value t) ''xid-'' of
              None \<Rightarrow> (0, True)
            | Some digits \<Rightarrow>
                (case ParseInt 32 digits of None \<Rightarrow> (0, True) | Some xid \<Rightarrow> (wrap32 xid, True))))"

definition faultedXID :: "'q Device \<Rightarrow> int \<times> bool" where
  "faultedXID device = xid_loop (dv_Taints device)"

definition get_stringAttr :: "'q Device \<Rightarrow> string \<Rightarrow> string" where
  "get_stringAttr device name =
     (case fmlookup (dv_Attributes device) name of
        Some attr \<Rightarrow> (case da_StringValue attr of Some s \<Rightarrow> s | None \<Rightarrow> [])
      | None \<Rightarrow> [])"

definition get_intAttr :: "'q Device \<Rightarrow> string \<Rightarrow> int" where
  "get_intAttr device name =
     (case fmlookup (dv_Attributes device) name of
        Some attr \<Rightarrow> (case da_IntValue attr of Some i \<Rightarrow> wrap32 i | None \<Rightarrow> 0)
      | None \<Rightarrow> 0)"

definition deviceMemoryMiB :: "'q quantity_ops \<Rightarrow> 'q Device \<Rightarrow> int" where
  "deviceMemoryMiB Q device =
     (case fmlookup (dv_Capacity device) ''memory'' of Some c \<Rightarrow> q_Value Q c sdiv metrics_mib | None \<Rightarrow> 0)"

text \<open>The loop of \<open>summarizeCard\<close>, with the framebuffer used so far.\<close>

fun summarize_loop :: "Reading \<Rightarrow> int \<Rightarrow> CardInstance list \<Rightarrow> Reading \<times> int" where
  "summarize_loop r usedMiB [] = (r, usedMiB)"
| "summarize_loop r usedMiB (i # is) =
     summarize_loop
       (r\<lparr> rd_GPUUtil := max (rd_GPUUtil r) (rd_GPUUtil (mi_Reading i)),
          rd_MemCopyUtil := max (rd_MemCopyUtil r) (rd_MemCopyUtil (mi_Reading i)),
          rd_GREngineActive := max (rd_GREngineActive r) (rd_GREngineActive (mi_Reading i)),
          rd_TensorActive := max (rd_TensorActive r) (rd_TensorActive (mi_Reading i)),
          rd_PowerWatts := (if rd_PowerWatts r = None then rd_PowerWatts (mi_Reading i) else rd_PowerWatts r),
          rd_TemperatureC := (if rd_TemperatureC r = None then rd_TemperatureC (mi_Reading i) else rd_TemperatureC r) \<rparr>)
       (wrap64 (usedMiB + wrap64 (mi_MemoryMiB i * rd_FBUsedPercent (mi_Reading i)) sdiv 100)) is"

definition summarizeCard :: "Card \<Rightarrow> Card" where
  "summarizeCard crd =
     (case summarize_loop (ca_Reading crd) 0 (ca_Instances crd) of (r, usedMiB) \<Rightarrow>
        crd\<lparr> ca_Reading :=
          (if ca_MemoryMiB crd > 0
           then r\<lparr> rd_FBUsedPercent := wrap32 (min (max (wrap64 (usedMiB * 100) sdiv ca_MemoryMiB crd) 0) 100) \<rparr>
           else r) \<rparr>)"

text \<open>The parts of the body of the inner loop of \<open>CardsFrom\<close>: the card made on the first device of a key, the
  holder of a device, its reading, and what the device adds to its card.\<close>

definition new_card :: "'q quantity_ops \<Rightarrow> (string, 'q GPUModel) fmap \<Rightarrow> 'm GPUPool \<Rightarrow> string \<Rightarrow> int \<Rightarrow> 'q Device \<Rightarrow> Card" where
  "new_card Q models pool node index device =
     \<lparr> ca_Node = node, ca_Index = index, ca_UUID = get_stringAttr device AttrUUID,
       ca_ProductName = get_stringAttr device AttrProductName,
       ca_MemoryMiB = (case fmlookup models (ps_ModelRef (pool_Spec pool)) of
                         None \<Rightarrow> 0 | Some m \<Rightarrow> q_Value Q (ms_Memory (model_Spec m)) sdiv metrics_mib),
       ca_Holder = noHolder, ca_Reading = zeroReading, ca_Instances = [] \<rparr>"

definition device_holder :: "(Allocation, Holder) fmap \<Rightarrow> string \<Rightarrow> 'q Device \<Rightarrow> Holder" where
  "device_holder holders node device =
     (case fmlookup holders \<lparr> al_Pool = node, al_Device = dv_Name device \<rparr> of None \<Rightarrow> noHolder | Some h \<Rightarrow> h)"

definition device_reading ::
  "selector_sem \<Rightarrow> (Allocation, Holder) fmap \<Rightarrow> Workloads \<Rightarrow> 'm GPUPool \<Rightarrow> string \<Rightarrow> 'q Device \<Rightarrow> Reading" where
  "device_reading sel holders workloads pool node device =
     (let held = fmlookup holders \<lparr> al_Pool = node, al_Device = dv_Name device \<rparr> \<noteq> None;
          busy = held \<or> occupied device;
          (xid, faulted) = faultedXID device;
          busy' = (if faulted then False else busy);
          reading = metrics_Resolve sel (ps_Utilization (pool_Spec pool)) busy'
            (case fmlookup workloads (device_holder holders node device) of None \<Rightarrow> fmempty | Some l \<Rightarrow> l)
      in reading\<lparr> rd_XID := xid \<rparr>)"

definition record_device ::
  "'q quantity_ops \<Rightarrow> selector_sem \<Rightarrow> (Allocation, Holder) fmap \<Rightarrow> Workloads \<Rightarrow> 'm GPUPool \<Rightarrow> string \<Rightarrow> Card \<Rightarrow> 'q Device \<Rightarrow> Card" where
  "record_device Q sel holders workloads pool node crd device =
     (let holder = device_holder holders node device;
          reading = device_reading sel holders workloads pool node device;
          prof = get_stringAttr device AttrMIGProfile
      in if prof \<noteq> []
         then crd\<lparr> ca_Instances := ca_Instances crd @
                [\<lparr> mi_Profile = prof, mi_InstanceID = get_intAttr device AttrMIGInstanceID,
                   mi_MemoryMiB = deviceMemoryMiB Q device, mi_Holder = holder, mi_Reading = reading \<rparr>] \<rparr>
         else crd\<lparr> ca_Holder := holder, ca_Reading := reading \<rparr>)"

text \<open>The state of the two nested loops of \<open>CardsFrom\<close>: the cards by node and index, and the order of their first
  appearance.\<close>

type_synonym card_map = "(string \<times> int, Card) fmap \<times> (string \<times> int) list"

definition device_step ::
  "'q quantity_ops \<Rightarrow> selector_sem \<Rightarrow> (string, 'q GPUModel) fmap \<Rightarrow> (Allocation, Holder) fmap \<Rightarrow> Workloads
   \<Rightarrow> 'm GPUPool \<Rightarrow> string \<Rightarrow> card_map \<Rightarrow> 'q Device \<Rightarrow> card_map" where
  "device_step Q sel models holders workloads pool node cm device =
     (case cardIndex (dv_Name device) of
        None \<Rightarrow> cm
      | Some index \<Rightarrow>
          (let key = (node, index);
               (crd, order) = (case fmlookup (fst cm) key of
                    Some c \<Rightarrow> (c, snd cm)
                  | None \<Rightarrow> (new_card Q models pool node index device, snd cm @ [key]))
           in (fmupd key (record_device Q sel holders workloads pool node crd device) (fst cm), order)))"

definition slice_step ::
  "'q quantity_ops \<Rightarrow> selector_sem \<Rightarrow> (string, 'm GPUPool) fmap \<Rightarrow> (string, 'q GPUModel) fmap \<Rightarrow> (Allocation, Holder) fmap
   \<Rightarrow> Workloads \<Rightarrow> card_map \<Rightarrow> 'q ResourceSlice \<Rightarrow> card_map" where
  "slice_step Q sel specs models holders workloads cm sl =
     (case fmlookup specs (get_str (rs_Labels sl) metrics_PoolLabel) of
        None \<Rightarrow> cm
      | Some pool \<Rightarrow>
          foldl (device_step Q sel models holders workloads pool (rp_Name (rss_Pool (rs_Spec sl)))) cm
                (rss_Devices (rs_Spec sl)))"

definition CardsFrom ::
  "'q quantity_ops \<Rightarrow> selector_sem \<Rightarrow> 'm GPUPool list \<Rightarrow> (string, 'q GPUModel) fmap \<Rightarrow> 'q ResourceSlice list
   \<Rightarrow> (Allocation, Holder) fmap \<Rightarrow> Workloads \<Rightarrow> Card list" where
  "CardsFrom Q sel pools models published holders workloads =
     (let specs = foldl (\<lambda>m p. fmupd (pool_Name p) p m) fmempty pools;
          (cards, order) = foldl (slice_step Q sel specs models holders workloads) (fmempty, []) published
      in map (\<lambda>key. let crd = the (fmlookup cards key) in
                     if ca_Instances crd \<noteq> [] then summarizeCard crd else crd) order)"

section \<open>Lemmas: the pass over the devices\<close>

definition events :: "(string, 'm GPUPool) fmap \<Rightarrow> 'q ResourceSlice list \<Rightarrow> ('m GPUPool \<times> string \<times> 'q Device) list" where
  "events specs published = concat (map (\<lambda>sl.
     (case fmlookup specs (get_str (rs_Labels sl) metrics_PoolLabel) of
        None \<Rightarrow> []
      | Some pool \<Rightarrow> map (\<lambda>d. (pool, rp_Name (rss_Pool (rs_Spec sl)), d)) (rss_Devices (rs_Spec sl)))) published)"

definition event_key :: "'m GPUPool \<times> string \<times> 'q Device \<Rightarrow> (string \<times> int) option" where
  "event_key ev = map_option (Pair (fst (snd ev))) (cardIndex (dv_Name (snd (snd ev))))"

definition event_step ::
  "'q quantity_ops \<Rightarrow> selector_sem \<Rightarrow> (string, 'q GPUModel) fmap \<Rightarrow> (Allocation, Holder) fmap \<Rightarrow> Workloads
   \<Rightarrow> card_map \<Rightarrow> 'm GPUPool \<times> string \<times> 'q Device \<Rightarrow> card_map" where
  "event_step Q sel models holders workloads cm ev =
     device_step Q sel models holders workloads (fst ev) (fst (snd ev)) cm (snd (snd ev))"

lemma foldl_map_eq: "foldl f s (map g xs) = foldl (\<lambda>s x. f s (g x)) s xs"
  by (induction xs arbitrary: s) simp_all

lemma slices_as_events:
  "foldl (slice_step Q sel specs models holders workloads) cm published
   = foldl (event_step Q sel models holders workloads) cm (events specs published)"
proof (induction published arbitrary: cm)
  case (Cons sl published)
  then show ?case
    by (simp add: events_def slice_step_def event_step_def foldl_map_eq split: option.splits)
qed (simp add: events_def)

text \<open>What one card has become after a list of its own devices.\<close>

definition card_step ::
  "'q quantity_ops \<Rightarrow> selector_sem \<Rightarrow> (string, 'q GPUModel) fmap \<Rightarrow> (Allocation, Holder) fmap \<Rightarrow> Workloads
   \<Rightarrow> string \<times> int \<Rightarrow> Card option \<Rightarrow> 'm GPUPool \<times> string \<times> 'q Device \<Rightarrow> Card option" where
  "card_step Q sel models holders workloads k c ev =
     Some (record_device Q sel holders workloads (fst ev) (fst k)
       (case c of None \<Rightarrow> new_card Q models (fst ev) (fst k) (snd k) (snd (snd ev)) | Some c \<Rightarrow> c) (snd (snd ev)))"

lemma event_step_lookup:
  "fmlookup (fst (event_step Q sel models holders workloads cm ev)) k =
     (if event_key ev = Some k then card_step Q sel models holders workloads k (fmlookup (fst cm) k) ev
      else fmlookup (fst cm) k)"
  by (cases k) (auto simp: event_step_def device_step_def event_key_def card_step_def case_prod_beta Let_def split: option.splits)

lemma cards_local:
  "fmlookup (fst (foldl (event_step Q sel models holders workloads) cm evs)) k =
     foldl (card_step Q sel models holders workloads k) (fmlookup (fst cm) k) (filter (\<lambda>ev. event_key ev = Some k) evs)"
  by (induction evs arbitrary: cm) (simp_all add: event_step_lookup)

text \<open>The order of first appearance.\<close>

definition add_key :: "'k list \<Rightarrow> 'k \<Rightarrow> 'k list" where
  "add_key ks k = (if k \<in> set ks then ks else ks @ [k])"

definition cm_ok :: "card_map \<Rightarrow> bool" where
  "cm_ok cm \<longleftrightarrow> (\<forall>k. k \<in> set (snd cm) \<longleftrightarrow> fmlookup (fst cm) k \<noteq> None)"

lemma event_step_order:
  assumes "cm_ok cm"
  shows "snd (event_step Q sel models holders workloads cm ev) =
      (case event_key ev of None \<Rightarrow> snd cm | Some k \<Rightarrow> add_key (snd cm) k)"
    and "cm_ok (event_step Q sel models holders workloads cm ev)"
proof -
  have dom: "k \<in> set (snd cm) \<longleftrightarrow> fmlookup (fst cm) k \<noteq> None" for k
    using assms unfolding cm_ok_def by blast
  show order: "snd (event_step Q sel models holders workloads cm ev) =
      (case event_key ev of None \<Rightarrow> snd cm | Some k \<Rightarrow> add_key (snd cm) k)"
    using dom by (simp add: event_step_def device_step_def event_key_def case_prod_beta Let_def add_key_def split: option.split)
  show "cm_ok (event_step Q sel models holders workloads cm ev)"
    unfolding cm_ok_def order event_step_lookup
    using dom by (auto simp: add_key_def card_step_def split: option.splits)
qed

lemma events_order:
  "cm_ok cm \<Longrightarrow> snd (foldl (event_step Q sel models holders workloads) cm evs) = foldl add_key (snd cm) (List.map_filter event_key evs)
     \<and> cm_ok (foldl (event_step Q sel models holders workloads) cm evs)"
  by (induction evs arbitrary: cm) (auto simp: event_step_order List.map_filter_simps split: option.split)

text \<open>The pools by name, as \<open>CardsFrom\<close> indexes them.\<close>

definition pools_by_name :: "'m GPUPool list \<Rightarrow> (string, 'm GPUPool) fmap" where
  "pools_by_name pools = foldl (\<lambda>m p. fmupd (pool_Name p) p m) fmempty pools"

lemma pools_by_name_lookup:
  "distinct (map pool_Name pools) \<Longrightarrow> pool \<in> set pools \<Longrightarrow> fmlookup (pools_by_name pools) (pool_Name pool) = Some pool"
proof (induction pools rule: rev_induct)
  case (snoc p pools)
  then show ?case by (auto simp: pools_by_name_def rev_image_eqI)
qed simp

definition finish_card :: "Card \<Rightarrow> Card" where
  "finish_card c = (if ca_Instances c \<noteq> [] then summarizeCard c else c)"

lemma foldl_add_key: "foldl add_key [] ks = rev (remdups (rev ks))"
  by (induction ks rule: rev_induct) (auto simp: add_key_def)

text \<open>A card after its devices, from the card its first device makes.\<close>

definition card_from ::
  "'q quantity_ops \<Rightarrow> selector_sem \<Rightarrow> (string, 'q GPUModel) fmap \<Rightarrow> (Allocation, Holder) fmap \<Rightarrow> Workloads
   \<Rightarrow> string \<times> int \<Rightarrow> ('m GPUPool \<times> string \<times> 'q Device) list \<Rightarrow> Card" where
  "card_from Q sel models holders workloads k evs =
     foldl (\<lambda>c ev. record_device Q sel holders workloads (fst ev) (fst k) c (snd (snd ev)))
       (new_card Q models (fst (hd evs)) (fst k) (snd k) (snd (snd (hd evs)))) evs"

lemma card_step_fold:
  "foldl (card_step Q sel models holders workloads k) (Some c) evs =
     Some (foldl (\<lambda>c ev. record_device Q sel holders workloads (fst ev) (fst k) c (snd (snd ev))) c evs)"
  by (induction evs arbitrary: c) (simp_all add: card_step_def)

lemma card_step_card_from:
  "evs \<noteq> [] \<Longrightarrow> foldl (card_step Q sel models holders workloads k) None evs = Some (card_from Q sel models holders workloads k evs)"
  by (cases evs) (simp_all add: card_from_def card_step_def card_step_fold)

lemma map_filter_event_key: "k \<in> set (List.map_filter event_key evs) \<longleftrightarrow> filter (\<lambda>ev. event_key ev = Some k) evs \<noteq> []"
  by (induction evs) (auto simp: List.map_filter_simps split: option.split)

lemma map_filter_Some: "(\<And>x. x \<in> set xs \<Longrightarrow> f (g x) = Some (h x)) \<Longrightarrow> List.map_filter f (map g xs) = map h xs"
  by (induction xs) (simp_all add: List.map_filter_simps)

text \<open>\<open>CardsFrom\<close> card by card.\<close>

lemma CardsFrom_eq:
  "CardsFrom Q sel pools models published holders workloads =
     (let evs = events (pools_by_name pools) published in
      map (\<lambda>k. finish_card (card_from Q sel models holders workloads k (filter (\<lambda>ev. event_key ev = Some k) evs)))
        (rev (remdups (rev (List.map_filter event_key evs)))))"
proof -
  let ?evs = "events (pools_by_name pools) published"
  let ?cm = "foldl (event_step Q sel models holders workloads) (fmempty, []) ?evs"
  have "cm_ok (fmempty, [])" by (simp add: cm_ok_def)
  from events_order [OF this, of Q sel models holders workloads ?evs]
  have order: "snd ?cm = rev (remdups (rev (List.map_filter event_key ?evs)))" by (simp add: foldl_add_key)
  have "the (fmlookup (fst ?cm) k) = card_from Q sel models holders workloads k (filter (\<lambda>ev. event_key ev = Some k) ?evs)"
    if "k \<in> set (List.map_filter event_key ?evs)" for k
    using that unfolding cards_local map_filter_event_key by (simp add: card_step_card_from)
  then show ?thesis
    unfolding CardsFrom_def pools_by_name_def [symmetric] slices_as_events
    by (simp add: case_prod_beta Let_def order finish_card_def)
qed

section \<open>Lemmas: the fields of a card\<close>

lemma record_device_fields:
  "ca_Node (record_device Q sel holders workloads p n c d) = ca_Node c"
  "ca_Index (record_device Q sel holders workloads p n c d) = ca_Index c"
  "ca_UUID (record_device Q sel holders workloads p n c d) = ca_UUID c"
  "ca_MemoryMiB (record_device Q sel holders workloads p n c d) = ca_MemoryMiB c"
  by (simp_all add: record_device_def Let_def)

lemma card_from_fields:
  "ca_Node (card_from Q sel models holders workloads k evs) = fst k"
  "ca_Index (card_from Q sel models holders workloads k evs) = snd k"
proof -
  let ?f = "\<lambda>c ev. record_device Q sel holders workloads (fst ev) (fst k) c (snd (snd ev))"
  have "ca_Node (foldl ?f c evs) = ca_Node c \<and> ca_Index (foldl ?f c evs) = ca_Index c" for c
    by (induction evs arbitrary: c) (simp_all add: record_device_fields)
  then show "ca_Node (card_from Q sel models holders workloads k evs) = fst k"
    "ca_Index (card_from Q sel models holders workloads k evs) = snd k"
    by (simp_all add: card_from_def new_card_def)
qed

lemma summarize_loop_XID: "rd_XID (fst (summarize_loop r u is)) = rd_XID r"
  by (induction "is" arbitrary: r u) simp_all

lemma finish_card_fields:
  "ca_Node (finish_card c) = ca_Node c" "ca_Index (finish_card c) = ca_Index c"
  "ca_Instances (finish_card c) = ca_Instances c" "ca_MemoryMiB (finish_card c) = ca_MemoryMiB c"
  "rd_XID (ca_Reading (finish_card c)) = rd_XID (ca_Reading c)"
  by (simp_all add: finish_card_def summarizeCard_def case_prod_beta summarize_loop_XID)

lemma CardsFrom_keys_eq:
  "map (\<lambda>c. (ca_Node c, ca_Index c)) (CardsFrom Q sel pools models published holders workloads) =
     rev (remdups (rev (List.map_filter event_key (events (pools_by_name pools) published))))"
  unfolding CardsFrom_eq Let_def by (simp add: o_def finish_card_fields card_from_fields)

section \<open>Lemmas: reading back what the slices publish\<close>

lemma cardIndex_prefix:
  assumes "0 \<le> i" "i < 2 ^ 31"
  shows "cardIndex (''gpu-'' @ Itoa i) = Some i" "cardIndex (''gpu-'' @ Itoa i @ ''-'' @ r) = Some i"
proof -
  have p: "ParseInt 32 (Itoa i) = Some i" using assms by (intro ParseInt_Itoa) simp_all
  have w: "wrap32 i = i" using assms by (simp add: int32_range_def)
  have "Cut (Itoa i @ CHR ''-'' # r) CHR ''-'' = (Itoa i, r, True)" "Cut (Itoa i) CHR ''-'' = (Itoa i, [], False)"
    using assms by (simp_all add: Cut_append Cut_no_sep)
  then show "cardIndex (''gpu-'' @ Itoa i) = Some i" "cardIndex (''gpu-'' @ Itoa i @ ''-'' @ r) = Some i"
    using assms p w by (simp_all only: cardIndex_def CutPrefix_append) simp_all
qed

lemma faultValue_read:
  assumes "int32_range x"
  shows "xid_loop [FaultedTaint e x] = (max 0 x, True)"
proof (cases "x \<le> 0")
  case True
  have "CutPrefix ''unspecified'' ''xid-'' = None" by (simp add: CutPrefix_def HasPrefix_def)
  with True show ?thesis by (simp add: FaultedTaint_def Let_def faultValue_def)
next
  case False
  have "ParseInt 32 (Itoa x) = Some x" using assms by (intro ParseInt_Itoa) (simp_all add: int32_range_def)
  moreover have "dt_Value (FaultedTaint e x) = ''xid-'' @ Itoa x" using False by (simp add: FaultedTaint_def Let_def faultValue_def)
  ultimately show ?thesis using False assms
    by (simp only: xid_loop.simps taint_keys(3) CutPrefix_append) simp
qed

text \<open>What a device with its card's taint says about the card.\<close>

lemma tainted_device_state:
  assumes "dv_Taints d = (case Taint st i of None \<Rightarrow> [] | Some t \<Rightarrow> [t])" "int32_range (ns_XID st)"
  shows "faultedXID d = (if IsFaulted st i then max 0 (ns_XID st) else 0, IsFaulted st i)"
    and "occupied d \<longleftrightarrow> IsOccupied st i"
  using assms taint_keys faultValue_read [of "ns_XID st" "ns_Effect st"]
  by (simp_all add: faultedXID_def occupied_def Taint_def del: xid_loop.simps(2)) (auto simp: IsOccupied_def)

lemma gpu_device_attrs:
  "get_stringAttr (gpu_device pool m n st i) AttrUUID = DeviceUUID n i"
  "get_stringAttr (gpu_device pool m n st i) AttrProductName = ms_ProductName (model_Spec m)"
  "get_stringAttr (gpu_device pool m n st i) AttrMIGProfile = []"
  by (simp_all add: get_stringAttr_def gpu_device_def Let_def fmlookup_of_list attr_defs stringAttr_def split: option.split)

lemma migDevice_attrs:
  "get_stringAttr (tainted_migDevice Q pool m n st i) AttrMIGProfile = pr_Name (in_Profile i)"
  "get_intAttr (tainted_migDevice Q pool m n st i) AttrMIGInstanceID = wrap32 (in_InstanceID i)"
  by (simp_all add: get_stringAttr_def get_intAttr_def tainted_migDevice_def migDevice_def Let_def fmlookup_of_list
      attr_defs stringAttr_def intAttr_def split: option.split)

section \<open>Properties\<close>

text \<open>
  The exporter reads the card's index back out of every name the program gives a device: a whole card,
  a dynamic MIG instance, an instance of a declared partition.
\<close>

theorem cardIndex_names:
  assumes "0 \<le> i" "i < 2 ^ 31"
  shows "cardIndex (DeviceName n i) = Some i \<and> cardIndex (mig_DeviceName i prof) = Some i
    \<and> cardIndex (PartitionDeviceName i prof k) = Some i"
  using cardIndex_prefix [OF assms]
  by (simp add: DeviceName_def mig_DeviceName_def PartitionDeviceName_def)

theorem cardIndex_names_witness:
  "cardIndex (DeviceName ''node-0'' 12) = Some 12 \<and> cardIndex (mig_DeviceName 12 ''1g.10gb'') = Some 12
    \<and> cardIndex (PartitionDeviceName 12 ''1g.10gb'' 3) = Some 12"
  by (rule cardIndex_names) simp_all

text \<open>
  Whatever the cluster contains, a scrape describes every physical card once: the cards are the pairs of
  node and index that occur in slices of known pools, in the order of their first device, without
  repetition.
\<close>

theorem CardsFrom_keys:
  "map (\<lambda>c. (ca_Node c, ca_Index c)) (CardsFrom Q sel pools models published holders workloads) =
     rev (remdups (rev (List.map_filter event_key (events (pools_by_name pools) published))))
   \<and> distinct (map (\<lambda>c. (ca_Node c, ca_Index c)) (CardsFrom Q sel pools models published holders workloads))"
  unfolding CardsFrom_keys_eq by simp

text \<open>When every device has a key of its own, each becomes a card.\<close>

lemma filter_map_key:
  assumes "distinct ks" "k \<in> set ks" "\<And>x. x \<in> set ks \<Longrightarrow> event_key (mk x) = Some x"
  shows "filter (\<lambda>ev. event_key ev = Some k) (map mk ks) = [mk k]"
  using assms
proof (induction ks)
  case (Cons x ks)
  have none: "filter (\<lambda>ev. event_key ev = Some k) (map mk ks) = []" if "k \<notin> set ks"
    using that Cons.prems(3) by (auto simp: filter_empty_conv)
  show ?case
  proof (cases "k = x")
    case True
    with Cons.prems none show ?thesis by auto
  next
    case False
    then have "filter (\<lambda>ev. event_key ev = Some k) (map mk ks) = [mk k]" using Cons by auto
    with False Cons.prems(3) [of x] show ?thesis by simp
  qed
qed simp

lemma CardsFrom_distinct:
  assumes e: "events (pools_by_name pools) published = map mk ks" and d: "distinct ks"
    and k: "\<And>x. x \<in> set ks \<Longrightarrow> event_key (mk x) = Some x"
  shows "CardsFrom Q sel pools models published holders workloads =
    map (\<lambda>k. finish_card (card_from Q sel models holders workloads k [mk k])) ks"
proof -
  have "List.map_filter event_key (map mk ks) = ks" using map_filter_Some [of ks event_key mk "\<lambda>x. x"] k by simp
  moreover have "rev (remdups (rev ks)) = ks" using d by (simp add: distinct_remdups_id)
  ultimately show ?thesis unfolding CardsFrom_eq e Let_def using filter_map_key [OF d _ k] by simp
qed

text \<open>The card a whole, labelled device becomes.\<close>

definition unshared_card ::
  "'q quantity_ops \<Rightarrow> selector_sem \<Rightarrow> 'm GPUPool \<Rightarrow> 'q GPUModel \<Rightarrow> (Allocation, Holder) fmap \<Rightarrow> Workloads
   \<Rightarrow> string \<Rightarrow> NodeState \<Rightarrow> int \<Rightarrow> Card" where
  "unshared_card Q sel pool m holders workloads n st i =
     (let held = fmlookup holders \<lparr> al_Pool = n, al_Device = DeviceName n i \<rparr>;
          holder = (case held of None \<Rightarrow> noHolder | Some h \<Rightarrow> h);
          busy = (\<not> IsFaulted st i \<and> (held \<noteq> None \<or> IsOccupied st i));
          lbls = (case fmlookup workloads holder of None \<Rightarrow> fmempty | Some l \<Rightarrow> l)
      in \<lparr> ca_Node = n, ca_Index = i, ca_UUID = DeviceUUID n i, ca_ProductName = ms_ProductName (model_Spec m),
           ca_MemoryMiB = q_Value Q (ms_Memory (model_Spec m)) sdiv 2 ^ 20, ca_Holder = holder,
           ca_Reading = (metrics_Resolve sel (ps_Utilization (pool_Spec pool)) busy lbls)
             \<lparr> rd_XID := if IsFaulted st i then max 0 (ns_XID st) else 0 \<rparr>,
           ca_Instances = [] \<rparr>)"

lemma card_from_gpu_device:
  assumes "fmlookup models (ps_ModelRef (pool_Spec pool)) = Some m" "int32_range (ns_XID st)"
  shows "finish_card (card_from Q sel models holders workloads (n, i) [(pool, n, gpu_device pool m n st i)]) =
    unshared_card Q sel pool m holders workloads n st i"
proof -
  let ?d = "gpu_device pool m n st i"
  note state = tainted_device_state [OF gpu_device_simps(3) assms(2), of pool m n i]
  have "device_reading sel holders workloads pool n ?d = ca_Reading (unshared_card Q sel pool m holders workloads n st i)"
    unfolding device_reading_def Let_def state
    by (simp add: unshared_card_def Let_def device_holder_def)
  then show ?thesis using assms(1)
    by (simp add: finish_card_def card_from_def record_device_def new_card_def gpu_device_attrs Let_def metrics_mib_def
        unshared_card_def device_holder_def)
qed

lemma events_whole:
  assumes pool: "fmlookup (pools_by_name pools) (pool_Name pool) = Some pool"
    and built: "\<And>n. n \<in> set ns \<Longrightarrow> \<exists>b. BuildResourceSlice pool m n (st n) = Some b \<and> rs_Spec (s n) = rs_Spec b
      \<and> get_str (rs_Labels (s n)) metrics_PoolLabel = pool_Name pool"
  shows "events (pools_by_name pools) (map s ns) =
    map (\<lambda>(n, i). (pool, n, gpu_device pool m n (st n) i)) (List.product ns (range_int (ps_GPUsPerNode (pool_Spec pool))))"
  using built
proof (induction ns)
  case (Cons n ns)
  obtain b where b: "BuildResourceSlice pool m n (st n) = Some b" "rs_Spec (s n) = rs_Spec b"
    "get_str (rs_Labels (s n)) metrics_PoolLabel = pool_Name pool" using Cons.prems [of n] by auto
  have "rss_Devices (rs_Spec b) = map (gpu_device pool m n (st n)) (range_int (ps_GPUsPerNode (pool_Spec pool)))"
    "rp_Name (rss_Pool (rs_Spec b)) = n"
    using b(1) by (auto simp: BuildResourceSlice_def split: if_splits)
  moreover have "events (pools_by_name pools) (s n # map s ns) = events (pools_by_name pools) [s n] @ events (pools_by_name pools) (map s ns)"
    by (simp add: events_def)
  ultimately show ?case using Cons pool b by (simp add: events_def o_def)
qed (simp add: events_def)

text \<open>
  C29: the exporter agrees with what the controller publishes. On the labelled slices of a pool without MIG the
  cards of a scrape are exactly the pool's cards, node by node and in order, each with its UUID, product
  and memory; a card is attributed to the pod that holds it; a broken card reports its XID and no work, and
  of the others exactly the held and the occupied ones count as busy.
\<close>

theorem CardsFrom_whole:
  assumes pools: "distinct (map pool_Name pools)" "pool \<in> set pools"
    and model: "fmlookup models (ps_ModelRef (pool_Spec pool)) = Some m"
    and ns: "distinct ns" and g: "ps_GPUsPerNode (pool_Spec pool) < 2 ^ 31" and xid: "\<And>n. int32_range (ns_XID (st n))"
    and built: "\<And>n. n \<in> set ns \<Longrightarrow> \<exists>b. BuildResourceSlice pool m n (st n) = Some b \<and> rs_Spec (s n) = rs_Spec b
      \<and> get_str (rs_Labels (s n)) metrics_PoolLabel = pool_Name pool"
  shows "CardsFrom Q sel pools models (map s ns) holders workloads =
    map (\<lambda>(n, i). unshared_card Q sel pool m holders workloads n (st n) i)
      (List.product ns (range_int (ps_GPUsPerNode (pool_Spec pool))))"
proof -
  let ?mk = "\<lambda>(n, i). (pool, n, gpu_device pool m n (st n) i)"
  let ?ks = "List.product ns (range_int (ps_GPUsPerNode (pool_Spec pool)))"
  have "event_key (?mk k) = Some k" if k: "k \<in> set ?ks" for k
  proof -
    obtain n i where ni: "k = (n, i)" by fastforce
    with k g have "cardIndex (''gpu-'' @ Itoa i) = Some i" by (intro cardIndex_prefix) auto
    then show ?thesis by (simp add: ni event_key_def DeviceName_def)
  qed
  moreover have "distinct ?ks" using ns by (simp add: distinct_product)
  ultimately show ?thesis
    using CardsFrom_distinct [OF events_whole [OF pools_by_name_lookup [OF pools] built]]
      card_from_gpu_device [OF model xid] by (auto simp: case_prod_beta)
qed

theorem CardsFrom_whole_witness:
  "\<exists>b. BuildResourceSlice (example_pool 2 SharingModeNone [] [] [fault_default 1]) example_model ''node-0''
      (StateFor (example_pool 2 SharingModeNone [] [] [fault_default 1]) example_node) = Some b
    \<and> map (\<lambda>c. (ca_Index c, rd_XID (ca_Reading c)))
        (CardsFrom int_quantity (\<lambda>ps l. None) [example_pool 2 SharingModeNone [] [] [fault_default 1]]
          (fmupd ''h100'' example_model fmempty) [b\<lparr> rs_Labels := fmupd metrics_PoolLabel ''pool'' fmempty \<rparr>] fmempty fmempty)
      = [(0, 79), (1, 0)]"
proof -
  let ?p = "example_pool 2 SharingModeNone [] [] [fault_default 1]" and ?n = "''node-0''"
  let ?st = "StateFor ?p example_node" and ?l = "\<lambda>b. b\<lparr> rs_Labels := fmupd metrics_PoolLabel ''pool'' fmempty \<rparr>"
  obtain b where b: "BuildResourceSlice ?p example_model ?n ?st = Some b" by (simp add: BuildResourceSlice_def)
  have st: "?st = \<lparr> ns_Busy = 0, ns_Faulted = 1, ns_Effect = FaultEffectEvict, ns_XID = 79 \<rparr>"
    by (simp add: StateFor_def BusyGPUs_def fault_default_def selectorMatches_def)
  have "CardsFrom int_quantity (\<lambda>ps l. None) [?p] (fmupd ''h100'' example_model fmempty) (map (\<lambda>n. ?l b) [?n]) fmempty fmempty =
      map (\<lambda>(n, i). unshared_card int_quantity (\<lambda>ps l. None) ?p example_model fmempty fmempty n ?st i) (List.product [?n] (range_int 2))"
  proof (subst CardsFrom_whole [where pool = ?p and m = example_model and st = "\<lambda>n. ?st"])
    show "\<exists>b'. BuildResourceSlice ?p example_model n ?st = Some b' \<and> rs_Spec (?l b) = rs_Spec b'
      \<and> get_str (rs_Labels (?l b)) metrics_PoolLabel = pool_Name ?p" if "n \<in> set [?n]" for n
      using that b by (simp add: example_pool_def)
    show "fmlookup (fmupd ''h100'' example_model fmempty) (ps_ModelRef (pool_Spec ?p)) = Some example_model"
      by (simp add: example_pool_def)
  qed (simp_all add: st int32_range_def)
  then show ?thesis using b
    by (simp add: range_int_def upt_rec unshared_card_def Let_def IsFaulted_def st)
qed

section \<open>Partitioned cards\<close>

lemma events_labelled:
  assumes "\<And>s. s \<in> set published \<Longrightarrow> fmlookup specs (get_str (rs_Labels s) metrics_PoolLabel) = Some pool
      \<and> rp_Name (rss_Pool (rs_Spec s)) = n"
  shows "events specs published = map (\<lambda>d. (pool, n, d)) (concat (map (\<lambda>s. rss_Devices (rs_Spec s)) published))"
  using assms by (induction published) (simp_all add: events_def)

lemma BuildMIGSlices_node: "BuildMIGSlices Q pool m t n st = Some slices \<Longrightarrow> s \<in> set slices \<Longrightarrow> rp_Name (rss_Pool (rs_Spec s)) = n"
  by (auto simp: BuildMIGSlices_def Let_def split: option.splits)

text \<open>The published form of a node: the controller adds the label and the owner, the spec is what was built.\<close>

definition published_as :: "'m GPUPool \<Rightarrow> 'q ResourceSlice list \<Rightarrow> 'q ResourceSlice list \<Rightarrow> bool" where
  "published_as pool slices published \<longleftrightarrow> map rs_Spec published = map rs_Spec slices
     \<and> (\<forall>s \<in> set published. get_str (rs_Labels s) metrics_PoolLabel = pool_Name pool)"

lemma events_MIG:
  assumes pool: "fmlookup specs (pool_Name pool) = Some pool"
    and b: "BuildMIGSlices Q pool m t n st = Some slices"
    and g: "0 \<le> ps_GPUsPerNode (pool_Spec pool)" "ps_GPUsPerNode (pool_Spec pool) + 16 < 2 ^ 31"
    and p: "published_as pool slices published" and i: "mig_instances pool t = Some is"
  shows "events specs published = map (\<lambda>i. (pool, n, tainted_migDevice Q pool m n st i)) is"
proof -
  obtain is' where "mig_instances pool t = Some is'" "pool_devices slices = map (tainted_migDevice Q pool m n st) is'"
    by (rule BuildMIGSlices_contents [OF b g])
  with i have dev: "pool_devices slices = map (tainted_migDevice Q pool m n st) is" by simp
  have spec: "map rs_Spec published = map rs_Spec slices" using p by (simp add: published_as_def)
  have "rp_Name (rss_Pool (rs_Spec s)) = n" if "s \<in> set published" for s
  proof -
    have "rs_Spec s \<in> set (map rs_Spec slices)" using that unfolding spec [symmetric] by simp
    then show ?thesis using BuildMIGSlices_node [OF b] by auto
  qed
  then have "fmlookup specs (get_str (rs_Labels s) metrics_PoolLabel) = Some pool \<and> rp_Name (rss_Pool (rs_Spec s)) = n"
    if "s \<in> set published" for s using that p pool by (auto simp: published_as_def)
  then have "events specs published = map (\<lambda>d. (pool, n, d)) (concat (map rss_Devices (map rs_Spec published)))"
    using events_labelled [of published specs pool n] by (simp add: o_def)
  then show ?thesis using dev unfolding spec by (simp add: pool_devices_def o_def)
qed

text \<open>The instance an exporter makes of a MIG device.\<close>

definition mig_card_instance ::
  "'q quantity_ops \<Rightarrow> selector_sem \<Rightarrow> (Allocation, Holder) fmap \<Rightarrow> Workloads \<Rightarrow> 'm GPUPool \<Rightarrow> string \<Rightarrow> 'q Device \<Rightarrow> CardInstance" where
  "mig_card_instance Q sel holders workloads pool n d =
     \<lparr> mi_Profile = get_stringAttr d AttrMIGProfile, mi_InstanceID = get_intAttr d AttrMIGInstanceID,
       mi_MemoryMiB = deviceMemoryMiB Q d, mi_Holder = device_holder holders n d,
       mi_Reading = device_reading sel holders workloads pool n d \<rparr>"

lemma card_from_MIG:
  assumes "ds \<noteq> []" "\<And>d. d \<in> set ds \<Longrightarrow> get_stringAttr d AttrMIGProfile \<noteq> []"
  shows "ca_Instances (card_from Q sel models holders workloads k (map (\<lambda>d. (pool, fst k, d)) ds)) =
      map (mig_card_instance Q sel holders workloads pool (fst k)) ds"
    and "ca_Reading (card_from Q sel models holders workloads k (map (\<lambda>d. (pool, fst k, d)) ds)) = zeroReading"
proof -
  let ?f = "\<lambda>c d. record_device Q sel holders workloads pool (fst k) c d"
  have "foldl ?f c ds = c\<lparr> ca_Instances := ca_Instances c @ map (mig_card_instance Q sel holders workloads pool (fst k)) ds \<rparr>" for c
    using assms(2) by (induction ds arbitrary: c) (simp_all add: record_device_def Let_def mig_card_instance_def)
  then show "ca_Instances (card_from Q sel models holders workloads k (map (\<lambda>d. (pool, fst k, d)) ds)) =
      map (mig_card_instance Q sel holders workloads pool (fst k)) ds"
    "ca_Reading (card_from Q sel models holders workloads k (map (\<lambda>d. (pool, fst k, d)) ds)) = zeroReading"
    by (simp_all add: card_from_def foldl_map_eq new_card_def)
qed

lemma mig_device_key:
  assumes "mig_instances pool t = Some is" "i \<in> set is" "ps_GPUsPerNode (pool_Spec pool) < 2 ^ 31"
  shows "event_key (pool, n, tainted_migDevice Q pool m n st i) = Some (n, in_GPUIndex i)"
proof -
  obtain r where "in_DeviceName i = ''gpu-'' @ Itoa (in_GPUIndex i) @ ''-'' @ r"
    using mig_instances_contract(5) [OF assms(1,2)] by blast
  moreover have "0 \<le> in_GPUIndex i" "in_GPUIndex i < 2 ^ 31"
    using mig_instances_contract(4) [OF assms(1,2)] assms(3) by (auto simp: instance_ok_def)
  ultimately show ?thesis using cardIndex_prefix(2) by (simp only: event_key_def fst_conv snd_conv tainted_migDevice_simps) simp
qed

text \<open>The keys of the devices of one node, and a card of it.\<close>

lemma CardsFrom_MIG_keys:
  assumes "events (pools_by_name pools) published = map (\<lambda>i. (pool, n, tainted_migDevice Q pool m n st i)) is"
    and "mig_instances pool t = Some is" "ps_GPUsPerNode (pool_Spec pool) < 2 ^ 31"
  shows "List.map_filter event_key (events (pools_by_name pools) published) = map (\<lambda>i. (n, in_GPUIndex i)) is"
  unfolding assms(1) using mig_device_key [OF assms(2) _ assms(3)] by (intro map_filter_Some) simp

lemma CardsFrom_MIG_card:
  assumes ev: "events (pools_by_name pools) published = map (\<lambda>i. (pool, n, tainted_migDevice Q pool m n st i)) is"
    and i: "mig_instances pool t = Some is" and g: "ps_GPUsPerNode (pool_Spec pool) < 2 ^ 31"
    and names: "\<And>p. p \<in> set (tb_Profiles t) \<Longrightarrow> pr_Name p \<noteq> []"
    and c: "c \<in> set (CardsFrom Q sel pools models published holders workloads)"
  shows "ca_Instances c = map (\<lambda>i. mig_card_instance Q sel holders workloads pool n (tainted_migDevice Q pool m n st i)) (on_gpu (ca_Index c) is)
    \<and> rd_XID (ca_Reading c) = 0"
proof -
  let ?dev = "tainted_migDevice Q pool m n st"
  obtain k where k: "k \<in> set (map (\<lambda>i. (n, in_GPUIndex i)) is)"
    and ceq: "c = finish_card (card_from Q sel models holders workloads k
      (filter (\<lambda>ev. event_key ev = Some k) (map (\<lambda>i. (pool, n, ?dev i)) is)))"
    using c unfolding CardsFrom_eq Let_def set_map set_rev set_remdups
    unfolding CardsFrom_MIG_keys [OF ev i g] unfolding ev by (elim imageE) (simp only: set_map)
  obtain x where kx: "k = (n, x)" using k by auto
  have "filter (\<lambda>i. event_key (pool, n, ?dev i) = Some k) is = on_gpu x is"
    unfolding on_gpu_def using mig_device_key [OF i _ g] by (intro filter_cong) (simp_all add: kx)
  then have own: "filter (\<lambda>ev. event_key ev = Some k) (map (\<lambda>i. (pool, n, ?dev i)) is) =
      map (\<lambda>d. (pool, fst k, d)) (map ?dev (on_gpu x is))"
    by (simp add: filter_map o_def kx)
  have x: "ca_Index c = x" using ceq by (simp add: finish_card_fields card_from_fields kx)
  have ne: "map ?dev (on_gpu x is) \<noteq> []" using k kx by (auto simp: on_gpu_def filter_empty_conv)
  have prof: "get_stringAttr d AttrMIGProfile \<noteq> []" if "d \<in> set (map ?dev (on_gpu x is))" for d
    using that names mig_instances_contract(4) [OF i] by (auto simp: migDevice_attrs on_gpu_def instance_ok_def)
  from card_from_MIG [OF ne prof, of Q sel models holders workloads k pool] show ?thesis
    unfolding ceq own finish_card_fields card_from_fields by (simp add: kx o_def zeroReading_def)
qed

lemma mig_card_instance_fields:
  assumes "mig_instances pool t = Some is" "j \<in> set is" "int32_range (ns_XID st)"
  shows "mi_InstanceID (mig_card_instance Q sel holders workloads pool n (tainted_migDevice Q pool m n st j)) = in_InstanceID j"
    "mi_Profile (mig_card_instance Q sel holders workloads pool n (tainted_migDevice Q pool m n st j)) = pr_Name (in_Profile j)"
    "rd_XID (mi_Reading (mig_card_instance Q sel holders workloads pool n (tainted_migDevice Q pool m n st j))) =
      (if IsFaulted st (in_GPUIndex j) then max 0 (ns_XID st) else 0)"
proof -
  have "int32_range (in_InstanceID j)" using mig_instances_contract(4) [OF assms(1,2)] by (simp add: instance_ok_def)
  then show "mi_InstanceID (mig_card_instance Q sel holders workloads pool n (tainted_migDevice Q pool m n st j)) = in_InstanceID j"
    by (simp add: mig_card_instance_def migDevice_attrs)
  show "mi_Profile (mig_card_instance Q sel holders workloads pool n (tainted_migDevice Q pool m n st j)) = pr_Name (in_Profile j)"
    by (simp add: mig_card_instance_def migDevice_attrs)
  show "rd_XID (mi_Reading (mig_card_instance Q sel holders workloads pool n (tainted_migDevice Q pool m n st j))) =
      (if IsFaulted st (in_GPUIndex j) then max 0 (ns_XID st) else 0)"
    by (simp add: mig_card_instance_def device_reading_def Let_def
        tainted_device_state(1) [OF tainted_migDevice_simps(3) assms(3), of Q pool m n j])
qed

text \<open>
  C30: the exporter agrees with what the controller publishes under MIG. The cards of a scrape are the cards of
  the node that have instances, in order; each card has exactly the instances carved from it, with their
  IDs, profiles and the XID of the card's fault, and no two instances of a card share both ID and profile.
\<close>

theorem CardsFrom_MIG:
  assumes pools: "distinct (map pool_Name pools)" "pool \<in> set pools"
    and b: "BuildMIGSlices Q pool m t n st = Some slices" and p: "published_as pool slices published"
    and g: "0 \<le> ps_GPUsPerNode (pool_Spec pool)" "ps_GPUsPerNode (pool_Spec pool) + 16 < 2 ^ 31"
    and names: "names_ok t" "\<And>p. p \<in> set (tb_Profiles t) \<Longrightarrow> pr_Name p \<noteq> []"
    and xid: "int32_range (ns_XID st)" and i: "mig_instances pool t = Some is" and len: "length is < 2 ^ 31"
  shows "let cards = CardsFrom Q sel pools models published holders workloads in
    map (\<lambda>c. (ca_Node c, ca_Index c)) cards = rev (remdups (rev (map (\<lambda>i. (n, in_GPUIndex i)) is)))
    \<and> (\<forall>c \<in> set cards.
         map (\<lambda>i. (mi_InstanceID i, mi_Profile i, rd_XID (mi_Reading i))) (ca_Instances c) =
         map (\<lambda>i. (in_InstanceID i, pr_Name (in_Profile i), if IsFaulted st (ca_Index c) then max 0 (ns_XID st) else 0))
           (on_gpu (ca_Index c) is)
       \<and> distinct (map (\<lambda>i. (mi_InstanceID i, mi_Profile i)) (ca_Instances c)))"
proof -
  let ?cards = "CardsFrom Q sel pools models published holders workloads"
  have ev: "events (pools_by_name pools) published = map (\<lambda>i. (pool, n, tainted_migDevice Q pool m n st i)) is"
    by (rule events_MIG [OF pools_by_name_lookup [OF pools] b g p i])
  have g': "ps_GPUsPerNode (pool_Spec pool) < 2 ^ 31" using g by simp
  have keys: "map (\<lambda>c. (ca_Node c, ca_Index c)) ?cards = rev (remdups (rev (map (\<lambda>i. (n, in_GPUIndex i)) is)))"
    unfolding CardsFrom_keys_eq CardsFrom_MIG_keys [OF ev i g'] ..
  have inst: "map (\<lambda>i. (mi_InstanceID i, mi_Profile i, rd_XID (mi_Reading i))) (ca_Instances c) =
      map (\<lambda>i. (in_InstanceID i, pr_Name (in_Profile i), if IsFaulted st (ca_Index c) then max 0 (ns_XID st) else 0))
        (on_gpu (ca_Index c) is)" if "c \<in> set ?cards" for c
    using CardsFrom_MIG_card [OF ev i g' names(2) that] mig_card_instance_fields [OF i _ xid] by (simp add: on_gpu_def)
  moreover have "distinct (map (\<lambda>i. (mi_InstanceID i, mi_Profile i)) (ca_Instances c))" if "c \<in> set ?cards" for c
  proof -
    have "map (\<lambda>(a, b, c). (a, b)) (map (\<lambda>i. (mi_InstanceID i, mi_Profile i, rd_XID (mi_Reading i))) (ca_Instances c)) =
        map (\<lambda>i. (in_InstanceID i, pr_Name (in_Profile i))) (on_gpu (ca_Index c) is)"
      unfolding inst [OF that] by (simp add: o_def)
    moreover have "int (length (on_gpu (ca_Index c) is)) < 2 ^ 31"
      using len le_less_trans [OF length_filter_le] by (simp add: on_gpu_def)
    ultimately show ?thesis using mig_instances_contract(6) [OF i names(1)] by (simp add: o_def)
  qed
  ultimately show ?thesis using keys by (simp add: Let_def)
qed

lemma example_published:
  "published_as (example_pool g mode part occ fs) slices
     (map (\<lambda>s. s\<lparr> rs_Labels := fmupd metrics_PoolLabel ''pool'' fmempty \<rparr>) slices)"
  by (simp add: published_as_def example_pool_def o_def)

lemma example_names: "p \<in> set (tb_Profiles example_table) \<Longrightarrow> pr_Name p \<noteq> []"
  by (auto simp: example_table_def)

lemma example_fault_state:
  "StateFor (example_pool 8 mode part [] [fault_default 2]) example_node =
     \<lparr> ns_Busy = 0, ns_Faulted = 2, ns_Effect = FaultEffectEvict, ns_XID = 79 \<rparr>"
  by (simp add: StateFor_def BusyGPUs_def fault_default_def selectorMatches_def)

theorem CardsFrom_MIG_witness:
  "\<exists>slices is. BuildMIGSlices int_quantity (example_pool 8 SharingModeMIG [] [] [fault_default 2]) example_model example_table ''node-0''
      (StateFor (example_pool 8 SharingModeMIG [] [] [fault_default 2]) example_node) = Some slices
    \<and> mig_instances (example_pool 8 SharingModeMIG [] [] [fault_default 2]) example_table = Some is
    \<and> map (\<lambda>c. (ca_Node c, ca_Index c))
        (CardsFrom int_quantity (\<lambda>ps l. None) [example_pool 8 SharingModeMIG [] [] [fault_default 2]] fmempty
          (map (\<lambda>s. s\<lparr> rs_Labels := fmupd metrics_PoolLabel ''pool'' fmempty \<rparr>) slices) fmempty fmempty)
      = rev (remdups (rev (map (\<lambda>i. (''node-0'', in_GPUIndex i)) is)))"
proof -
  let ?p = "example_pool 8 SharingModeMIG [] [] [fault_default 2]"
  obtain slices where b: "BuildMIGSlices int_quantity ?p example_model example_table ''node-0'' (StateFor ?p example_node) = Some slices"
    using example_dynamic by blast
  obtain "is" where i: "mig_instances ?p example_table = Some is" "length is = 16" using example_instances by blast
  have "int32_range (ns_XID (StateFor ?p example_node))" by (simp add: example_fault_state int32_range_def)
  from CardsFrom_MIG [of "[?p]", OF _ _ b example_published _ _ _ example_names this i(1)] i b
  show ?thesis by (auto simp: Let_def)
qed

text \<open>
  The XID of a broken, partitioned card never reaches a sample. The devices of the card carry it, but the
  card's own reading, from which the samples of the card and of its instances take the XID, is filled in
  from its instances without it: every XID sample of a node under MIG is 0.
\<close>

theorem partitioned_XID_lost:
  assumes pools: "distinct (map pool_Name pools)" "pool \<in> set pools"
    and b: "BuildMIGSlices Q pool m t n st = Some slices" and p: "published_as pool slices published"
    and g: "0 \<le> ps_GPUsPerNode (pool_Spec pool)" "ps_GPUsPerNode (pool_Spec pool) + 16 < 2 ^ 31"
    and names: "\<And>p. p \<in> set (tb_Profiles t) \<Longrightarrow> pr_Name p \<noteq> []" and i: "mig_instances pool t = Some is"
  shows "list_all (\<lambda>s. sr_Name s = XIDErrors \<longrightarrow> sr_Value s = IntSample 0)
    (Build (CardsFrom Q sel pools models published holders workloads))"
proof -
  have ev: "events (pools_by_name pools) published = map (\<lambda>i. (pool, n, tainted_migDevice Q pool m n st i)) is"
    by (rule events_MIG [OF pools_by_name_lookup [OF pools] b g p i])
  have g': "ps_GPUsPerNode (pool_Spec pool) < 2 ^ 31" using g by simp
  show ?thesis
    using CardsFrom_MIG_card [OF ev i g' names] card_series_XID by (fastforce simp: list_all_iff Build_set)
qed

theorem partitioned_XID_lost_witness:
  "\<exists>slices. BuildMIGSlices int_quantity (example_pool 8 SharingModeMIG [] [] [fault_default 2]) example_model example_table ''node-0''
      (StateFor (example_pool 8 SharingModeMIG [] [] [fault_default 2]) example_node) = Some slices
    \<and> list_all (\<lambda>s. sr_Name s = XIDErrors \<longrightarrow> sr_Value s = IntSample 0)
        (Build (CardsFrom int_quantity (\<lambda>ps l. None) [example_pool 8 SharingModeMIG [] [] [fault_default 2]] fmempty
          (map (\<lambda>s. s\<lparr> rs_Labels := fmupd metrics_PoolLabel ''pool'' fmempty \<rparr>) slices) fmempty fmempty))"
proof -
  let ?p = "example_pool 8 SharingModeMIG [] [] [fault_default 2]"
  obtain slices where b: "BuildMIGSlices int_quantity ?p example_model example_table ''node-0'' (StateFor ?p example_node) = Some slices"
    using example_dynamic by blast
  obtain "is" where i: "mig_instances ?p example_table = Some is" using example_instances by blast
  from partitioned_XID_lost [of "[?p]", OF _ _ b example_published _ _ example_names i] b
  show ?thesis by auto
qed

section \<open>The reading of a partitioned card\<close>

lemma Max_insert_max: "finite A \<Longrightarrow> Max (insert (max a b) A) = max a (Max (insert b A))" for a :: "'a::linorder"
  by (cases "A = {}") (simp_all add: max.assoc)

lemma summarize_loop_max:
  "rd_GPUUtil (fst (summarize_loop r u is)) = Max (insert (rd_GPUUtil r) ((\<lambda>i. rd_GPUUtil (mi_Reading i)) ` set is))"
  "rd_MemCopyUtil (fst (summarize_loop r u is)) = Max (insert (rd_MemCopyUtil r) ((\<lambda>i. rd_MemCopyUtil (mi_Reading i)) ` set is))"
  "rd_GREngineActive (fst (summarize_loop r u is)) = Max (insert (rd_GREngineActive r) ((\<lambda>i. rd_GREngineActive (mi_Reading i)) ` set is))"
  "rd_TensorActive (fst (summarize_loop r u is)) = Max (insert (rd_TensorActive r) ((\<lambda>i. rd_TensorActive (mi_Reading i)) ` set is))"
  by (induction "is" arbitrary: r u) (simp_all add: Max_insert_max)

definition instance_used :: "CardInstance \<Rightarrow> int" where
  "instance_used i = mi_MemoryMiB i * rd_FBUsedPercent (mi_Reading i) div 100"

definition instance_readable :: "CardInstance \<Rightarrow> bool" where
  "instance_readable i \<longleftrightarrow> 0 \<le> mi_MemoryMiB i \<and> 0 \<le> rd_FBUsedPercent (mi_Reading i) \<and> rd_FBUsedPercent (mi_Reading i) \<le> 100"

lemma instance_used_bounds:
  assumes "instance_readable i"
  shows "0 \<le> mi_MemoryMiB i * rd_FBUsedPercent (mi_Reading i)"
    "mi_MemoryMiB i * rd_FBUsedPercent (mi_Reading i) \<le> mi_MemoryMiB i * 100"
    "0 \<le> instance_used i" "instance_used i \<le> mi_MemoryMiB i"
proof -
  show p: "0 \<le> mi_MemoryMiB i * rd_FBUsedPercent (mi_Reading i)"
    and q: "mi_MemoryMiB i * rd_FBUsedPercent (mi_Reading i) \<le> mi_MemoryMiB i * 100"
    using assms by (simp_all add: instance_readable_def mult_left_mono)
  show "0 \<le> instance_used i" "instance_used i \<le> mi_MemoryMiB i" using p q by (simp_all add: instance_used_def)
qed

text \<open>Below the bound nothing wraps, and the framebuffer used is the sum over the instances.\<close>

lemma summarize_loop_used:
  assumes "list_all instance_readable is" "0 \<le> u" "u + 100 * (\<Sum>i\<leftarrow>is. mi_MemoryMiB i) < 2 ^ 63"
  shows "snd (summarize_loop r u is) = u + (\<Sum>i\<leftarrow>is. instance_used i)"
  using assms
proof (induction "is" arbitrary: r u)
  case (Cons i "is")
  let ?x = "mi_MemoryMiB i * rd_FBUsedPercent (mi_Reading i)"
  have i: "instance_readable i" using Cons.prems by simp
  note b = instance_used_bounds [OF i]
  have m: "0 \<le> mi_MemoryMiB i" using i by (simp add: instance_readable_def)
  have s: "0 \<le> (\<Sum>i\<leftarrow>is. mi_MemoryMiB i)"
    using Cons.prems by (intro sum_list_nonneg) (auto simp: list_all_iff instance_readable_def)
  have "wrap64 ?x = ?x" using b s Cons.prems by (simp add: int64_range_def)
  then have w: "wrap64 ?x sdiv 100 = instance_used i" using b by (simp add: sdiv_nonneg instance_used_def)
  have "wrap64 (u + instance_used i) = u + instance_used i" using b m s Cons.prems by (simp add: int64_range_def)
  moreover have "0 \<le> u + instance_used i" "u + instance_used i + 100 * (\<Sum>i\<leftarrow>is. mi_MemoryMiB i) < 2 ^ 63"
    using b m s Cons.prems by simp_all
  ultimately show ?case using Cons.IH [of "u + instance_used i"] Cons.prems by (simp add: w)
qed simp

text \<open>
  A partitioned card reports the utilization of its busiest instance, and the framebuffer that its
  instances use together as a percentage of the card's, always between 0 and 100.
\<close>

theorem summarizeCard_reading:
  assumes m: "0 < ca_MemoryMiB c" and i: "list_all instance_readable (ca_Instances c)"
    and fits: "100 * (\<Sum>i\<leftarrow>ca_Instances c. mi_MemoryMiB i) < 2 ^ 63"
  shows "rd_GPUUtil (ca_Reading (summarizeCard c)) =
      Max (insert (rd_GPUUtil (ca_Reading c)) ((\<lambda>i. rd_GPUUtil (mi_Reading i)) ` set (ca_Instances c)))
    \<and> rd_FBUsedPercent (ca_Reading (summarizeCard c)) =
      min 100 ((\<Sum>i\<leftarrow>ca_Instances c. instance_used i) * 100 div ca_MemoryMiB c)
    \<and> 0 \<le> rd_FBUsedPercent (ca_Reading (summarizeCard c))"
proof -
  let ?u = "\<Sum>i\<leftarrow>ca_Instances c. instance_used i"
  obtain r u where l: "summarize_loop (ca_Reading c) 0 (ca_Instances c) = (r, u)" by fastforce
  then have u: "u = ?u" using summarize_loop_used [OF i, of 0 "ca_Reading c"] fits by simp
  have nn: "0 \<le> ?u" using i instance_used_bounds(3) by (intro sum_list_nonneg) (auto simp: list_all_iff)
  moreover have "?u \<le> (\<Sum>i\<leftarrow>ca_Instances c. mi_MemoryMiB i)"
    using i instance_used_bounds(4) by (intro sum_list_mono) (auto simp: list_all_iff)
  ultimately have "wrap64 (?u * 100) = ?u * 100" using fits by (simp add: int64_range_def)
  then have "wrap64 (u * 100) sdiv ca_MemoryMiB c = ?u * 100 div ca_MemoryMiB c" using nn m u by (simp add: sdiv_nonneg)
  moreover have d: "0 \<le> ?u * 100 div ca_MemoryMiB c" using nn m by (simp add: pos_imp_zdiv_nonneg_iff)
  moreover have "int32_range (min (?u * 100 div ca_MemoryMiB c) 100)" using d by (simp add: int32_range_def min_def)
  ultimately have "rd_FBUsedPercent (ca_Reading (summarizeCard c)) = min 100 (?u * 100 div ca_MemoryMiB c)"
    using m by (simp add: summarizeCard_def l min.commute)
  moreover have "rd_GPUUtil (ca_Reading (summarizeCard c)) =
      Max (insert (rd_GPUUtil (ca_Reading c)) ((\<lambda>i. rd_GPUUtil (mi_Reading i)) ` set (ca_Instances c)))"
    using summarize_loop_max(1) [of "ca_Reading c" 0 "ca_Instances c"] l by (simp add: summarizeCard_def)
  ultimately show ?thesis using d by simp
qed

theorem summarizeCard_reading_witness:
  "rd_FBUsedPercent (ca_Reading (summarizeCard
     (example_card 0 [(example_instance 0)\<lparr> mi_Reading := zeroReading\<lparr> rd_FBUsedPercent := 100 \<rparr> \<rparr>, example_instance 1]))) = 12"
  using summarizeCard_reading
    [of "example_card 0 [(example_instance 0)\<lparr> mi_Reading := zeroReading\<lparr> rd_FBUsedPercent := 100 \<rparr> \<rparr>, example_instance 1]"]
  by (simp add: example_card_def example_instance_def instance_readable_def instance_used_def zeroReading_def)

end
