(* ===== verification/Metrics_Exporter.thy ===== *)
theory Metrics_Exporter
  imports Metrics_Collector
begin

text \<open>
  \<open>internal/metrics/exporter.go\<close>: who holds which device, and one scrape. The API server is a parameter, a
  record of list operations; a list that fails is the left side of a sum.
\<close>

section \<open>exporter.go\<close>

definition metric_help :: labels where
  "metric_help = fmap_of_list
     [(metric_GPUUtil, ''GPU utilization (in %).''), (metric_MemCopyUtil, ''Memory utilization (in %).''),
      (FBUsed, ''Framebuffer memory used (in MiB).''), (FBFree, ''Framebuffer memory free (in MiB).''),
      (metric_GREngineActive, ''Ratio of time the graphics engine is active.''),
      (metric_TensorActive, ''Ratio of cycles the tensor (HMMA) pipe is active.''),
      (PowerUsage, ''Power draw (in W).''), (GPUTemp, ''GPU temperature (in C).''),
      (XIDErrors, ''Value of the last XID error encountered.'')]"

record ClaimConsumer =
  cc_Resource :: string
  cc_Name :: string

record AllocationResult =
  ar_Driver :: string
  ar_Pool :: string
  ar_Device :: string

record ResourceClaim =
  rc_Namespace :: string
  rc_Allocation :: "AllocationResult list option"
  rc_ReservedFor :: "ClaimConsumer list"

record Pod =
  pd_Namespace :: string
  pd_Name :: string
  pd_Labels :: labels

definition podsResource :: string where "podsResource = ''pods''"

definition claim_holder :: "ResourceClaim \<Rightarrow> Holder" where
  "claim_holder claim =
     (case find (\<lambda>c. cc_Resource c = podsResource) (rc_ReservedFor claim) of
        None \<Rightarrow> noHolder
      | Some c \<Rightarrow> \<lparr> ho_Namespace = rc_Namespace claim, ho_Pod = cc_Name c, ho_Container = [] \<rparr>)"

definition holders_step :: "(Allocation, Holder) fmap \<Rightarrow> ResourceClaim \<Rightarrow> (Allocation, Holder) fmap" where
  "holders_step held claim =
     (case rc_Allocation claim of
        None \<Rightarrow> held
      | Some results \<Rightarrow>
          (let holder = claim_holder claim in
           if ho_Pod holder = [] then held
           else foldl (\<lambda>m r. if ar_Driver r \<noteq> DriverName then m
                             else fmupd \<lparr> al_Pool = ar_Pool r, al_Device = ar_Device r \<rparr> holder m) held results))"

definition Holders :: "ResourceClaim list \<Rightarrow> (Allocation, Holder) fmap" where
  "Holders claims = foldl holders_step fmempty claims"

record ('e, 'q, 'm) reader =
  r_ListPools :: "'e + 'm GPUPool list"
  r_ListModels :: "'e + 'q GPUModel list"
  r_ListSlices :: "'e + 'q ResourceSlice list"
  r_ListClaims :: "'e + ResourceClaim list"
  r_ListPods :: "'e + Pod list"

definition snapshot :: "('e, 'q, 'm) reader \<Rightarrow> 'q quantity_ops \<Rightarrow> selector_sem \<Rightarrow> 'e + Card list" where
  "snapshot rd Q sel =
     (case r_ListPools rd of Inl e \<Rightarrow> Inl e | Inr pools \<Rightarrow>
      (case r_ListModels rd of Inl e \<Rightarrow> Inl e | Inr modelList \<Rightarrow>
       (case r_ListSlices rd of Inl e \<Rightarrow> Inl e | Inr published \<Rightarrow>
        (case r_ListClaims rd of Inl e \<Rightarrow> Inl e | Inr claims \<Rightarrow>
          (let models = foldl (\<lambda>m x. fmupd (model_Name x) x m) fmempty modelList;
               workloads = (case r_ListPods rd of Inl _ \<Rightarrow> fmempty
                            | Inr pods \<Rightarrow> foldl (\<lambda>m p. fmupd \<lparr> ho_Namespace = pd_Namespace p, ho_Pod = pd_Name p,
                                                              ho_Container = [] \<rparr> (pd_Labels p) m) fmempty pods)
           in Inr (CardsFrom Q sel pools models published (Holders claims) workloads))))))"

text \<open>A gauge with its description, as \<open>NewDesc\<close> and \<open>MustNewConstMetric\<close> take them.\<close>

record Metric =
  me_Name :: string
  me_Help :: string
  me_ConstLabels :: labels
  me_Value :: sample

definition Collect :: "('e, 'q, 'm) reader \<Rightarrow> 'q quantity_ops \<Rightarrow> selector_sem \<Rightarrow> Metric list" where
  "Collect rd Q sel =
     (case snapshot rd Q sel of
        Inl _ \<Rightarrow> []
      | Inr cards \<Rightarrow>
          map (\<lambda>s. \<lparr> me_Name = sr_Name s, me_Help = get_str metric_help (sr_Name s), me_ConstLabels = sr_Labels s,
                      me_Value = sr_Value s \<rparr>) (Build cards))"

section \<open>Lemmas\<close>

text \<open>A claim that makes a pod hold a simulated device.\<close>

definition claim_holds :: "Allocation \<Rightarrow> ResourceClaim \<Rightarrow> bool" where
  "claim_holds a c \<longleftrightarrow> ho_Pod (claim_holder c) \<noteq> []
     \<and> (case rc_Allocation c of None \<Rightarrow> False
        | Some rs \<Rightarrow> list_ex (\<lambda>r. ar_Driver r = DriverName \<and> ar_Pool r = al_Pool a \<and> ar_Device r = al_Device a) rs)"

lemma results_lookup:
  "fmlookup (foldl (\<lambda>m r. if ar_Driver r \<noteq> DriverName then m
       else fmupd \<lparr> al_Pool = ar_Pool r, al_Device = ar_Device r \<rparr> h m) held rs) a =
     (if list_ex (\<lambda>r. ar_Driver r = DriverName \<and> ar_Pool r = al_Pool a \<and> ar_Device r = al_Device a) rs then Some h
      else fmlookup held a)"
  by (induction rs arbitrary: held) auto

lemma holders_step_lookup:
  "fmlookup (holders_step held c) a = (if claim_holds a c then Some (claim_holder c) else fmlookup held a)"
  by (simp add: holders_step_def claim_holds_def Let_def results_lookup split: option.split)

lemma metric_help_total: "n \<in> set (util_names @ [PowerUsage, GPUTemp, XIDErrors]) \<Longrightarrow> get_str metric_help n \<noteq> []"
  by (auto simp: util_names_def metric_help_def metric_name_defs get_str_def fmlookup_of_list)

lemma card_series_names:
  assumes "s \<in> set (card_series c)"
  shows "sr_Name s \<in> set (util_names @ [PowerUsage, GPUTemp, XIDErrors])"
proof -
  have "series_key s \<in> set (map series_key (card_series c))" using assms by simp
  then show ?thesis unfolding card_series_keys by (auto simp: series_key_def card_names_def split: if_splits)
qed

section \<open>Properties\<close>

text \<open>
  A device is attributed to the pod of the last claim that allocates it through this driver and is
  reserved for a pod; claims of other drivers, claims without an allocation and claims that no pod has
  reserved attribute nothing.
\<close>

theorem Holders_spec:
  "fmlookup (Holders claims) a = map_option claim_holder (find (claim_holds a) (rev claims))"
  by (induction claims rule: rev_induct) (simp_all add: Holders_def holders_step_lookup)


definition example_reader :: "(string, int, unit) reader" where
  "example_reader = \<lparr> r_ListPools = Inr [example_pool 1 SharingModeNone [] [] []], r_ListModels = Inr [example_model],
     r_ListSlices = Inr [], r_ListClaims = Inr [], r_ListPods = Inl ''forbidden'' \<rparr>"


end
