(* ===== verification/Metrics_Server.thy ===== *)
theory Metrics_Server
  imports Metrics_Exporter
begin

text \<open>
  \<open>internal/metrics/server.go\<close>: the HTTP server of the exporter. \<open>Start\<close> runs two threads, itself and the goroutine
  that listens, which meet at a channel of capacity one; it is a step relation on their control points, the channel and
  the context. What \<open>net/http\<close> documents is in the steps: \<open>ListenAndServe\<close> returns an error in any case, and
  \<open>ErrServerClosed\<close> after, and only after, \<open>Shutdown\<close> was called. The Prometheus client is a parameter: what
  \<open>Register\<close> says of the descriptors of a collector, and what \<open>Gather\<close> says of the metrics it collects. Paths
  are those a \<open>ServeMux\<close> serves without a redirect; logging is left out.
\<close>

section \<open>server.go\<close>

definition metrics_Path :: string where "metrics_Path = ''/metrics''"

definition DefaultAddr :: string where "DefaultAddr = '':9400''"

record ('e, 'q, 'm) Server =
  sv_Addr :: string
  sv_Exporter :: "('e, 'q, 'm) reader"

definition NeedLeaderElection :: "('e, 'q, 'm) Server \<Rightarrow> bool" where
  "NeedLeaderElection s = False"

text \<open>The descriptors \<open>Exporter.Describe\<close> sends.\<close>

definition Describe :: "('e, 'q, 'm) reader \<Rightarrow> string list" where
  "Describe e = []"

record 'p prometheus =
  prom_Register :: "string list \<Rightarrow> 'p option"
  prom_Gather :: "Metric list \<Rightarrow> 'p option"

text \<open>Documented of the client: a collector without descriptors is registered unchecked, and a collection without metrics
  is consistent.\<close>

definition prometheus_laws :: "'p prometheus \<Rightarrow> bool" where
  "prometheus_laws P \<longleftrightarrow> prom_Register P [] = None \<and> prom_Gather P [] = None"

text \<open>The handler: one path, and \<open>HandlerFor\<close> with its default options, under which an error of the collection is a server error.\<close>

datatype 'p Response = PageNotFound | ServerFailure 'p | Exposition "Metric list"

definition serve_http :: "'p prometheus \<Rightarrow> 'q quantity_ops \<Rightarrow> selector_sem \<Rightarrow> ('e, 'q, 'm) Server \<Rightarrow> string \<Rightarrow> 'p Response" where
  "serve_http P Q sel s path =
     (if path = metrics_Path
      then (let metrics = Collect (sv_Exporter s) Q sel
            in case prom_Gather P metrics of Some e \<Rightarrow> ServerFailure e | None \<Rightarrow> Exposition metrics)
      else PageNotFound)"

record http_Server =
  hs_Addr :: string
  hs_ReadHeaderTimeout :: int

definition http_server :: "('e, 'q, 'm) Server \<Rightarrow> http_Server" where
  "http_server s = \<lparr> hs_Addr = (if sv_Addr s = [] then DefaultAddr else sv_Addr s), hs_ReadHeaderTimeout = 10 * 10 ^ 9 \<rparr>"

datatype HttpError = ErrServerClosed | HttpFailure string

datatype 'p StartError = RegisterFailed 'p | ServeFailed HttpError | ShutdownFailed string

text \<open>The control points of \<open>Start\<close> and of its goroutine. \<open>Sending\<close> is the goroutine with the result of \<open>ListenAndServe\<close> in hand.\<close>

datatype 'p start_point = Registering | Selecting | ShuttingDown | Returned "'p StartError option"
datatype serve_point = NotStarted | Listening | Sending "HttpError option" | Ended

record 'p start_state =
  ss_main :: "'p start_point"
  ss_serve :: serve_point
  ss_errs :: "HttpError option list"
  ss_done :: bool
  ss_closed :: bool

definition start_init :: "'p start_state" where
  "start_init = \<lparr> ss_main = Registering, ss_serve = NotStarted, ss_errs = [], ss_done = False, ss_closed = False \<rparr>"

definition errs_capacity :: nat where "errs_capacity = 1"

text \<open>What the goroutine sends for a result of \<open>ListenAndServe\<close>.\<close>

definition sent_value :: "HttpError option \<Rightarrow> HttpError option" where
  "sent_value err = (if err \<noteq> None \<and> err \<noteq> Some ErrServerClosed then err else None)"

text \<open>The steps; \<open>cancelled\<close> is the context's, at any time.\<close>

inductive start_step :: "'p prometheus \<Rightarrow> ('e, 'q, 'm) Server \<Rightarrow> 'p start_state \<Rightarrow> 'p start_state \<Rightarrow> bool" for P sv where
  register_fails: "ss_main s = Registering \<Longrightarrow> prom_Register P (Describe (sv_Exporter sv)) = Some e
    \<Longrightarrow> start_step P sv s (s\<lparr> ss_main := Returned (Some (RegisterFailed e)) \<rparr>)"
| registered: "ss_main s = Registering \<Longrightarrow> prom_Register P (Describe (sv_Exporter sv)) = None
    \<Longrightarrow> start_step P sv s (s\<lparr> ss_main := Selecting, ss_serve := Listening \<rparr>)"
| listen_fails: "ss_serve s = Listening \<Longrightarrow> \<not> ss_closed s \<Longrightarrow> e \<noteq> ErrServerClosed
    \<Longrightarrow> start_step P sv s (s\<lparr> ss_serve := Sending (Some e) \<rparr>)"
| listen_closed: "ss_serve s = Listening \<Longrightarrow> ss_closed s
    \<Longrightarrow> start_step P sv s (s\<lparr> ss_serve := Sending (Some ErrServerClosed) \<rparr>)"
| send: "ss_serve s = Sending err \<Longrightarrow> length (ss_errs s) < errs_capacity
    \<Longrightarrow> start_step P sv s (s\<lparr> ss_serve := Ended, ss_errs := ss_errs s @ [sent_value err] \<rparr>)"
| receive: "ss_main s = Selecting \<Longrightarrow> ss_errs s = err # rest
    \<Longrightarrow> start_step P sv s (s\<lparr> ss_main := Returned (map_option ServeFailed err), ss_errs := rest \<rparr>)"
| select_done: "ss_main s = Selecting \<Longrightarrow> ss_done s
    \<Longrightarrow> start_step P sv s (s\<lparr> ss_main := ShuttingDown, ss_closed := True \<rparr>)"
| shutdown_returns: "ss_main s = ShuttingDown
    \<Longrightarrow> start_step P sv s (s\<lparr> ss_main := Returned (map_option ShutdownFailed result) \<rparr>)"
| cancelled: "\<not> ss_done s \<Longrightarrow> start_step P sv s (s\<lparr> ss_done := True \<rparr>)"

definition start_reachable :: "'p prometheus \<Rightarrow> ('e, 'q, 'm) Server \<Rightarrow> 'p start_state \<Rightarrow> bool" where
  "start_reachable P sv = (start_step P sv)\<^sup>*\<^sup>* start_init"

inductive_cases start_stepE: "start_step P sv s t"

section \<open>Lemmas\<close>

text \<open>The invariant: who may be where, and what the channel may hold.\<close>

definition start_inv :: "'p prometheus \<Rightarrow> ('e, 'q, 'm) Server \<Rightarrow> 'p start_state \<Rightarrow> bool" where
  "start_inv P sv s \<longleftrightarrow>
     (ss_serve s = NotStarted \<longleftrightarrow> ss_main s = Registering \<or> (\<exists>e. ss_main s = Returned (Some (RegisterFailed e))))
   \<and> (ss_errs s = [] \<or> ss_serve s = Ended \<and> (\<exists>v. ss_errs s = [v]))
   \<and> (\<forall>v. v \<in> set (ss_errs s) \<and> \<not> ss_closed s \<longrightarrow> (\<exists>e. v = Some e \<and> e \<noteq> ErrServerClosed))
   \<and> (\<forall>err. ss_serve s = Sending err \<and> \<not> ss_closed s \<longrightarrow> (\<exists>e. err = Some e \<and> e \<noteq> ErrServerClosed))
   \<and> (ss_main s = Selecting \<and> ss_serve s = Ended \<longrightarrow> ss_errs s \<noteq> [])
   \<and> (ss_closed s \<longrightarrow> ss_done s)
   \<and> (ss_serve s \<noteq> NotStarted \<longrightarrow> prom_Register P [] = None)
   \<and> (ss_closed s \<longleftrightarrow> ss_main s = ShuttingDown \<or> (\<exists>r. ss_main s = Returned (map_option ShutdownFailed r)))
   \<and> (\<forall>r. ss_main s = Returned r \<longrightarrow>
        (\<exists>e. r = Some (RegisterFailed e) \<and> prom_Register P [] = Some e)
      \<or> (\<exists>e. r = Some (ServeFailed e) \<and> e \<noteq> ErrServerClosed) \<or> (\<exists>e. r = map_option ShutdownFailed e))"

lemma map_option_Some_iff: "(Some a = map_option f r) = (\<exists>v. r = Some v \<and> a = f v)"
  by (cases r) auto

lemma start_inv_init: "start_inv P sv start_init"
  by (simp add: start_inv_def start_init_def)

lemma start_inv_step: "start_step P sv s t \<Longrightarrow> start_inv P sv s \<Longrightarrow> start_inv P sv t"
  by (induction rule: start_step.induct)
    (auto simp: start_inv_def errs_capacity_def sent_value_def Describe_def map_option_Some_iff)

lemma start_inv_reachable: "start_reachable P sv s \<Longrightarrow> start_inv P sv s"
  unfolding start_reachable_def by (induction rule: rtranclp_induct) (auto intro: start_inv_init start_inv_step)

text \<open>Every step, the context's included, brings the end nearer.\<close>

fun main_left :: "'p start_point \<Rightarrow> nat" where
  "main_left Registering = 5"
| "main_left Selecting = 2"
| "main_left ShuttingDown = 1"
| "main_left (Returned _) = 0"

fun serve_left :: "serve_point \<Rightarrow> nat" where
  "serve_left NotStarted = 3"
| "serve_left Listening = 2"
| "serve_left (Sending _) = 1"
| "serve_left Ended = 0"

definition start_left :: "'p start_state \<Rightarrow> nat" where
  "start_left s = main_left (ss_main s) + serve_left (ss_serve s) + (if ss_done s then 0 else 1)"

lemma start_left_step: "start_step P sv s t \<Longrightarrow> start_left t < start_left s"
  by (induction rule: start_step.induct) (auto simp: start_left_def)

text \<open>A state without a step is one in which both threads have ended.\<close>

lemma start_stuck:
  assumes inv: "start_inv P sv s" and stuck: "\<And>t. \<not> start_step P sv s t"
  shows "(\<exists>r. ss_main s = Returned r) \<and> ss_serve s \<in> {NotStarted, Ended}"
proof -
  have d: "ss_done s" using stuck start_step.cancelled by metis
  have m: "\<exists>r. ss_main s = Returned r"
  proof (cases "ss_main s")
    case Registering
    then show ?thesis using stuck start_step.register_fails start_step.registered by (metis option.exhaust)
  next
    case Selecting
    then show ?thesis using stuck start_step.select_done d by metis
  next
    case ShuttingDown
    then show ?thesis using stuck start_step.shutdown_returns by metis
  qed simp
  have "ss_serve s \<in> {NotStarted, Ended}"
  proof (cases "ss_serve s")
    case Listening
    then show ?thesis using stuck start_step.listen_fails [of s "HttpFailure []"] start_step.listen_closed by (metis HttpError.distinct(1))
  next
    case (Sending err)
    then have "ss_errs s = []" using inv by (auto simp: start_inv_def)
    then have "start_step P sv s (s\<lparr> ss_serve := Ended, ss_errs := ss_errs s @ [sent_value err] \<rparr>)"
      using Sending by (intro start_step.send) (simp_all add: errs_capacity_def)
    with stuck show ?thesis by blast
  qed simp_all
  with m show ?thesis by simp
qed

section \<open>Properties\<close>

text \<open>
  C38: \<open>Start\<close> in every interleaving with its goroutine and the context. It returns nil only once the context is done, and an error
  that is the registration's, the listener's own (never \<open>ErrServerClosed\<close>) or the shutdown's after the context is done.
  The goroutine's send never blocks. While \<open>Start\<close> waits, its goroutine listens, or has something to say. Every run is finite, and
  where it ends \<open>Start\<close> has returned and the goroutine is gone, or was never started because the registration failed: none is leaked.
\<close>

theorem Start_outcome:
  assumes "start_reachable P sv s"
  shows "(\<forall>r. ss_main s = Returned r \<longrightarrow>
      (case r of
         None \<Rightarrow> ss_done s
       | Some (RegisterFailed e) \<Rightarrow> prom_Register P [] = Some e \<and> ss_serve s = NotStarted
       | Some (ServeFailed e) \<Rightarrow> e \<noteq> ErrServerClosed
       | Some (ShutdownFailed m) \<Rightarrow> ss_done s))
    \<and> (\<forall>err. ss_serve s = Sending err \<longrightarrow> length (ss_errs s) < errs_capacity)
    \<and> (ss_main s = Selecting \<longrightarrow> ss_serve s = Listening \<or> (\<exists>err. ss_serve s = Sending err) \<or> ss_errs s \<noteq> [])
    \<and> wfP (\<lambda>t s. start_step P sv s t)
    \<and> ((\<forall>t. \<not> start_step P sv s t) \<longrightarrow>
         (\<exists>r. ss_main s = Returned r) \<and> ss_serve s = (if prom_Register P [] = None then Ended else NotStarted))"
proof (intro conjI impI)
  note inv = start_inv_reachable [OF assms]
  show "\<forall>r. ss_main s = Returned r \<longrightarrow>
      (case r of
         None \<Rightarrow> ss_done s
       | Some (RegisterFailed e) \<Rightarrow> prom_Register P [] = Some e \<and> ss_serve s = NotStarted
       | Some (ServeFailed e) \<Rightarrow> e \<noteq> ErrServerClosed
       | Some (ShutdownFailed m) \<Rightarrow> ss_done s)"
    using inv by (auto simp: start_inv_def map_option_Some_iff split: option.split StartError.split)
  show "\<forall>err. ss_serve s = Sending err \<longrightarrow> length (ss_errs s) < errs_capacity"
    using inv by (auto simp: start_inv_def errs_capacity_def)
  show "ss_serve s = Listening \<or> (\<exists>err. ss_serve s = Sending err) \<or> ss_errs s \<noteq> []" if "ss_main s = Selecting"
    using inv that by (cases "ss_serve s") (auto simp: start_inv_def)
  show "wfP (\<lambda>t s. start_step P sv s t)"
    by (rule wfp_if_convertible_to_nat [of _ start_left]) (rule start_left_step)
next
  assume stuck: "\<forall>t. \<not> start_step P sv s t"
  note inv = start_inv_reachable [OF assms]
  note ended = start_stuck [OF inv stuck [rule_format]]
  then show "\<exists>r. ss_main s = Returned r" ..
  from ended inv show "ss_serve s = (if prom_Register P [] = None then Ended else NotStarted)"
    by (auto simp: start_inv_def)
qed

text \<open>A run that is cancelled while it listens, shuts down and ends.\<close>

definition quiet_prometheus :: "string prometheus" where
  "quiet_prometheus = \<lparr> prom_Register = (\<lambda>_. None), prom_Gather = (\<lambda>_. None) \<rparr>"

definition example_server :: "(string, int, unit) Server" where
  "example_server = \<lparr> sv_Addr = [], sv_Exporter = example_reader \<rparr>"

definition stopped_state :: "string start_state" where
  "stopped_state = \<lparr> ss_main = Returned None, ss_serve = Listening, ss_errs = [], ss_done = True, ss_closed = True \<rparr>"

lemma stopped_state_reachable: "start_reachable quiet_prometheus example_server stopped_state"
proof -
  let ?step = "start_step quiet_prometheus example_server"
  have "?step start_init (start_init\<lparr> ss_main := Selecting, ss_serve := Listening \<rparr>)"
    by (rule start_step.registered) (simp_all add: start_init_def quiet_prometheus_def)
  moreover have "?step (start_init\<lparr> ss_main := Selecting, ss_serve := Listening \<rparr>)
      (start_init\<lparr> ss_main := Selecting, ss_serve := Listening, ss_done := True \<rparr>)"
    using start_step.cancelled [of "start_init\<lparr> ss_main := Selecting, ss_serve := Listening \<rparr>" quiet_prometheus example_server]
    by (simp add: start_init_def)
  moreover have "?step (start_init\<lparr> ss_main := Selecting, ss_serve := Listening, ss_done := True \<rparr>)
      (start_init\<lparr> ss_main := ShuttingDown, ss_serve := Listening, ss_done := True, ss_closed := True \<rparr>)"
    using start_step.select_done [of "start_init\<lparr> ss_main := Selecting, ss_serve := Listening, ss_done := True \<rparr>" quiet_prometheus example_server]
    by (simp add: start_init_def)
  moreover have "?step (start_init\<lparr> ss_main := ShuttingDown, ss_serve := Listening, ss_done := True, ss_closed := True \<rparr>) stopped_state"
    using start_step.shutdown_returns [of "start_init\<lparr> ss_main := ShuttingDown, ss_serve := Listening, ss_done := True, ss_closed := True \<rparr>"
        quiet_prometheus example_server None] by (simp add: start_init_def stopped_state_def)
  ultimately show ?thesis unfolding start_reachable_def by (meson rtranclp.rtrancl_into_rtrancl rtranclp.rtrancl_refl)
qed

theorem Start_outcome_witness:
  "ss_main stopped_state = Returned None \<and> ss_done stopped_state
   \<and> wfP (\<lambda>t s. start_step quiet_prometheus example_server s t)"
  using Start_outcome [OF stopped_state_reachable] by (simp add: stopped_state_def)

text \<open>With the documented Prometheus client the registration does not fail: the exporter describes nothing.\<close>

theorem Start_registers:
  assumes "prometheus_laws P" "start_reachable P sv s"
  shows "ss_main s \<noteq> Returned (Some (RegisterFailed e))"
  using start_inv_reachable [OF assms(2)] assms(1) by (auto simp: start_inv_def prometheus_laws_def map_option_Some_iff)

text \<open>
  A cluster that could not be read is served as a cluster without GPUs: the collector emits no metric and reports
  no error, so the answer is an empty exposition with status 200. The comment of \<open>Collect\<close> says that the scrape is
  recorded as failed.
\<close>

theorem failed_scrape_is_served:
  assumes "prometheus_laws P" "isl (snapshot (sv_Exporter s) Q sel)"
  shows "serve_http P Q sel s metrics_Path = Exposition []"
  using assms by (auto simp: serve_http_def Collect_def prometheus_laws_def isl_def)

theorem failed_scrape_is_served_witness:
  "serve_http quiet_prometheus int_quantity (\<lambda>ps l. None)
     \<lparr> sv_Addr = [], sv_Exporter = example_reader\<lparr> r_ListSlices := Inl ''timeout'' \<rparr> \<rparr> metrics_Path = Exposition []"
  by (rule failed_scrape_is_served)
    (simp_all add: prometheus_laws_def quiet_prometheus_def snapshot_def example_reader_def)

end
