(* ===== verification/Go_Flags.thy ===== *)
theory Go_Flags
  imports Go_Strings
begin

text \<open>
  What the two binaries use of Go's package \<open>flag\<close>, and of the parsers behind its values: \<open>strconv.ParseBool\<close>,
  \<open>strconv.ParseInt\<close> with base 0, and \<open>time.ParseDuration\<close>, which computes fractions in \<open>float64\<close> (\<open>round64\<close>, rounding to
  nearest, ties to even; the numbers that occur are neither subnormal nor infinite). The set of flags is a finite map from
  names to values, whose constructors say what kind of flag a name is. The text of an error is kept as a value.
\<close>

section \<open>strconv\<close>

definition ParseBool :: "string \<Rightarrow> bool option" where
  "ParseBool s =
     (if s \<in> {''1'', ''t'', ''T'', ''TRUE'', ''true'', ''True''} then Some True
      else if s \<in> {''0'', ''f'', ''F'', ''FALSE'', ''false'', ''False''} then Some False
      else None)"

text \<open>The letters of either case; the source sets bit 5.\<close>

definition lower_byte :: "char \<Rightarrow> nat" where
  "lower_byte c = (if 65 \<le> byte c \<and> byte c \<le> 90 then byte c + 32 else byte c)"

definition any_digit :: "char \<Rightarrow> nat option" where
  "any_digit c =
     (if is_digit c then Some (digit_val c)
      else if 97 \<le> lower_byte c \<and> lower_byte c \<le> 122 then Some (lower_byte c - 97 + 10)
      else None)"

text \<open>The base and the digits of a number without a sign.\<close>

definition number_base :: "string \<Rightarrow> nat \<times> string" where
  "number_base s =
     (case s of
        z # x # y # rest \<Rightarrow>
          if z \<noteq> CHR ''0'' then (10, s)
          else if lower_byte x = 98 then (2, y # rest)
          else if lower_byte x = 111 then (8, y # rest)
          else if lower_byte x = 120 then (16, y # rest)
          else (8, tl s)
      | z # rest \<Rightarrow> if z = CHR ''0'' then (8, rest) else (10, s)
      | [] \<Rightarrow> (10, s))"

fun base_digits :: "nat \<Rightarrow> nat \<Rightarrow> string \<Rightarrow> nat option" where
  "base_digits b acc [] = Some acc"
| "base_digits b acc (c # cs) =
     (if c = CHR ''_'' then base_digits b acc cs
      else (case any_digit c of None \<Rightarrow> None | Some d \<Rightarrow> if d < b then base_digits b (b * acc + d) cs else None))"

text \<open>\<open>underscoreOK\<close> after the sign: an underscore stands between digits, a base prefix counting as a digit.\<close>

datatype seen = SawBegin | SawDigit | SawUnderscore | SawOther

fun underscores :: "bool \<Rightarrow> seen \<Rightarrow> string \<Rightarrow> bool" where
  "underscores hex saw [] \<longleftrightarrow> saw \<noteq> SawUnderscore"
| "underscores hex saw (c # cs) \<longleftrightarrow>
     (if is_digit c \<or> hex \<and> 97 \<le> lower_byte c \<and> lower_byte c \<le> 102 then underscores hex SawDigit cs
      else if c = CHR ''_'' then saw = SawDigit \<and> underscores hex SawUnderscore cs
      else saw \<noteq> SawUnderscore \<and> underscores hex SawOther cs)"

definition underscoreOK :: "string \<Rightarrow> bool" where
  "underscoreOK s =
     (case s of
        z # x # rest \<Rightarrow>
          if z = CHR ''0'' \<and> lower_byte x \<in> {98, 111, 120} then underscores (lower_byte x = 120) SawDigit rest
          else underscores False SawBegin s
      | _ \<Rightarrow> underscores False SawBegin s)"

definition ParseUint0 :: "string \<Rightarrow> nat option" where
  "ParseUint0 s =
     (if s = [] then None
      else (case number_base s of (b, ds) \<Rightarrow>
        (case base_digits b 0 ds of None \<Rightarrow> None
         | Some n \<Rightarrow> if CHR ''_'' \<in> set ds \<and> \<not> underscoreOK s then None else Some n)))"

text \<open>\<open>ParseInt(s, 0, 64)\<close>; a value out of range and a syntax error are both \<open>None\<close>.\<close>

definition ParseInt0 :: "string \<Rightarrow> int option" where
  "ParseInt0 s =
     (case s of
        [] \<Rightarrow> None
      | c # cs \<Rightarrow>
          (if c = CHR ''-'' then
             (case ParseUint0 cs of None \<Rightarrow> None | Some n \<Rightarrow> if int n \<le> 2 ^ 63 then Some (- int n) else None)
           else
             (case ParseUint0 (if c = CHR ''+'' then cs else s) of None \<Rightarrow> None
              | Some n \<Rightarrow> if int n < 2 ^ 63 then Some (int n) else None)))"

section \<open>float64\<close>

definition power2 :: "int \<Rightarrow> rat" where
  "power2 k = (if 0 \<le> k then 2 ^ nat k else 1 / 2 ^ nat (- k))"

text \<open>The number of binary digits of a positive integer.\<close>

function bits :: "int \<Rightarrow> int" where
  "bits n = (if n \<le> 0 then 0 else bits (n div 2) + 1)"
  by pat_completeness auto

termination by (relation "measure nat") auto

declare bits.simps [simp del]

text \<open>The exponent of a positive number: \<open>2 ^ k \<le> x < 2 ^ (k + 1)\<close>.\<close>

definition exponent2 :: "rat \<Rightarrow> int" where
  "exponent2 x =
     (case quotient_of x of (p, q) \<Rightarrow>
        (let k = bits p - bits q in if x < power2 k then k - 1 else k))"

definition round_even :: "rat \<Rightarrow> int" where
  "round_even x =
     (let f = \<lfloor>x\<rfloor>; r = x - of_int f in
      if r < 1 / 2 then f else if r > 1 / 2 then f + 1 else if even f then f else f + 1)"

definition round64 :: "rat \<Rightarrow> rat" where
  "round64 x = (if x \<le> 0 then 0 else (let e = exponent2 x - 52 in of_int (round_even (x / power2 e)) * power2 e))"

section \<open>time.ParseDuration\<close>

text \<open>The bytes of the two spellings of microseconds with a Greek letter.\<close>

definition unit_ns :: "string \<Rightarrow> int option" where
  "unit_ns u =
     map_of [(''ns'', 1), (''us'', 10 ^ 3), ([CHR 0xC2, CHR 0xB5, CHR ''s''], 10 ^ 3), ([CHR 0xCE, CHR 0xBC, CHR ''s''], 10 ^ 3),
       (''ms'', 10 ^ 6), (''s'', 10 ^ 9), (''m'', 60 * 10 ^ 9), (''h'', 3600 * 10 ^ 9)] u"

text \<open>\<open>leadingFraction\<close>: digits that no longer fit are skipped.\<close>

fun leadingFraction :: "string \<Rightarrow> int \<Rightarrow> int \<Rightarrow> bool \<Rightarrow> int \<times> int" where
  "leadingFraction [] x scale overflow = (x, scale)"
| "leadingFraction (c # cs) x scale overflow =
     (if overflow \<or> x > (2 ^ 63 - 1) div 10 \<or> x * 10 + int (digit_val c) > 2 ^ 63 then leadingFraction cs x scale True
      else leadingFraction cs (x * 10 + int (digit_val c)) (scale * 10) False)"

text \<open>One part of a duration: the digits before and after the point, the unit, and the rest.\<close>

definition next_part :: "string \<Rightarrow> string \<times> string \<times> string \<times> string" where
  "next_part s =
     (let s1 = dropWhile is_digit s;
          dot = (s1 \<noteq> [] \<and> hd s1 = CHR ''.'');
          s2 = (if dot then dropWhile is_digit (tl s1) else s1);
          in_unit = (\<lambda>c. c \<noteq> CHR ''.'' \<and> \<not> is_digit c)
      in (takeWhile is_digit s, if dot then takeWhile is_digit (tl s1) else [], takeWhile in_unit s2, dropWhile in_unit s2))"

lemma next_part_shorter:
  assumes "next_part s = (ds, fs, u, rest)" "u \<noteq> []"
  shows "length rest < length s"
proof -
  let ?u = "\<lambda>c. c \<noteq> CHR ''.'' \<and> \<not> is_digit c"
  have unit: "length (dropWhile ?u t) < length t" if "takeWhile ?u t \<noteq> []" for t
    using that by (cases t) (auto simp: less_Suc_eq_le length_dropWhile_le split: if_splits)
  obtain t where "u = takeWhile ?u t" "rest = dropWhile ?u t" "t = dropWhile is_digit (tl (dropWhile is_digit s)) \<or> t = dropWhile is_digit s"
    using assms(1) by (auto simp: next_part_def Let_def)
  moreover from this(3) have "length t \<le> length s"
    using length_dropWhile_le [of is_digit s] length_dropWhile_le [of is_digit "tl (dropWhile is_digit s)"] by auto
  ultimately show ?thesis using unit [of t] assms(2) by simp
qed

text \<open>The value of a part; \<open>None\<close> for a part without digits, an unknown unit or an overflow.\<close>

definition part_ns :: "string \<Rightarrow> string \<Rightarrow> string \<Rightarrow> int option" where
  "part_ns ds fs u =
     (let v = int (digits_val ds) in
      if v > 2 ^ 63 \<or> ds = [] \<and> fs = [] then None
      else (case unit_ns u of None \<Rightarrow> None | Some unit \<Rightarrow>
        if v > 2 ^ 63 div unit then None
        else (case leadingFraction fs 0 1 False of (f, scale) \<Rightarrow>
          (let part = v * unit + (if f > 0 then \<lfloor>round64 (round64 (of_int f) * round64 (of_int unit / of_int scale))\<rfloor> else 0)
           in if part > 2 ^ 63 then None else Some part))))"

text \<open>The loop over the parts; \<open>d\<close> is the sum so far.\<close>

function duration_loop :: "int \<Rightarrow> string \<Rightarrow> int option" where
  "duration_loop d s =
     (if s = [] then Some d
      else (case next_part s of (ds, fs, u, rest) \<Rightarrow>
        if u = [] then None
        else (case part_ns ds fs u of None \<Rightarrow> None
              | Some part \<Rightarrow> if d + part > 2 ^ 63 then None else duration_loop (d + part) rest)))"
  by pat_completeness auto

termination by (relation "measure (\<lambda>(d, s). length s)") (auto dest: next_part_shorter [OF sym])

definition ParseDuration :: "string \<Rightarrow> int option" where
  "ParseDuration s =
     (let neg = (s \<noteq> [] \<and> hd s = CHR ''-'');
          rest = (if s \<noteq> [] \<and> hd s \<in> {CHR ''-'', CHR ''+''} then tl s else s)
      in if rest = ''0'' then Some 0
         else if rest = [] then None
         else (case duration_loop 0 rest of None \<Rightarrow> None
               | Some d \<Rightarrow> if neg then Some (- d) else if d > 2 ^ 63 - 1 then None else Some d))"

section \<open>Package flag\<close>

datatype flag_value = StringValue string | BoolValue bool | IntValue int | DurationValue int

type_synonym flags = "(string, flag_value) fmap"

fun Set :: "flag_value \<Rightarrow> string \<Rightarrow> flag_value option" where
  "Set (StringValue _) s = Some (StringValue s)"
| "Set (BoolValue _) s = map_option BoolValue (ParseBool s)"
| "Set (IntValue _) s = map_option IntValue (ParseInt0 s)"
| "Set (DurationValue _) s = map_option DurationValue (ParseDuration s)"

fun IsBoolFlag :: "flag_value \<Rightarrow> bool" where
  "IsBoolFlag (BoolValue _) = True"
| "IsBoolFlag _ = False"

datatype FlagError =
    BadFlagSyntax string
  | NotDefined string
  | ErrHelp
  | InvalidBool string string
  | NeedsArgument string
  | InvalidValue string string

datatype parse_step = Seen flags "string list" | Stopped "string list" | FlagFailed FlagError

text \<open>The name of a flag and the value written after the first equals sign that is not its first byte.\<close>

definition name_value :: "string \<Rightarrow> string \<times> string option" where
  "name_value s =
     (case s of
        [] \<Rightarrow> ([], None)
      | c # cs \<Rightarrow> (case Cut cs (CHR ''='') of (name, val, found) \<Rightarrow> (c # name, if found then Some val else None)))"

definition set_flag :: "flags \<Rightarrow> string \<Rightarrow> string option \<Rightarrow> string list \<Rightarrow> parse_step" where
  "set_flag fs name val args =
     (case fmlookup fs name of
        None \<Rightarrow> FlagFailed (if name = ''help'' \<or> name = ''h'' then ErrHelp else NotDefined name)
      | Some v \<Rightarrow>
          if IsBoolFlag v then
            (let written = (case val of None \<Rightarrow> ''true'' | Some s \<Rightarrow> s) in
             case Set v written of None \<Rightarrow> FlagFailed (InvalidBool written name) | Some v' \<Rightarrow> Seen (fmupd name v' fs) args)
          else
            (case (case val of
                     Some s \<Rightarrow> Some (s, args)
                   | None \<Rightarrow> (case args of [] \<Rightarrow> None | s # rest \<Rightarrow> Some (s, rest))) of
               None \<Rightarrow> FlagFailed (NeedsArgument name)
             | Some (s, rest) \<Rightarrow>
                 (case Set v s of None \<Rightarrow> FlagFailed (InvalidValue s name) | Some v' \<Rightarrow> Seen (fmupd name v' fs) rest)))"

definition parseOne :: "flags \<Rightarrow> string list \<Rightarrow> parse_step" where
  "parseOne fs args =
     (case args of
        [] \<Rightarrow> Stopped []
      | s # rest \<Rightarrow>
          if length s < 2 \<or> hd s \<noteq> CHR ''-'' then Stopped args
          else if s = ''--'' then Stopped rest
          else
            (let name = (if s ! 1 = CHR ''-'' then drop 2 s else drop 1 s) in
             if name = [] \<or> hd name = CHR ''-'' \<or> hd name = CHR ''='' then FlagFailed (BadFlagSyntax s)
             else (case name_value name of (n, val) \<Rightarrow> set_flag fs n val rest)))"

lemma set_flag_shorter: "set_flag fs name val args = Seen fs' rest \<Longrightarrow> length rest \<le> length args"
  by (auto simp: set_flag_def Let_def split: option.splits if_splits list.splits prod.splits)

lemma parseOne_shorter: "parseOne fs args = Seen fs' rest \<Longrightarrow> length rest < length args"
  by (auto simp: parseOne_def Let_def split: list.splits if_splits prod.splits dest!: set_flag_shorter)

text \<open>\<open>Parse\<close>: the values of the flags and the arguments left over, or the error.\<close>

function flag_Parse :: "flags \<Rightarrow> string list \<Rightarrow> FlagError + flags \<times> string list" where
  "flag_Parse fs args =
     (case parseOne fs args of
        Seen fs' rest \<Rightarrow> flag_Parse fs' rest
      | Stopped rest \<Rightarrow> Inr (fs, rest)
      | FlagFailed e \<Rightarrow> Inl e)"
  by pat_completeness auto

termination by (relation "measure (\<lambda>(fs, args). length args)") (auto dest: parseOne_shorter)

declare flag_Parse.simps [simp del]
declare duration_loop.simps [simp del]

text \<open>Under \<open>ExitOnError\<close> an error ends the process: 0 after a request for help, 2 otherwise.\<close>

definition flag_exit :: "FlagError \<Rightarrow> int" where
  "flag_exit e = (if e = ErrHelp then 0 else 2)"

text \<open>The variables that flags are bound to.\<close>

definition string_flag :: "flags \<Rightarrow> string \<Rightarrow> string" where
  "string_flag fs k = (case fmlookup fs k of Some (StringValue s) \<Rightarrow> s | _ \<Rightarrow> [])"

definition bool_flag :: "flags \<Rightarrow> string \<Rightarrow> bool" where
  "bool_flag fs k = (case fmlookup fs k of Some (BoolValue b) \<Rightarrow> b | _ \<Rightarrow> False)"

definition int_flag :: "flags \<Rightarrow> string \<Rightarrow> int" where
  "int_flag fs k = (case fmlookup fs k of Some (IntValue n) \<Rightarrow> n | _ \<Rightarrow> 0)"

definition duration_flag :: "flags \<Rightarrow> string \<Rightarrow> int" where
  "duration_flag fs k = (case fmlookup fs k of Some (DurationValue n) \<Rightarrow> n | _ \<Rightarrow> 0)"

section \<open>Lemmas\<close>

text \<open>The kinds of the flags are kept.\<close>

fun same_kind :: "flag_value \<Rightarrow> flag_value \<Rightarrow> bool" where
  "same_kind (StringValue _) v = (\<exists>s. v = StringValue s)"
| "same_kind (BoolValue _) v = (\<exists>b. v = BoolValue b)"
| "same_kind (IntValue _) v = (\<exists>n. v = IntValue n)"
| "same_kind (DurationValue _) v = (\<exists>n. v = DurationValue n)"

definition same_flags :: "flags \<Rightarrow> flags \<Rightarrow> bool" where
  "same_flags fs fs' \<longleftrightarrow> fmdom fs' = fmdom fs \<and> (\<forall>k v v'. fmlookup fs k = Some v \<and> fmlookup fs' k = Some v' \<longrightarrow> same_kind v v')"

lemma same_kind_refl [simp]: "same_kind v v"
  by (cases v) auto

lemma same_kind_trans: "same_kind u v \<Longrightarrow> same_kind v w \<Longrightarrow> same_kind u w"
  by (cases u) auto

lemma Set_kind: "Set v s = Some v' \<Longrightarrow> same_kind v v'"
  by (cases v) auto

lemma same_flags_trans:
  assumes "same_flags a b" "same_flags b c"
  shows "same_flags a c"
proof -
  have "same_kind v v''" if "fmlookup a k = Some v" "fmlookup c k = Some v''" for k v v''
  proof -
    have "k |\<in>| fmdom b" using assms(1) fmdomI [OF that(1)] by (simp add: same_flags_def)
    then obtain v' where "fmlookup b k = Some v'" by (auto simp: fmlookup_dom_iff)
    then show ?thesis using assms that unfolding same_flags_def by (meson same_kind_trans)
  qed
  then show ?thesis using assms by (auto simp: same_flags_def)
qed

lemma same_flags_upd: "fmlookup fs k = Some v \<Longrightarrow> same_kind v v' \<Longrightarrow> same_flags fs (fmupd k v' fs)"
  by (auto simp: same_flags_def fmdomI fset_eq_iff fmlookup_dom_iff)

lemma set_flag_kinds: "set_flag fs name val args = Seen fs' rest \<Longrightarrow> same_flags fs fs'"
  by (auto simp: set_flag_def Let_def split: option.splits if_splits list.splits prod.splits intro!: same_flags_upd dest: Set_kind)

lemma parseOne_kinds: "parseOne fs args = Seen fs' rest \<Longrightarrow> same_flags fs fs'"
  by (auto simp: parseOne_def Let_def split: list.splits if_splits prod.splits dest!: set_flag_kinds)

lemma flag_Parse_kinds: "flag_Parse fs args = Inr (fs', rest) \<Longrightarrow> same_flags fs fs'"
proof (induction fs args rule: flag_Parse.induct)
  case (1 fs args)
  show ?case
  proof (cases "parseOne fs args")
    case (Seen fs1 rest1)
    then have "same_flags fs1 fs'" using 1 by (simp add: flag_Parse.simps [of fs args])
    then show ?thesis using parseOne_kinds [OF Seen] by (rule same_flags_trans [rotated])
  qed (use 1 in \<open>auto simp: flag_Parse.simps [of fs args] same_flags_def\<close>)
qed

text \<open>A value written with the name of its flag, after two dashes.\<close>

fun render_value :: "flag_value \<Rightarrow> string" where
  "render_value (StringValue s) = s"
| "render_value (BoolValue b) = (if b then ''true'' else ''false'')"
| "render_value (IntValue n) = Itoa n"
| "render_value (DurationValue n) = Itoa n @ ''ns''"

definition render_flag :: "string \<times> flag_value \<Rightarrow> string" where
  "render_flag = (\<lambda>(name, v). ''--'' @ name @ ''='' @ render_value v)"

fun in_range :: "flag_value \<Rightarrow> bool" where
  "in_range (IntValue n) = int64_range n"
| "in_range (DurationValue n) = int64_range n"
| "in_range _ = True"

definition flag_name :: "string \<Rightarrow> bool" where
  "flag_name s \<longleftrightarrow> s \<noteq> [] \<and> hd s \<noteq> CHR ''-'' \<and> CHR ''='' \<notin> set s"

lemma base_digits_10: "list_all is_digit s \<Longrightarrow> base_digits 10 acc s = Some (foldl (\<lambda>acc c. 10 * acc + digit_val c) acc s)"
proof (induction s arbitrary: acc)
  case (Cons c s)
  then have "c \<noteq> CHR ''_''" "any_digit c = Some (digit_val c)" "digit_val c < 10"
    by (auto simp: any_digit_def is_digit_def digit_val_def byte_def)
  then show ?case using Cons by simp
qed simp

lemma dec_digits_lead: "0 < n \<Longrightarrow> hd (dec_digits n) \<noteq> CHR ''0''"
proof (induction n rule: dec_digits.induct)
  case (1 n)
  show ?case
  proof (cases "n < 10")
    case True
    then have "byte (digit_char n) = 48 + n" by (simp add: digit_char_def byte_def)
    then have "digit_char n \<noteq> CHR ''0''" using 1(2) by (auto simp: byte_def)
    then show ?thesis using True by (subst dec_digits.simps) simp
  next
    case False
    then have "hd (dec_digits n) = hd (dec_digits (n div 10))"
      using dec_digits_hd [of "n div 10"] by (subst dec_digits.simps) auto
    then show ?thesis using 1(1) False by simp
  qed
qed

lemma ParseUint0_dec_digits: "ParseUint0 (dec_digits n) = Some n"
proof (cases "n = 0")
  case True
  moreover have "digit_char 0 = CHR ''0''" by code_simp
  ultimately have "dec_digits n = ''0''" by (subst dec_digits.simps) simp
  then show ?thesis using True by (simp add: ParseUint0_def number_base_def)
next
  case False
  obtain c cs where d: "dec_digits n = c # cs" "is_digit c" using dec_digits_hd by blast
  then have "number_base (dec_digits n) = (10, dec_digits n)" using dec_digits_lead [of n] False
    by (auto simp: number_base_def split: list.splits)
  moreover have "CHR ''_'' \<notin> set (dec_digits n)" using dec_digits_digits [of n] by (auto simp: list_all_iff is_digit_def byte_def)
  moreover have "base_digits 10 0 (dec_digits n) = Some n"
    unfolding base_digits_10 [OF dec_digits_digits] using digits_val_dec_digits [of n] by (simp only: digits_val_def)
  ultimately show ?thesis using d by (simp add: ParseUint0_def)
qed

lemma ParseInt0_Itoa:
  assumes "int64_range n"
  shows "ParseInt0 (Itoa n) = Some n"
proof (cases "n < 0")
  case True
  then show ?thesis using assms by (simp add: ParseInt0_def Itoa_def ParseUint0_dec_digits int64_range_def)
next
  case False
  obtain c cs where d: "dec_digits (nat n) = c # cs" "is_digit c" using dec_digits_hd by blast
  have "ParseUint0 (c # cs) = Some (nat n)" using ParseUint0_dec_digits [of "nat n"] by (simp add: d)
  then show ?thesis using False assms is_digit_not_sign [OF d(2)] by (simp add: ParseInt0_def Itoa_def d int64_range_def)
qed

lemma not_digits_ns: "\<not> is_digit CHR ''n''" "\<not> is_digit CHR ''s''"
  by (simp_all add: is_digit_def byte_def)

lemma duration_digits: "n \<le> 2 ^ 63 \<Longrightarrow> duration_loop 0 (dec_digits n @ ''ns'') = Some (int n)"
proof -
  assume n: "n \<le> 2 ^ 63"
  have t: "takeWhile is_digit (dec_digits n @ ''ns'') = dec_digits n" "dropWhile is_digit (dec_digits n @ ''ns'') = ''ns''"
    using dec_digits_digits [of n] not_digits_ns by (simp_all add: list_all_iff takeWhile_append2 dropWhile_append2)
  have "int n \<le> 2 ^ 63" using n by (metis of_nat_le_iff of_nat_numeral of_nat_power)
  then show ?thesis
    by (subst duration_loop.simps) (simp add: next_part_def part_ns_def Let_def t not_digits_ns unit_ns_def duration_loop.simps [of _ "[]"])
qed

lemma ParseDuration_Itoa:
  assumes "int64_range n"
  shows "ParseDuration (Itoa n @ ''ns'') = Some n"
proof (cases "n < 0")
  case True
  have "nat (- n) \<le> 2 ^ 63" using assms by (simp add: int64_range_def nat_le_iff)
  then show ?thesis using True duration_digits [of "nat (- n)"] by (simp add: ParseDuration_def Itoa_def)
next
  case False
  obtain c cs where d: "dec_digits (nat n) = c # cs" "is_digit c" using dec_digits_hd by blast
  have "nat n \<le> 2 ^ 63" using assms by (simp add: int64_range_def nat_le_iff)
  then have "duration_loop 0 (dec_digits (nat n) @ ''ns'') = Some n" using False duration_digits [of "nat n"] by simp
  then show ?thesis using False assms is_digit_not_sign [OF d(2)] by (simp add: ParseDuration_def Itoa_def d int64_range_def)
qed

lemma Set_render: "same_kind v v' \<Longrightarrow> in_range v' \<Longrightarrow> Set v (render_value v') = Some v'"
proof (cases v')
  case (BoolValue b)
  moreover assume "same_kind v v'"
  ultimately obtain a where "v = BoolValue a" by (cases v) auto
  then show ?thesis using BoolValue by (cases b) (simp_all add: ParseBool_def)
next
  case (IntValue n)
  moreover assume "same_kind v v'" "in_range v'"
  moreover from this obtain a where "v = IntValue a" using IntValue by (cases v) auto
  ultimately show ?thesis by (simp add: ParseInt0_Itoa)
next
  case (DurationValue n)
  moreover assume "same_kind v v'" "in_range v'"
  moreover from this obtain a where "v = DurationValue a" using DurationValue by (cases v) auto
  ultimately show ?thesis by (simp add: ParseDuration_Itoa)
next
  case (StringValue s)
  moreover assume "same_kind v v'"
  ultimately show ?thesis by (cases v) auto
qed

lemma parseOne_render:
  assumes n: "flag_name name" and v: "fmlookup fs name = Some v" "same_kind v v'" "in_range v'"
  shows "parseOne fs (render_flag (name, v') # args) = Seen (fmupd name v' fs) args"
proof -
  obtain c cs where c: "name = c # cs" "c \<noteq> CHR ''-''" "c \<noteq> CHR ''=''" "CHR ''='' \<notin> set cs" using n by (cases name) (auto simp: flag_name_def)
  have "name_value (name @ CHR ''='' # x) = (name, Some x)" for x using c by (simp add: name_value_def Cut_append)
  then have "parseOne fs (render_flag (name, v') # args) = set_flag fs name (Some (render_value v')) args"
    using c by (simp add: parseOne_def render_flag_def)
  also have "\<dots> = Seen (fmupd name v' fs) args" using v by (simp add: set_flag_def Set_render)
  finally show ?thesis .
qed

text \<open>Flags that are written out are read back, and parsing goes on behind them.\<close>

lemma flag_Parse_render:
  assumes "\<forall>(name, v) \<in> set kvs. flag_name name \<and> in_range v \<and> (\<exists>u. fmlookup fs name = Some u \<and> same_kind u v)"
  shows "flag_Parse fs (map render_flag kvs @ args) = flag_Parse (foldl (\<lambda>fs (name, v). fmupd name v fs) fs kvs) args"
  using assms
proof (induction kvs arbitrary: fs)
  case (Cons kv kvs)
  obtain name v where kv: "kv = (name, v)" by (cases kv)
  obtain u where u: "fmlookup fs name = Some u" "same_kind u v" using Cons.prems kv by auto
  have "parseOne fs (render_flag kv # map render_flag kvs @ args) = Seen (fmupd name v fs) (map render_flag kvs @ args)"
    unfolding kv by (rule parseOne_render) (use Cons.prems kv u in auto)
  then have step: "flag_Parse fs (map render_flag (kv # kvs) @ args) = flag_Parse (fmupd name v fs) (map render_flag kvs @ args)"
    by (simp add: flag_Parse.simps [of fs])
  have "\<exists>u'. fmlookup (fmupd name v fs) n' = Some u' \<and> same_kind u' v'" if kvs: "(n', v') \<in> set kvs" for n' v'
  proof -
    obtain u' where u': "fmlookup fs n' = Some u'" "same_kind u' v'" using Cons.prems kvs by fastforce
    show ?thesis
    proof (cases "n' = name")
      case True
      then have "same_kind v v'" using u u' by (cases u) auto
      then show ?thesis using True by simp
    qed (use u' in auto)
  qed
  then have "\<forall>(n', v') \<in> set kvs. flag_name n' \<and> in_range v' \<and> (\<exists>u'. fmlookup (fmupd name v fs) n' = Some u' \<and> same_kind u' v')"
    using Cons.prems by fastforce
  from Cons.IH [OF this] show ?case unfolding step by (simp add: kv)
qed simp

text \<open>An argument that is not a flag ends the flags: it and everything behind it is left over.\<close>

lemma flag_Parse_positional: "length s < 2 \<or> hd s \<noteq> CHR ''-'' \<Longrightarrow> flag_Parse fs (s # args) = Inr (fs, s # args)"
  by (subst flag_Parse.simps) (simp add: parseOne_def)

lemma flag_Parse_Nil [simp]: "flag_Parse fs [] = Inr (fs, [])"
  by (subst flag_Parse.simps) (simp add: parseOne_def)

end
