(* ===== verification/Type_Registry.thy ===== *)
theory Type_Registry
  imports Go_Strings
begin

text \<open>
  The registration of the API types: \<open>api/v1alpha1/groupversion_info.go\<close>, the \<open>init\<close> functions of \<open>gpumodel_types.go\<close> and
  \<open>gpupool_types.go\<close>, \<open>Scheme\<close> of \<open>internal/cli/apply.go\<close> and \<open>init\<close> of \<open>cmd/main.go\<close>. A scheme maps a group version and
  a kind to a Go type; \<open>k8s.io/apimachinery\<close>, which implements it, and the types of Kubernetes itself are parameters
  (\<open>scheme_libs\<close>), with what the code relies on in \<open>scheme_laws\<close>. A scheme is passed along and returned updated.

  A function that adds to a scheme registers, returns an error or panics (\<open>outcome\<close>). The functions without a result
  (\<open>AddKnownTypes\<close>, \<open>AddToGroupVersion\<close>) return a scheme or panic.
\<close>

section \<open>Names\<close>

record GroupVersion =
  gv_Group :: string
  gv_Version :: string

record TypeMeta =
  tm_APIVersion :: string
  tm_Kind :: string

text \<open>A Go type, as reflection sees it.\<close>

record reflect_Type =
  rt_PkgPath :: string
  rt_Name :: string

definition core_v1 :: GroupVersion where "core_v1 = \<lparr> gv_Group = [], gv_Version = ''v1'' \<rparr>"

definition v1alpha1_type :: "string \<Rightarrow> reflect_Type" where
  "v1alpha1_type name = \<lparr> rt_PkgPath = ''github.com/santimillang/ghostgpu/api/v1alpha1'', rt_Name = name \<rparr>"

definition SchemeGroupVersion :: GroupVersion where
  "SchemeGroupVersion = \<lparr> gv_Group = ''ghostgpu.dev'', gv_Version = ''v1alpha1'' \<rparr>"

definition GroupVersion_alias :: GroupVersion where
  "GroupVersion_alias = SchemeGroupVersion"

section \<open>Registration\<close>

datatype 's outcome = Registered 's | Refused string | Panicked string

record ('s, 'b) scheme_libs =
  sl_NewScheme :: 's
  sl_NewSchemeBuilder :: "('s \<Rightarrow> 's outcome) list \<Rightarrow> 'b"
  sl_Register :: "'b \<Rightarrow> ('s \<Rightarrow> 's outcome) list \<Rightarrow> 'b"
  sl_BuilderAddToScheme :: "'b \<Rightarrow> 's \<Rightarrow> 's outcome"
  sl_AddToGroupVersion :: "GroupVersion \<Rightarrow> 's \<Rightarrow> string + 's"
  sl_AddKnownTypes :: "GroupVersion \<Rightarrow> reflect_Type list \<Rightarrow> 's \<Rightarrow> string + 's"
  sl_AddClientGo :: "'s \<Rightarrow> 's outcome"
  sl_AddResource :: "'s \<Rightarrow> 's outcome"
  sl_TypeOf :: "'s \<Rightarrow> GroupVersion \<Rightarrow> string \<Rightarrow> reflect_Type option"
  sl_String :: "GroupVersion \<Rightarrow> string"
  sl_Must :: "'s outcome \<Rightarrow> 's outcome"

text \<open>A registration that calls a function without a result and then returns nil.\<close>

definition returns_nil :: "string + 's \<Rightarrow> 's outcome" where
  "returns_nil r = (case r of Inl p \<Rightarrow> Panicked p | Inr s \<Rightarrow> Registered s)"

definition addGroupVersion :: "('s, 'b) scheme_libs \<Rightarrow> 's \<Rightarrow> 's outcome" where
  "addGroupVersion L scheme = returns_nil (sl_AddToGroupVersion L SchemeGroupVersion scheme)"

definition registerModels :: "('s, 'b) scheme_libs \<Rightarrow> 's \<Rightarrow> 's outcome" where
  "registerModels L s = returns_nil (sl_AddKnownTypes L SchemeGroupVersion [v1alpha1_type ''GPUModel'', v1alpha1_type ''GPUModelList''] s)"

definition registerPools :: "('s, 'b) scheme_libs \<Rightarrow> 's \<Rightarrow> 's outcome" where
  "registerPools L s = returns_nil (sl_AddKnownTypes L SchemeGroupVersion [v1alpha1_type ''GPUPool'', v1alpha1_type ''GPUPoolList''] s)"

text \<open>
  The variable \<open>SchemeBuilder\<close> once the package is initialised: its initial value, then the \<open>init\<close> functions of the files
  in the order of their names. \<open>AddToScheme\<close> is bound to the variable and not to its initial value, because the
  method has a pointer receiver, so a call sees the types the \<open>init\<close> functions registered.
\<close>

definition SchemeBuilder_init :: "('s, 'b) scheme_libs \<Rightarrow> 'b" where
  "SchemeBuilder_init L = sl_NewSchemeBuilder L [addGroupVersion L]"

definition gpumodel_types_init :: "('s, 'b) scheme_libs \<Rightarrow> 'b \<Rightarrow> 'b" where
  "gpumodel_types_init L builder = sl_Register L builder [registerModels L]"

definition gpupool_types_init :: "('s, 'b) scheme_libs \<Rightarrow> 'b \<Rightarrow> 'b" where
  "gpupool_types_init L builder = sl_Register L builder [registerPools L]"

definition SchemeBuilder :: "('s, 'b) scheme_libs \<Rightarrow> 'b" where
  "SchemeBuilder L = gpupool_types_init L (gpumodel_types_init L (SchemeBuilder_init L))"

definition AddToScheme :: "('s, 'b) scheme_libs \<Rightarrow> 's \<Rightarrow> 's outcome" where
  "AddToScheme L s = sl_BuilderAddToScheme L (SchemeBuilder L) s"

definition and_then :: "'s outcome \<Rightarrow> ('s \<Rightarrow> 's outcome) \<Rightarrow> 's outcome" where
  "and_then r f = (case r of Registered s \<Rightarrow> f s | _ \<Rightarrow> r)"

definition Scheme :: "('s, 'b) scheme_libs \<Rightarrow> 's outcome" where
  "Scheme L = and_then (and_then (sl_AddClientGo L (sl_NewScheme L)) (sl_AddResource L)) (AddToScheme L)"

definition manager_init :: "('s, 'b) scheme_libs \<Rightarrow> 's outcome" where
  "manager_init L =
     and_then (and_then (sl_Must L (sl_AddClientGo L (sl_NewScheme L))) (\<lambda>s. sl_Must L (sl_AddResource L s))) (\<lambda>s. sl_Must L (AddToScheme L s))"

section \<open>What apimachinery promises\<close>

fun run_all :: "('s \<Rightarrow> 's outcome) list \<Rightarrow> 's \<Rightarrow> 's outcome" where
  "run_all [] s = Registered s"
| "run_all (f # fs) s = and_then (f s) (run_all fs)"

text \<open>The kinds a list of types is registered under, and whether they can be: a kind may be registered again only for the same type.\<close>

definition named_types :: "reflect_Type list \<Rightarrow> (string \<times> reflect_Type) list" where
  "named_types ts = map (\<lambda>t. (rt_Name t, t)) ts"

definition can_register :: "('s, 'b) scheme_libs \<Rightarrow> 's \<Rightarrow> GroupVersion \<Rightarrow> reflect_Type list \<Rightarrow> bool" where
  "can_register L s gv ts \<longleftrightarrow>
     gv_Version gv \<noteq> [] \<and> distinct (map rt_Name ts) \<and> (\<forall>t \<in> set ts. sl_TypeOf L s gv (rt_Name t) \<in> {None, Some t})"

text \<open>
  A builder runs its functions in the order they were given and stops at the first that does not register;
  \<open>AddKnownTypes\<close> adds the types under their own names, and panics when one of the names stands for another type;
  \<open>AddToGroupVersion\<close> touches the kinds \<open>meta\<close> of the common types only; a group version is written with a slash.
\<close>

definition builder_laws :: "('s, 'b) scheme_libs \<Rightarrow> bool" where
  "builder_laws L \<longleftrightarrow>
     (\<forall>fs s. sl_BuilderAddToScheme L (sl_NewSchemeBuilder L fs) s = run_all fs s)
   \<and> (\<forall>b fs s. sl_BuilderAddToScheme L (sl_Register L b fs) s = and_then (sl_BuilderAddToScheme L b s) (run_all fs))"

definition scheme_laws :: "('s, 'b) scheme_libs \<Rightarrow> string set \<Rightarrow> bool" where
  "scheme_laws L meta \<longleftrightarrow>
     (\<forall>gv ts s. can_register L s gv ts \<longrightarrow> (\<exists>s'. sl_AddKnownTypes L gv ts s = Inr s'))
   \<and> (\<forall>gv ts s t u. t \<in> set ts \<and> sl_TypeOf L s gv (rt_Name t) = Some u \<and> u \<noteq> t \<longrightarrow> (\<exists>p. sl_AddKnownTypes L gv ts s = Inl p))
   \<and> (\<forall>gv ts s s'. sl_AddKnownTypes L gv ts s = Inr s' \<longrightarrow>
        sl_TypeOf L s' = (sl_TypeOf L s)(gv := sl_TypeOf L s gv ++ map_of (named_types ts)))
   \<and> (\<forall>gv s s' gv' k. sl_AddToGroupVersion L gv s = Inr s' \<and> k \<notin> meta \<longrightarrow> sl_TypeOf L s' gv' k = sl_TypeOf L s gv' k)
   \<and> (\<forall>gv. sl_String L gv = (if gv_Group gv = [] then gv_Version gv else gv_Group gv @ ''/'' @ gv_Version gv))"

text \<open>\<open>utilruntime.Must\<close> turns an error into a panic.\<close>

definition panics_on_error :: "'s outcome \<Rightarrow> 's outcome" where
  "panics_on_error r = (case r of Refused e \<Rightarrow> Panicked e | _ \<Rightarrow> r)"

definition must_law :: "('s, 'b) scheme_libs \<Rightarrow> bool" where
  "must_law L \<longleftrightarrow> sl_Must L = panics_on_error"

text \<open>The kinds of this API.\<close>

definition ghostgpu_kinds :: "string list" where
  "ghostgpu_kinds = [''GPUModel'', ''GPUModelList'', ''GPUPool'', ''GPUPoolList'']"

section \<open>Lemmas\<close>

lemma and_then_simps [simp]:
  "and_then (Registered s) f = f s" "and_then (Refused e) f = Refused e" "and_then (Panicked p) f = Panicked p"
  by (simp_all add: and_then_def)

lemma and_then_Registered: "and_then r f = Registered s' \<longleftrightarrow> (\<exists>s. r = Registered s \<and> f s = Registered s')"
  by (cases r) auto

lemma and_then_assoc: "and_then (and_then r f) g = and_then r (\<lambda>s. and_then (f s) g)"
  by (cases r) auto

lemma and_then_return [simp]: "and_then r Registered = r"
  by (cases r) auto

lemma and_then_panics: "and_then (panics_on_error r) (\<lambda>s. panics_on_error (f s)) = panics_on_error (and_then r f)"
  by (cases r) (auto simp: panics_on_error_def)

lemma run_all_fun: "run_all [] = Registered" "run_all (f # fs) = (\<lambda>s. and_then (f s) (run_all fs))"
  by auto

lemma run_all_append: "run_all (fs @ gs) s = and_then (run_all fs s) (run_all gs)"
proof (induction fs arbitrary: s)
  case (Cons f fs)
  then have "run_all (fs @ gs) = (\<lambda>s. and_then (run_all fs s) (run_all gs))" by auto
  then show ?case by (simp add: and_then_assoc)
qed simp

lemma returns_nil_Registered [simp]: "returns_nil r = Registered s \<longleftrightarrow> r = Inr s"
  by (auto simp: returns_nil_def split: sum.splits)

lemma returns_nil_not_Refused [simp]: "returns_nil r \<noteq> Refused e"
  by (simp add: returns_nil_def split: sum.splits)

text \<open>What the package's \<open>AddToScheme\<close> amounts to: the three functions, in order.\<close>

lemma AddToScheme_runs:
  "builder_laws L \<Longrightarrow> AddToScheme L s = run_all [addGroupVersion L, registerModels L, registerPools L] s"
  unfolding builder_laws_def AddToScheme_def SchemeBuilder_def gpupool_types_init_def gpumodel_types_init_def SchemeBuilder_init_def
  by (simp add: and_then_assoc run_all_fun)

lemma run_all_not_Refused:
  "(\<And>f s e. f \<in> set fs \<Longrightarrow> f s \<noteq> Refused e) \<Longrightarrow> run_all fs s \<noteq> Refused e"
proof (induction fs arbitrary: s)
  case (Cons f fs)
  then show ?case by (cases "f s") auto
qed simp

lemma scheme_lawsD:
  assumes "scheme_laws L meta"
  shows "can_register L s gv ts \<Longrightarrow> \<exists>s'. sl_AddKnownTypes L gv ts s = Inr s'"
    and "\<lbrakk> t \<in> set ts; sl_TypeOf L s gv (rt_Name t) = Some u; u \<noteq> t \<rbrakk> \<Longrightarrow> \<exists>p. sl_AddKnownTypes L gv ts s = Inl p"
    and "sl_AddKnownTypes L gv ts s = Inr s' \<Longrightarrow> sl_TypeOf L s' = (sl_TypeOf L s)(gv := sl_TypeOf L s gv ++ map_of (named_types ts))"
    and "\<lbrakk> sl_AddToGroupVersion L gv s = Inr s'; k \<notin> meta \<rbrakk> \<Longrightarrow> sl_TypeOf L s' gv' k = sl_TypeOf L s gv' k"
    and "sl_String L gv = (if gv_Group gv = [] then gv_Version gv else gv_Group gv @ ''/'' @ gv_Version gv)"
  using assms unfolding scheme_laws_def by metis+

text \<open>Types can be registered where none of their names is taken, and are then found under them.\<close>

lemma registered_types:
  assumes laws: "scheme_laws L meta" and gv: "gv_Version gv \<noteq> []" and names: "distinct (map rt_Name ts)"
    and free: "\<And>t. t \<in> set ts \<Longrightarrow> sl_TypeOf L s gv (rt_Name t) = None"
  obtains s' where "sl_AddKnownTypes L gv ts s = Inr s'"
    "sl_TypeOf L s' = (sl_TypeOf L s)(gv := sl_TypeOf L s gv ++ map_of (named_types ts))"
proof -
  have "can_register L s gv ts" using gv names free by (auto simp: can_register_def)
  with scheme_lawsD(1) [OF laws] obtain s' where "sl_AddKnownTypes L gv ts s = Inr s'" by blast
  with that scheme_lawsD(3) [OF laws] show thesis by blast
qed

lemma SchemeGroupVersion_simps [simp]: "gv_Group SchemeGroupVersion = ''ghostgpu.dev''" "gv_Version SchemeGroupVersion = ''v1alpha1''"
  by (simp_all add: SchemeGroupVersion_def)

lemma v1alpha1_type_simps [simp]: "rt_Name (v1alpha1_type k) = k" "v1alpha1_type k = v1alpha1_type k' \<longleftrightarrow> k = k'"
  by (simp_all add: v1alpha1_type_def)

section \<open>Properties\<close>

text \<open>
  Registering the API. On a scheme in which none of the four kinds of the group version is taken, \<open>AddToScheme\<close> of
  the package registers: afterwards the scheme resolves \<open>GPUModel\<close>, \<open>GPUModelList\<close>, \<open>GPUPool\<close> and \<open>GPUPoolList\<close> to the types
  of that name, the list types that the generated clients decode into included, and what every other kind of every
  group version stands for is unchanged, the common types of \<open>meta\<close> apart.
\<close>

theorem AddToScheme_registers:
  assumes builder: "builder_laws L" and laws: "scheme_laws L meta" and meta: "meta \<inter> set ghostgpu_kinds = {}"
    and common: "sl_AddToGroupVersion L SchemeGroupVersion s = Inr s1"
    and free: "\<forall>k \<in> set ghostgpu_kinds. sl_TypeOf L s SchemeGroupVersion k = None"
  shows "\<exists>s'. AddToScheme L s = Registered s'
    \<and> (\<forall>k \<in> set ghostgpu_kinds. sl_TypeOf L s' SchemeGroupVersion k = Some (v1alpha1_type k))
    \<and> (\<forall>gv k. k \<notin> meta \<and> (gv = SchemeGroupVersion \<longrightarrow> k \<notin> set ghostgpu_kinds) \<longrightarrow> sl_TypeOf L s' gv k = sl_TypeOf L s gv k)"
proof -
  let ?gv = SchemeGroupVersion
  have s1: "sl_TypeOf L s1 gv k = sl_TypeOf L s gv k" if "k \<notin> meta" for gv k
    using that by (rule scheme_lawsD(4) [OF laws common])
  have kinds: "k \<notin> meta" if "k \<in> set ghostgpu_kinds" for k using meta that by auto
  have free1: "sl_TypeOf L s1 ?gv k = None" if "k \<in> set ghostgpu_kinds" for k using s1 [OF kinds [OF that]] free that by simp
  let ?ms = "[v1alpha1_type ''GPUModel'', v1alpha1_type ''GPUModelList'']" and ?ps = "[v1alpha1_type ''GPUPool'', v1alpha1_type ''GPUPoolList'']"
  obtain s2 where s2: "sl_AddKnownTypes L ?gv ?ms s1 = Inr s2"
    "sl_TypeOf L s2 = (sl_TypeOf L s1)(?gv := sl_TypeOf L s1 ?gv ++ map_of (named_types ?ms))"
    by (rule registered_types [OF laws, of ?gv ?ms s1]) (auto simp: free1 ghostgpu_kinds_def)
  obtain s3 where s3: "sl_AddKnownTypes L ?gv ?ps s2 = Inr s3"
    "sl_TypeOf L s3 = (sl_TypeOf L s2)(?gv := sl_TypeOf L s2 ?gv ++ map_of (named_types ?ps))"
    by (rule registered_types [OF laws, of ?gv ?ps s2]) (auto simp: s2(2) free1 ghostgpu_kinds_def named_types_def)
  have "AddToScheme L s = Registered s3"
    by (simp add: AddToScheme_runs [OF builder] addGroupVersion_def registerModels_def registerPools_def returns_nil_def common s2(1) s3(1))
  moreover have "\<forall>k \<in> set ghostgpu_kinds. sl_TypeOf L s3 ?gv k = Some (v1alpha1_type k)"
    by (simp add: s3(2) s2(2) ghostgpu_kinds_def named_types_def)
  moreover have "sl_TypeOf L s3 gv k = sl_TypeOf L s gv k" if "k \<notin> meta" "gv = ?gv \<longrightarrow> k \<notin> set ghostgpu_kinds" for gv k
    using that(2) s1 [OF that(1)] by (auto simp: s3(2) s2(2) ghostgpu_kinds_def named_types_def map_add_def)
  ultimately show ?thesis by blast
qed

text \<open>
  The package's \<open>AddToScheme\<close> never returns an error, although its callers test for one: a conflict with a type that is
  already registered under one of the kinds is a panic.
\<close>

theorem AddToScheme_never_errors:
  assumes "builder_laws L"
  shows "AddToScheme L s \<noteq> Refused e"
  unfolding AddToScheme_runs [OF assms]
  by (rule run_all_not_Refused) (auto simp: addGroupVersion_def registerModels_def registerPools_def)

theorem AddToScheme_conflict:
  assumes builder: "builder_laws L" and laws: "scheme_laws L meta" and meta: "meta \<inter> set ghostgpu_kinds = {}"
    and k: "k \<in> set ghostgpu_kinds" and taken: "sl_TypeOf L s SchemeGroupVersion k = Some u" "u \<noteq> v1alpha1_type k"
  shows "\<exists>p. AddToScheme L s = Panicked p"
proof (rule ccontr)
  assume "\<nexists>p. AddToScheme L s = Panicked p"
  with AddToScheme_never_errors [OF builder] obtain s' where "AddToScheme L s = Registered s'" by (cases "AddToScheme L s") auto
  then obtain s1 s2 where s1: "sl_AddToGroupVersion L SchemeGroupVersion s = Inr s1"
    and s2: "sl_AddKnownTypes L SchemeGroupVersion [v1alpha1_type ''GPUModel'', v1alpha1_type ''GPUModelList''] s1 = Inr s2"
    and s3: "sl_AddKnownTypes L SchemeGroupVersion [v1alpha1_type ''GPUPool'', v1alpha1_type ''GPUPoolList''] s2 = Inr s'"
    by (auto simp: AddToScheme_runs [OF builder] addGroupVersion_def registerModels_def registerPools_def and_then_Registered run_all_fun)
  have at1: "sl_TypeOf L s1 SchemeGroupVersion k = Some u"
    using scheme_lawsD(4) [OF laws s1, where k = k and gv' = SchemeGroupVersion] meta k taken(1) by auto
  show False
  proof (cases "k \<in> {''GPUModel'', ''GPUModelList''}")
    case True
    then have "v1alpha1_type k \<in> set [v1alpha1_type ''GPUModel'', v1alpha1_type ''GPUModelList'']" by auto
    from scheme_lawsD(2) [OF laws this] at1 taken(2) s2 show False by force
  next
    case False
    then have "sl_TypeOf L s2 SchemeGroupVersion k = Some u"
      using at1 by (auto simp: scheme_lawsD(3) [OF laws s2] named_types_def map_add_def)
    moreover have "v1alpha1_type k \<in> set [v1alpha1_type ''GPUPool'', v1alpha1_type ''GPUPoolList'']" using False k by (auto simp: ghostgpu_kinds_def)
    from scheme_lawsD(2) [OF laws this] calculation taken(2) s3 show False by force
  qed
qed

text \<open>The operator and the command line tool register the same types: they differ in what becomes of an error.\<close>

theorem manager_init_Scheme:
  assumes "must_law L"
  shows "manager_init L = panics_on_error (Scheme L)"
  using assms by (simp add: manager_init_def Scheme_def must_law_def and_then_panics)

section \<open>An instance\<close>

type_synonym known_types = "((GroupVersion \<times> string) \<times> reflect_Type) list"

fun add_known :: "GroupVersion \<Rightarrow> reflect_Type list \<Rightarrow> known_types \<Rightarrow> string + known_types" where
  "add_known gv [] s = Inr s"
| "add_known gv (t # ts) s =
     (case map_of s (gv, rt_Name t) of
        Some u \<Rightarrow> if u = t then add_known gv ts s else Inl ''Double registration of different types''
      | None \<Rightarrow> add_known gv ts (((gv, rt_Name t), t) # s))"

definition meta_kinds :: "string list" where
  "meta_kinds = [''WatchEvent'', ''ListOptions'', ''GetOptions'', ''DeleteOptions'', ''CreateOptions'', ''UpdateOptions'', ''PatchOptions'']"

definition types_of :: "string \<Rightarrow> string list \<Rightarrow> reflect_Type list" where
  "types_of package names = map (\<lambda>n. \<lparr> rt_PkgPath = package, rt_Name = n \<rparr>) names"

definition resource_v1 :: GroupVersion where "resource_v1 = \<lparr> gv_Group = ''resource.k8s.io'', gv_Version = ''v1'' \<rparr>"

definition listed_libs :: "(known_types, (known_types \<Rightarrow> known_types outcome) list) scheme_libs" where
  "listed_libs =
     \<lparr> sl_NewScheme = [], sl_NewSchemeBuilder = (\<lambda>fs. fs), sl_Register = (\<lambda>b fs. b @ fs), sl_BuilderAddToScheme = run_all,
       sl_AddToGroupVersion = (\<lambda>gv. add_known gv (types_of ''k8s.io/apimachinery/pkg/apis/meta/v1'' meta_kinds)),
       sl_AddKnownTypes = add_known,
       sl_AddClientGo = (\<lambda>s. returns_nil (add_known core_v1 (types_of ''k8s.io/api/core/v1'' [''Node'', ''NodeList'', ''Pod'', ''PodList'']) s)),
       sl_AddResource = (\<lambda>s. returns_nil (add_known resource_v1 (types_of ''k8s.io/api/resource/v1''
         [''ResourceSlice'', ''ResourceSliceList'', ''ResourceClaim'', ''ResourceClaimList'']) s)),
       sl_TypeOf = (\<lambda>s gv k. map_of s (gv, k)),
       sl_String = (\<lambda>gv. if gv_Group gv = [] then gv_Version gv else gv_Group gv @ ''/'' @ gv_Version gv),
       sl_Must = panics_on_error \<rparr>"

lemma add_known_conflict:
  "\<lbrakk> t \<in> set ts; map_of s (gv, rt_Name t) = Some u; u \<noteq> t \<rbrakk> \<Longrightarrow> \<exists>p. add_known gv ts s = Inl p"
proof (induction gv ts s rule: add_known.induct)
  case (2 gv t' ts s)
  then show ?case by (cases "rt_Name t = rt_Name t'") (auto split: option.splits)
qed simp

lemma add_known_found:
  assumes "add_known gv ts s = Inr s'" "map_of s (gv, k) = Some t" "map_of (named_types ts) k = Some u"
  shows "u = t"
proof -
  have "u \<in> set ts" "rt_Name u = k" using map_of_SomeD [OF assms(3)] by (auto simp: named_types_def)
  then show ?thesis using add_known_conflict [of u ts s gv t] assms by auto
qed

lemma add_known_types:
  "add_known gv ts s = Inr s' \<Longrightarrow> map_of s' (gv', k) = (if gv' = gv then ((\<lambda>k. map_of s (gv, k)) ++ map_of (named_types ts)) k else map_of s (gv', k))"
proof (induction gv ts s rule: add_known.induct)
  case (2 gv t ts s)
  have named: "named_types (t # ts) = (rt_Name t, t) # named_types ts" by (simp add: named_types_def)
  show ?case
  proof (cases "map_of s (gv, rt_Name t)")
    case None
    with 2 have "add_known gv ts (((gv, rt_Name t), t) # s) = Inr s'" by simp
    with 2(1) None add_known_found [OF this, of "rt_Name t" t] show ?thesis by (auto simp: named map_add_def split: option.splits)
  next
    case (Some u)
    with 2 have "u = t" "add_known gv ts s = Inr s'" by (auto split: if_splits)
    with 2(2) Some add_known_found [OF this(2), of "rt_Name t" t] show ?thesis by (auto simp: named map_add_def split: option.splits)
  qed
qed (simp add: named_types_def)

lemma add_known_ok:
  "\<lbrakk> distinct (map rt_Name ts); \<forall>t \<in> set ts. map_of s (gv, rt_Name t) \<in> {None, Some t} \<rbrakk> \<Longrightarrow> \<exists>s'. add_known gv ts s = Inr s'"
proof (induction ts arbitrary: s)
  case (Cons t ts)
  have apart: "rt_Name u \<noteq> rt_Name t" if "u \<in> set ts" for u using Cons.prems(1) that by (auto simp: image_iff)
  show ?case
  proof (cases "map_of s (gv, rt_Name t)")
    case None
    have "\<exists>s'. add_known gv ts (((gv, rt_Name t), t) # s) = Inr s'" using Cons.prems apart by (intro Cons.IH) auto
    then show ?thesis using None by simp
  next
    case (Some u)
    then have "u = t" using Cons.prems(2) by simp
    then show ?thesis using Some Cons.IH [of s] Cons.prems by simp
  qed
qed simp

lemma listed_simps:
  "sl_BuilderAddToScheme listed_libs = run_all" "sl_NewSchemeBuilder listed_libs fs = fs" "sl_Register listed_libs b fs = b @ fs"
  "sl_AddKnownTypes listed_libs = add_known" "sl_TypeOf listed_libs = (\<lambda>s gv k. map_of s (gv, k))"
  "sl_AddToGroupVersion listed_libs gv = add_known gv (types_of ''k8s.io/apimachinery/pkg/apis/meta/v1'' meta_kinds)"
  "sl_String listed_libs gv = (if gv_Group gv = [] then gv_Version gv else gv_Group gv @ ''/'' @ gv_Version gv)"
  by (simp_all add: listed_libs_def)

lemma listed_must: "must_law listed_libs"
  by (simp add: must_law_def listed_libs_def)

lemma listed_laws: "builder_laws listed_libs" "scheme_laws listed_libs (set meta_kinds)"
proof -
  show "builder_laws listed_libs" by (simp add: builder_laws_def listed_simps run_all_append)
  have names: "map_of (named_types (types_of p meta_kinds)) k = None" if "k \<notin> set meta_kinds" for p k
    using that by (force simp: map_of_eq_None_iff named_types_def types_of_def)
  show "scheme_laws listed_libs (set meta_kinds)"
    unfolding scheme_laws_def
  proof (intro conjI allI impI)
    fix gv ts s s' assume "sl_AddKnownTypes listed_libs gv ts s = Inr s'"
    then show "sl_TypeOf listed_libs s' = (sl_TypeOf listed_libs s)(gv := sl_TypeOf listed_libs s gv ++ map_of (named_types ts))"
      by (simp add: listed_simps fun_eq_iff add_known_types map_add_def)
  next
    fix gv s s' gv' k assume "sl_AddToGroupVersion listed_libs gv s = Inr s' \<and> k \<notin> set meta_kinds"
    then show "sl_TypeOf listed_libs s' gv' k = sl_TypeOf listed_libs s gv' k"
      by (auto simp: listed_simps map_add_def names add_known_types [where gv' = gv' and k = k])
  next
    fix gv ts s assume "can_register listed_libs s gv ts"
    then show "\<exists>s'. sl_AddKnownTypes listed_libs gv ts s = Inr s'"
      unfolding listed_simps by (intro add_known_ok) (auto simp: can_register_def listed_simps)
  next
    fix gv ts s t u assume "t \<in> set ts \<and> sl_TypeOf listed_libs s gv (rt_Name t) = Some u \<and> u \<noteq> t"
    then show "\<exists>p. sl_AddKnownTypes listed_libs gv ts s = Inl p" unfolding listed_simps by (blast intro: add_known_conflict)
  qed (rule listed_simps)
qed

text \<open>What client-go and the DRA types leave of the instance, and what the program makes of it.\<close>

definition listed_base :: known_types where
  "listed_base = rev (map (\<lambda>t. ((core_v1, rt_Name t), t)) (types_of ''k8s.io/api/core/v1'' [''Node'', ''NodeList'', ''Pod'', ''PodList''])
     @ map (\<lambda>t. ((resource_v1, rt_Name t), t)) (types_of ''k8s.io/api/resource/v1'' [''ResourceSlice'', ''ResourceSliceList'', ''ResourceClaim'', ''ResourceClaimList'']))"

lemma listed_base: "and_then (sl_AddClientGo listed_libs (sl_NewScheme listed_libs)) (sl_AddResource listed_libs) = Registered listed_base"
  "\<exists>s1. sl_AddToGroupVersion listed_libs SchemeGroupVersion listed_base = Inr s1"
  "\<forall>k \<in> set ghostgpu_kinds. sl_TypeOf listed_libs listed_base SchemeGroupVersion k = None"
  "sl_TypeOf listed_libs listed_base core_v1 ''Node'' = Some \<lparr> rt_PkgPath = ''k8s.io/api/core/v1'', rt_Name = ''Node'' \<rparr>"
  by (simp_all add: listed_libs_def listed_base_def types_of_def meta_kinds_def core_v1_def resource_v1_def SchemeGroupVersion_def returns_nil_def)

lemma listed_meta: "set meta_kinds \<inter> (set ghostgpu_kinds \<union> {''Node''}) = {}"
  by code_simp

lemma listed_Scheme: "\<exists>s. Scheme listed_libs = Registered s"
proof -
  obtain s1 where "sl_AddToGroupVersion listed_libs SchemeGroupVersion listed_base = Inr s1" using listed_base(2) by blast
  from AddToScheme_registers [OF listed_laws _ this listed_base(3)] listed_meta show ?thesis by (auto simp: Scheme_def listed_base(1))
qed

theorem AddToScheme_registers_witness:
  "\<exists>s'. AddToScheme listed_libs [] = Registered s' \<and> sl_TypeOf listed_libs s' SchemeGroupVersion ''GPUPoolList'' = Some (v1alpha1_type ''GPUPoolList'')"
proof -
  have "set meta_kinds \<inter> set ghostgpu_kinds = {}" by code_simp
  moreover have "\<exists>s1. sl_AddToGroupVersion listed_libs SchemeGroupVersion [] = Inr s1"
    unfolding listed_libs_def by (simp add: types_of_def meta_kinds_def)
  moreover have "\<forall>k \<in> set ghostgpu_kinds. sl_TypeOf listed_libs [] SchemeGroupVersion k = None" by (simp add: listed_libs_def)
  ultimately obtain s' where "AddToScheme listed_libs [] = Registered s'"
      "\<forall>k \<in> set ghostgpu_kinds. sl_TypeOf listed_libs s' SchemeGroupVersion k = Some (v1alpha1_type k)"
    using AddToScheme_registers [OF listed_laws] by blast
  then show ?thesis by (simp add: ghostgpu_kinds_def)
qed

theorem AddToScheme_conflict_witness:
  "\<exists>p. AddToScheme listed_libs [((SchemeGroupVersion, ''GPUPool''), v1alpha1_type ''Pool'')] = Panicked p"
proof (rule AddToScheme_conflict [OF listed_laws])
  show "set meta_kinds \<inter> set ghostgpu_kinds = {}" by code_simp
qed (auto simp: ghostgpu_kinds_def listed_libs_def)

end
