(* ===== verification/Manager.thy ===== *)
theory Manager
  imports Metrics_Server Go_Flags Type_Registry
begin

text \<open>
  \<open>cmd/main.go\<close>: the operator's binary. The transform of the cache, the flags with their defaults, the options of the two servers
  and of the manager, and the steps that end in a running manager or an exit code. controller-runtime is a parameter
  (\<open>manager_libs\<close>): the flags it and the logger register, and whether each step succeeds. The scheme is built by \<open>manager_init\<close> of
  \<open>Type_Registry\<close>. A value that the logger's own flags
  would refuse is outside the model; logging is left out. The error of a step is kept as a value.
\<close>

section \<open>The cache\<close>

text \<open>A pod with the fields the transform keeps, and the rest of its metadata, its spec and its status as one field.\<close>

record 'r CachedPod = Pod +
  cp_TypeMeta :: string
  cp_UID :: string
  cp_ResourceVersion :: string
  cp_rest :: "'r option"

datatype ('r, 'o) cache_object = PodEntry "'r CachedPod" | OtherEntry 'o

fun keepPodLabelsOnly :: "('r, 'o) cache_object \<Rightarrow> string + ('r, 'o) cache_object" where
  "keepPodLabelsOnly (PodEntry pod) =
     Inr (PodEntry \<lparr> pd_Namespace = pd_Namespace pod, pd_Name = pd_Name pod, pd_Labels = pd_Labels pod,
       cp_TypeMeta = cp_TypeMeta pod, cp_UID = cp_UID pod, cp_ResourceVersion = cp_ResourceVersion pod, cp_rest = None \<rparr>)"
| "keepPodLabelsOnly (OtherEntry obj) = Inr (OtherEntry obj)"

section \<open>Flags\<close>

record ManagerFlags =
  mf_metricsAddr :: string
  mf_probeAddr :: string
  mf_gpuMetricsAddr :: string
  mf_enableLeaderElection :: bool
  mf_secureMetrics :: bool
  mf_webhookCertPath :: string
  mf_webhookCertName :: string
  mf_webhookCertKey :: string
  mf_metricsCertPath :: string
  mf_metricsCertName :: string
  mf_metricsCertKey :: string
  mf_enableHTTP2 :: bool

definition manager_flags :: flags where
  "manager_flags = fmap_of_list
     [(''metrics-bind-address'', StringValue ''0''), (''health-probe-bind-address'', StringValue '':8081''),
      (''gpu-metrics-bind-address'', StringValue DefaultAddr), (''leader-elect'', BoolValue False), (''metrics-secure'', BoolValue True),
      (''webhook-cert-path'', StringValue ''''), (''webhook-cert-name'', StringValue ''tls.crt''), (''webhook-cert-key'', StringValue ''tls.key''),
      (''metrics-cert-path'', StringValue ''''), (''metrics-cert-name'', StringValue ''tls.crt''), (''metrics-cert-key'', StringValue ''tls.key''),
      (''enable-http2'', BoolValue False)]"

definition read_manager :: "flags \<Rightarrow> ManagerFlags" where
  "read_manager fs =
     \<lparr> mf_metricsAddr = string_flag fs ''metrics-bind-address'', mf_probeAddr = string_flag fs ''health-probe-bind-address'',
       mf_gpuMetricsAddr = string_flag fs ''gpu-metrics-bind-address'', mf_enableLeaderElection = bool_flag fs ''leader-elect'',
       mf_secureMetrics = bool_flag fs ''metrics-secure'', mf_webhookCertPath = string_flag fs ''webhook-cert-path'',
       mf_webhookCertName = string_flag fs ''webhook-cert-name'', mf_webhookCertKey = string_flag fs ''webhook-cert-key'',
       mf_metricsCertPath = string_flag fs ''metrics-cert-path'', mf_metricsCertName = string_flag fs ''metrics-cert-name'',
       mf_metricsCertKey = string_flag fs ''metrics-cert-key'', mf_enableHTTP2 = bool_flag fs ''enable-http2'' \<rparr>"

section \<open>Options\<close>

record tls_Config =
  tls_NextProtos :: "string list"

definition disableHTTP2 :: "tls_Config \<Rightarrow> tls_Config" where
  "disableHTTP2 c = c\<lparr> tls_NextProtos := [''http/1.1''] \<rparr>"

definition tlsOpts :: "ManagerFlags \<Rightarrow> (tls_Config \<Rightarrow> tls_Config) list" where
  "tlsOpts f = (if \<not> mf_enableHTTP2 f then [disableHTTP2] else [])"

record webhook_Options =
  wh_TLSOpts :: "(tls_Config \<Rightarrow> tls_Config) list"
  wh_CertDir :: string
  wh_CertName :: string
  wh_KeyName :: string

definition webhookServerOptions :: "ManagerFlags \<Rightarrow> webhook_Options" where
  "webhookServerOptions f =
     (let opts = \<lparr> wh_TLSOpts = tlsOpts f, wh_CertDir = [], wh_CertName = [], wh_KeyName = [] \<rparr>
      in if length (mf_webhookCertPath f) > 0
         then opts\<lparr> wh_CertDir := mf_webhookCertPath f, wh_CertName := mf_webhookCertName f, wh_KeyName := mf_webhookCertKey f \<rparr>
         else opts)"

text \<open>\<open>mo_FilterProvider\<close> says that requests are authenticated and authorized.\<close>

record metrics_Options =
  mo_BindAddress :: string
  mo_SecureServing :: bool
  mo_TLSOpts :: "(tls_Config \<Rightarrow> tls_Config) list"
  mo_FilterProvider :: bool
  mo_CertDir :: string
  mo_CertName :: string
  mo_KeyName :: string

definition metricsServerOptions :: "ManagerFlags \<Rightarrow> metrics_Options" where
  "metricsServerOptions f =
     (let opts = \<lparr> mo_BindAddress = mf_metricsAddr f, mo_SecureServing = mf_secureMetrics f, mo_TLSOpts = tlsOpts f,
            mo_FilterProvider = False, mo_CertDir = [], mo_CertName = [], mo_KeyName = [] \<rparr>;
          opts1 = (if mf_secureMetrics f then opts\<lparr> mo_FilterProvider := True \<rparr> else opts)
      in if length (mf_metricsCertPath f) > 0
         then opts1\<lparr> mo_CertDir := mf_metricsCertPath f, mo_CertName := mf_metricsCertName f, mo_KeyName := mf_metricsCertKey f \<rparr>
         else opts1)"

record ('s, 'r, 'o) ctrl_Options =
  ct_Scheme :: 's
  ct_Metrics :: metrics_Options
  ct_Webhook :: webhook_Options
  ct_HealthProbeBindAddress :: string
  ct_LeaderElection :: bool
  ct_LeaderElectionID :: string
  ct_PodTransform :: "('r, 'o) cache_object \<Rightarrow> string + ('r, 'o) cache_object"

definition manager_options :: "'s \<Rightarrow> ManagerFlags \<Rightarrow> ('s, 'r, 'o) ctrl_Options" where
  "manager_options scheme f =
     \<lparr> ct_Scheme = scheme, ct_Metrics = metricsServerOptions f, ct_Webhook = webhookServerOptions f, ct_HealthProbeBindAddress = mf_probeAddr f,
       ct_LeaderElection = mf_enableLeaderElection f, ct_LeaderElectionID = ''8fc45ed3.ghostgpu.dev'', ct_PodTransform = keepPodLabelsOnly \<rparr>"

section \<open>main\<close>

text \<open>The libraries: each step answers with its error, if any. The client of the manager is the exporter's reader.\<close>

record ('s, 'b, 'e, 'q, 'm, 'r, 'o) manager_libs =
  ml_flags :: flags
  ml_scheme :: "('s, 'b) scheme_libs"
  ml_GetConfig :: "string option"
  ml_NewManager :: "('s, 'r, 'o) ctrl_Options \<Rightarrow> string + ('e, 'q, 'm) reader"
  ml_SetupWithManager :: "string option"
  ml_Add :: "('e, 'q, 'm) Server \<Rightarrow> string option"
  ml_AddHealthzCheck :: "string option"
  ml_AddReadyzCheck :: "string option"
  ml_Start :: "string option"

datatype manager_step = RegisterTypes | LoadConfig | CreateManager | CreateController | AddMetricsServer | AddHealthz | AddReadyz | RunManager

datatype manager_end =
    Stopped_ok
  | BadManagerFlags FlagError
  | PanickedIn manager_step string
  | FailedIn manager_step string

definition check_step :: "manager_step \<Rightarrow> string option \<Rightarrow> manager_end \<Rightarrow> manager_end" where
  "check_step step err rest = (case err of Some e \<Rightarrow> FailedIn step e | None \<Rightarrow> rest)"

definition manager_server :: "ManagerFlags \<Rightarrow> ('e, 'q, 'm) reader \<Rightarrow> ('e, 'q, 'm) Server" where
  "manager_server f client = \<lparr> sv_Addr = mf_gpuMetricsAddr f, sv_Exporter = client \<rparr>"

definition manager_main :: "('s, 'b, 'e, 'q, 'm, 'r, 'o) manager_libs \<Rightarrow> string list \<Rightarrow> manager_end" where
  "manager_main L args =
     (case manager_init (ml_scheme L) of Refused e \<Rightarrow> PanickedIn RegisterTypes e | Panicked p \<Rightarrow> PanickedIn RegisterTypes p | Registered scheme \<Rightarrow>
      (case flag_Parse (manager_flags ++\<^sub>f ml_flags L) args of Inl e \<Rightarrow> BadManagerFlags e | Inr (fs, _) \<Rightarrow>
        (let f = read_manager fs in
         check_step LoadConfig (ml_GetConfig L)
           (case ml_NewManager L (manager_options scheme f) of
              Inl e \<Rightarrow> FailedIn CreateManager e
            | Inr client \<Rightarrow>
                check_step CreateController (ml_SetupWithManager L)
                  (check_step AddMetricsServer (ml_Add L (manager_server f client))
                    (check_step AddHealthz (ml_AddHealthzCheck L)
                      (check_step AddReadyz (ml_AddReadyzCheck L)
                        (check_step RunManager (ml_Start L) Stopped_ok))))))))"

fun manager_exit :: "manager_end \<Rightarrow> int" where
  "manager_exit Stopped_ok = 0"
| "manager_exit (BadManagerFlags e) = flag_exit e"
| "manager_exit (PanickedIn _ _) = 2"
| "manager_exit (FailedIn _ _) = 1"

section \<open>Properties\<close>

text \<open>The pods among the objects of a cache, as a list call returns them to the exporter.\<close>

fun entry_pods :: "('r, 'o) cache_object \<Rightarrow> Pod list" where
  "entry_pods (PodEntry pod) = [Pod.truncate pod]"
| "entry_pods (OtherEntry _) = []"

lemma kept_pods:
  assumes "keepPodLabelsOnly obj = Inr kept"
  shows "entry_pods kept = entry_pods obj" and "kept = PodEntry p \<Longrightarrow> cp_rest p = None" and "obj = OtherEntry x \<Longrightarrow> kept = obj"
    and "keepPodLabelsOnly kept = Inr kept"
  using assms by (cases obj; auto simp: Pod.truncate_def)+

text \<open>
  The cache may drop what it drops. Stripping pods before they enter the cache never fails, leaves objects that are not pods alone,
  keeps nothing of a pod but its identity and its labels, changes nothing when it is repeated, and does not change a scrape: the exporter
  emits over the stripped pods exactly the metrics it would emit over the full ones.
\<close>

theorem stripped_cache_scrape:
  fixes objs :: "('r, 'o) cache_object list"
  shows "\<exists>kept. map keepPodLabelsOnly objs = map Inr kept
    \<and> (\<forall>p. PodEntry p \<in> set kept \<longrightarrow> cp_rest p = None)
    \<and> (\<forall>x. OtherEntry x \<in> set kept \<longleftrightarrow> OtherEntry x \<in> set objs)
    \<and> map keepPodLabelsOnly kept = map Inr kept
    \<and> Collect (rd\<lparr> r_ListPods := Inr (concat (map entry_pods kept)) \<rparr>) Q sel = Collect (rd\<lparr> r_ListPods := Inr (concat (map entry_pods objs)) \<rparr>) Q sel"
proof -
  have "\<exists>kept. map keepPodLabelsOnly objs = map Inr kept" for objs :: "('r, 'o) cache_object list"
  proof (induction objs)
    case (Cons obj objs)
    then obtain kept where "map keepPodLabelsOnly objs = map Inr kept" by blast
    moreover obtain k where "keepPodLabelsOnly obj = Inr k" by (cases obj) auto
    ultimately show ?case by (intro exI [of _ "k # kept"]) simp
  qed simp
  then obtain kept where kept: "map keepPodLabelsOnly objs = map Inr kept" by blast
  then have pw: "list_all2 (\<lambda>obj k. keepPodLabelsOnly obj = Inr k) objs kept"
    by (simp add: list_all2_conv_all_nth list_eq_iff_nth_eq)
  have "map entry_pods kept = map entry_pods objs" using pw by induction (auto simp: kept_pods(1))
  moreover have "\<forall>p. PodEntry p \<in> set kept \<longrightarrow> cp_rest p = None" using pw by induction (auto dest: kept_pods(2) [OF _ refl])
  moreover have "\<forall>x. OtherEntry x \<in> set kept \<longleftrightarrow> OtherEntry x \<in> set objs"
    using pw
  proof induction
    case (Cons obj objs k kept)
    then show ?case by (cases obj) auto
  qed simp
  moreover have "map keepPodLabelsOnly kept = map Inr kept" using pw by induction (auto simp: kept_pods(4))
  ultimately show ?thesis using kept by (intro exI [of _ kept]) simp
qed

definition example_cache :: "(string, unit) cache_object list" where
  "example_cache =
     [PodEntry \<lparr> pd_Namespace = ''default'', pd_Name = ''train-0'', pd_Labels = fmupd ''job'' ''train'' fmempty, cp_TypeMeta = ''Pod'',
        cp_UID = ''1'', cp_ResourceVersion = ''7'', cp_rest = Some ''spec'' \<rparr>, OtherEntry ()]"

theorem stripped_cache_scrape_witness:
  "\<exists>kept. map keepPodLabelsOnly example_cache = map Inr kept \<and> kept \<noteq> example_cache
     \<and> Collect (example_reader\<lparr> r_ListPods := Inr (concat (map entry_pods kept)) \<rparr>) int_quantity (\<lambda>ps l. None)
       = Collect (example_reader\<lparr> r_ListPods := Inr (concat (map entry_pods example_cache)) \<rparr>) int_quantity (\<lambda>ps l. None)"
proof -
  from stripped_cache_scrape [of example_cache example_reader int_quantity "\<lambda>ps l. None"] obtain kept where
    k: "map keepPodLabelsOnly example_cache = map Inr kept" "\<forall>p. PodEntry p \<in> set kept \<longrightarrow> cp_rest p = None"
      "Collect (example_reader\<lparr> r_ListPods := Inr (concat (map entry_pods kept)) \<rparr>) int_quantity (\<lambda>ps l. None)
       = Collect (example_reader\<lparr> r_ListPods := Inr (concat (map entry_pods example_cache)) \<rparr>) int_quantity (\<lambda>ps l. None)" by blast
  moreover have "kept \<noteq> example_cache" using k(2) by (auto simp: example_cache_def)
  ultimately show ?thesis by blast
qed

text \<open>Unless \<open>--enable-http2\<close> is given, both servers negotiate HTTP/1.1 only, whatever their configuration was; the operator's own
  metrics are authenticated exactly when they are served over TLS.\<close>

definition negotiated :: "(tls_Config \<Rightarrow> tls_Config) list \<Rightarrow> tls_Config \<Rightarrow> string list" where
  "negotiated opts c = tls_NextProtos (foldl (\<lambda>c f. f c) c opts)"

theorem manager_serves_safely:
  "\<not> mf_enableHTTP2 f \<longrightarrow> negotiated (wh_TLSOpts (webhookServerOptions f)) c = [''http/1.1''] \<and> negotiated (mo_TLSOpts (metricsServerOptions f)) c = [''http/1.1'']"
  "mo_FilterProvider (metricsServerOptions f) \<longleftrightarrow> mo_SecureServing (metricsServerOptions f)"
  by (simp_all add: negotiated_def webhookServerOptions_def metricsServerOptions_def tlsOpts_def disableHTTP2_def Let_def)

text \<open>Without arguments the exporter listens on the conventional port, and so it does for an empty address.\<close>

theorem manager_default_port:
  assumes "fmdom (ml_flags L) |\<inter>| fmdom manager_flags = {||}"
  shows "flag_Parse (manager_flags ++\<^sub>f ml_flags L) [] = Inr (manager_flags ++\<^sub>f ml_flags L, [])"
    and "hs_Addr (http_server (manager_server (read_manager (manager_flags ++\<^sub>f ml_flags L)) client)) = DefaultAddr"
proof -
  have "''gpu-metrics-bind-address'' |\<in>| fmdom manager_flags" by (simp add: manager_flags_def)
  then have "fmlookup (ml_flags L) ''gpu-metrics-bind-address'' = None" using assms by (auto intro!: fmdom_notD)
  then have "string_flag (manager_flags ++\<^sub>f ml_flags L) ''gpu-metrics-bind-address'' = DefaultAddr"
    by (simp add: string_flag_def manager_flags_def fmlookup_of_list fmdom_notI)
  then show "hs_Addr (http_server (manager_server (read_manager (manager_flags ++\<^sub>f ml_flags L)) client)) = DefaultAddr"
    by (simp add: http_server_def manager_server_def read_manager_def)
qed simp

text \<open>
  The process ends with code 0 only after the manager ran and stopped without an error, or after a request for help; and the manager that
  runs was created with the scheme the command line tool uses.
\<close>

theorem manager_exit_zero:
  assumes "must_law (ml_scheme L)"
  shows "manager_exit (manager_main L args) = 0 \<longleftrightarrow>
     (\<exists>scheme. Scheme (ml_scheme L) = Registered scheme
      \<and> (flag_Parse (manager_flags ++\<^sub>f ml_flags L) args = Inl ErrHelp
         \<or> (\<exists>fs left client. flag_Parse (manager_flags ++\<^sub>f ml_flags L) args = Inr (fs, left) \<and> ml_GetConfig L = None
              \<and> ml_NewManager L (manager_options scheme (read_manager fs)) = Inr client \<and> ml_SetupWithManager L = None
              \<and> ml_Add L (manager_server (read_manager fs) client) = None \<and> ml_AddHealthzCheck L = None \<and> ml_AddReadyzCheck L = None
              \<and> ml_Start L = None)))"
  by (auto simp: manager_main_def manager_init_Scheme [OF assms] panics_on_error_def check_step_def Let_def flag_exit_def
      split: outcome.splits option.splits sum.splits prod.splits if_splits)

end
