(* ===== verification/Cli_Status.thy ===== *)
theory Cli_Status
  imports Metrics_Exporter
begin

text \<open>
  \<open>internal/cli/status.go\<close>: the report of \<open>ghostgpu status\<close>, derived from pools, published slices and claims, and
  its three tables.

  A report is a function of three lists; maps that are only counted over (the order in which Go ranges over
  a map is open) are counted as sets. \<open>slices.SortFunc\<close> sorts by the key the source compares. \<open>text/tabwriter\<close>
  is modelled for what \<open>table\<close> asks of it: rows with the same number of cells, cells free of control
  characters, two spaces of padding; a cell is as wide as its number of runes.
\<close>

section \<open>status.go\<close>

definition status_counterSlices :: string where "status_counterSlices = ''slices''"
definition status_counterMemory :: string where "status_counterMemory = ''memory''"
definition poolLabel :: string where "poolLabel = ''ghostgpu.dev/pool''"

record PoolStatus =
  plst_Name :: string
  plst_Mode :: string
  plst_Nodes :: int
  plst_Devices :: int
  plst_Allocated :: int
  plst_Occupied :: int
  plst_Faulted :: int

record DeviceStatus =
  dvst_Node :: string
  dvst_Pool :: string
  dvst_Device :: string
  dvst_Profile :: string
  dvst_Allocated :: bool
  dvst_Occupied :: bool
  dvst_Faulted :: bool
  dvst_Pod :: string
  dvst_Namespace :: string

record 'q GPUStatus =
  gpst_Node :: string
  gpst_CounterSet :: string
  gpst_UsedSlices :: int
  gpst_TotalSlices :: int
  gpst_UsedMemory :: 'q
  gpst_TotalMemory :: 'q

record 'q Report =
  rep_Pools :: "PoolStatus list"
  rep_Devices :: "DeviceStatus list"
  rep_GPUs :: "'q GPUStatus list"

record allocation =
  all_pod :: string
  all_namespace :: string

record deviceKey =
  dk_pool :: string
  dk_device :: string

text \<open>The zero value of a holder: what a missing key of a Go map yields.\<close>

definition noAllocation :: allocation where
  "noAllocation = \<lparr> all_pod = [], all_namespace = [] \<rparr>"

definition allocation_of :: "ResourceClaim \<Rightarrow> allocation" where
  "allocation_of claim =
     (case find (\<lambda>c. cc_Resource c = ''pods'') (rc_ReservedFor claim) of
        None \<Rightarrow> noAllocation
      | Some c \<Rightarrow> \<lparr> all_pod = cc_Name c, all_namespace = rc_Namespace claim \<rparr>)"

definition index_step :: "(deviceKey, allocation) fmap \<Rightarrow> ResourceClaim \<Rightarrow> (deviceKey, allocation) fmap" where
  "index_step held claim =
     (case rc_Allocation claim of
        None \<Rightarrow> held
      | Some results \<Rightarrow>
          foldl (\<lambda>m r. if ar_Driver r \<noteq> DriverName then m
                       else fmupd \<lparr> dk_pool = ar_Pool r, dk_device = ar_Device r \<rparr> (allocation_of claim) m) held results)"

definition indexAllocations :: "ResourceClaim list \<Rightarrow> (deviceKey, allocation) fmap" where
  "indexAllocations claims = foldl index_step fmempty claims"

definition hasTaint :: "'q Device \<Rightarrow> string \<Rightarrow> bool" where
  "hasTaint device key = list_ex (\<lambda>t. dt_Key t = key) (dv_Taints device)"

definition cli_isOccupied :: "'q Device \<Rightarrow> bool" where
  "cli_isOccupied device = hasTaint device OccupiedTaintKey"

definition cli_isFaulted :: "'q Device \<Rightarrow> bool" where
  "cli_isFaulted device = hasTaint device FaultedTaintKey"

text \<open>The devices of all slices with their pool label and their key, in the order the loops visit them.\<close>

definition labelled_devices :: "'q ResourceSlice list \<Rightarrow> (string \<times> deviceKey \<times> 'q Device) list" where
  "labelled_devices published = concat (map (\<lambda>s.
     map (\<lambda>d. (get_str (rs_Labels s) poolLabel, \<lparr> dk_pool = rp_Name (rss_Pool (rs_Spec s)), dk_device = dv_Name d \<rparr>, d))
       (rss_Devices (rs_Spec s))) published)"

definition pool_of_devices :: "'q ResourceSlice list \<Rightarrow> (deviceKey, string) fmap" where
  "pool_of_devices published = foldl (\<lambda>m (owner, key, d). fmupd key owner m) fmempty (labelled_devices published)"

definition count_allocated :: "'q ResourceSlice list \<Rightarrow> (deviceKey, allocation) fmap \<Rightarrow> string \<Rightarrow> int" where
  "count_allocated published allocated owner =
     int (fcard (ffilter (\<lambda>key. fmlookup (pool_of_devices published) key = Some owner) (fmdom allocated)))"

text \<open>The two counters of the \<open>switch\<close>: a faulted device is not counted as occupied.\<close>

definition count_faulted :: "'q ResourceSlice list \<Rightarrow> (string, int) fmap" where
  "count_faulted published = foldl (\<lambda>m (owner, key, d).
     if cli_isFaulted d then fmupd owner (get_int m owner + 1) m else m) fmempty (labelled_devices published)"

definition count_occupied :: "'q ResourceSlice list \<Rightarrow> (string, int) fmap" where
  "count_occupied published = foldl (\<lambda>m (owner, key, d).
     if cli_isFaulted d then m else if cli_isOccupied d then fmupd owner (get_int m owner + 1) m else m)
     fmempty (labelled_devices published)"

definition pool_status :: "'q ResourceSlice list \<Rightarrow> (deviceKey, allocation) fmap \<Rightarrow> 'm GPUPool \<Rightarrow> PoolStatus" where
  "pool_status published allocated p =
     \<lparr> plst_Name = pool_Name p,
       plst_Mode = (if ps_SharingMode (pool_Spec p) = [] then SharingModeNone else ps_SharingMode (pool_Spec p)),
       plst_Nodes = st_NodesMatched (pool_Status p), plst_Devices = st_DevicesPublished (pool_Status p),
       plst_Allocated = count_allocated published allocated (pool_Name p),
       plst_Occupied = get_int (count_occupied published) (pool_Name p),
       plst_Faulted = get_int (count_faulted published) (pool_Name p) \<rparr>"

definition summarisePools ::
  "'m GPUPool list \<Rightarrow> 'q ResourceSlice list \<Rightarrow> (deviceKey, allocation) fmap \<Rightarrow> PoolStatus list" where
  "summarisePools pools published allocated = sort_key plst_Name (map (pool_status published allocated) pools)"

definition device_status :: "(deviceKey, allocation) fmap \<Rightarrow> string \<times> deviceKey \<times> 'q Device \<Rightarrow> DeviceStatus" where
  "device_status allocated = (\<lambda>(owner, key, d).
     let holder = (case fmlookup allocated key of None \<Rightarrow> noAllocation | Some h \<Rightarrow> h) in
     \<lparr> dvst_Node = dk_pool key, dvst_Pool = owner, dvst_Device = dv_Name d,
       dvst_Profile = get_stringAttr d AttrMIGProfile,
       dvst_Allocated = (fmlookup allocated key \<noteq> None), dvst_Occupied = cli_isOccupied d, dvst_Faulted = cli_isFaulted d,
       dvst_Pod = all_pod holder, dvst_Namespace = all_namespace holder \<rparr>)"

definition describeDevices :: "'q ResourceSlice list \<Rightarrow> (deviceKey, allocation) fmap \<Rightarrow> DeviceStatus list" where
  "describeDevices published allocated =
     sort_key (\<lambda>s. (dvst_Node s, dvst_Device s)) (map (device_status allocated) (labelled_devices published))"

text \<open>The budgets by node and counter set: first the declared ones, then what allocated devices consume.\<close>

type_synonym 'q budgets = "(string \<times> string, 'q GPUStatus) fmap"

definition declare_budget :: "'q quantity_ops \<Rightarrow> string \<Rightarrow> 'q budgets \<Rightarrow> 'q CounterSet \<Rightarrow> 'q budgets" where
  "declare_budget Q node budgets st =
     fmupd (node, cs_Name st)
       \<lparr> gpst_Node = node, gpst_CounterSet = cs_Name st, gpst_UsedSlices = 0,
         gpst_TotalSlices = (case fmlookup (cs_Counters st) status_counterSlices of Some c \<Rightarrow> q_Value Q c | None \<Rightarrow> 0),
         gpst_UsedMemory = q_NewQuantity Q 0 BinarySI,
         gpst_TotalMemory = (case fmlookup (cs_Counters st) status_counterMemory of
                               Some c \<Rightarrow> c | None \<Rightarrow> q_NewQuantity Q 0 BinarySI) \<rparr> budgets"

definition consume :: "'q quantity_ops \<Rightarrow> string \<Rightarrow> 'q budgets \<Rightarrow> 'q DeviceCounterConsumption \<Rightarrow> 'q budgets" where
  "consume Q node budgets c =
     (case fmlookup budgets (node, dcc_CounterSet c) of
        None \<Rightarrow> budgets
      | Some status \<Rightarrow>
          (let status1 = (case fmlookup (dcc_Counters c) status_counterSlices of
                            Some n \<Rightarrow> status\<lparr> gpst_UsedSlices := wrap64 (gpst_UsedSlices status + q_Value Q n) \<rparr>
                          | None \<Rightarrow> status);
               status2 = (case fmlookup (dcc_Counters c) status_counterMemory of
                            Some m \<Rightarrow> status1\<lparr> gpst_UsedMemory := q_Add Q (gpst_UsedMemory status1) m \<rparr>
                          | None \<Rightarrow> status1)
           in fmupd (node, dcc_CounterSet c) status2 budgets))"

definition declared_budgets :: "'q quantity_ops \<Rightarrow> 'q ResourceSlice list \<Rightarrow> 'q budgets" where
  "declared_budgets Q published =
     foldl (\<lambda>b s. foldl (declare_budget Q (rp_Name (rss_Pool (rs_Spec s)))) b (rss_SharedCounters (rs_Spec s))) fmempty published"

definition draw_down ::
  "'q quantity_ops \<Rightarrow> (deviceKey, allocation) fmap \<Rightarrow> 'q budgets \<Rightarrow> string \<times> deviceKey \<times> 'q Device \<Rightarrow> 'q budgets" where
  "draw_down Q allocated budgets = (\<lambda>(owner, key, d).
     if fmlookup allocated key = None then budgets
     else foldl (consume Q (dk_pool key)) budgets (dv_ConsumesCounters d))"

text \<open>The values of the map, sorted by node and counter set, which are its keys.\<close>

definition describeGPUs ::
  "'q quantity_ops \<Rightarrow> 'q ResourceSlice list \<Rightarrow> (deviceKey, allocation) fmap \<Rightarrow> 'q GPUStatus list" where
  "describeGPUs Q published allocated =
     (let budgets = foldl (draw_down Q allocated) (declared_budgets Q published) (labelled_devices published)
      in map (\<lambda>k. the (fmlookup budgets k)) (sorted_list_of_fset (fmdom budgets)))"

definition BuildReport ::
  "'q quantity_ops \<Rightarrow> 'm GPUPool list \<Rightarrow> 'q ResourceSlice list \<Rightarrow> ResourceClaim list \<Rightarrow> 'q Report" where
  "BuildReport Q pools published claims =
     (let allocated = indexAllocations claims in
      \<lparr> rep_Pools = summarisePools pools published allocated,
        rep_Devices = describeDevices published allocated,
        rep_GPUs = describeGPUs Q published allocated \<rparr>)"

definition pad_cell :: "nat \<Rightarrow> string \<Rightarrow> string" where
  "pad_cell width cell = cell @ replicate (width - length (runes cell)) CHR '' ''"

text \<open>Every cell of a row but the last is padded to the widest cell of its column and two spaces more.\<close>

definition column_width :: "string list list \<Rightarrow> nat \<Rightarrow> nat" where
  "column_width rows j = foldl max 0 (map (\<lambda>r. length (runes (r ! j)) + 2) rows)"

definition table_row :: "(nat \<Rightarrow> nat) \<Rightarrow> string list \<Rightarrow> string" where
  "table_row width row =
     concat (map (\<lambda>j. pad_cell (width j) (row ! j)) [0..<length row - 1]) @ row ! (length row - 1) @ [CHR 0x0A]"

definition cli_table :: "string list list \<Rightarrow> string" where
  "cli_table rows = concat (map (table_row (column_width rows)) rows)"

definition free_count :: "PoolStatus \<Rightarrow> int" where
  "free_count p = max 0 (plst_Devices p - plst_Allocated p - plst_Occupied p - plst_Faulted p)"

definition RenderPools :: "'q Report \<Rightarrow> string" where
  "RenderPools report = cli_table
     ([''POOL'', ''MODE'', ''NODES'', ''DEVICES'', ''FAULTED'', ''OCCUPIED'', ''ALLOCATED'', ''FREE''] #
      map (\<lambda>p. [plst_Name p, plst_Mode p, Itoa (plst_Nodes p), Itoa (plst_Devices p), Itoa (plst_Faulted p),
                Itoa (plst_Occupied p), Itoa (plst_Allocated p), Itoa (free_count p)]) (rep_Pools report))"

text \<open>The \<open>switch\<close> of \<open>RenderDevices\<close>: the words for a device's status and holder.\<close>

definition device_words :: "DeviceStatus \<Rightarrow> string \<times> string" where
  "device_words d =
     (if dvst_Allocated d then
        (''allocated'', if dvst_Pod d \<noteq> [] then dvst_Namespace d @ ''/'' @ dvst_Pod d else ''(unreserved)'')
      else if dvst_Faulted d then (''faulted'', ''(failed)'')
      else if dvst_Occupied d then (''occupied'', ''(declared)'')
      else (''free'', ''-''))"

definition RenderDevices :: "'q Report \<Rightarrow> string \<Rightarrow> string" where
  "RenderDevices report node = cli_table
     ([''NODE'', ''DEVICE'', ''PROFILE'', ''STATUS'', ''POD''] #
      map (\<lambda>d. [dvst_Node d, dvst_Device d, if dvst_Profile d = [] then ''-'' else dvst_Profile d,
                fst (device_words d), snd (device_words d)])
        (filter (\<lambda>d. node = [] \<or> dvst_Node d = node) (rep_Devices report)))"

definition RenderGPUs :: "'q quantity_ops \<Rightarrow> 'q Report \<Rightarrow> string \<Rightarrow> string" where
  "RenderGPUs Q report node = cli_table
     ([''NODE'', ''GPU'', ''SLICES'', ''MEMORY''] #
      map (\<lambda>g. [gpst_Node g, gpst_CounterSet g, Itoa (gpst_UsedSlices g) @ ''/'' @ Itoa (gpst_TotalSlices g),
                q_String Q (gpst_UsedMemory g) @ ''/'' @ q_String Q (gpst_TotalMemory g)])
        (filter (\<lambda>g. node = [] \<or> gpst_Node g = node) (rep_GPUs report)))"

section \<open>Lemmas: counting devices\<close>

definition dev_key :: "string \<times> deviceKey \<times> 'q Device \<Rightarrow> deviceKey" where
  "dev_key e = fst (snd e)"

definition dev_allocated :: "(deviceKey, allocation) fmap \<Rightarrow> string \<times> deviceKey \<times> 'q Device \<Rightarrow> bool" where
  "dev_allocated allocated e \<longleftrightarrow> fmlookup allocated (dev_key e) \<noteq> None"

definition dev_tainted :: "string \<times> deviceKey \<times> 'q Device \<Rightarrow> bool" where
  "dev_tainted e \<longleftrightarrow> cli_isFaulted (snd (snd e)) \<or> cli_isOccupied (snd (snd e))"

text \<open>The devices of one pool.\<close>

definition devices_of :: "string \<Rightarrow> 'q ResourceSlice list \<Rightarrow> (string \<times> deviceKey \<times> 'q Device) list" where
  "devices_of name published = filter (\<lambda>e. fst e = name) (labelled_devices published)"

lemma count_fold:
  "get_int (foldl (\<lambda>m (owner, key, d). if P d then fmupd owner (get_int m owner + 1) m else m) m es) name =
     get_int m name + int (length (filter (\<lambda>e. P (snd (snd e))) (filter (\<lambda>e. fst e = name) es)))"
  by (induction es arbitrary: m) auto

lemma count_faulted_eq:
  "get_int (count_faulted published) name = int (length (filter (\<lambda>e. cli_isFaulted (snd (snd e))) (devices_of name published)))"
  unfolding count_faulted_def devices_of_def count_fold by simp

lemma count_occupied_eq:
  "get_int (count_occupied published) name =
     int (length (filter (\<lambda>e. \<not> cli_isFaulted (snd (snd e)) \<and> cli_isOccupied (snd (snd e))) (devices_of name published)))"
proof -
  have "(if cli_isFaulted d then m else if cli_isOccupied d then x else m) = (if \<not> cli_isFaulted d \<and> cli_isOccupied d then x else m)"
    for d :: "'a Device" and x m :: "(string, int) fmap" by simp
  then show ?thesis unfolding count_occupied_def devices_of_def by (simp add: count_fold)
qed

lemma foldl_fmupd_lookup:
  assumes "distinct (map dev_key es)"
  shows "fmlookup (foldl (\<lambda>m (owner, key, d). fmupd key owner m) m es) k =
    (case find (\<lambda>e. dev_key e = k) es of None \<Rightarrow> fmlookup m k | Some e \<Rightarrow> Some (fst e))"
  using assms
proof (induction es arbitrary: m)
  case (Cons e es)
  have step: "(case e of (owner, key, d) \<Rightarrow> fmupd key owner m) = fmupd (dev_key e) (fst e) m" by (simp add: dev_key_def case_prod_beta)
  show ?case
  proof (cases "dev_key e = k")
    case True
    then have "dev_key x \<noteq> k" if "x \<in> set es" for x using that Cons.prems by (metis distinct.simps(2) image_eqI list.set_map list.simps(9))
    then have "find (\<lambda>e. dev_key e = k) es = None" unfolding find_None_iff by blast
    with True Cons show ?thesis by (simp add: step)
  next
    case False
    with Cons show ?thesis by (simp add: step split: option.split)
  qed
qed simp

lemma pool_of_devices_lookup:
  assumes "distinct (map dev_key (labelled_devices published))"
  shows "fmlookup (pool_of_devices published) k = Some name \<longleftrightarrow> k \<in> dev_key ` set (devices_of name published)"
proof
  assume "fmlookup (pool_of_devices published) k = Some name"
  then obtain e where e: "find (\<lambda>e. dev_key e = k) (labelled_devices published) = Some e" "fst e = name"
    unfolding pool_of_devices_def foldl_fmupd_lookup [OF assms] by (auto split: option.splits)
  then show "k \<in> dev_key ` set (devices_of name published)"
    using find_Some_in [OF e(1)] unfolding devices_of_def by (intro image_eqI [of _ _ e]) simp_all
next
  assume "k \<in> dev_key ` set (devices_of name published)"
  then obtain e where e: "e \<in> set (labelled_devices published)" "dev_key e = k" "fst e = name"
    unfolding devices_of_def set_filter by blast
  then have "find (\<lambda>e. dev_key e = k) (labelled_devices published) \<noteq> None" unfolding find_None_iff by blast
  then obtain e' where f: "find (\<lambda>e. dev_key e = k) (labelled_devices published) = Some e'" by blast
  have inj: "inj_on dev_key (set (labelled_devices published))" using assms by (simp add: distinct_map)
  have "e' = e" using find_Some_in [OF f] e by (intro inj_onD [OF inj]) simp_all
  with f e show "fmlookup (pool_of_devices published) k = Some name"
    unfolding pool_of_devices_def foldl_fmupd_lookup [OF assms] by simp
qed

lemma count_allocated_eq:
  assumes "distinct (map dev_key (labelled_devices published))"
  shows "count_allocated published allocated name = int (length (filter (dev_allocated allocated) (devices_of name published)))"
proof -
  let ?es = "filter (dev_allocated allocated) (devices_of name published)"
  have "inj_on dev_key (set (labelled_devices published))" "distinct (labelled_devices published)"
    using assms by (simp_all add: distinct_map)
  then have d: "distinct (map dev_key ?es)"
    unfolding distinct_map devices_of_def by (auto intro: inj_on_subset)
  have "k \<in> fset (ffilter (\<lambda>key. fmlookup (pool_of_devices published) key = Some name) (fmdom allocated)) \<longleftrightarrow> k \<in> set (map dev_key ?es)" for k
  proof -
    have "k \<in> set (map dev_key ?es) \<longleftrightarrow> k \<in> dev_key ` set (devices_of name published) \<and> fmlookup allocated k \<noteq> None"
      unfolding set_map set_filter dev_allocated_def by blast
    then show ?thesis by (simp add: pool_of_devices_lookup [OF assms] fmlookup_dom_iff conj_commute)
  qed
  then have "fset (ffilter (\<lambda>key. fmlookup (pool_of_devices published) key = Some name) (fmdom allocated)) = set (map dev_key ?es)"
    by (rule set_eqI)
  then show ?thesis unfolding count_allocated_def fcard.rep_eq using distinct_card [OF d] by simp
qed

lemma count_partition:
  "int (length es) - int (length (filter A es)) - int (length (filter (\<lambda>e. \<not> F e \<and> O' e) es)) - int (length (filter F es)) =
     int (length (filter (\<lambda>e. \<not> A e \<and> \<not> (F e \<or> O' e)) es)) - int (length (filter (\<lambda>e. A e \<and> (F e \<or> O' e)) es))"
  by (induction es) auto

section \<open>Properties: pools\<close>


definition example_published_slice :: "int ResourceSlice" where
  "example_published_slice =
     \<lparr> rs_Name = ''pool-node-0'', rs_Labels = fmupd poolLabel ''pool'' fmempty, rs_Owner = None,
       rs_Spec = \<lparr> rss_Driver = DriverName, rss_NodeName = Some ''node-0'',
         rss_Pool = \<lparr> rp_Name = ''node-0'', rp_Generation = 1, rp_ResourceSliceCount = 1 \<rparr>, rss_SharedCounters = [],
         rss_Devices = map (gpu_device (example_pool 2 SharingModeNone [] [] [fault_default 1]) example_model ''node-0''
           (StateFor (example_pool 2 SharingModeNone [] [] [fault_default 1]) example_node)) [0, 1] \<rparr> \<rparr>"

definition example_counted_pool :: "unit GPUPool" where
  "example_counted_pool = (let p = example_pool 2 SharingModeNone [] [] [fault_default 1] in
     p\<lparr> pool_Status := (pool_Status p)\<lparr> st_DevicesPublished := 2 \<rparr> \<rparr>)"


section \<open>Lemmas: budgets\<close>

lemma wrap64_wrap64_add: "wrap64 (wrap64 x + y) = wrap64 (x + y)"
proof -
  have "wrap64 x + y + 2 ^ 63 = (x + 2 ^ 63) mod 2 ^ 64 + y" by (simp add: wrap64_def)
  then have "(wrap64 x + y + 2 ^ 63) mod 2 ^ 64 = (x + 2 ^ 63 + y) mod 2 ^ 64" by (simp only: mod_add_left_eq)
  then show ?thesis by (simp add: wrap64_def add.assoc add.commute add.left_commute)
qed

text \<open>What one consumption does to the status of its counter set.\<close>

definition charge :: "'q quantity_ops \<Rightarrow> 'q GPUStatus \<Rightarrow> 'q DeviceCounterConsumption \<Rightarrow> 'q GPUStatus" where
  "charge Q status c =
     (let status1 = (case fmlookup (dcc_Counters c) status_counterSlices of
                       Some n \<Rightarrow> status\<lparr> gpst_UsedSlices := wrap64 (gpst_UsedSlices status + q_Value Q n) \<rparr>
                     | None \<Rightarrow> status)
      in case fmlookup (dcc_Counters c) status_counterMemory of
           Some m \<Rightarrow> status1\<lparr> gpst_UsedMemory := q_Add Q (gpst_UsedMemory status1) m \<rparr>
         | None \<Rightarrow> status1)"

lemma consume_lookup:
  "fmlookup (consume Q node b c) k =
     (if k = (node, dcc_CounterSet c) then map_option (\<lambda>s. charge Q s c) (fmlookup b k) else fmlookup b k)"
  by (auto simp: consume_def charge_def Let_def split: option.split)

lemma consume_all_lookup:
  "fmlookup (foldl (consume Q node) b cs) k =
     map_option (\<lambda>s. foldl (charge Q) s (if fst k = node then filter (\<lambda>c. dcc_CounterSet c = snd k) cs else [])) (fmlookup b k)"
  by (induction cs arbitrary: b; cases k) (auto simp: consume_lookup option.map_comp o_def option.map_ident)

text \<open>The consumptions that are charged to a counter set, in order.\<close>

definition charges :: "(deviceKey, allocation) fmap \<Rightarrow> (string \<times> deviceKey \<times> 'q Device) list \<Rightarrow> string \<times> string
    \<Rightarrow> 'q DeviceCounterConsumption list" where
  "charges allocated es k = concat (map (\<lambda>e. filter (\<lambda>c. dcc_CounterSet c = snd k) (dv_ConsumesCounters (snd (snd e))))
     (filter (\<lambda>e. dev_allocated allocated e \<and> dk_pool (dev_key e) = fst k) es))"

lemma draw_down_lookup:
  "fmlookup (foldl (draw_down Q allocated) b es) k = map_option (\<lambda>s. foldl (charge Q) s (charges allocated es k)) (fmlookup b k)"
proof (induction es arbitrary: b)
  case (Cons e es)
  obtain owner key d where e: "e = (owner, key, d)" by (metis prod_cases3)
  have "fmlookup (draw_down Q allocated b e) k = map_option (\<lambda>s. foldl (charge Q) s (charges allocated [e] k)) (fmlookup b k)"
    by (simp add: e draw_down_def consume_all_lookup charges_def dev_allocated_def dev_key_def option.map_ident)
  moreover have "charges allocated (e # es) k = charges allocated [e] k @ charges allocated es k" by (simp add: charges_def)
  ultimately show ?case using Cons by (simp add: option.map_comp o_def)
qed (simp add: charges_def option.map_ident)

lemma charge_fold_fields:
  "gpst_Node (foldl (charge Q) s cs) = gpst_Node s" "gpst_CounterSet (foldl (charge Q) s cs) = gpst_CounterSet s"
  "gpst_TotalSlices (foldl (charge Q) s cs) = gpst_TotalSlices s" "gpst_TotalMemory (foldl (charge Q) s cs) = gpst_TotalMemory s"
  by (induction cs arbitrary: s) (simp_all add: charge_def Let_def split: option.split)

lemma declare_budget_lookup:
  assumes "\<And>c. c \<in> set sets \<Longrightarrow> cs_Counters c = C"
  shows "fmlookup (foldl (declare_budget Q n) b sets) k =
    (if fst k = n \<and> snd k \<in> cs_Name ` set sets then fmlookup (declare_budget Q n fmempty \<lparr> cs_Name = snd k, cs_Counters = C \<rparr>) k
     else fmlookup b k)"
  using assms
proof (induction sets arbitrary: b)
  case (Cons c sets)
  then have "cs_Counters c = C" by simp
  with Cons show ?case by (cases k) (auto simp: declare_budget_def)
qed simp

lemma declared_budgets_node:
  assumes "\<And>s. s \<in> set published \<Longrightarrow> rp_Name (rss_Pool (rs_Spec s)) = n"
  shows "declared_budgets Q published = foldl (declare_budget Q n) fmempty (pool_counters published)"
proof -
  have "foldl (\<lambda>b s. foldl (declare_budget Q (rp_Name (rss_Pool (rs_Spec s)))) b (rss_SharedCounters (rs_Spec s))) b published =
      foldl (declare_budget Q n) b (pool_counters published)" for b
    using assms by (induction published arbitrary: b) (simp_all add: pool_counters_def)
  then show ?thesis by (simp add: declared_budgets_def)
qed

text \<open>The slices of a MIG node as the controller publishes them.\<close>

lemma published_node:
  assumes "BuildMIGSlices Q pool m t n st = Some slices" "published_as pool slices published" "s \<in> set published"
  shows "rp_Name (rss_Pool (rs_Spec s)) = n" "get_str (rs_Labels s) poolLabel = pool_Name pool"
proof -
  have spec: "map rs_Spec published = map rs_Spec slices" using assms(2) by (simp add: published_as_def)
  have "rs_Spec s \<in> set (map rs_Spec slices)" unfolding spec [symmetric] using assms(3) by simp
  then show "rp_Name (rss_Pool (rs_Spec s)) = n" using BuildMIGSlices_node [OF assms(1)] by auto
  show "get_str (rs_Labels s) poolLabel = pool_Name pool"
    using assms(2,3) by (simp add: published_as_def poolLabel_def metrics_PoolLabel_def)
qed

lemma published_contents:
  fixes slices published :: "'q ResourceSlice list"
  assumes "published_as pool slices published"
  shows "pool_devices published = pool_devices slices" "pool_counters published = pool_counters slices"
proof -
  have d: "pool_devices xs = concat (map rss_Devices (map rs_Spec xs))" for xs :: "'q ResourceSlice list"
    by (simp add: pool_devices_def o_def)
  have c: "pool_counters xs = concat (map rss_SharedCounters (map rs_Spec xs))" for xs :: "'q ResourceSlice list"
    by (simp add: pool_counters_def o_def)
  have spec: "map rs_Spec published = map rs_Spec slices" using assms by (simp add: published_as_def)
  show "pool_devices published = pool_devices slices" unfolding d spec ..
  show "pool_counters published = pool_counters slices" unfolding c spec ..
qed

lemma labelled_devices_node:
  assumes "\<And>s. s \<in> set published \<Longrightarrow> rp_Name (rss_Pool (rs_Spec s)) = n \<and> get_str (rs_Labels s) poolLabel = name"
  shows "labelled_devices published = map (\<lambda>d. (name, \<lparr> dk_pool = n, dk_device = dv_Name d \<rparr>, d)) (pool_devices published)"
  using assms by (induction published) (simp_all add: labelled_devices_def pool_devices_def)

lemma MIG_counters:
  assumes "BuildMIGSlices Q pool m t n st = Some slices" "c \<in> set (pool_counters slices)"
  shows "cs_Counters c = budgetCounters Q (tb_Budget t)"
  using assms by (auto simp: BuildMIGSlices_def Let_def pool_counters_def counter_slice_def device_slice_def newMIGSlice_def
      split: option.splits)

definition mig_consumption :: "'q quantity_ops \<Rightarrow> 'q Instance \<Rightarrow> 'q DeviceCounterConsumption" where
  "mig_consumption Q i = \<lparr> dcc_CounterSet = in_CounterSet i,
     dcc_Counters = fmap_of_list [(counterMemory, pr_Memory (in_Profile i)),
       (counterSlices, q_NewQuantity Q (pr_Slices (in_Profile i)) DecimalSI)] \<rparr>"

lemma migDevice_consumption: "dv_ConsumesCounters (tainted_migDevice Q pool m n st i) = [mig_consumption Q i]"
  by (simp add: tainted_migDevice_def migDevice_def Let_def mig_consumption_def split: option.split)

lemma mig_consumption_counters:
  "fmlookup (dcc_Counters (mig_consumption Q i)) status_counterSlices = Some (q_NewQuantity Q (pr_Slices (in_Profile i)) DecimalSI)"
  "fmlookup (dcc_Counters (mig_consumption Q i)) status_counterMemory = Some (pr_Memory (in_Profile i))"
  by (simp_all add: mig_consumption_def fmlookup_of_list counterMemory_def counterSlices_def status_counterSlices_def status_counterMemory_def)

lemma charge_fold_used:
  assumes "quantity_laws Q amt" "int64_range (gpst_UsedSlices s)"
  shows "gpst_UsedSlices (foldl (charge Q) s (map (mig_consumption Q) js)) =
      wrap64 (gpst_UsedSlices s + (\<Sum>j\<leftarrow>js. q_Value Q (q_NewQuantity Q (pr_Slices (in_Profile j)) DecimalSI)))
    \<and> amt (gpst_UsedMemory (foldl (charge Q) s (map (mig_consumption Q) js))) =
      amt (gpst_UsedMemory s) + (\<Sum>j\<leftarrow>js. amt (pr_Memory (in_Profile j)))"
  using assms(2)
proof (induction js arbitrary: s)
  case (Cons j js)
  have c: "charge Q s (mig_consumption Q j) = s\<lparr>
      gpst_UsedSlices := wrap64 (gpst_UsedSlices s + q_Value Q (q_NewQuantity Q (pr_Slices (in_Profile j)) DecimalSI)),
      gpst_UsedMemory := q_Add Q (gpst_UsedMemory s) (pr_Memory (in_Profile j)) \<rparr>"
    by (simp add: charge_def mig_consumption_counters)
  have "int64_range (gpst_UsedSlices (charge Q s (mig_consumption Q j)))" by (simp add: c)
  from Cons.IH [OF this] show ?case
    by (simp add: c wrap64_wrap64_add add.assoc quantity_laws_Add [OF assms(1)])
qed simp

text \<open>The instances of a card that are allocated.\<close>

definition allocated_on :: "(deviceKey, allocation) fmap \<Rightarrow> string \<Rightarrow> int \<Rightarrow> 'q Instance list \<Rightarrow> 'q Instance list" where
  "allocated_on allocated n x is =
     filter (\<lambda>i. fmlookup allocated \<lparr> dk_pool = n, dk_device = in_DeviceName i \<rparr> \<noteq> None) (on_gpu x is)"

lemma MIG_charges:
  assumes "mig_instances pool t = Some is"
  shows "charges allocated (map (\<lambda>d. (name, \<lparr> dk_pool = n, dk_device = dv_Name d \<rparr>, d)) (map (tainted_migDevice Q pool m n st) is))
      (n, CounterSetName x) = map (mig_consumption Q) (allocated_on allocated n x is)"
proof -
  have "in_CounterSet i = CounterSetName x \<longleftrightarrow> in_GPUIndex i = x" if "i \<in> set is" for i
    using mig_instances_contract(4) [OF assms that] by (simp add: instance_ok_def)
  then have "concat (map (\<lambda>e. filter (\<lambda>c. dcc_CounterSet c = CounterSetName x) (dv_ConsumesCounters (snd (snd e))))
      (filter (\<lambda>e. dev_allocated allocated e \<and> dk_pool (dev_key e) = n)
        (map (\<lambda>i. (name, \<lparr> dk_pool = n, dk_device = in_DeviceName i \<rparr>, tainted_migDevice Q pool m n st i)) js))) =
      map (mig_consumption Q) (filter (\<lambda>i. fmlookup allocated \<lparr> dk_pool = n, dk_device = in_DeviceName i \<rparr> \<noteq> None)
        (filter (\<lambda>i. in_GPUIndex i = x) js))" if "set js \<subseteq> set is" for js
    using that by (induction js) (auto simp: migDevice_consumption dev_allocated_def dev_key_def mig_consumption_def)
  from this [of "is"] show ?thesis by (simp add: charges_def allocated_on_def on_gpu_def o_def)
qed

lemma q_Value_NewQuantity: "quantity_laws Q amt \<Longrightarrow> \<bar>n\<bar> < 2 ^ 63 \<Longrightarrow> q_Value Q (q_NewQuantity Q n f) = n"
  using quantity_laws_Value [of Q amt "q_NewQuantity Q n f"] quantity_laws_NewQuantity [of Q amt n f]
  by (simp flip: of_int_abs)

lemma sum_slices_bound:
  assumes "\<And>i. i \<in> set js \<Longrightarrow> 1 \<le> f i \<and> f i \<le> (8::int)"
  shows "0 \<le> (\<Sum>i\<leftarrow>js. f i) \<and> (\<Sum>i\<leftarrow>js. f i) \<le> 8 * int (length js)"
  using assms by (induction js) force+

text \<open>The status a counter set starts with, and the line of one card.\<close>

definition fresh_status :: "'q quantity_ops \<Rightarrow> 'q Table \<Rightarrow> string \<Rightarrow> string \<Rightarrow> 'q GPUStatus" where
  "fresh_status Q t n name =
     \<lparr> gpst_Node = n, gpst_CounterSet = name, gpst_UsedSlices = 0,
       gpst_TotalSlices = q_Value Q (q_NewQuantity Q (bd_Slices (tb_Budget t)) DecimalSI),
       gpst_UsedMemory = q_NewQuantity Q 0 BinarySI, gpst_TotalMemory = bd_Memory (tb_Budget t) \<rparr>"

lemma MIG_budget_lookup:
  fixes allocated :: "(deviceKey, allocation) fmap"
  assumes b: "BuildMIGSlices Q pool m t n st = Some slices" and p: "published_as pool slices published"
    and i: "mig_instances pool t = Some is"
    and g: "0 \<le> ps_GPUsPerNode (pool_Spec pool)" "ps_GPUsPerNode (pool_Spec pool) + 16 < 2 ^ 31"
  defines "budgets \<equiv> foldl (draw_down Q allocated) (declared_budgets Q published) (labelled_devices published)"
  shows "fset (fmdom budgets) = (\<lambda>x. (n, CounterSetName x)) ` {0..<ps_GPUsPerNode (pool_Spec pool)}"
    and "0 \<le> x \<Longrightarrow> x < ps_GPUsPerNode (pool_Spec pool) \<Longrightarrow> fmlookup budgets (n, CounterSetName x) =
      Some (foldl (charge Q) (fresh_status Q t n (CounterSetName x)) (map (mig_consumption Q) (allocated_on allocated n x is)))"
proof -
  obtain is' where "mig_instances pool t = Some is'" and dev: "pool_devices slices = map (tainted_migDevice Q pool m n st) is'"
    and names: "map cs_Name (pool_counters slices) = map CounterSetName (range_int (ps_GPUsPerNode (pool_Spec pool)))"
    by (rule BuildMIGSlices_contents [OF b g])
  with i have dev: "pool_devices slices = map (tainted_migDevice Q pool m n st) is" by simp
  have "cs_Name ` set (pool_counters slices) = set (map cs_Name (pool_counters slices))" by simp
  then have nm: "cs_Name ` set (pool_counters slices) = CounterSetName ` {0..<ps_GPUsPerNode (pool_Spec pool)}"
    unfolding names by simp
  note node = published_node [OF b p]
  have lab: "labelled_devices published = map (\<lambda>d. (pool_Name pool, \<lparr> dk_pool = n, dk_device = dv_Name d \<rparr>, d)) (map (tainted_migDevice Q pool m n st) is)"
    using labelled_devices_node [of published n "pool_Name pool"] node published_contents(1) [OF p] dev by simp
  have "declared_budgets Q published = foldl (declare_budget Q n) fmempty (pool_counters slices)"
    using declared_budgets_node [of published n Q] node(1) published_contents(2) [OF p] by simp
  then have dec: "fmlookup (declared_budgets Q published) k = (if fst k = n \<and> snd k \<in> CounterSetName ` {0..<ps_GPUsPerNode (pool_Spec pool)}
      then Some (fresh_status Q t n (snd k)) else None)" for k
    using declare_budget_lookup [OF MIG_counters [OF b], of "pool_counters slices" Q n fmempty k]
    by (cases k) (auto simp: nm declare_budget_def fresh_status_def budgetCounters_def fmlookup_of_list counterMemory_def
        counterSlices_def status_counterSlices_def status_counterMemory_def)
  show "fset (fmdom budgets) = (\<lambda>x. (n, CounterSetName x)) ` {0..<ps_GPUsPerNode (pool_Spec pool)}"
    unfolding budgets_def by (auto simp: fmlookup_dom_iff draw_down_lookup dec split: if_splits)
  show "fmlookup budgets (n, CounterSetName x) =
      Some (foldl (charge Q) (fresh_status Q t n (CounterSetName x)) (map (mig_consumption Q) (allocated_on allocated n x is)))"
    if "0 \<le> x" "x < ps_GPUsPerNode (pool_Spec pool)"
    unfolding budgets_def draw_down_lookup lab MIG_charges [OF i] using that by (simp add: dec)
qed

lemma MIG_budget_line:
  fixes n :: string and x :: int and allocated :: "(deviceKey, allocation) fmap"
  assumes laws: "quantity_laws Q amt" and i: "mig_instances pool t = Some is"
    and sl: "slices_ok t" "int32_range (bd_Slices (tb_Budget t))" and len: "int (length is) < 2 ^ 59"
  defines "s \<equiv> foldl (charge Q) (fresh_status Q t n (CounterSetName x)) (map (mig_consumption Q) (allocated_on allocated n x is))"
  shows "gpst_Node s = n \<and> gpst_CounterSet s = CounterSetName x \<and> gpst_TotalSlices s = bd_Slices (tb_Budget t)
    \<and> gpst_TotalMemory s = bd_Memory (tb_Budget t)
    \<and> gpst_UsedSlices s = (\<Sum>j\<leftarrow>allocated_on allocated n x is. pr_Slices (in_Profile j))
    \<and> amt (gpst_UsedMemory s) = (\<Sum>j\<leftarrow>allocated_on allocated n x is. amt (pr_Memory (in_Profile j)))"
proof -
  let ?js = "allocated_on allocated n x is"
  have js: "1 \<le> pr_Slices (in_Profile j) \<and> pr_Slices (in_Profile j) \<le> 8" if "j \<in> set ?js" for j
    using that sl(1) mig_instances_contract(4) [OF i, of j] by (auto simp: allocated_on_def on_gpu_def instance_ok_def slices_ok_def)
  let ?sum = "\<Sum>j\<leftarrow>?js. pr_Slices (in_Profile j)"
  have "length ?js \<le> length is" by (simp add: allocated_on_def on_gpu_def le_trans [OF length_filter_le length_filter_le])
  then have "0 \<le> ?sum" "?sum < 2 ^ 62" using sum_slices_bound [of ?js "\<lambda>j. pr_Slices (in_Profile j)"] js len by auto
  then have w: "wrap64 ?sum = ?sum" by (simp add: int64_range_def)
  have v: "map (\<lambda>j. q_Value Q (q_NewQuantity Q (pr_Slices (in_Profile j)) DecimalSI)) ?js = map (\<lambda>j. pr_Slices (in_Profile j)) ?js"
    using js by (intro map_cong refl q_Value_NewQuantity [OF laws]) force
  have fold: "gpst_UsedSlices s = ?sum \<and> amt (gpst_UsedMemory s) = (\<Sum>j\<leftarrow>?js. amt (pr_Memory (in_Profile j)))"
    using charge_fold_used [OF laws, of "fresh_status Q t n (CounterSetName x)" ?js]
    by (simp add: s_def v w fresh_status_def int64_range_def quantity_laws_NewQuantity [OF laws])
  have "q_Value Q (q_NewQuantity Q (bd_Slices (tb_Budget t)) DecimalSI) = bd_Slices (tb_Budget t)"
    using sl(2) by (intro q_Value_NewQuantity [OF laws]) (auto simp: int32_range_def)
  with fold show ?thesis
    unfolding s_def charge_fold_fields by (simp add: fresh_status_def)
qed

section \<open>Properties: budgets\<close>

text \<open>
  C26: the budget table of a MIG node accounts for its cards exactly, whatever is allocated: one line per
  card; its totals are the card's budget, and what is used is the sum of the compute slices and of the
  memory of the instances on that card that are allocated, and of no others.
\<close>

theorem describeGPUs_MIG:
  assumes laws: "quantity_laws Q amt" and b: "BuildMIGSlices Q pool m t n st = Some slices"
    and p: "published_as pool slices published" and i: "mig_instances pool t = Some is"
    and g: "0 \<le> ps_GPUsPerNode (pool_Spec pool)" "ps_GPUsPerNode (pool_Spec pool) + 16 < 2 ^ 31"
    and sl: "slices_ok t" "int32_range (bd_Slices (tb_Budget t))" and len: "int (length is) < 2 ^ 59"
  shows "map (\<lambda>s. (gpst_Node s, gpst_CounterSet s)) (describeGPUs Q published allocated) =
      sorted_list_of_set ((\<lambda>x. (n, CounterSetName x)) ` {0..<ps_GPUsPerNode (pool_Spec pool)})
    \<and> list_all (\<lambda>s. \<exists>x. gpst_CounterSet s = CounterSetName x \<and> gpst_TotalSlices s = bd_Slices (tb_Budget t)
        \<and> gpst_TotalMemory s = bd_Memory (tb_Budget t)
        \<and> gpst_UsedSlices s = (\<Sum>j\<leftarrow>allocated_on allocated n x is. pr_Slices (in_Profile j))
        \<and> amt (gpst_UsedMemory s) = (\<Sum>j\<leftarrow>allocated_on allocated n x is. amt (pr_Memory (in_Profile j))))
      (describeGPUs Q published allocated)" (is "_ \<and> list_all ?P _")
proof -
  let ?b = "foldl (draw_down Q allocated) (declared_budgets Q published) (labelled_devices published)"
  note look = MIG_budget_lookup [OF b p i g, where allocated = allocated]
  note line = MIG_budget_line [OF laws i sl len, where n = n and allocated = allocated]
  have ks: "\<exists>x. 0 \<le> x \<and> x < ps_GPUsPerNode (pool_Spec pool) \<and> k = (n, CounterSetName x)"
    if "k \<in> set (sorted_list_of_fset (fmdom ?b))" for k
    using that by (auto simp: sorted_list_of_fset.rep_eq look(1))
  have own: "(gpst_Node (the (fmlookup ?b k)), gpst_CounterSet (the (fmlookup ?b k))) = k"
    and ok: "?P (the (fmlookup ?b k))" if mem: "k \<in> set (sorted_list_of_fset (fmdom ?b))" for k
  proof -
    obtain x where x: "0 \<le> x" "x < ps_GPUsPerNode (pool_Spec pool)" "k = (n, CounterSetName x)" using ks [OF mem] by blast
    have k: "the (fmlookup ?b k) = foldl (charge Q) (fresh_status Q t n (CounterSetName x))
        (map (mig_consumption Q) (allocated_on allocated n x is))" using look(2) [OF x(1,2)] x(3) by simp
    show "(gpst_Node (the (fmlookup ?b k)), gpst_CounterSet (the (fmlookup ?b k))) = k" unfolding k using line [of x] x(3) by simp
    show "?P (the (fmlookup ?b k))" unfolding k using line [of x] by blast
  qed
  then have "map (\<lambda>s. (gpst_Node s, gpst_CounterSet s)) (describeGPUs Q published allocated) = sorted_list_of_fset (fmdom ?b)"
    unfolding describeGPUs_def Let_def map_map by (intro map_idI) simp
  moreover have "list_all ?P (describeGPUs Q published allocated)"
    unfolding describeGPUs_def Let_def list_all_iff using ok by auto
  ultimately show ?thesis by (simp add: sorted_list_of_fset.rep_eq look(1))
qed

theorem describeGPUs_MIG_witness:
  "\<exists>slices. BuildMIGSlices int_quantity (example_pool 8 SharingModeMIG [] [] []) example_model example_table ''node-0''
      (StateFor (example_pool 8 SharingModeMIG [] [] []) example_node) = Some slices
    \<and> list_all (\<lambda>s. gpst_TotalSlices s = 7)
        (describeGPUs int_quantity (map (\<lambda>s. s\<lparr> rs_Labels := fmupd metrics_PoolLabel ''pool'' fmempty \<rparr>) slices) fmempty)
    \<and> length (describeGPUs int_quantity (map (\<lambda>s. s\<lparr> rs_Labels := fmupd metrics_PoolLabel ''pool'' fmempty \<rparr>) slices) fmempty) = 8"
proof -
  let ?p = "example_pool 8 SharingModeMIG [] [] []" and ?l = "map (\<lambda>s. s\<lparr> rs_Labels := fmupd metrics_PoolLabel ''pool'' fmempty \<rparr>)"
  obtain slices where b: "BuildMIGSlices int_quantity ?p example_model example_table ''node-0'' (StateFor ?p example_node) = Some slices"
    using example_dynamic by blast
  obtain "is" where i: "mig_instances ?p example_table = Some is" "length is = 16" using example_instances by blast
  have "int32_range (bd_Slices (tb_Budget example_table))" "bd_Slices (tb_Budget example_table) = 7"
    by (simp_all add: example_table_def int32_range_def)
  with describeGPUs_MIG [OF int_quantity_laws b example_published i(1), of fmempty] i(2)
  have d: "map (\<lambda>s. (gpst_Node s, gpst_CounterSet s)) (describeGPUs int_quantity (?l slices) fmempty) =
      sorted_list_of_set ((\<lambda>x. (''node-0'', CounterSetName x)) ` {0..<8})"
    and t: "list_all (\<lambda>s. gpst_TotalSlices s = 7) (describeGPUs int_quantity (?l slices) fmempty)"
    by (auto simp: list_all_iff)
  have "card ((\<lambda>x. (''node-0'', CounterSetName x)) ` {0..<8::int}) = 8" by (subst card_image) (simp_all add: inj_on_def)
  then have "length (map (\<lambda>s. (gpst_Node s, gpst_CounterSet s)) (describeGPUs int_quantity (?l slices) fmempty)) = 8"
    unfolding d by simp
  with b t show ?thesis by auto
qed

section \<open>Properties: devices and tables\<close>

lemma index_results_lookup:
  "fmlookup (foldl (\<lambda>m r. if ar_Driver r \<noteq> DriverName then m
       else fmupd \<lparr> dk_pool = ar_Pool r, dk_device = ar_Device r \<rparr> h m) held rs) k =
     (if list_ex (\<lambda>r. ar_Driver r = DriverName \<and> ar_Pool r = dk_pool k \<and> ar_Device r = dk_device k) rs then Some h
      else fmlookup held k)"
  by (induction rs arbitrary: held) auto

definition claim_allocates :: "deviceKey \<Rightarrow> ResourceClaim \<Rightarrow> bool" where
  "claim_allocates k c \<longleftrightarrow> (case rc_Allocation c of None \<Rightarrow> False
     | Some rs \<Rightarrow> list_ex (\<lambda>r. ar_Driver r = DriverName \<and> ar_Pool r = dk_pool k \<and> ar_Device r = dk_device k) rs)"

lemma indexAllocations_lookup:
  "fmlookup (indexAllocations claims) k = map_option allocation_of (find (claim_allocates k) (rev claims))"
proof (induction claims rule: rev_induct)
  case (snoc c claims)
  have "fmlookup (index_step held c) k = (if claim_allocates k c then Some (allocation_of c) else fmlookup held k)" for held
    by (simp add: index_step_def claim_allocates_def index_results_lookup split: option.split)
  with snoc show ?case by (simp add: indexAllocations_def)
qed (simp add: indexAllocations_def)

text \<open>
  The device table and the exporter agree on who holds what: a device that the exporter attributes to a pod
  is listed as allocated, and unless a later claim took it without a pod, with the same pod.
\<close>

theorem status_agrees_with_exporter:
  assumes "fmlookup (Holders claims) a = Some h"
  shows "\<exists>h'. fmlookup (indexAllocations claims) \<lparr> dk_pool = al_Pool a, dk_device = al_Device a \<rparr> = Some h'
    \<and> (all_pod h' = [] \<or> all_pod h' = ho_Pod h \<and> all_namespace h' = ho_Namespace h)"
  using assms
proof (induction claims rule: rev_induct)
  case (snoc c claims)
  let ?k = "\<lparr> dk_pool = al_Pool a, dk_device = al_Device a \<rparr>"
  have al: "allocation_of c = \<lparr> all_pod = ho_Pod (claim_holder c), all_namespace = ho_Namespace (claim_holder c) \<rparr>"
    by (simp add: allocation_of_def claim_holder_def podsResource_def noAllocation_def noHolder_def split: option.split)
  have ch: "claim_holds a c \<longleftrightarrow> ho_Pod (claim_holder c) \<noteq> [] \<and> claim_allocates ?k c"
    by (cases "rc_Allocation c") (simp_all add: claim_holds_def claim_allocates_def)
  show ?case
  proof (cases "claim_allocates ?k c")
    case True
    then show ?thesis using snoc.prems ch
      by (cases "ho_Pod (claim_holder c) = []") (simp_all add: indexAllocations_lookup al Holders_def holders_step_lookup)
  next
    case False
    then show ?thesis using snoc ch by (simp add: indexAllocations_lookup Holders_def holders_step_lookup)
  qed
qed (simp add: Holders_def)

lemma foldl_max_ge: "a \<le> foldl max a xs \<and> (\<forall>x \<in> set xs. x \<le> foldl max a xs)" for a :: nat
proof (induction xs arbitrary: a)
  case (Cons y xs)
  from Cons.IH [of "max a y"] show ?case by simp
qed simp

lemma column_width_ge: "r \<in> set rows \<Longrightarrow> length (runes (r ! j)) + 2 \<le> column_width rows j"
  using foldl_max_ge [of 0 "map (\<lambda>r. length (runes (r ! j)) + 2) rows"] by (simp add: column_width_def)

text \<open>
  Tables are aligned: in every line of a table of ASCII cells, each cell starts at the column that the
  widths of the columns before it determine, whatever the line.
\<close>

theorem cli_table_aligned:
  assumes r: "r \<in> set rows" and j: "j < length r" and ascii: "\<And>r c. r \<in> set rows \<Longrightarrow> c \<in> set r \<Longrightarrow> is_ascii c"
  shows "\<exists>before after. table_row (column_width rows) r = before @ r ! j @ after
    \<and> length before = (\<Sum>i\<leftarrow>[0..<j]. column_width rows i)"
proof -
  let ?w = "column_width rows" and ?c = "\<lambda>i. pad_cell (column_width rows i) (r ! i)"
  have len: "length (?c i) = ?w i" if "i < length r" for i
    using column_width_ge [OF r, of i] runes_ascii [OF ascii [OF r nth_mem [OF that]]] by (simp add: pad_cell_def)
  have l: "length (concat (map ?c [0..<j])) = (\<Sum>i\<leftarrow>[0..<j]. ?w i)"
    using j len by (auto simp: length_concat o_def intro!: arg_cong [of _ _ sum_list] map_cong)
  show ?thesis
  proof (cases "j = length r - 1")
    case True
    have "table_row ?w r = concat (map ?c [0..<j]) @ r ! j @ [CHR 0x0A]" by (simp add: table_row_def True)
    then show ?thesis using l by blast
  next
    case False
    with j have lt: "j < length r - 1" by simp
    then have "[0..<length r - 1] = [0..<j] @ j # [Suc j..<length r - 1]"
      using upt_add_eq_append [of 0 j "length r - 1 - j"] by (simp add: upt_conv_Cons)
    then have "table_row ?w r = concat (map ?c [0..<j]) @ r ! j @ (replicate (?w j - length (runes (r ! j))) CHR '' ''
        @ concat (map ?c [Suc j..<length r - 1]) @ r ! (length r - 1) @ [CHR 0x0A])"
      by (simp add: table_row_def pad_cell_def)
    then show ?thesis using l by blast
  qed
qed

end
