(* ===== verification/Cli_Up.thy ===== *)
theory Cli_Up
  imports Controller Type_Registry "HOL-Library.List_Lexorder" "HOL-Library.Char_ord"
begin

text \<open>
  \<open>internal/cli/up.go\<close>: from flags to manifests. \<open>validation.IsDNS1123Subdomain\<close>, \<open>validation.IsValidLabelValue\<close>,
  \<open>resource.ParseQuantity\<close>, \<open>Quantity.Sign\<close> and \<open>yaml.Marshal\<close> are not in the repository and are fields of the record
  \<open>up_env\<close>; the first two return the list of their complaints.

  An error is a value of \<open>UpError\<close> that carries what its message names. A manifest object is tagged with its
  kind by the constructor of \<open>Object\<close>, which stands for the \<open>TypeMeta\<close> the source fills in.
\<close>

section \<open>up.go\<close>

definition MaxGPUsPerNode :: int where "MaxGPUsPerNode = 128"

definition computeCapabilityPattern :: "string \<Rightarrow> bool" where
  "computeCapabilityPattern s =
     (case Cut s CHR ''.'' of (major, minor, found) \<Rightarrow>
        found \<and> major \<noteq> [] \<and> minor \<noteq> [] \<and> list_all is_digit major \<and> list_all is_digit minor)"

record UpOptions =
  up_Name :: string
  up_Product :: string
  up_Memory :: string
  up_Compute :: string
  up_GPUsPerNode :: int
  up_NVLinkDomainSize :: int
  up_NUMAAware :: bool
  up_NodeSelector :: string
  up_DRA :: bool
  up_ExtendedResource :: bool
  up_SharingMode :: string
  up_MIGProfiles :: string
  up_MIGPartition :: string
  up_BusyPerNode :: int

datatype 'q UpError =
    PartitionEmptyEntry string
  | PartitionNoProfile string string
  | PartitionTwice string string
  | PartitionNotNumber string string
  | PartitionNotPositive string string int
  | NoBuiltInMIG string
  | UnsupportedProfiles string "string list" "string list"
  | InvalidSelector string
  | NameRequired
  | InvalidName string "string list"
  | ProductRequired
  | InvalidProduct string "string list"
  | GPUsOutOfRange int int
  | NegativeNVLink int
  | InvalidCompute string
  | InvalidMemory string string
  | MemoryNotPositive string
  | InvalidSharingMode string
  | MigError "'q MigError"
  | ProfilesNeedMIG
  | PartitionNeedsMIG
  | BusyOutOfRange int int

text \<open>The loop of \<open>ParsePartition\<close> over the pairs, with the profiles seen and the entries so far.\<close>

fun parse_pairs :: "string \<Rightarrow> string list \<Rightarrow> MIGPartitionEntry list \<Rightarrow> string list \<Rightarrow> 'q UpError + MIGPartitionEntry list" where
  "parse_pairs s seen entries [] = Inr entries"
| "parse_pairs s seen entries (pair0 # pairs) =
     (let pair = TrimSpace pair0 in
      if pair = [] then Inl (PartitionEmptyEntry s)
      else (case Cut pair CHR ''='' of (profile0, countText, hasCount) \<Rightarrow>
        let prof = TrimSpace profile0 in
        if prof = [] then Inl (PartitionNoProfile s pair)
        else if prof \<in> set seen then Inl (PartitionTwice s prof)
        else (case (if hasCount
                    then (case ParseInt 32 (TrimSpace countText) of
                            None \<Rightarrow> Inl (PartitionNotNumber s prof)
                          | Some parsed \<Rightarrow>
                              if parsed < 1 then Inl (PartitionNotPositive s prof parsed) else Inr parsed)
                    else Inr 1) of
                Inl e \<Rightarrow> Inl e
              | Inr cnt \<Rightarrow>
                  parse_pairs s (prof # seen) (entries @ [\<lparr> mpe_Profile = prof, mpe_Count = wrap32 cnt \<rparr>]) pairs)))"

definition ParsePartition :: "string \<Rightarrow> 'q UpError + MIGPartitionEntry list" where
  "ParsePartition s = (if TrimSpace s = [] then Inr [] else parse_pairs s [] [] (Split s CHR '',''))"

text \<open>The two loops of \<open>migSelection\<close>: the names asked for, and the table's profiles among them with the names left.\<close>

definition wanted_names :: "string \<Rightarrow> string fset" where
  "wanted_names s = fset_of_list (filter (\<lambda>n. n \<noteq> []) (map TrimSpace (Split s CHR '','')))"

fun select_profiles :: "'q Profile list \<Rightarrow> string fset \<Rightarrow> 'q MIGProfileSpec list \<times> string fset" where
  "select_profiles [] wanted = ([], wanted)"
| "select_profiles (p # ps) wanted =
     (if pr_Name p |\<in>| wanted
      then (case select_profiles ps (wanted |-| {|pr_Name p|}) of (selected, left) \<Rightarrow>
              (\<lparr> mps_Name = pr_Name p, mps_Memory = pr_Memory p, mps_Slices = pr_Slices p \<rparr> # selected, left))
      else select_profiles ps wanted)"

definition migSelection :: "'q quantity_ops \<Rightarrow> UpOptions \<Rightarrow> 'q UpError + 'q MIGProfileSpec list" where
  "migSelection Q opts =
     (case ProfilesFor Q (up_Product opts) of
        None \<Rightarrow> Inl (NoBuiltInMIG (up_Product opts))
      | Some table \<Rightarrow>
          if TrimSpace (up_MIGProfiles opts) = [] then Inr []
          else (case select_profiles (tb_Profiles table) (wanted_names (up_MIGProfiles opts)) of (selected, left) \<Rightarrow>
                  if left \<noteq> {||}
                  then Inl (UnsupportedProfiles (up_Product opts) (sorted_list_of_fset left) (map pr_Name (tb_Profiles table)))
                  else Inr selected))"

definition toMIGProfiles :: "'q MIGProfileSpec list \<Rightarrow> 'q Profile list" where
  "toMIGProfiles specs = map (\<lambda>s. \<lparr> pr_Name = mps_Name s, pr_Memory = mps_Memory s, pr_Slices = mps_Slices s \<rparr>) specs"

fun selector_loop :: "string \<Rightarrow> labels \<Rightarrow> string list \<Rightarrow> 'q UpError + labels" where
  "selector_loop s lbls [] = Inr lbls"
| "selector_loop s lbls (pair # pairs) =
     (case Cut pair CHR ''='' of (key0, value0, ok) \<Rightarrow>
        let key = TrimSpace key0; value = TrimSpace value0 in
        if \<not> ok \<or> key = [] \<or> value = [] then Inl (InvalidSelector s)
        else selector_loop s (fmupd key value lbls) pairs)"

definition ParseSelector :: "string \<Rightarrow> 'q UpError + labels" where
  "ParseSelector s = (if TrimSpace s = [] then Inr fmempty else selector_loop s fmempty (Split s CHR '',''))"

record 'q up_env =
  env_IsDNS1123Subdomain :: "string \<Rightarrow> string list"
  env_IsValidLabelValue :: "string \<Rightarrow> string list"
  env_ParseQuantity :: "string \<Rightarrow> string + 'q"
  env_Sign :: "'q \<Rightarrow> int"

datatype ('q, 'm) Object = ModelObject "'q GPUModel" | PoolObject "'m GPUPool" | NodeObject "'q Node"

text \<open>
  The \<open>TypeMeta\<close> that \<open>BuildManifests\<close> and \<open>capture\<close> write into an object. It is determined by the type of the object, so it is
  a function of it instead of a field.
\<close>

definition kindGPUModel :: string where "kindGPUModel = ''GPUModel''"
definition kindGPUPool :: string where "kindGPUPool = ''GPUPool''"

definition model_TypeMeta :: "('s, 'b) scheme_libs \<Rightarrow> TypeMeta" where
  "model_TypeMeta L = \<lparr> tm_APIVersion = sl_String L SchemeGroupVersion, tm_Kind = kindGPUModel \<rparr>"

definition pool_TypeMeta :: "('s, 'b) scheme_libs \<Rightarrow> TypeMeta" where
  "pool_TypeMeta L = \<lparr> tm_APIVersion = sl_String L SchemeGroupVersion, tm_Kind = kindGPUPool \<rparr>"

definition node_TypeMeta :: TypeMeta where
  "node_TypeMeta = \<lparr> tm_APIVersion = ''v1'', tm_Kind = ''Node'' \<rparr>"

fun object_Kind :: "('q, 'm) Object \<Rightarrow> string" where
  "object_Kind (ModelObject _) = kindGPUModel"
| "object_Kind (PoolObject _) = kindGPUPool"
| "object_Kind (NodeObject _) = tm_Kind node_TypeMeta"

fun object_TypeMeta :: "('s, 'b) scheme_libs \<Rightarrow> ('q, 'm) Object \<Rightarrow> TypeMeta" where
  "object_TypeMeta L (ModelObject _) = model_TypeMeta L"
| "object_TypeMeta L (PoolObject _) = pool_TypeMeta L"
| "object_TypeMeta L (NodeObject _) = node_TypeMeta"

text \<open>The guards of \<open>BuildManifests\<close> in front of the memory, in order; \<open>None\<close> when all pass.\<close>

definition check_options :: "'q up_env \<Rightarrow> UpOptions \<Rightarrow> 'q UpError option" where
  "check_options E opts =
     (if up_Name opts = [] then Some NameRequired
      else if env_IsDNS1123Subdomain E (up_Name opts) \<noteq> []
        then Some (InvalidName (up_Name opts) (env_IsDNS1123Subdomain E (up_Name opts)))
      else if env_IsDNS1123Subdomain E (up_Name opts @ ''-pool'') \<noteq> []
        then Some (InvalidName (up_Name opts @ ''-pool'') (env_IsDNS1123Subdomain E (up_Name opts @ ''-pool'')))
      else if up_Product opts = [] then Some ProductRequired
      else if env_IsValidLabelValue E (up_Product opts) \<noteq> []
        then Some (InvalidProduct (up_Product opts) (env_IsValidLabelValue E (up_Product opts)))
      else if up_GPUsPerNode opts < 1 \<or> up_GPUsPerNode opts > MaxGPUsPerNode
        then Some (GPUsOutOfRange MaxGPUsPerNode (up_GPUsPerNode opts))
      else if up_NVLinkDomainSize opts < 0 then Some (NegativeNVLink (up_NVLinkDomainSize opts))
      else if \<not> computeCapabilityPattern (up_Compute opts) then Some (InvalidCompute (up_Compute opts))
      else None)"

text \<open>The \<open>switch\<close> on the sharing mode: the profiles and the partition.\<close>

definition mig_options ::
  "'q quantity_ops \<Rightarrow> UpOptions \<Rightarrow> string \<Rightarrow> 'q UpError + 'q MIGProfileSpec list \<times> MIGPartitionEntry list" where
  "mig_options Q opts sharingMode =
     (if sharingMode = SharingModeMIG then
        (case migSelection Q opts of Inl e \<Rightarrow> Inl e | Inr profiles \<Rightarrow>
         (case ParsePartition (up_MIGPartition opts) of Inl e \<Rightarrow> Inl e | Inr parts \<Rightarrow>
           if parts = [] then Inr (profiles, parts)
           else (case ProfilesFor Q (up_Product opts) of
                   None \<Rightarrow> Inr (profiles, parts)
                 | Some table \<Rightarrow>
                     (let table1 = (if profiles \<noteq> [] then table\<lparr> tb_Profiles := toMIGProfiles profiles \<rparr> else table) in
                      case ValidatePartition Q parts table1 of
                        Inl e \<Rightarrow> Inl (MigError e) | Inr _ \<Rightarrow> Inr (profiles, parts)))))
      else if up_MIGProfiles opts \<noteq> [] then Inl ProfilesNeedMIG
      else if up_MIGPartition opts \<noteq> [] then Inl PartitionNeedsMIG
      else Inr ([], []))"

definition zeroStatus :: "'m GPUPoolStatus" where
  "zeroStatus = \<lparr> st_Conditions = [], st_ObservedGeneration = 0, st_NodesMatched = 0, st_DevicesPublished = 0,
     st_GPUsOccupied = 0, st_GPUsFaulted = 0, st_MIGProfilesPublished = 0 \<rparr>"

definition up_model :: "UpOptions \<Rightarrow> 'q \<Rightarrow> 'q MIGProfileSpec list \<Rightarrow> 'q GPUModel" where
  "up_model opts memory profiles =
     \<lparr> model_Name = up_Name opts, model_Spec = \<lparr> ms_Vendor = ''nvidia'', ms_ProductName = up_Product opts, ms_Memory = memory,
         ms_ComputeCapability = up_Compute opts, ms_MIGProfiles = profiles, ms_MIGBudget = None \<rparr> \<rparr>"

definition up_pool ::
  "UpOptions \<Rightarrow> string \<Rightarrow> MIGPartitionEntry list \<Rightarrow> OccupancyEntry list \<Rightarrow> labels \<Rightarrow> 'm GPUPool" where
  "up_pool opts sharingMode parts occupancy selector =
     \<lparr> pool_Name = up_Name opts @ ''-pool'', pool_Generation = 0,
       pool_Spec = \<lparr> ps_ModelRef = up_Name opts, ps_NodeSelector = selector, ps_GPUsPerNode = up_GPUsPerNode opts,
         ps_Advertise = \<lparr> adv_DRA = Some (up_DRA opts), adv_ExtendedResource = Some (up_ExtendedResource opts) \<rparr>,
         ps_MIGPartition = parts, ps_Faults = [], ps_Utilization = None, ps_Occupancy = occupancy,
         ps_SharingMode = sharingMode,
         ps_Topology = \<lparr> top_NVLinkDomainSize = up_NVLinkDomainSize opts, top_NUMAAware = up_NUMAAware opts \<rparr> \<rparr>,
       pool_Status = zeroStatus \<rparr>"

definition BuildManifests :: "'q up_env \<Rightarrow> 'q quantity_ops \<Rightarrow> UpOptions \<Rightarrow> 'q UpError + ('q, 'm) Object list" where
  "BuildManifests E Q opts =
     (case check_options E opts of Some e \<Rightarrow> Inl e | None \<Rightarrow>
      (case env_ParseQuantity E (up_Memory opts) of Inl err \<Rightarrow> Inl (InvalidMemory (up_Memory opts) err) | Inr memory \<Rightarrow>
       if env_Sign E memory \<le> 0 then Inl (MemoryNotPositive (up_Memory opts))
       else
         (let sharingMode = (if up_SharingMode opts = [] then SharingModeNone else up_SharingMode opts) in
          if sharingMode \<noteq> SharingModeNone \<and> sharingMode \<noteq> SharingModeMIG then Inl (InvalidSharingMode (up_SharingMode opts))
          else (case mig_options Q opts sharingMode of Inl e \<Rightarrow> Inl e | Inr (profiles, parts) \<Rightarrow>
            if up_BusyPerNode opts < 0 \<or> up_BusyPerNode opts > up_GPUsPerNode opts
            then Inl (BusyOutOfRange (up_GPUsPerNode opts) (up_BusyPerNode opts))
            else
              (let occupancy = (if up_BusyPerNode opts > 0
                     then [\<lparr> oe_NodeSelector = fmempty, oe_BusyPerNode = up_BusyPerNode opts \<rparr>] else []) in
               case ParseSelector (up_NodeSelector opts) of Inl e \<Rightarrow> Inl e | Inr selector \<Rightarrow>
                 Inr [ModelObject (up_model opts memory profiles),
                      PoolObject (up_pool opts sharingMode parts occupancy selector)])))))"

fun object_name :: "('q, 'm) Object \<Rightarrow> string" where
  "object_name (ModelObject m) = model_Name m"
| "object_name (PoolObject p) = pool_Name p"
| "object_name (NodeObject n) = nd_Name n"

text \<open>The loop of \<open>RenderYAML\<close>; an error names the object that cannot be marshalled.\<close>

fun render_docs :: "(('q, 'm) Object \<Rightarrow> string + string) \<Rightarrow> ('q, 'm) Object list \<Rightarrow> (string \<times> string) + string list" where
  "render_docs marshal [] = Inr []"
| "render_docs marshal (obj # objs) =
     (case marshal obj of
        Inl err \<Rightarrow> Inl (object_name obj, err)
      | Inr out \<Rightarrow> (case render_docs marshal objs of Inl e \<Rightarrow> Inl e | Inr docs \<Rightarrow> Inr (out # docs)))"

definition RenderYAML :: "(('q, 'm) Object \<Rightarrow> string + string) \<Rightarrow> ('q, 'm) Object list \<Rightarrow> (string \<times> string) + string" where
  "RenderYAML marshal objs =
     (case render_docs marshal objs of Inl e \<Rightarrow> Inl e | Inr docs \<Rightarrow> Inr (Join docs (''---'' @ [CHR 0x0A])))"

section \<open>Lemmas: partitions\<close>

text \<open>What every parsed partition satisfies.\<close>

definition parsed_ok :: "MIGPartitionEntry list \<Rightarrow> bool" where
  "parsed_ok es \<longleftrightarrow> distinct (map mpe_Profile es) \<and> (\<forall>e \<in> set es. mpe_Profile e \<noteq> [] \<and> 1 \<le> mpe_Count e \<and> mpe_Count e < 2 ^ 31)"

lemma ParseInt_range: "ParseInt bits s = Some n \<Longrightarrow> - (2 ^ (bits - 1)) \<le> n \<and> n < 2 ^ (bits - 1)"
proof -
  assume "ParseInt bits s = Some n"
  then obtain k where "n = - int k \<and> int k \<le> 2 ^ (bits - 1) \<or> n = int k \<and> int k < 2 ^ (bits - 1)"
    by (auto simp: ParseInt_def split: list.splits option.splits if_splits)
  moreover have "0 < (2::int) ^ (bits - 1)" by simp
  ultimately show ?thesis by (elim disjE conjE) linarith+
qed

lemma parse_pairs_ok:
  assumes "parse_pairs s seen es pairs = (Inr r :: 'q UpError + _)" "parsed_ok es" "set seen = mpe_Profile ` set es"
  shows "parsed_ok r"
  using assms
proof (induction pairs arbitrary: seen es)
  case (Cons pair0 pairs)
  obtain profile0 countText hasCount where cut: "Cut (TrimSpace pair0) CHR ''='' = (profile0, countText, hasCount)"
    using prod_cases3 by blast
  have new: "TrimSpace profile0 \<noteq> []" "TrimSpace profile0 \<notin> set seen"
    using Cons.prems(1) by (auto simp: Let_def cut split: if_splits)
  obtain n where n: "1 \<le> n" "n < 2 ^ 31"
    and rest: "parse_pairs s (TrimSpace profile0 # seen) (es @ [\<lparr> mpe_Profile = TrimSpace profile0, mpe_Count = wrap32 n \<rparr>]) pairs = (Inr r :: 'q UpError + _)"
  proof (cases hasCount)
    case True
    obtain n where pn: "ParseInt 32 (TrimSpace countText) = Some n"
      using Cons.prems(1) True by (cases "ParseInt 32 (TrimSpace countText)") (auto simp: Let_def cut split: if_splits)
    then have "1 \<le> n"
      "parse_pairs s (TrimSpace profile0 # seen) (es @ [\<lparr> mpe_Profile = TrimSpace profile0, mpe_Count = wrap32 n \<rparr>]) pairs = (Inr r :: 'q UpError + _)"
      using Cons.prems(1) True by (simp_all add: Let_def cut linorder_not_less split: if_splits)
    with pn show thesis using that [of n] ParseInt_range [of 32 "TrimSpace countText" n] by simp
  next
    case False
    then show thesis using that [of 1] Cons.prems(1) by (auto simp: Let_def cut split: if_splits)
  qed
  have "wrap32 n = n" using n by (simp add: int32_range_def)
  then have "parsed_ok (es @ [\<lparr> mpe_Profile = TrimSpace profile0, mpe_Count = wrap32 n \<rparr>])"
    using Cons.prems(2,3) n new by (auto simp: parsed_ok_def)
  from Cons.IH [OF rest this] Cons.prems(3) show ?case by auto
qed simp

lemma ParsePartition_ok: "ParsePartition s = Inr es \<Longrightarrow> parsed_ok es"
  using parse_pairs_ok [of s "[]" "[]" "Split s CHR '',''" es]
  by (auto simp: ParsePartition_def parsed_ok_def split: if_splits)

text \<open>The canonical way to write a partition.\<close>

definition print_partition :: "MIGPartitionEntry list \<Rightarrow> string" where
  "print_partition es = Join (map (\<lambda>e. mpe_Profile e @ ''='' @ Itoa (mpe_Count e)) es) '',''"

definition plain_name :: "string \<Rightarrow> bool" where
  "plain_name s \<longleftrightarrow> s \<noteq> [] \<and> visible s \<and> CHR '','' \<notin> set s \<and> CHR ''='' \<notin> set s"

lemma digits_plain: "list_all is_digit s \<Longrightarrow> CHR '','' \<notin> set s \<and> CHR ''='' \<notin> set s"
  by (auto simp: list_all_iff is_digit_def byte_def)

lemma parse_pairs_print:
  assumes "\<And>e. e \<in> set es \<Longrightarrow> plain_name (mpe_Profile e) \<and> 1 \<le> mpe_Count e \<and> mpe_Count e < 2 ^ 31"
    and "distinct (map mpe_Profile es)" "set seen \<inter> mpe_Profile ` set es = {}"
  shows "parse_pairs s seen acc (map (\<lambda>e. mpe_Profile e @ ''='' @ Itoa (mpe_Count e)) es) = (Inr (acc @ es) :: 'q UpError + _)"
  using assms
proof (induction es arbitrary: seen acc)
  case (Cons e es)
  have e: "plain_name (mpe_Profile e)" "1 \<le> mpe_Count e" "mpe_Count e < 2 ^ 31" using Cons.prems(1) [of e] by auto
  let ?n = "Itoa (mpe_Count e)"
  have v: "visible (mpe_Profile e)" "visible ?n" "visible ''=''" using e visible_Itoa [of "mpe_Count e"]
    by (auto simp: plain_name_def visible_def byte_def)
  have trims: "TrimSpace (mpe_Profile e @ ''='' @ ?n) = mpe_Profile e @ ''='' @ ?n"
      "TrimSpace (mpe_Profile e) = mpe_Profile e" "TrimSpace ?n = ?n"
    using v by (simp_all only: TrimSpace_visible visible_append)
  have cut: "Cut (mpe_Profile e @ ''='' @ ?n) CHR ''='' = (mpe_Profile e, ?n, True)"
    using e Cut_append [of "CHR ''=''" "mpe_Profile e" ?n] by (simp add: plain_name_def)
  have p: "ParseInt 32 ?n = Some (mpe_Count e)" using e by (intro ParseInt_Itoa) simp_all
  have record_eta: "\<lparr>mpe_Profile = mpe_Profile e, mpe_Count = mpe_Count e\<rparr> = e" by simp
  have w: "wrap32 (mpe_Count e) = mpe_Count e" using e by (simp add: int32_range_def)
  have "parse_pairs s seen acc (map (\<lambda>e. mpe_Profile e @ ''='' @ Itoa (mpe_Count e)) (e # es)) =
      (parse_pairs s (mpe_Profile e # seen) (acc @ [e]) (map (\<lambda>e. mpe_Profile e @ ''='' @ Itoa (mpe_Count e)) es) :: 'q UpError + _)"
    using e Cons.prems(3) 
    by (simp only: list.map parse_pairs.simps Let_def trims cut) (auto simp: trims p w plain_name_def record_eta)
  moreover have "set (mpe_Profile e # seen) \<inter> mpe_Profile ` set es = {}" using Cons.prems(2,3) by auto
  then have "parse_pairs s (mpe_Profile e # seen) (acc @ [e]) (map (\<lambda>e. mpe_Profile e @ ''='' @ Itoa (mpe_Count e)) es) =
      (Inr ((acc @ [e]) @ es) :: 'q UpError + _)"
    using Cons.prems(1,2) by (intro Cons.IH) simp_all
  ultimately show ?case by (simp only:) simp
qed simp

lemma visible_Join: "(\<And>x. x \<in> set xs \<Longrightarrow> visible x) \<Longrightarrow> visible (Join xs '','')"
  by (induction xs rule: induct_list012) (auto simp: visible_def byte_def)

section \<open>Lemmas: what the flags build\<close>

lemma builtIn_profile:
  assumes laws: "quantity_laws Q amt" and t: "ProfilesFor Q s = Some t" and p: "p \<in> set (tb_Profiles t)"
  shows "profile_name_pattern (pr_Name p)" "1 \<le> pr_Slices p \<and> pr_Slices p \<le> 8"
    "0 < amt (pr_Memory p)" "amt (bd_Memory (tb_Budget t)) \<le> 8 * amt (pr_Memory p)"
proof -
  from ProfilesFor_ok [OF laws t] p have "self_described Q amt p" by (simp add: list_all_iff)
  then obtain a b where "profileNamePattern (pr_Name p) = Some (a, b)"
    by (auto simp: self_described_def ParseProfileName_def split: option.splits)
  then show "profile_name_pattern (pr_Name p)"
    unfolding profileNamePattern_Some profile_name_pattern_def by blast
  have "(pr_Name p, pr_Slices p) \<in> set (map (\<lambda>p. (pr_Name p, pr_Slices p)) (tb_Profiles t))" using p by simp
  then show "1 \<le> pr_Slices p \<and> pr_Slices p \<le> 8" using builtIn_shapes [OF t] by (elim insertE emptyE) auto
  obtain k where "k \<in> {tableA10040, tableA10080, tableH10080}" "fmlookup (builtInTables Q) k = Some t"
    using t by (rule builtIn_cases)
  then have "0 < amt (pr_Memory p) \<and> amt (bd_Memory (tb_Budget t)) \<le> 8 * amt (pr_Memory p)"
    using p by (elim insertE emptyE) (auto simp: builtIn_lookup profile_def amt_Gi [OF laws])
  then show "0 < amt (pr_Memory p)" "amt (bd_Memory (tb_Budget t)) \<le> 8 * amt (pr_Memory p)" by simp_all
qed

lemma select_profiles_eq:
  "distinct (map pr_Name ps) \<Longrightarrow> toMIGProfiles (fst (select_profiles ps w)) = filter (\<lambda>p. pr_Name p |\<in>| w) ps"
proof (induction ps arbitrary: w)
  case (Cons p ps)
  have "filter (\<lambda>q. pr_Name q |\<in>| w |-| {|pr_Name p|}) ps = filter (\<lambda>q. pr_Name q |\<in>| w) ps"
    using Cons.prems by (intro filter_cong refl) (auto simp: image_iff)
  moreover have "toMIGProfiles (fst (select_profiles (p # ps) w)) =
      (if pr_Name p |\<in>| w then p # toMIGProfiles (fst (select_profiles ps (w |-| {|pr_Name p|})))
       else toMIGProfiles (fst (select_profiles ps w)))"
    by (simp add: toMIGProfiles_def split_beta)
  ultimately show ?case using Cons.IH Cons.prems by simp
qed (simp add: toMIGProfiles_def)

lemma toMIGProfiles_names: "map mps_Name ps = map pr_Name (toMIGProfiles ps)"
  by (simp add: toMIGProfiles_def)

text \<open>The table a MIG pool's partition is checked against on the command line.\<close>

definition up_table :: "'q MIGProfileSpec list \<Rightarrow> 'q Table \<Rightarrow> 'q Table" where
  "up_table profiles t = (if profiles \<noteq> [] then t\<lparr> tb_Profiles := toMIGProfiles profiles \<rparr> else t)"

lemma mig_options_MIG:
  assumes laws: "quantity_laws Q amt" and m: "mig_options Q opts SharingModeMIG = Inr (profiles, parts)"
  obtains t where "ProfilesFor Q (up_Product opts) = Some t" "set (toMIGProfiles profiles) \<subseteq> set (tb_Profiles t)"
    "distinct (map mps_Name profiles)" "parsed_ok parts" "ValidatePartition Q parts (up_table profiles t) = Inr ()"
proof -
  from m have sel: "migSelection Q opts = Inr profiles"
    and parse: "(ParsePartition (up_MIGPartition opts) :: 'a UpError + _) = Inr parts"
    by (auto simp: mig_options_def split: sum.splits if_splits option.splits)
  from sel obtain t where t: "ProfilesFor Q (up_Product opts) = Some t"
    by (auto simp: migSelection_def split: option.splits)
  have d: "distinct (map pr_Name (tb_Profiles t))" using ProfilesFor_ok [OF laws t] by (simp add: tableOK_def)
  have "profiles = [] \<or> (\<exists>w. profiles = fst (select_profiles (tb_Profiles t) w))"
    using sel t by (auto simp: migSelection_def split: if_splits prod.splits) (metis fst_conv)
  then have "profiles = [] \<or> (\<exists>w. toMIGProfiles profiles = filter (\<lambda>p. pr_Name p |\<in>| w) (tb_Profiles t))"
    using select_profiles_eq [OF d] by auto
  then have "set (toMIGProfiles profiles) \<subseteq> set (tb_Profiles t) \<and> distinct (map mps_Name profiles)"
  proof
    assume "\<exists>w. toMIGProfiles profiles = filter (\<lambda>p. pr_Name p |\<in>| w) (tb_Profiles t)"
    then show ?thesis unfolding toMIGProfiles_names using d by (auto simp only: distinct_map_filter) auto
  qed (simp add: toMIGProfiles_def)
  then have "set (toMIGProfiles profiles) \<subseteq> set (tb_Profiles t)" "distinct (map mps_Name profiles)" by simp_all
  moreover have "ValidatePartition Q parts (up_table profiles t) = Inr ()"
  proof (cases "parts = []")
    case False
    with m show ?thesis
      by (simp add: mig_options_def Let_def sel parse t up_table_def [symmetric] split: sum.splits)
  qed (simp add: ValidatePartition_def)
  ultimately show thesis using that t ParsePartition_ok [OF parse] by blast
qed

lemma partition_loop_profiles:
  "tb_Profiles t = tb_Profiles t' \<Longrightarrow> partition_loop Q t u m es = partition_loop Q t' u m es"
  by (induction es arbitrary: u m) (simp_all split: option.splits)

text \<open>A larger memory budget only accepts more, and a budget of eight smallest instances bounds every count.\<close>

lemma ValidatePartition_mono:
  assumes "quantity_laws Q amt" "ValidatePartition Q es t = Inr ()" "tb_Profiles t' = tb_Profiles t"
    "bd_Slices (tb_Budget t') = bd_Slices (tb_Budget t)" "amt (bd_Memory (tb_Budget t)) \<le> amt (bd_Memory (tb_Budget t'))"
  shows "ValidatePartition Q es t' = Inr ()"
  using assms(2-5) partition_loop_profiles [OF assms(3), of Q 0 "q_NewQuantity Q 0 BinarySI" es]
  by (auto simp: ValidatePartition_def quantity_simps [OF assms(1)] split: sum.splits if_splits)

lemma ValidatePartition_counts:
  assumes laws: "quantity_laws Q amt" and v: "ValidatePartition Q es t = Inr ()" and e: "e \<in> set es"
    and pos: "\<And>e. e \<in> set es \<Longrightarrow> 0 \<le> mpe_Count e"
    and big: "\<And>p. p \<in> set (tb_Profiles t) \<Longrightarrow> 0 < amt (pr_Memory p) \<and> amt (bd_Memory (tb_Budget t)) \<le> 8 * amt (pr_Memory p)"
  shows "mpe_Count e \<le> 8"
proof (rule ccontr)
  assume "\<not> mpe_Count e \<le> 8"
  then have nine: "9 \<le> mpe_Count e" by simp
  have known: "known_profiles t es"
  proof (rule ccontr)
    assume "\<not> known_profiles t es"
    from partition_loop_unknown [OF this, of Q 0 "q_NewQuantity Q 0 BinarySI"] show False
      using v e by (auto simp: ValidatePartition_def split: if_splits)
  qed
  have in_t: "profile_named t (mpe_Profile x) \<in> set (tb_Profiles t)" if "x \<in> set es" for x
    using known that profile_named_in [of "mpe_Profile x" t] by (auto simp: known_profiles_def)
  let ?f = "\<lambda>e. of_int (mpe_Count e) * amt (pr_Memory (profile_named t (mpe_Profile e)))"
  obtain m where "partition_loop Q t 0 (q_NewQuantity Q 0 BinarySI) es = Inr (wrap32 (declared_total t pr_Slices es), m)"
    "amt m = declared_total t (\<lambda>p. amt (pr_Memory p)) es"
    using partition_loop_known [OF laws known, of 0 "q_NewQuantity Q 0 BinarySI"] pos
    by (auto simp: quantity_laws_NewQuantity [OF laws] int32_range_def)
  then have "(\<Sum>e\<leftarrow>es. ?f e) \<le> amt (bd_Memory (tb_Budget t))"
    using v e by (auto simp: ValidatePartition_def declared_total_def quantity_simps [OF laws] not_less split: if_splits)
  moreover have "?f e \<le> (\<Sum>e\<leftarrow>es. ?f e)"
    using pos in_t big e by (intro member_le_sum_list) (auto simp: less_imp_le)
  moreover have "9 * amt (pr_Memory (profile_named t (mpe_Profile e))) \<le> ?f e"
    using nine in_t [OF e] big by (intro mult_right_mono) (auto simp: less_imp_le)
  ultimately show False using big [OF in_t [OF e]] by linarith
qed

lemma BuildManifests_Inr:
  assumes "BuildManifests E Q opts = Inr objs"
  obtains memory mode profiles parts occupancy selector where
    "objs = [ModelObject (up_model opts memory profiles), PoolObject (up_pool opts mode parts occupancy selector)]"
    "check_options E opts = None" "mode \<in> {SharingModeNone, SharingModeMIG}" "mig_options Q opts mode = Inr (profiles, parts)"
    "0 \<le> up_BusyPerNode opts" "up_BusyPerNode opts \<le> up_GPUsPerNode opts"
    "occupancy = (if up_BusyPerNode opts > 0 then [\<lparr> oe_NodeSelector = fmempty, oe_BusyPerNode = up_BusyPerNode opts \<rparr>] else [])"
    "mode = (if up_SharingMode opts = [] then SharingModeNone else up_SharingMode opts)"
proof -
  define mode where mode: "mode = (if up_SharingMode opts = [] then SharingModeNone else up_SharingMode opts)"
  note B = assms [unfolded BuildManifests_def mode [symmetric] Let_def]
  from B obtain memory where c: "check_options E opts = None" and m: "env_ParseQuantity E (up_Memory opts) = Inr memory"
      and sg: "\<not> env_Sign E memory \<le> 0" and s: "mode \<in> {SharingModeNone, SharingModeMIG}"
    by (auto split: option.splits sum.splits if_splits)
  from B c m sg s obtain profiles parts where o: "mig_options Q opts mode = Inr (profiles, parts)"
    by (auto split: sum.splits)
  from B c m sg s o have busy: "0 \<le> up_BusyPerNode opts" "up_BusyPerNode opts \<le> up_GPUsPerNode opts"
    by (auto split: if_splits)
  then have "\<not> (up_BusyPerNode opts < 0 \<or> up_GPUsPerNode opts < up_BusyPerNode opts)" by simp
  with B c m sg s o obtain selector where "objs = [ModelObject (up_model opts memory profiles),
      PoolObject (up_pool opts mode parts
        (if up_BusyPerNode opts > 0 then [\<lparr> oe_NodeSelector = fmempty, oe_BusyPerNode = up_BusyPerNode opts \<rparr>] else []) selector)]"
    by (auto split: sum.splits)
  then show thesis by (rule that [OF _ c s o busy refl mode])
qed

lemma check_options_None:
  "check_options E opts = None \<Longrightarrow> 1 \<le> up_GPUsPerNode opts \<and> up_GPUsPerNode opts \<le> 128 \<and> 0 \<le> up_NVLinkDomainSize opts"
  by (auto simp: check_options_def MaxGPUsPerNode_def split: if_splits)

lemma up_table_profiles:
  assumes "set (toMIGProfiles profiles) \<subseteq> set (tb_Profiles t)"
  shows "set (tb_Profiles (up_table profiles t)) \<subseteq> set (tb_Profiles t)" "tb_Budget (up_table profiles t) = tb_Budget t"
  using assms by (simp_all add: up_table_def)

lemma up_resolve:
  assumes laws: "quantity_laws Q amt" and t: "ProfilesFor Q (up_Product opts) = Some t"
    and sub: "set (toMIGProfiles profiles) \<subseteq> set (tb_Profiles t)" and d: "distinct (map mps_Name profiles)"
    and mem: "amt (bd_Memory (tb_Budget t)) \<le> amt memory"
  shows "Resolve Q (up_model opts memory profiles) =
    Inr ((up_table profiles t)\<lparr> tb_Budget := \<lparr> bd_Memory = memory, bd_Slices = bd_Slices (tb_Budget t) \<rparr> \<rparr>)"
proof -
  let ?t = "(up_table profiles t)\<lparr> tb_Budget := \<lparr> bd_Memory = memory, bd_Slices = bd_Slices (tb_Budget t) \<rparr> \<rparr>"
  have base: "baseTable Q (up_model opts memory profiles) = ?t"
    by (simp add: baseTable_def Let_def up_model_def t up_table_def toMIGProfiles_def)
  have ok: "tableOK Q t" using ProfilesFor_ok [OF laws t] by simp
  have "fits_budget Q (tb_Budget ?t) p" if "p \<in> set (tb_Profiles t)" for p
    using ok that mem by (auto simp: tableOK_def list_all_iff fits_budget_def quantity_laws_Cmp [OF laws] split: if_splits)
  moreover have "set (tb_Profiles ?t) \<subseteq> set (tb_Profiles t)" using up_table_profiles(1) [OF sub] by simp
  moreover have "tb_Profiles ?t \<noteq> []" "distinct (map pr_Name (tb_Profiles ?t))"
    using ok d by (auto simp: tableOK_def up_table_def toMIGProfiles_def comp_def)
  ultimately have "tableOK Q ?t" unfolding tableOK_def list_all_iff by blast
  then show ?thesis by (simp add: Resolve_Inr_iff base)
qed

lemma up_model_schema:
  assumes laws: "quantity_laws Q amt" and t: "ProfilesFor Q (up_Product opts) = Some t"
    and sub: "set (toMIGProfiles profiles) \<subseteq> set (tb_Profiles t)" and d: "distinct (map mps_Name profiles)"
  shows "model_schema (up_model opts memory profiles)"
proof -
  have "profile_name_pattern (mps_Name p) \<and> 1 \<le> mps_Slices p \<and> mps_Slices p \<le> 8" if "p \<in> set profiles" for p
  proof -
    let ?p = "\<lparr> pr_Name = mps_Name p, pr_Memory = mps_Memory p, pr_Slices = mps_Slices p \<rparr>"
    have "?p \<in> set (tb_Profiles t)" using sub that by (auto simp: toMIGProfiles_def)
    from builtIn_profile(1,2) [OF laws t this] show ?thesis by simp
  qed
  then show ?thesis using d by (simp add: model_schema_def up_model_def)
qed

lemma up_counts:
  assumes laws: "quantity_laws Q amt" and t: "ProfilesFor Q (up_Product opts) = Some t"
    and sub: "set (toMIGProfiles profiles) \<subseteq> set (tb_Profiles t)" and ok: "parsed_ok parts"
    and v: "ValidatePartition Q parts (up_table profiles t) = Inr ()" and e: "e \<in> set parts"
  shows "1 \<le> mpe_Count e \<and> mpe_Count e \<le> 8"
proof -
  have c: "1 \<le> mpe_Count x" if "x \<in> set parts" for x using ok that by (simp add: parsed_ok_def)
  have "0 < amt (pr_Memory p) \<and> amt (bd_Memory (tb_Budget (up_table profiles t))) \<le> 8 * amt (pr_Memory p)"
    if "p \<in> set (tb_Profiles (up_table profiles t))" for p
    using that builtIn_profile(3,4) [OF laws t, of p] up_table_profiles [OF sub] by auto
  from ValidatePartition_counts [OF laws v e _ this] c c [OF e] show ?thesis by force
qed

section \<open>Properties: flags\<close>

text \<open>
  C28: a partition written as \<open>profile=count\<close> pairs is read back as it was, and whatever the flag contains, a
  partition that is accepted names each profile once and gives it a positive count that fits an int32.
\<close>

theorem ParsePartition_roundtrip:
  assumes "es \<noteq> []" "distinct (map mpe_Profile es)"
    and "\<And>e. e \<in> set es \<Longrightarrow> plain_name (mpe_Profile e) \<and> 1 \<le> mpe_Count e \<and> mpe_Count e < 2 ^ 31"
  shows "ParsePartition (print_partition es) = Inr es \<and> (\<forall>s es'. ParsePartition s = Inr es' \<longrightarrow> parsed_ok es')"
proof -
  let ?parts = "map (\<lambda>e. mpe_Profile e @ ''='' @ Itoa (mpe_Count e)) es"
  have nc: "CHR '','' \<notin> set x" if "x \<in> set ?parts" for x
    using that assms(3) digits_plain [OF Itoa_nonneg_digits] by (fastforce simp: plain_name_def)
  then have split: "Split (print_partition es) CHR '','' = ?parts"
    unfolding print_partition_def using assms(1) by (intro Split_Join) auto
  have "visible (print_partition es)"
    unfolding print_partition_def using assms(3) visible_Itoa
    by (intro visible_Join) (fastforce simp: plain_name_def visible_def byte_def)
  moreover have "print_partition es \<noteq> []"
    using assms(1,3) by (cases es rule: remdups_adj.cases) (auto simp: print_partition_def)
  ultimately have "TrimSpace (print_partition es) \<noteq> []" by (simp add: TrimSpace_visible)
  then have "ParsePartition (print_partition es) = Inr es"
    using parse_pairs_print [OF assms(3,2), of "[]" "print_partition es" "[]"] by (simp add: ParsePartition_def split)
  then show ?thesis using ParsePartition_ok by blast
qed

theorem ParsePartition_roundtrip_witness:
  "ParsePartition (print_partition [\<lparr> mpe_Profile = ''1g.10gb'', mpe_Count = 2 \<rparr>, \<lparr> mpe_Profile = ''3g.40gb'', mpe_Count = 1 \<rparr>])
    = (Inr [\<lparr> mpe_Profile = ''1g.10gb'', mpe_Count = 2 \<rparr>, \<lparr> mpe_Profile = ''3g.40gb'', mpe_Count = 1 \<rparr>] :: int UpError + _)"
proof -
  let ?es = "[\<lparr> mpe_Profile = ''1g.10gb'', mpe_Count = 2 \<rparr>, \<lparr> mpe_Profile = ''3g.40gb'', mpe_Count = 1 \<rparr>]"
  have "plain_name ''1g.10gb''" "plain_name ''3g.40gb''" by (simp_all add: plain_name_def visible_def byte_def)
  then have "plain_name (mpe_Profile e) \<and> 1 \<le> mpe_Count e \<and> mpe_Count e < 2 ^ 31" if "e \<in> set ?es" for e
    using that by auto
  from conjunct1 [OF ParsePartition_roundtrip [of ?es, OF _ _ this]] show ?thesis by simp
qed


text \<open>The flags of a MIG pool on an H100 with a given amount of memory, and an instance of what is outside the repository.\<close>

definition example_env :: "int up_env" where
  "example_env = \<lparr> env_IsDNS1123Subdomain = (\<lambda>_. []), env_IsValidLabelValue = (\<lambda>_. []),
     env_ParseQuantity = (\<lambda>s. Inr (int (digits_val (TrimSuffix s ''Gi'')) * 2 ^ 30)), env_Sign = sgn \<rparr>"

definition example_opts :: "string \<Rightarrow> UpOptions" where
  "example_opts memory = \<lparr> up_Name = ''lab'', up_Product = ''NVIDIA-H100-80GB-HBM3'', up_Memory = memory, up_Compute = ''9.0'',
     up_GPUsPerNode = 8, up_NVLinkDomainSize = 4, up_NUMAAware = True, up_NodeSelector = ''type=kwok'', up_DRA = True,
     up_ExtendedResource = False, up_SharingMode = ''mig'', up_MIGProfiles = [], up_MIGPartition = ''1g.10gb=2,3g.40gb'',
     up_BusyPerNode = 2 \<rparr>"

definition h100_table :: "int Table" where
  "h100_table = \<lparr> tb_Budget = \<lparr> bd_Memory = 80 * 2 ^ 30, bd_Slices = 7 \<rparr>,
     tb_Profiles = map (\<lambda>(n, m, s). \<lparr> pr_Name = n, pr_Memory = m * 2 ^ 30, pr_Slices = s \<rparr>)
       [(''1g.10gb'', 10, 1), (''1g.20gb'', 20, 1), (''2g.20gb'', 20, 2), (''3g.40gb'', 40, 3), (''4g.40gb'', 40, 4),
        (''7g.80gb'', 80, 7)] \<rparr>"

lemma example_table: "ProfilesFor int_quantity ''NVIDIA-H100-80GB-HBM3'' = Some h100_table"
proof -
  have "normalize ''NVIDIA-H100-80GB-HBM3'' = ''nvidiah10080gbhbm3''" by code_simp
  then show ?thesis
    by (simp add: ProfilesFor_def productMatchers_def Let_def familyA100_def familyH100_def capacity40_def capacity80_def
        HasPrefix_def builtIn_lookup h100_table_def profile_def int_quantity_def TrimSuffix_def HasSuffix_def digits_val_def
        digit_val_def byte_def)
qed

lemma example_parts:
  "ParsePartition ''1g.10gb=2,3g.40gb'' =
     (Inr [\<lparr> mpe_Profile = ''1g.10gb'', mpe_Count = 2 \<rparr>, \<lparr> mpe_Profile = ''3g.40gb'', mpe_Count = 1 \<rparr>] :: int UpError + _)"
proof -
  have split: "Split ''1g.10gb=2,3g.40gb'' CHR '','' = [''1g.10gb=2'', ''3g.40gb'']" by code_simp
  have cut: "Cut ''1g.10gb=2'' CHR ''='' = (''1g.10gb'', ''2'', True)" "Cut ''3g.40gb'' CHR ''='' = (''3g.40gb'', [], False)"
    by code_simp+
  have "ParseInt 32 ''2'' = Some 2" by code_simp
  then show ?thesis
    by (simp add: ParsePartition_def split cut TrimSpace_visible visible_def byte_def int32_range_def)
qed

lemma example_options: "check_options example_env (example_opts ''80Gi'') = None" "check_options example_env (example_opts ''40Gi'') = None"
  by code_simp+

lemma example_selector: "ParseSelector ''type=kwok'' = (Inr (fmupd ''type'' ''kwok'' fmempty) :: int UpError + _)"
proof -
  have "Split ''type=kwok'' CHR '','' = [''type=kwok'']" "Cut ''type=kwok'' CHR ''='' = (''type'', ''kwok'', True)" by code_simp+
  then show ?thesis by (simp add: ParseSelector_def TrimSpace_visible visible_def byte_def)
qed

definition example_up_pool :: "string \<Rightarrow> int pool" where
  "example_up_pool m = up_pool (example_opts m) SharingModeMIG
     [\<lparr> mpe_Profile = ''1g.10gb'', mpe_Count = 2 \<rparr>, \<lparr> mpe_Profile = ''3g.40gb'', mpe_Count = 1 \<rparr>]
     [\<lparr> oe_NodeSelector = fmempty, oe_BusyPerNode = 2 \<rparr>] (fmupd ''type'' ''kwok'' fmempty)"

lemma example_up_pool_MIG: "MIGEnabled (pool_Spec (example_up_pool m))"
  by (simp add: example_up_pool_def up_pool_def MIGEnabled_def)

lemma example_built:
  assumes "env_ParseQuantity example_env m = Inr n" "0 < n" "check_options example_env (example_opts m) = None"
  shows "BuildManifests example_env int_quantity (example_opts m) =
    Inr [ModelObject (up_model (example_opts m) n []), PoolObject (example_up_pool m)]"
proof -
  let ?parts = "[\<lparr> mpe_Profile = ''1g.10gb'', mpe_Count = 2 \<rparr>, \<lparr> mpe_Profile = ''3g.40gb'', mpe_Count = 1 \<rparr>]"
  have "TrimSpace [] = []" by code_simp
  then have "migSelection int_quantity (example_opts m) = Inr []"
    by (simp add: migSelection_def example_opts_def example_table)
  moreover have "ValidatePartition int_quantity ?parts h100_table = Inr ()" by code_simp
  ultimately have "mig_options int_quantity (example_opts m) SharingModeMIG = Inr ([], ?parts)"
    by (simp add: mig_options_def) (simp add: example_opts_def example_parts example_table)
  then show ?thesis using assms
    by (simp add: BuildManifests_def)
      (simp add: Let_def example_up_pool_def example_opts_def example_selector SharingModeMIG_def example_env_def)
qed


text \<open>
  With 40 GiB the same flags build a pool too, against the comment that the partition is checked with the operator's
  budget: \<open>up\<close> checks it against the built-in table's memory, the operator against the model's, and refuses the pool.
\<close>

theorem BuildManifests_smaller_card:
  "\<exists>model (pool :: int pool) e. BuildManifests example_env int_quantity (example_opts ''40Gi'') = Inr [ModelObject model, PoolObject pool]
     \<and> check_pool int_quantity pool model = Inl (''MIGProfilesInvalid'', MsgMig e)"
proof -
  have n: "env_ParseQuantity example_env ''40Gi'' = Inr (40 * 2 ^ 30)" by code_simp
  have p: "up_Product (example_opts ''40Gi'') = ''NVIDIA-H100-80GB-HBM3''" by (simp add: example_opts_def)
  let ?m = "up_model (example_opts ''40Gi'') (40 * 2 ^ 30) []"
  have "baseTable int_quantity ?m = h100_table\<lparr> tb_Budget := \<lparr> bd_Memory = 40 * 2 ^ 30, bd_Slices = 7 \<rparr> \<rparr>"
    by (simp add: baseTable_def Let_def up_model_def p example_table) (simp add: h100_table_def)
  moreover have "\<not> tableOK int_quantity (h100_table\<lparr> tb_Budget := \<lparr> bd_Memory = 40 * 2 ^ 30, bd_Slices = 7 \<rparr> \<rparr>)" by code_simp
  ultimately obtain e where "Resolve int_quantity ?m = Inl e"
    using Resolve_Inr_iff [of int_quantity ?m] by (cases "Resolve int_quantity ?m") auto
  then have "check_pool int_quantity (example_up_pool ''40Gi'') ?m = Inl (''MIGProfilesInvalid'', MsgMig e)"
    by (simp add: check_pool_def example_up_pool_MIG)
  then show ?thesis using example_built [OF n _ example_options(2)] by auto
qed

text \<open>\<open>RenderYAML\<close> renders every object or names the first that cannot be rendered.\<close>

theorem RenderYAML_spec:
  "RenderYAML marshal objs =
     (case find (\<lambda>obj. \<exists>err. marshal obj = Inl err) objs of
        Some obj \<Rightarrow> Inl (object_name obj, projl (marshal obj))
      | None \<Rightarrow> Inr (Join (map (\<lambda>obj. projr (marshal obj)) objs) (''---'' @ [CHR 0x0A])))"
proof -
  have "render_docs marshal objs =
     (case find (\<lambda>obj. \<exists>err. marshal obj = Inl err) objs of
        Some obj \<Rightarrow> Inl (object_name obj, projl (marshal obj))
      | None \<Rightarrow> Inr (map (\<lambda>obj. projr (marshal obj)) objs))"
    by (induction objs) (auto split: sum.splits option.splits)
  then show ?thesis by (simp add: RenderYAML_def split: option.splits)
qed

end
