(* ===== verification/Cli_Capture.thy ===== *)
theory Cli_Capture
  imports Cli_Up
begin

text \<open>
  \<open>internal/cli/capture.go\<close>: a cluster's GPU fleet read back as manifests. \<open>Capture\<close> is a function of the nodes and
  slices already read. Warnings and errors are values that carry what their text names; a warning keeps its
  place in the list. A Go map that is ranged over in an open order is visited in the order of its keys here; the
  results do not depend on it (\<open>migCapacity_lookup\<close>, and the largest domain of \<open>topologyOf\<close> is a maximum).

  The division in \<open>migLayout\<close> is by a number of cards that
  \<open>physicalGPUs\<close> never returns as zero (\<open>physicalGPUs_pos\<close>).
\<close>

section \<open>Constants and types\<close>

definition ShapeLabel :: string where "ShapeLabel = ''ghostgpu.dev/shape''"
definition kwokNodeAnnotation :: string where "kwokNodeAnnotation = ''kwok.x-k8s.io/node''"
definition kwokNodeValue :: string where "kwokNodeValue = ''fake''"
definition ttlAnnotation :: string where "ttlAnnotation = ''node.alpha.kubernetes.io/ttl''"
definition capture_labelTrue :: string where "capture_labelTrue = ''true''"
definition nodeTypeLabel :: string where "nodeTypeLabel = ''type''"
definition nodeTypeKwok :: string where "nodeTypeKwok = ''kwok''"
definition maxInstancesPerGPU :: int where "maxInstancesPerGPU = 8"
definition defaultPods :: int where "defaultPods = 110"
definition maxNameBase :: nat where "maxNameBase = 50"
definition defaultMIGSlices :: int where "defaultMIGSlices = 7"
definition migStrategySingle :: string where "migStrategySingle = ''single''"

record CaptureOptions =
  co_GPUsPerNode :: int
  co_EmitNodes :: bool

datatype 'q CaptureWarning =
    NoProductLabel string
  | NoMemoryLabel string
  | NoComputeLabels string
  | SingleStrategy string
  | WholeCardsToo string int
  | NoProfileTable string string
  | UnreadableProfile string string
  | FewerThanOnePerGPU string int string int
  | NotUniform string int string int int int
  | CappedInstances string int string
  | DoesNotFit string "'q MigError"
  | NodesNotEmitted

datatype CaptureError = UnknownPartitionedGPUs string | UnknownGPUs string | NoGPUNodes

record ('q, 'm) CaptureResult =
  cr_Objects :: "('q, 'm) Object list"
  cr_Warnings :: "'q CaptureWarning list"

record 'q nodeShape =
  sh_product :: string
  sh_memory :: 'q
  sh_compute :: string
  sh_gpus :: int
  sh_sharing :: string
  sh_partition :: "MIGPartitionEntry list"
  sh_topology :: TopologySpec
  sh_profiles :: "'q MIGProfileSpec list"

record 'q shapeGroup =
  sg_shape :: "'q nodeShape"
  sg_capacities :: "(string, 'q) fmap list"

section \<open>Reading a node\<close>

definition narrow :: "int \<Rightarrow> int" where
  "narrow n = (if n > 2 ^ 31 - 1 then 2 ^ 31 - 1 else n)"

definition indexSlicesByNode :: "'q ResourceSlice list \<Rightarrow> (string, 'q ResourceSlice list) fmap" where
  "indexSlicesByNode published = foldl (\<lambda>m s.
     case rss_NodeName (rs_Spec s) of
       None \<Rightarrow> m
     | Some n \<Rightarrow> if n = [] then m else fmupd n ((case fmlookup m n of None \<Rightarrow> [] | Some ss \<Rightarrow> ss) @ [s]) m) fmempty published"

definition countDevices :: "'q ResourceSlice list \<Rightarrow> int" where
  "countDevices published = foldl (\<lambda>n s. wrap32 (n + narrow (int (length (rss_Devices (rs_Spec s)))))) 0 published"

definition countCounterSets :: "'q ResourceSlice list \<Rightarrow> int" where
  "countCounterSets published =
     narrow (int (fcard (fset_of_list (map cs_Name (concat (map (\<lambda>s. rss_SharedCounters (rs_Spec s)) published))))))"

definition migCapacity :: "'q quantity_ops \<Rightarrow> 'q Node \<Rightarrow> (string, int) fmap" where
  "migCapacity Q node = foldl (\<lambda>instances name.
     case CutPrefix name MIGResourcePrefix of
       None \<Rightarrow> instances
     | Some prof \<Rightarrow>
         (case fmlookup (nd_Capacity node) name of
            None \<Rightarrow> instances
          | Some quantity \<Rightarrow> if q_Value Q quantity > 0 then fmupd prof (q_Value Q quantity) instances else instances))
     fmempty (sorted_list_of_fset (fmdom (nd_Capacity node)))"

definition gpuMemory :: "'q quantity_ops \<Rightarrow> labels \<Rightarrow> 'q option" where
  "gpuMemory Q lbls =
     (case ParseInt 64 (get_str lbls LabelGPUMemory) of
        None \<Rightarrow> None
      | Some m \<Rightarrow> if m \<le> 0 then None else Some (q_NewQuantity Q (wrap64 (wrap64 (m * 1024) * 1024)) BinarySI))"

definition computeCapability :: "labels \<Rightarrow> string option" where
  "computeCapability lbls =
     (let major = get_str lbls LabelComputeMajor; minor = get_str lbls LabelComputeMinor in
      if major = [] \<or> minor = [] then None
      else (let capability = major @ ''.'' @ minor in
            if \<not> computeCapabilityPattern capability then None else Some capability))"

definition capturedNodeResources :: "string list" where
  "capturedNodeResources = [''cpu'', ''memory'', ''ephemeral-storage'', ''pods'']"

definition nodeCapacity :: "'q quantity_ops \<Rightarrow> 'q Node \<Rightarrow> (string, 'q) fmap" where
  "nodeCapacity Q node =
     (let capacity = foldl (\<lambda>c name. case fmlookup (nd_Capacity node) name of None \<Rightarrow> c | Some q \<Rightarrow> fmupd name q c)
            fmempty capturedNodeResources
      in if fmlookup capacity ''pods'' = None then fmupd ''pods'' (q_NewQuantity Q defaultPods DecimalSI) capacity else capacity)"

text \<open>The loops of \<open>topologyOf\<close>: the cards of every domain, and whether any device names a NUMA node.\<close>

definition device_identity :: "'q Device \<Rightarrow> string" where
  "device_identity d =
     (case fmlookup (dv_Attributes d) AttrUUID of
        None \<Rightarrow> dv_Name d
      | Some a \<Rightarrow> (case da_StringValue a of None \<Rightarrow> dv_Name d | Some u \<Rightarrow> u))"

definition topology_step :: "(string, string fset) fmap \<times> bool \<Rightarrow> 'q Device \<Rightarrow> (string, string fset) fmap \<times> bool" where
  "topology_step = (\<lambda>(domains, numaAware) d.
     let numaAware1 = (case fmlookup (dv_Attributes d) AttrNUMANode of
           None \<Rightarrow> numaAware | Some a \<Rightarrow> if da_IntValue a \<noteq> None then True else numaAware) in
     case fmlookup (dv_Attributes d) AttrNVLinkDomain of
       None \<Rightarrow> (domains, numaAware1)
     | Some a \<Rightarrow>
         (case da_StringValue a of
            None \<Rightarrow> (domains, numaAware1)
          | Some domain \<Rightarrow>
              (let members = (case fmlookup domains domain of None \<Rightarrow> {||} | Some ms \<Rightarrow> ms)
               in (fmupd domain (finsert (device_identity d) members) domains, numaAware1))))"

definition topologyOf :: "'q ResourceSlice list \<Rightarrow> TopologySpec" where
  "topologyOf published =
     (case foldl topology_step (fmempty, False) (concat (map (\<lambda>s. rss_Devices (rs_Spec s)) published)) of
        (domains, numaAware) \<Rightarrow>
          \<lparr> top_NVLinkDomainSize = foldl max 0 (map (\<lambda>k. case fmlookup domains k of None \<Rightarrow> 0 | Some ms \<Rightarrow> narrow (int (fcard ms)))
              (sorted_list_of_fset (fmdom domains))),
            top_NUMAAware = numaAware \<rparr>)"

definition physicalGPUs :: "'q Node \<Rightarrow> 'q ResourceSlice list \<Rightarrow> bool \<Rightarrow> CaptureOptions \<Rightarrow> CaptureError + int" where
  "physicalGPUs node published partitioned opts =
     (let n = countCounterSets published in
      if n > 0 then Inr n
      else
        (let fallback =
           (if co_GPUsPerNode opts > 0 then Inr (co_GPUsPerNode opts)
            else if partitioned then Inl (UnknownPartitionedGPUs (nd_Name node))
            else Inl (UnknownGPUs (nd_Name node)));
             devices = (let n = countDevices published in if n > 0 then Inr n else fallback)
         in if partitioned then fallback
            else (case ParseInt 32 (get_str (nd_Labels node) LabelGPUCount) of
                    None \<Rightarrow> devices
                  | Some n \<Rightarrow> if n > 0 then Inr (wrap32 n) else devices)))"

section \<open>The MIG layout\<close>

record 'q migLayoutResult =
  ml_partition :: "MIGPartitionEntry list"
  ml_profiles :: "'q MIGProfileSpec list"

text \<open>The loop of \<open>migLayout\<close> over the profiles, with the layout and the warnings so far.\<close>

fun layout_loop ::
  "'q quantity_ops \<Rightarrow> string \<Rightarrow> bool \<Rightarrow> (string, int) fmap \<Rightarrow> int \<Rightarrow> 'q migLayoutResult \<Rightarrow> 'q CaptureWarning list \<Rightarrow> string list
   \<Rightarrow> 'q migLayoutResult \<times> 'q CaptureWarning list" where
  "layout_loop Q nodeName known resources gpus out ws [] = (out, ws)"
| "layout_loop Q nodeName known resources gpus out ws (prof # profs) =
     (let n = get_int resources prof in
      case ParseProfileName Q prof of
        None \<Rightarrow> layout_loop Q nodeName known resources gpus out (ws @ [UnreadableProfile nodeName prof]) profs
      | Some shape \<Rightarrow>
          (let perGPU0 = n sdiv gpus in
           if perGPU0 < 1
           then layout_loop Q nodeName known resources gpus out (ws @ [FewerThanOnePerGPU nodeName n prof gpus]) profs
           else
             (let ws1 = (if n smod gpus \<noteq> 0
                         then ws @ [NotUniform nodeName n prof gpus perGPU0 (wrap64 (perGPU0 * gpus))] else ws);
                  ws2 = (if perGPU0 > maxInstancesPerGPU then ws1 @ [CappedInstances nodeName perGPU0 prof] else ws1);
                  perGPU = (if perGPU0 > maxInstancesPerGPU then maxInstancesPerGPU else perGPU0);
                  out1 = out\<lparr> ml_partition := ml_partition out @ [\<lparr> mpe_Profile = prof, mpe_Count = wrap32 perGPU \<rparr>] \<rparr>;
                  out2 = (if \<not> known
                          then out1\<lparr> ml_profiles := ml_profiles out1
                            @ [\<lparr> mps_Name = pr_Name shape, mps_Memory = pr_Memory shape, mps_Slices = pr_Slices shape \<rparr>] \<rparr>
                          else out1)
              in layout_loop Q nodeName known resources gpus out2 ws2 profs)))"

definition migLayout ::
  "'q quantity_ops \<Rightarrow> string \<Rightarrow> string \<Rightarrow> 'q \<Rightarrow> (string, int) fmap \<Rightarrow> int \<Rightarrow> 'q migLayoutResult \<times> 'q CaptureWarning list" where
  "migLayout Q nodeName product memory resources gpus =
     (let builtIn = ProfilesFor Q product; empty = \<lparr> ml_partition = [], ml_profiles = [] \<rparr> in
      if resources = fmempty
      then (empty, if builtIn = None then [NoProfileTable nodeName product] else [])
      else (case layout_loop Q nodeName (builtIn \<noteq> None) resources gpus empty [] (sorted_list_of_fset (fmdom resources)) of
              (out, ws) \<Rightarrow>
                (let table = (case builtIn of
                       Some t \<Rightarrow> t
                     | None \<Rightarrow> \<lparr> tb_Budget = \<lparr> bd_Memory = memory, bd_Slices = defaultMIGSlices \<rparr>, tb_Profiles = toMIGProfiles (ml_profiles out) \<rparr>)
                 in case ValidatePartition Q (ml_partition out) table of
                      Inl e \<Rightarrow> (out, ws @ [DoesNotFit nodeName e])
                    | Inr _ \<Rightarrow> (out, ws))))"

section \<open>The shape of a node\<close>

text \<open>The warnings, and the shape, no shape, or an error.\<close>

definition shapeOf ::
  "'q quantity_ops \<Rightarrow> 'q Node \<Rightarrow> 'q ResourceSlice list \<Rightarrow> CaptureOptions \<Rightarrow> 'q CaptureWarning list \<times> (CaptureError + 'q nodeShape option)" where
  "shapeOf Q node published opts =
     (let lbls = nd_Labels node in
      if get_str lbls LabelGPUPresent \<noteq> capture_labelTrue then ([], Inr None)
      else if get_str lbls LabelGPUProduct = [] then ([NoProductLabel (nd_Name node)], Inr None)
      else (case gpuMemory Q lbls of None \<Rightarrow> ([NoMemoryLabel (nd_Name node)], Inr None) | Some memory \<Rightarrow>
           (case computeCapability lbls of None \<Rightarrow> ([NoComputeLabels (nd_Name node)], Inr None) | Some compute \<Rightarrow>
             (let product = get_str lbls LabelGPUProduct;
                  migResources = migCapacity Q node;
                  strategy = get_str lbls LabelMIGStrategy;
                  partitioned = (strategy = MIGStrategyMixed \<or> migResources \<noteq> fmempty);
                  ws = (if strategy = migStrategySingle then [SingleStrategy (nd_Name node)] else [])
              in case physicalGPUs node published partitioned opts of
                   Inl e \<Rightarrow> (ws, Inl e)
                 | Inr gpus \<Rightarrow>
                     (let shape = \<lparr> sh_product = product, sh_memory = memory, sh_compute = compute, sh_gpus = gpus,
                            sh_sharing = SharingModeNone, sh_partition = [], sh_topology = topologyOf published, sh_profiles = [] \<rparr>
                      in if \<not> partitioned then (ws, Inr (Some shape))
                         else
                           (let ws1 = (case Atoi (get_str lbls LabelGPUCount) of
                                  None \<Rightarrow> ws
                                | Some whole \<Rightarrow> if whole > 0 then ws @ [WholeCardsToo (nd_Name node) whole] else ws)
                            in case migLayout Q (nd_Name node) product memory migResources gpus of (layout, layoutWarnings) \<Rightarrow>
                                 (ws1 @ layoutWarnings,
                                  Inr (Some (shape\<lparr> sh_sharing := SharingModeMIG, sh_partition := ml_partition layout,
                                                    sh_profiles := ml_profiles layout \<rparr>)))))))))"

definition bool_text :: "bool \<Rightarrow> string" where
  "bool_text b = (if b then ''true'' else ''false'')"

definition profiles_text :: "'q quantity_ops \<Rightarrow> 'q MIGProfileSpec list \<Rightarrow> string" where
  "profiles_text Q ps = concat (map (\<lambda>p. ''|prof:'' @ mps_Name p @ ''='' @ q_String Q (mps_Memory p) @ ''/'' @ Itoa (mps_Slices p)) ps)"

definition shape_key :: "'q quantity_ops \<Rightarrow> 'q nodeShape \<Rightarrow> string" where
  "shape_key Q s =
     sh_product s @ ''|'' @ q_String Q (sh_memory s) @ ''|'' @ sh_compute s @ ''|'' @ Itoa (sh_gpus s) @ ''|'' @ sh_sharing s @ ''|''
     @ Itoa (top_NVLinkDomainSize (sh_topology s)) @ ''|'' @ bool_text (top_NUMAAware (sh_topology s))
     @ concat (map (\<lambda>e. ''|part:'' @ mpe_Profile e @ ''='' @ Itoa (mpe_Count e)) (sh_partition s))
     @ profiles_text Q (sh_profiles s)"

definition modelKey :: "'q quantity_ops \<Rightarrow> 'q nodeShape \<Rightarrow> string" where
  "modelKey Q s = sh_product s @ ''|'' @ q_String Q (sh_memory s) @ ''|'' @ sh_compute s @ profiles_text Q (sh_profiles s)"

section \<open>Names\<close>

text \<open>The loop of \<open>baseName\<close>: the bytes written so far and whether the last one is a separator.\<close>

fun base_loop :: "string \<Rightarrow> bool \<Rightarrow> nat list \<Rightarrow> string" where
  "base_loop b separated [] = b"
| "base_loop b separated (r # rs) =
     (if rune_alnum r then base_loop (b @ [char_of r]) False rs
      else if \<not> separated \<and> b \<noteq> [] then base_loop (b @ ''-'') True rs
      else base_loop b separated rs)"

definition baseName :: "string \<Rightarrow> string" where
  "baseName product =
     (let name0 = Trim (base_loop [] False (lower_runes product)) CHR ''-'';
          name1 = TrimPrefix name0 ''nvidia-'';
          name2 = (if length name1 > maxNameBase then Trim (take maxNameBase name1) CHR ''-'' else name1)
      in if name2 = [] then ''gpu'' else name2)"

text \<open>The candidates of \<open>namer.pick\<close> and the names taken among those still ahead: the measure of its loop.\<close>

definition candidate :: "string \<Rightarrow> int \<Rightarrow> string" where
  "candidate base i = base @ ''-'' @ Itoa i"

lemma candidate_inject [simp]: "candidate base i = candidate base j \<longleftrightarrow> i = j"
  by (simp add: candidate_def)

definition ahead :: "string fset \<Rightarrow> string \<Rightarrow> int \<Rightarrow> string fset" where
  "ahead taken base i = ffilter (\<lambda>c. \<exists>j\<ge>i. c = candidate base j) taken"

lemma ahead_step: "candidate base i |\<in>| taken \<Longrightarrow> ahead taken base (i + 1) |\<subset>| ahead taken base i"
proof -
  assume "candidate base i |\<in>| taken"
  then have "candidate base i |\<in>| ahead taken base i" "candidate base i |\<notin>| ahead taken base (i + 1)"
    by (auto simp: ahead_def)
  moreover have "ahead taken base (i + 1) |\<subseteq>| ahead taken base i" by (force simp: ahead_def)
  ultimately show ?thesis by blast
qed

function pick_loop :: "string fset \<Rightarrow> string \<Rightarrow> int \<Rightarrow> string" where
  "pick_loop taken base i =
     (if candidate base i |\<notin>| taken then candidate base i else pick_loop taken base (i + 1))"
  by pat_completeness auto
termination
proof (relation "measure (\<lambda>(taken, base, i). fcard (ahead taken base i))")
  fix taken base and i :: int assume "\<not> candidate base i |\<notin>| taken"
  then have "fcard (ahead taken base (i + 1)) < fcard (ahead taken base i)" by (intro pfsubset_fcard_mono ahead_step) simp
  then show "((taken, base, i + 1), taken, base, i) \<in> measure (\<lambda>(taken, base, i). fcard (ahead taken base i))" by simp
qed simp

declare pick_loop.simps [simp del]

text \<open>\<open>namer.pick\<close>: the name and the names taken afterwards.\<close>

definition pick :: "string fset \<Rightarrow> string \<Rightarrow> string \<times> string fset" where
  "pick taken base =
     (if base |\<notin>| taken then (base, finsert base taken)
      else (let c = pick_loop taken base 2 in (c, finsert c taken)))"

section \<open>Manifests\<close>

definition buildModel :: "string \<Rightarrow> 'q nodeShape \<Rightarrow> 'q GPUModel" where
  "buildModel name shape =
     \<lparr> model_Name = name, model_Spec = \<lparr> ms_Vendor = ''nvidia'', ms_ProductName = sh_product shape, ms_Memory = sh_memory shape,
         ms_ComputeCapability = sh_compute shape, ms_MIGProfiles = sh_profiles shape, ms_MIGBudget = None \<rparr> \<rparr>"

definition buildPool :: "string \<Rightarrow> string \<Rightarrow> 'q nodeShape \<Rightarrow> 'm GPUPool" where
  "buildPool name modelRef shape =
     \<lparr> pool_Name = name, pool_Generation = 0,
       pool_Spec = \<lparr> ps_ModelRef = modelRef, ps_NodeSelector = fmupd ShapeLabel name fmempty, ps_GPUsPerNode = sh_gpus shape,
         ps_Advertise = \<lparr> adv_DRA = None, adv_ExtendedResource = None \<rparr>,
         ps_MIGPartition = sh_partition shape, ps_Faults = [], ps_Utilization = None, ps_Occupancy = [],
         ps_SharingMode = sh_sharing shape, ps_Topology = sh_topology shape \<rparr>,
       pool_Status = zeroStatus \<rparr>"

definition buildNode :: "string \<Rightarrow> string \<Rightarrow> (string, 'q) fmap \<Rightarrow> 'q Node" where
  "buildNode poolName name capacity =
     \<lparr> nd_Name = name,
       nd_Labels = fmap_of_list
         [(''kubernetes.io/arch'', ''amd64''), (''kubernetes.io/os'', ''linux''), (''kubernetes.io/hostname'', name),
          (''kubernetes.io/role'', ''agent''), (nodeTypeLabel, nodeTypeKwok), (ShapeLabel, poolName)],
       nd_Annotations = fmap_of_list [(kwokNodeAnnotation, kwokNodeValue), (ttlAnnotation, ''0'')],
       nd_Capacity = capacity, nd_Allocatable = capacity,
       nd_Taints = [\<lparr> nt_Key = kwokNodeAnnotation, nt_Value = kwokNodeValue, nt_Effect = ''NoSchedule'' \<rparr>],
       nd_NodeInfo = \<lparr> ni_Architecture = ''amd64'', ni_ContainerRuntimeVersion = ''containerd://fake'', ni_KubeletVersion = ''fake'',
         ni_OperatingSystem = ''linux'' \<rparr>,
       nd_Phase = ''Running'' \<rparr>"

definition buildNodes :: "string \<Rightarrow> (string, 'q) fmap list \<Rightarrow> 'q Node list" where
  "buildNodes poolName capacities =
     (let prefix = TrimSuffix poolName ''-pool'' in
      map (\<lambda>i. buildNode poolName (prefix @ ''-'' @ Itoa (int i)) (capacities ! i)) [0..<length capacities])"

text \<open>The variables of \<open>assemble\<close> across its loop.\<close>

record ('q, 'm) assembly =
  as_models :: "'q GPUModel list"
  as_pools :: "'m GPUPool list"
  as_simulated :: "'q Node list"
  as_modelNames :: "(string, string) fmap"
  as_modelNamer :: "string fset"
  as_poolNamer :: "string fset"

text \<open>\<open>groups[key]\<close>, for a key of \<open>order\<close>, which \<open>Capture\<close> only fills with keys of \<open>groups\<close>.\<close>

definition group_of :: "(string, 'q shapeGroup) fmap \<Rightarrow> string \<Rightarrow> 'q shapeGroup" where
  "group_of groups key = the (fmlookup groups key)"

definition shapesPerModel :: "'q quantity_ops \<Rightarrow> (string, 'q shapeGroup) fmap \<Rightarrow> string list \<Rightarrow> (string, int) fmap" where
  "shapesPerModel Q groups order =
     foldl (\<lambda>m key. let k = modelKey Q (sg_shape (group_of groups key)) in fmupd k (get_int m k + 1) m) fmempty order"

text \<open>The base of a pool's name: plain, or saying what differs when several shapes share a model.\<close>

definition pool_base :: "int \<Rightarrow> string \<Rightarrow> 'q nodeShape \<Rightarrow> string" where
  "pool_base shapes name shape =
     (if shapes > 1
      then name @ ''-'' @ Itoa (sh_gpus shape) @ ''gpu'' @ (if sh_sharing shape = SharingModeMIG then ''-mig'' else [])
      else name @ ''-pool'')"

text \<open>The name of a shape's model, which is built when its hardware is new.\<close>

definition model_for :: "'q quantity_ops \<Rightarrow> 'q nodeShape \<Rightarrow> ('q, 'm) assembly \<Rightarrow> string \<times> ('q, 'm) assembly" where
  "model_for Q shape st =
     (case fmlookup (as_modelNames st) (modelKey Q shape) of
        Some name \<Rightarrow> (name, st)
      | None \<Rightarrow>
          (case pick (as_modelNamer st) (baseName (sh_product shape)) of (name, taken) \<Rightarrow>
             (name, st\<lparr> as_modelNamer := taken, as_modelNames := fmupd (modelKey Q shape) name (as_modelNames st),
                        as_models := as_models st @ [buildModel name shape] \<rparr>)))"

definition assemble_step ::
  "'q quantity_ops \<Rightarrow> (string, 'q shapeGroup) fmap \<Rightarrow> (string, int) fmap \<Rightarrow> CaptureOptions \<Rightarrow> ('q, 'm) assembly \<Rightarrow> string \<Rightarrow> ('q, 'm) assembly" where
  "assemble_step Q groups shapes opts st key =
     (let shape = sg_shape (group_of groups key) in
      case model_for Q shape st of (name, st1) \<Rightarrow>
        (case pick (as_poolNamer st1) (pool_base (get_int shapes (modelKey Q shape)) name shape) of (poolName, taken) \<Rightarrow>
           (let st2 = st1\<lparr> as_poolNamer := taken, as_pools := as_pools st1 @ [buildPool poolName name shape] \<rparr>
            in if co_EmitNodes opts
               then st2\<lparr> as_simulated := as_simulated st2 @ buildNodes poolName (sg_capacities (group_of groups key)) \<rparr>
               else st2)))"

definition assemble ::
  "'q quantity_ops \<Rightarrow> (string, 'q shapeGroup) fmap \<Rightarrow> string list \<Rightarrow> CaptureOptions \<Rightarrow> ('q, 'm) Object list" where
  "assemble Q groups order opts =
     (let st = foldl (assemble_step Q groups (shapesPerModel Q groups order) opts)
            \<lparr> as_models = [], as_pools = [], as_simulated = [], as_modelNames = fmempty, as_modelNamer = {||}, as_poolNamer = {||} \<rparr> order
      in map ModelObject (as_models st) @ map PoolObject (as_pools st) @ map NodeObject (as_simulated st))"

section \<open>Capture\<close>

text \<open>The loop of \<open>Capture\<close> over the nodes, with the warnings, the groups and the order of their keys so far.\<close>

fun capture_loop ::
  "'q quantity_ops \<Rightarrow> (string, 'q ResourceSlice list) fmap \<Rightarrow> CaptureOptions
   \<Rightarrow> 'q CaptureWarning list \<Rightarrow> (string, 'q shapeGroup) fmap \<Rightarrow> string list \<Rightarrow> 'q Node list
   \<Rightarrow> CaptureError + 'q CaptureWarning list \<times> (string, 'q shapeGroup) fmap \<times> string list" where
  "capture_loop Q byNode opts ws groups order [] = Inr (ws, groups, order)"
| "capture_loop Q byNode opts ws groups order (node # nodes) =
     (case shapeOf Q node (case fmlookup byNode (nd_Name node) of None \<Rightarrow> [] | Some ss \<Rightarrow> ss) opts of
        (warnings, Inl e) \<Rightarrow> Inl e
      | (warnings, Inr None) \<Rightarrow> capture_loop Q byNode opts (ws @ warnings) groups order nodes
      | (warnings, Inr (Some shape)) \<Rightarrow>
          (let key = shape_key Q shape;
               (grp, order1) =
                 (case fmlookup groups key of
                    Some grp \<Rightarrow> (grp, order)
                  | None \<Rightarrow> (\<lparr> sg_shape = shape, sg_capacities = [] \<rparr>, order @ [key]));
               grp1 = grp\<lparr> sg_capacities := sg_capacities grp @ [nodeCapacity Q node] \<rparr>
           in capture_loop Q byNode opts (ws @ warnings) (fmupd key grp1 groups) order1 nodes))"

text \<open>The two results of \<open>Capture\<close>; the error is \<open>None\<close> on success.\<close>

definition Capture ::
  "'q quantity_ops \<Rightarrow> 'q Node list \<Rightarrow> 'q ResourceSlice list \<Rightarrow> CaptureOptions \<Rightarrow> ('q, 'm) CaptureResult \<times> CaptureError option" where
  "Capture Q nodes published opts =
     (case capture_loop Q (indexSlicesByNode published) opts [] fmempty [] nodes of
        Inl e \<Rightarrow> (\<lparr> cr_Objects = [], cr_Warnings = [] \<rparr>, Some e)
      | Inr (ws, groups, order) \<Rightarrow>
          if fmdom groups = {||} then (\<lparr> cr_Objects = [], cr_Warnings = ws \<rparr>, Some NoGPUNodes)
          else (\<lparr> cr_Objects = assemble Q groups (sort order) opts,
                   cr_Warnings = (if co_EmitNodes opts then ws else ws @ [NodesNotEmitted]) \<rparr>, None))"

section \<open>Lemmas: names\<close>

lemma pick_fresh: "fst (pick taken base) |\<notin>| taken" "snd (pick taken base) = finsert (fst (pick taken base)) taken"
proof -
  have "pick_loop taken base i |\<notin>| taken" for i
    by (induction taken base i rule: pick_loop.induct) (subst pick_loop.simps, simp)
  then show "fst (pick taken base) |\<notin>| taken" "snd (pick taken base) = finsert (fst (pick taken base)) taken"
    by (simp_all add: pick_def Let_def)
qed

text \<open>What \<open>assemble\<close> relies on of its two namers: a name that was free, and is taken afterwards.\<close>

locale name_supply =
  fixes next_name :: "'n fset \<Rightarrow> 'b \<Rightarrow> 'n \<times> 'n fset"
  assumes next_fresh: "fst (next_name taken base) |\<notin>| taken"
    and next_taken: "snd (next_name taken base) = finsert (fst (next_name taken base)) taken"
begin

lemma next_result:
  assumes "next_name taken base = (name, taken')"
  shows "name |\<notin>| taken" "taken' = finsert name taken"
  using next_fresh [of taken base] next_taken [of taken base] assms by simp_all

lemma next_names:
  assumes "next_name taken base = (name, taken')" "distinct names" "set names = fset taken"
  shows "distinct (names @ [name])" "set (names @ [name]) = fset taken'"
  using next_result [OF assms(1)] assms(2,3) by auto

end

interpretation namer: name_supply pick
  by unfold_locales (fact pick_fresh)+

text \<open>The loop stops within as many rounds as there are names taken.\<close>

lemma pick_loop_bound:
  "\<exists>j\<ge>i. pick_loop taken base i = candidate base j \<and> j \<le> i + int (fcard (ahead taken base i))
     \<and> (\<forall>k. i \<le> k \<and> k < j \<longrightarrow> candidate base k |\<in>| taken)"
proof (induction taken base i rule: pick_loop.induct)
  case (1 taken base i)
  show ?case
  proof (cases "candidate base i |\<in>| taken")
    case True
    with 1 obtain j where j: "j \<ge> i + 1" "pick_loop taken base (i + 1) = candidate base j"
      "j \<le> i + 1 + int (fcard (ahead taken base (i + 1)))" "\<forall>k. i + 1 \<le> k \<and> k < j \<longrightarrow> candidate base k |\<in>| taken" by auto
    have "fcard (ahead taken base (i + 1)) < fcard (ahead taken base i)" using ahead_step [OF True] by (rule pfsubset_fcard_mono)
    moreover have "candidate base k |\<in>| taken" if "i \<le> k" "k < j" for k using that True j(4) by (cases "k = i") auto
    ultimately show ?thesis using True j by (subst pick_loop.simps) (auto intro!: exI [of _ j])
  next
    case False
    then show ?thesis by (subst pick_loop.simps) (auto intro!: exI [of _ i])
  qed
qed

text \<open>What \<open>Trim\<close> leaves is a part of the string that neither starts nor ends with the trimmed byte.\<close>

lemma Trim_part: "\<exists>x y. s = x @ Trim s c @ y"
proof -
  let ?t = "dropWhile (\<lambda>x. x = c) s"
  have "s = takeWhile (\<lambda>x. x = c) s @ ?t" by simp
  moreover have "rev ?t = takeWhile (\<lambda>x. x = c) (rev ?t) @ dropWhile (\<lambda>x. x = c) (rev ?t)" by simp
  then have "?t = Trim s c @ rev (takeWhile (\<lambda>x. x = c) (rev ?t))"
    unfolding Trim_def by (metis rev_append rev_rev_ident)
  ultimately show ?thesis by metis
qed

lemma Trim_last: "Trim s c \<noteq> [] \<Longrightarrow> last (Trim s c) \<noteq> c"
  using hd_dropWhile [of "\<lambda>x. x = c" "rev (dropWhile (\<lambda>x. x = c) s)"] by (simp add: Trim_def last_rev)

lemma Trim_hd: "Trim s c \<noteq> [] \<Longrightarrow> hd (Trim s c) \<noteq> c"
proof -
  assume ne: "Trim s c \<noteq> []"
  let ?t = "dropWhile (\<lambda>x. x = c) s"
  have "?t \<noteq> []" using ne by (cases "?t = []") (simp_all add: Trim_def)
  then have "hd ?t \<noteq> c" using hd_dropWhile [of "\<lambda>x. x = c" s] by simp
  moreover have "rev ?t = takeWhile (\<lambda>x. x = c) (rev ?t) @ dropWhile (\<lambda>x. x = c) (rev ?t)" by simp
  then have "?t = Trim s c @ rev (takeWhile (\<lambda>x. x = c) (rev ?t))"
    unfolding Trim_def by (metis rev_append rev_rev_ident)
  then have "hd ?t = hd (Trim s c)" using ne by (metis hd_append2)
  ultimately show ?thesis by simp
qed

lemma Trim_head: "s \<noteq> [] \<Longrightarrow> hd s \<noteq> c \<Longrightarrow> Trim s c \<noteq> []"
  by (cases s) (auto simp: Trim_def dropWhile_eq_Nil_conv)

definition label_char :: "char \<Rightarrow> bool" where
  "label_char c \<longleftrightarrow> rune_alnum (byte c) \<or> c = CHR ''-''"

lemma not_alnum_dash [simp]: "\<not> rune_alnum (byte CHR ''-'')"
  by (simp add: rune_alnum_def byte_def)

lemma byte_char_of_alnum [simp]: "rune_alnum r \<Longrightarrow> byte (char_of r) = r"
  by (auto simp: rune_alnum_def byte_def of_char_of)

text \<open>No dash follows a dash.\<close>

definition single_dashes :: "string \<Rightarrow> bool" where
  "single_dashes s \<longleftrightarrow> (\<forall>x y. s \<noteq> x @ ''--'' @ y)"

lemma single_dashes_part: "single_dashes (x @ s @ y) \<Longrightarrow> single_dashes s"
  unfolding single_dashes_def by (metis append.assoc)

lemma single_dashes_snoc:
  assumes "single_dashes b" "c = CHR ''-'' \<longrightarrow> b = [] \<or> last b \<noteq> CHR ''-''"
  shows "single_dashes (b @ [c])"
  unfolding single_dashes_def
proof (intro allI notI)
  fix x y assume eq: "b @ [c] = x @ ''--'' @ y"
  show False
  proof (cases y rule: rev_cases)
    case Nil
    then have "b @ [c] = (x @ ''-'') @ [CHR ''-'']" using eq by simp
    then have "b = x @ ''-''" "c = CHR ''-''" by (simp_all only: append1_eq_conv)
    then show False using assms(2) by simp
  next
    case (snoc y' d)
    then have "b = x @ ''--'' @ y'" using eq by (metis append.assoc append1_eq_conv)
    then show False using assms(1) unfolding single_dashes_def by blast
  qed
qed

lemma base_loop_label:
  assumes "list_all label_char b" "single_dashes b" "separated \<longleftrightarrow> b \<noteq> [] \<and> last b = CHR ''-''"
  shows "list_all label_char (base_loop b separated rs) \<and> single_dashes (base_loop b separated rs)"
  using assms
proof (induction rs arbitrary: b separated)
  case (Cons r rs)
  show ?case
  proof (cases "rune_alnum r")
    case True
    then have n: "char_of r \<noteq> CHR ''-''" by (metis byte_char_of_alnum not_alnum_dash)
    from True have "label_char (char_of r)" by (simp add: label_char_def)
    then have "list_all label_char (b @ [char_of r])" using Cons.prems by simp
    moreover have "single_dashes (b @ [char_of r])" using Cons.prems n by (intro single_dashes_snoc) simp_all
    ultimately show ?thesis using Cons.IH [of "b @ [char_of r]" False] True n by simp
  next
    case False
    have dash: "label_char CHR ''-''" by (simp add: label_char_def)
    show ?thesis
    proof (cases "\<not> separated \<and> b \<noteq> []")
      case True
      then have "single_dashes (b @ ''-'')" using Cons.prems by (intro single_dashes_snoc) auto
      then show ?thesis using Cons.IH [of "b @ ''-''" True] Cons.prems dash True False by simp
    qed (use Cons.IH [of b separated] Cons.prems False in auto)
  qed
qed simp

text \<open>The form of a DNS label: lower-case letters, digits and inner dashes.\<close>

definition dns_label :: "string \<Rightarrow> bool" where
  "dns_label s \<longleftrightarrow> s \<noteq> [] \<and> list_all label_char s \<and> hd s \<noteq> CHR ''-'' \<and> last s \<noteq> CHR ''-''"

lemma list_all_part: "list_all P (x @ s @ y) \<Longrightarrow> list_all P s"
  by simp

lemma TrimPrefix_label:
  assumes "dns_label s" "single_dashes s"
  shows "dns_label (TrimPrefix s ''nvidia-'')"
proof (cases "HasPrefix s ''nvidia-''")
  case True
  define r where "r = drop 7 s"
  have "take 7 s = ''nvidia-''" using True by (simp add: HasPrefix_def numeral_eq_Suc)
  then have s: "s = ''nvidia-'' @ r" unfolding r_def by (metis append_take_drop_id)
  have "r \<noteq> []" using assms(1) s by (auto simp: dns_label_def)
  moreover have "hd r \<noteq> CHR ''-''"
  proof
    assume "hd r = CHR ''-''"
    with \<open>r \<noteq> []\<close> obtain r' where "r = CHR ''-'' # r'" by (cases r) auto
    then have "s = ''nvidia'' @ ''--'' @ r'" by (simp add: s)
    then show False using assms(2) by (simp only: single_dashes_def) blast
  qed
  ultimately have "dns_label r" using assms(1) s by (simp add: dns_label_def)
  then show ?thesis using True by (simp add: TrimPrefix_def r_def numeral_eq_Suc)
qed (use assms in \<open>simp add: TrimPrefix_def\<close>)

lemma Trim_label:
  assumes "list_all label_char s" "Trim s CHR ''-'' \<noteq> []"
  shows "dns_label (Trim s CHR ''-'')"
proof -
  obtain x y where "s = x @ Trim s CHR ''-'' @ y" using Trim_part by blast
  then have "list_all label_char (Trim s CHR ''-'')" using assms(1) list_all_part by metis
  then show ?thesis using assms(2) Trim_hd Trim_last by (simp add: dns_label_def)
qed

section \<open>Properties: names\<close>

text \<open>
  C36: whatever the product label of a node contains, the name made from it is a DNS label of at most 50 bytes.
\<close>

theorem baseName_label: "dns_label (baseName product) \<and> length (baseName product) \<le> 50"
proof -
  let ?b = "base_loop [] False (lower_runes product)"
  let ?n0 = "Trim ?b CHR ''-''"
  have b: "list_all label_char ?b" "single_dashes ?b"
    using base_loop_label [of "[]" False "lower_runes product"] by (simp_all add: single_dashes_def)
  show ?thesis
  proof (cases "?n0 = []")
    case True
    then show ?thesis by (simp add: baseName_def TrimPrefix_def HasPrefix_def maxNameBase_def dns_label_def label_char_def rune_alnum_def byte_def)
  next
    case False
    obtain x y where "?b = x @ ?n0 @ y" using Trim_part by blast
    then have "single_dashes ?n0" using b(2) single_dashes_part by metis
    define n1 where "n1 = TrimPrefix ?n0 ''nvidia-''"
    have n1: "dns_label n1" unfolding n1_def by (intro TrimPrefix_label Trim_label b False) fact
    have cut: "dns_label (Trim (take 50 n1) CHR ''-'') \<and> length (Trim (take 50 n1) CHR ''-'') \<le> 50"
    proof -
      have "list_all label_char (take 50 n1)" using n1 by (auto simp: dns_label_def list_all_iff dest: in_set_takeD)
      moreover have "Trim (take 50 n1) CHR ''-'' \<noteq> []" using n1 by (intro Trim_head) (auto simp: dns_label_def hd_take)
      moreover have "length (Trim (take 50 n1) CHR ''-'') \<le> 50"
      proof -
        obtain x y where "take 50 n1 = x @ Trim (take 50 n1) CHR ''-'' @ y" using Trim_part by blast
        then have "length (take 50 n1) = length x + length (Trim (take 50 n1) CHR ''-'') + length y"
          by (metis add.assoc length_append)
        then show ?thesis by simp
      qed
      ultimately show ?thesis by (simp add: Trim_label)
    qed
    have "baseName product = (if length n1 > 50 then Trim (take 50 n1) CHR ''-'' else n1)"
      using n1 cut by (auto simp: baseName_def Let_def n1_def [symmetric] maxNameBase_def dns_label_def)
    then show ?thesis using n1 cut by simp
  qed
qed

text \<open>
  C35: \<open>namer.pick\<close> returns. Its unbounded loop ends after at most as many rounds as there are names taken, with
  a name that was free and is taken afterwards; a numbered name is only used when the plain name and all lower
  numbers are taken.
\<close>

theorem pick_terminates:
  "\<exists>name. pick taken base = (name, finsert name taken) \<and> name |\<notin>| taken
    \<and> (name = base \<or> (base |\<in>| taken \<and> (\<exists>i. name = candidate base i \<and> 2 \<le> i \<and> i \<le> int (fcard taken) + 1
         \<and> (\<forall>j. 2 \<le> j \<and> j < i \<longrightarrow> candidate base j |\<in>| taken))))"
proof -
  have name: "pick taken base = (fst (pick taken base), finsert (fst (pick taken base)) taken)"
    using pick_fresh(2) [of taken base] by (metis prod.collapse)
  have "fst (pick taken base) = base \<or> (base |\<in>| taken \<and> (\<exists>i. fst (pick taken base) = candidate base i \<and> 2 \<le> i \<and> i \<le> int (fcard taken) + 1
         \<and> (\<forall>j. 2 \<le> j \<and> j < i \<longrightarrow> candidate base j |\<in>| taken)))"
  proof (cases "base |\<in>| taken")
    case True
    from pick_loop_bound [of 2 taken base] obtain i where
      i: "2 \<le> i" "pick_loop taken base 2 = candidate base i" "i \<le> 2 + int (fcard (ahead taken base 2))"
        "\<forall>j. 2 \<le> j \<and> j < i \<longrightarrow> candidate base j |\<in>| taken" by blast
    have "base |\<notin>| ahead taken base 2" by (auto simp: ahead_def candidate_def)
    moreover have "ahead taken base 2 |\<subseteq>| taken" by (auto simp: ahead_def)
    ultimately have "ahead taken base 2 |\<subset>| taken" using True by blast
    then have "fcard (ahead taken base 2) < fcard taken" by (rule pfsubset_fcard_mono)
    then show ?thesis using True i by (intro disjI2 conjI exI [of _ i]) (auto simp: pick_def Let_def)
  qed (simp add: pick_def)
  with name pick_fresh(1) show ?thesis by blast
qed

theorem pick_terminates_witness: "pick {|''a''|} ''a'' = (''a-2'', {|''a-2'', ''a''|})"
proof -
  have c: "candidate ''a'' 2 = ''a-2''" "fcard {|''a''|} = 1" by (code_simp, simp add: fcard_finsert_disjoint)
  obtain i where "pick {|''a''|} ''a'' = (candidate ''a'' i, {|candidate ''a'' i, ''a''|})" "2 \<le> i" "i \<le> 2"
    using pick_terminates [of "{|''a''|}" "''a''"] by (auto simp: c(2))
  then show ?thesis using c(1) by simp
qed

section \<open>Lemmas: the fleet\<close>

text \<open>The nodes that have a shape, with it.\<close>

definition shape_of_node ::
  "'q quantity_ops \<Rightarrow> (string, 'q ResourceSlice list) fmap \<Rightarrow> CaptureOptions \<Rightarrow> 'q Node \<Rightarrow> 'q nodeShape option" where
  "shape_of_node Q byNode opts node =
     (case snd (shapeOf Q node (case fmlookup byNode (nd_Name node) of None \<Rightarrow> [] | Some ss \<Rightarrow> ss) opts) of
        Inl _ \<Rightarrow> None | Inr s \<Rightarrow> s)"

definition captured ::
  "'q quantity_ops \<Rightarrow> (string, 'q ResourceSlice list) fmap \<Rightarrow> CaptureOptions \<Rightarrow> 'q Node list \<Rightarrow> ('q Node \<times> 'q nodeShape) list" where
  "captured Q byNode opts nodes = List.map_filter (\<lambda>n. map_option (Pair n) (shape_of_node Q byNode opts n)) nodes"

definition with_key :: "'q quantity_ops \<Rightarrow> string \<Rightarrow> ('q Node \<times> 'q nodeShape) list \<Rightarrow> ('q Node \<times> 'q nodeShape) list" where
  "with_key Q k xs = filter (\<lambda>x. shape_key Q (snd x) = k) xs"

definition capacities_of :: "'q quantity_ops \<Rightarrow> string \<Rightarrow> ('q Node \<times> 'q nodeShape) list \<Rightarrow> (string, 'q) fmap list" where
  "capacities_of Q k xs = map (\<lambda>x. nodeCapacity Q (fst x)) (with_key Q k xs)"

text \<open>The groups after some of the nodes: one per key, each with a shape of that key and the capacities of its nodes.\<close>

definition groups_ok ::
  "'q quantity_ops \<Rightarrow> ('q Node \<times> 'q nodeShape) list \<Rightarrow> (string, 'q shapeGroup) fmap \<Rightarrow> string list \<Rightarrow> bool" where
  "groups_ok Q xs groups order \<longleftrightarrow>
     distinct order \<and> set order = fmdom' groups \<and> (\<lambda>x. shape_key Q (snd x)) ` set xs = fmdom' groups
   \<and> (\<forall>k g. fmlookup groups k = Some g \<longrightarrow>
        shape_key Q (sg_shape g) = k \<and> sg_shape g \<in> snd ` set xs \<and> sg_capacities g = capacities_of Q k xs)"

lemma groups_ok_add:
  assumes ok: "groups_ok Q xs groups order" and "k = shape_key Q s"
    and grp: "grp = (case fmlookup groups k of Some g \<Rightarrow> g | None \<Rightarrow> \<lparr> sg_shape = s, sg_capacities = [] \<rparr>)"
    and order': "order' = (if fmlookup groups k = None then order @ [k] else order)"
  shows "groups_ok Q (xs @ [(n, s)]) (fmupd k (grp\<lparr> sg_capacities := sg_capacities grp @ [nodeCapacity Q n] \<rparr>) groups) order'"
proof -
  have dom: "set order = fmdom' groups" "distinct order" "(\<lambda>x. shape_key Q (snd x)) ` set xs = fmdom' groups"
    using ok by (simp_all add: groups_ok_def)
  have "k \<in> fmdom' groups \<longleftrightarrow> fmlookup groups k \<noteq> None" by (simp add: fmlookup_dom'_iff)
  then have "distinct order'" "set order' = insert k (fmdom' groups)" using dom by (auto simp: order')
  moreover have "capacities_of Q k' (xs @ [(n, s)]) = capacities_of Q k' xs @ (if k' = k then [nodeCapacity Q n] else [])" for k'
    using assms(2) by (simp add: capacities_of_def with_key_def)
  moreover have "shape_key Q (sg_shape grp) = k \<and> sg_shape grp \<in> insert s (snd ` set xs) \<and> sg_capacities grp = capacities_of Q k xs"
  proof (cases "fmlookup groups k")
    case None
    then have "k \<notin> (\<lambda>x. shape_key Q (snd x)) ` set xs" using dom by (simp add: fmlookup_dom'_iff)
    then have "capacities_of Q k xs = []" by (auto simp: capacities_of_def with_key_def filter_empty_conv)
    then show ?thesis using None assms(2) by (simp add: grp)
  next
    case (Some g)
    then show ?thesis using ok by (auto simp: groups_ok_def grp)
  qed
  ultimately show ?thesis using ok dom assms(2) by (auto simp: groups_ok_def fmlookup_dom'_iff)
qed

lemma capture_loop_ok:
  assumes "capture_loop Q byNode opts ws groups order nodes = Inr (ws', groups', order')" "groups_ok Q xs groups order"
  shows "groups_ok Q (xs @ captured Q byNode opts nodes) groups' order'"
  using assms
proof (induction nodes arbitrary: ws groups order xs)
  case (Cons n nodes)
  obtain w r where sh: "shapeOf Q n (case fmlookup byNode (nd_Name n) of None \<Rightarrow> [] | Some ss \<Rightarrow> ss) opts = (w, r)"
    using prod.exhaust by blast
  then obtain s where r: "r = Inr s" using Cons.prems(1) by (cases r) simp_all
  have son: "shape_of_node Q byNode opts n = s" by (simp add: shape_of_node_def sh r)
  show ?case
  proof (cases s)
    case None
    then show ?thesis using Cons by (simp add: sh r captured_def son map_filter_simps)
  next
    case (Some t)
    let ?k = "shape_key Q t"
    let ?g = "case fmlookup groups ?k of Some g \<Rightarrow> g | None \<Rightarrow> \<lparr> sg_shape = t, sg_capacities = [] \<rparr>"
    let ?o = "if fmlookup groups ?k = None then order @ [?k] else order"
    have "capture_loop Q byNode opts (ws @ w) (fmupd ?k (?g\<lparr> sg_capacities := sg_capacities ?g @ [nodeCapacity Q n] \<rparr>) groups) ?o nodes
        = Inr (ws', groups', order')"
      using Cons.prems(1) by (simp add: sh r Some Let_def split: option.splits)
    from Cons.IH [OF this groups_ok_add [OF Cons.prems(2) refl refl refl]] show ?thesis
      by (simp add: captured_def son Some map_filter_simps)
  qed
qed (simp add: captured_def map_filter_simps)

text \<open>A pool reproduces a shape when it and the model it names were built from shapes with the same keys.\<close>

definition reproduces :: "'q quantity_ops \<Rightarrow> 'q GPUModel list \<Rightarrow> 'm GPUPool \<Rightarrow> 'q nodeShape \<Rightarrow> bool" where
  "reproduces Q models p s \<longleftrightarrow>
     (\<exists>m \<in> set models. \<exists>t u. shape_key Q t = shape_key Q s \<and> modelKey Q u = modelKey Q t
        \<and> m = buildModel (model_Name m) u \<and> p = buildPool (pool_Name p) (model_Name m) t)"

lemma reproduces_mono: "reproduces Q ms p s \<Longrightarrow> set ms \<subseteq> set ms' \<Longrightarrow> reproduces Q ms' p s"
  by (auto simp: reproduces_def)

text \<open>The state of \<open>assemble\<close> after the keys \<open>ks\<close>.\<close>

definition assembly_ok ::
  "'q quantity_ops \<Rightarrow> (string, 'q shapeGroup) fmap \<Rightarrow> CaptureOptions \<Rightarrow> string list \<Rightarrow> ('q, 'm) assembly \<Rightarrow> bool" where
  "assembly_ok Q groups opts ks st \<longleftrightarrow>
     distinct (map model_Name (as_models st)) \<and> set (map model_Name (as_models st)) = fset (as_modelNamer st)
   \<and> distinct (map pool_Name (as_pools st)) \<and> set (map pool_Name (as_pools st)) = fset (as_poolNamer st)
   \<and> (\<forall>mk name. fmlookup (as_modelNames st) mk = Some name \<longrightarrow>
        (\<exists>m \<in> set (as_models st). \<exists>u. model_Name m = name \<and> modelKey Q u = mk \<and> m = buildModel name u))
   \<and> list_all2 (\<lambda>k p. reproduces Q (as_models st) p (sg_shape (group_of groups k))
        \<and> ps_NodeSelector (pool_Spec p) = fmupd ShapeLabel (pool_Name p) fmempty) ks (as_pools st)
   \<and> as_simulated st =
       (if co_EmitNodes opts
        then concat (map2 (\<lambda>k p. buildNodes (pool_Name p) (sg_capacities (group_of groups k))) ks (as_pools st)) else [])"

lemma model_for_ok:
  assumes ok: "assembly_ok Q groups opts ks st" and m: "model_for Q shape st = (name, st1)"
  shows "assembly_ok Q groups opts ks st1 \<and> as_pools st1 = as_pools st \<and> as_simulated st1 = as_simulated st
    \<and> as_poolNamer st1 = as_poolNamer st
    \<and> (\<exists>mo \<in> set (as_models st1). \<exists>u. model_Name mo = name \<and> modelKey Q u = modelKey Q shape \<and> mo = buildModel name u)"
proof (cases "fmlookup (as_modelNames st) (modelKey Q shape)")
  case (Some n)
  then show ?thesis using m ok by (auto simp: model_for_def assembly_ok_def)
next
  case None
  obtain taken where p: "pick (as_modelNamer st) (baseName (sh_product shape)) = (name, taken)"
    and st1: "st1 = st\<lparr> as_modelNamer := taken, as_modelNames := fmupd (modelKey Q shape) name (as_modelNames st),
                        as_models := as_models st @ [buildModel name shape] \<rparr>"
    using m None by (auto simp: model_for_def split: prod.splits)
  have bm: "model_Name (buildModel name shape) = name" by (simp add: buildModel_def)
  have new: "distinct (map model_Name (as_models st) @ [name])" "set (map model_Name (as_models st) @ [name]) = fset taken"
    using namer.next_names [OF p, of "map model_Name (as_models st)"] ok by (simp_all add: assembly_ok_def)
  have pools: "list_all2 (\<lambda>k p. reproduces Q (as_models st1) p (sg_shape (group_of groups k))
      \<and> ps_NodeSelector (pool_Spec p) = fmupd ShapeLabel (pool_Name p) fmempty) ks (as_pools st1)"
  proof -
    have "list_all2 (\<lambda>k p. reproduces Q (as_models st) p (sg_shape (group_of groups k))
      \<and> ps_NodeSelector (pool_Spec p) = fmupd ShapeLabel (pool_Name p) fmempty) ks (as_pools st)"
      using ok by (simp add: assembly_ok_def)
    moreover have "as_pools st1 = as_pools st" "set (as_models st) \<subseteq> set (as_models st1)" by (auto simp: st1)
    ultimately show ?thesis by (simp only:) (erule list_all2_mono, blast intro: reproduces_mono)
  qed
  have names: "\<exists>m \<in> set (as_models st1). \<exists>u. model_Name m = n \<and> modelKey Q u = mk \<and> m = buildModel n u"
    if "fmlookup (as_modelNames st1) mk = Some n" for mk n
  proof (cases "mk = modelKey Q shape")
    case True
    then show ?thesis using that bm by (auto simp: st1)
  next
    case False
    then have "fmlookup (as_modelNames st) mk = Some n" using that by (simp add: st1)
    then show ?thesis using ok by (auto simp: assembly_ok_def st1)
  qed
  have "distinct (map model_Name (as_models st1)) \<and> set (map model_Name (as_models st1)) = fset (as_modelNamer st1)"
    using new bm by (simp add: st1)
  then have "assembly_ok Q groups opts ks st1"
    using ok pools names unfolding assembly_ok_def by (simp add: st1)
  then show ?thesis using bm by (auto simp: st1)
qed

lemma assemble_step_ok:
  assumes ok: "assembly_ok Q groups opts ks st"
  shows "assembly_ok Q groups opts (ks @ [k]) (assemble_step Q groups shapes opts st k)"
proof -
  let ?s = "sg_shape (group_of groups k)"
  obtain name st1 where m: "model_for Q ?s st = (name, st1)" by (cases "model_for Q ?s st")
  obtain pn taken where p: "pick (as_poolNamer st1) (pool_base (get_int shapes (modelKey Q ?s)) name ?s) = (pn, taken)"
    using prod.exhaust by blast
  from model_for_ok [OF ok m] have ok1: "assembly_ok Q groups opts ks st1"
    and mo: "\<exists>mo \<in> set (as_models st1). \<exists>u. model_Name mo = name \<and> modelKey Q u = modelKey Q ?s \<and> mo = buildModel name u" by simp_all
  let ?p = "buildPool pn name ?s :: 'b GPUPool"
  have bp: "pool_Name ?p = pn" "ps_NodeSelector (pool_Spec ?p) = fmupd ShapeLabel pn fmempty" by (simp_all add: buildPool_def)
  have new: "distinct (map pool_Name (as_pools st1) @ [pn])" "set (map pool_Name (as_pools st1) @ [pn]) = fset taken"
    using namer.next_names [OF p, of "map pool_Name (as_pools st1)"] ok1 by (simp_all add: assembly_ok_def)
  have rep: "reproduces Q (as_models st1) ?p ?s" unfolding reproduces_def bp(1)
  proof -
    from mo obtain mo u where "mo \<in> set (as_models st1)" "model_Name mo = name" "modelKey Q u = modelKey Q ?s" "mo = buildModel name u"
      by blast
    then show "\<exists>m \<in> set (as_models st1). \<exists>t u. shape_key Q t = shape_key Q ?s \<and> modelKey Q u = modelKey Q t
        \<and> m = buildModel (model_Name m) u \<and> ?p = buildPool pn (model_Name m) t"
      by (intro bexI [of _ mo] exI [of _ ?s] exI [of _ u]) simp_all
  qed
  have len: "length ks = length (as_pools st1)" using ok1 by (auto simp: assembly_ok_def dest: list_all2_lengthD)
  let ?st = "assemble_step Q groups shapes opts st k"
  have st: "as_models ?st = as_models st1" "as_modelNamer ?st = as_modelNamer st1" "as_modelNames ?st = as_modelNames st1"
    "as_pools ?st = as_pools st1 @ [?p]" "as_poolNamer ?st = taken"
    "as_simulated ?st = as_simulated st1 @ (if co_EmitNodes opts then buildNodes pn (sg_capacities (group_of groups k)) else [])"
    by (simp_all add: assemble_step_def Let_def m p)
  have "list_all2 (\<lambda>k p. reproduces Q (as_models st1) p (sg_shape (group_of groups k))
        \<and> ps_NodeSelector (pool_Spec p) = fmupd ShapeLabel (pool_Name p) fmempty) (ks @ [k]) (as_pools st1 @ [?p])"
    using ok1 rep bp by (simp add: assembly_ok_def list_all2_appendI)
  moreover have "distinct (map pool_Name (as_pools st1 @ [?p]))" "set (map pool_Name (as_pools st1 @ [?p])) = fset taken"
    using new bp by simp_all
  ultimately show ?thesis using ok1 len bp unfolding assembly_ok_def st by simp
qed

lemma assemble_ok:
  "assembly_ok Q groups opts order (foldl (assemble_step Q groups shapes opts)
    \<lparr> as_models = [], as_pools = [], as_simulated = [], as_modelNames = fmempty, as_modelNamer = {||}, as_poolNamer = {||} \<rparr> order)"
  by (induction order rule: rev_induct) (simp_all add: assemble_step_ok, simp add: assembly_ok_def)

lemma reproduces_key: "shape_key Q s = shape_key Q s' \<Longrightarrow> reproduces Q ms p s \<longleftrightarrow> reproduces Q ms p s'"
  by (simp add: reproduces_def)

lemma filter_concat_map2:
  assumes "length ks = length ps" "distinct (map f ps)" "(k, p) \<in> set (zip ks ps)"
    and lab: "\<And>k p n. n \<in> set (b k p) \<Longrightarrow> lab n = f p"
  shows "filter (\<lambda>n. lab n = f p) (concat (map2 b ks ps)) = b k p"
  using assms(1-3)
proof (induction ks ps rule: list_induct2)
  case (Cons x xs y ys)
  have none: "filter (\<lambda>n. lab n = f p) (concat (map2 b xs ys)) = []" if "f p \<notin> f ` set ys"
    using that lab by (auto simp: filter_empty_conv) (metis imageI set_zip_rightD)
  show ?case
  proof (cases "(k, p) = (x, y)")
    case True
    then have "f p \<notin> f ` set ys" "filter (\<lambda>n. lab n = f p) (b x y) = b x y"
      using Cons.prems lab by (auto intro: filter_True)
    then show ?thesis using none True by simp
  next
    case False
    then have m: "(k, p) \<in> set (zip xs ys)" using Cons.prems by auto
    then have "f p \<in> f ` set ys" by (auto dest: set_zip_rightD)
    then have "f y \<noteq> f p" using Cons.prems by auto
    then have "filter (\<lambda>n. lab n = f p) (b x y) = []" using lab by (auto simp: filter_empty_conv)
    then show ?thesis using Cons m by simp
  qed
qed simp

text \<open>A node that pods are kept from unless they tolerate its taint.\<close>

definition repels_pods :: "'q Node \<Rightarrow> bool" where
  "repels_pods n \<longleftrightarrow> (\<exists>t \<in> set (nd_Taints n). nt_Effect t = ''NoSchedule'')"

lemma buildNodes_fields:
  "map nd_Capacity (buildNodes pn caps) = caps"
  "n \<in> set (buildNodes pn caps) \<Longrightarrow> get_str (nd_Labels n) ShapeLabel = pn"
  "n \<in> set (buildNodes pn caps) \<Longrightarrow> simulated n \<and> repels_pods n"
  by (auto simp: buildNodes_def buildNode_def Let_def comp_def map_nth IsSimulatedNode_def KwokNodeAnnotation_def
      kwokNodeAnnotation_def fmlookup_of_list get_str_def ShapeLabel_def nodeTypeLabel_def repels_pods_def)

lemma Capture_success:
  assumes "Capture Q nodes published opts = (r, None)"
  obtains groups order st where "groups_ok Q (captured Q (indexSlicesByNode published) opts nodes) groups order"
    "assembly_ok Q groups opts order st"
    "cr_Objects r = map ModelObject (as_models st) @ map PoolObject (as_pools st) @ map NodeObject (as_simulated st)"
proof -
  from assms obtain ws groups order where
    l: "capture_loop Q (indexSlicesByNode published) opts [] fmempty [] nodes = Inr (ws, groups, order)"
    and r: "cr_Objects r = assemble Q groups (sort order) opts"
    by (auto simp: Capture_def split: sum.splits if_splits)
  have "groups_ok Q [] fmempty []" by (simp add: groups_ok_def)
  from capture_loop_ok [OF l this] have "groups_ok Q (captured Q (indexSlicesByNode published) opts nodes) groups (sort order)"
    by (simp add: groups_ok_def)
  then show thesis by (rule that [OF _ assemble_ok]) (simp add: r assemble_def Let_def)
qed

lemma assembly_length: "assembly_ok Q groups opts order st \<Longrightarrow> length order = length (as_pools st)"
  by (auto simp: assembly_ok_def dest: list_all2_lengthD)

text \<open>What the \<open>i\<close>-th pool of an assembly stands for.\<close>

lemma assembled_pool:
  assumes g: "groups_ok Q xs groups order" and a: "assembly_ok Q groups opts order st" and i: "i < length (as_pools st)"
  defines "p \<equiv> as_pools st ! i" and "g \<equiv> group_of groups (order ! i)"
  shows "order ! i \<in> set order" "(order ! i, p) \<in> set (zip order (as_pools st))" "reproduces Q (as_models st) p (sg_shape g)"
    "shape_key Q (sg_shape g) = order ! i" "sg_capacities g = capacities_of Q (order ! i) xs"
    "selectorMatches (ps_NodeSelector (pool_Spec p)) lbls \<longleftrightarrow> get_str lbls ShapeLabel = pool_Name p"
proof -
  let ?R = "\<lambda>k p. reproduces Q (as_models st) p (sg_shape (group_of groups k)) \<and> ps_NodeSelector (pool_Spec p) = fmupd ShapeLabel (pool_Name p) fmempty"
  have zip: "list_all2 ?R order (as_pools st)" using a by (simp add: assembly_ok_def)
  have len: "length order = length (as_pools st)" by (rule assembly_length [OF a])
  then show mem: "order ! i \<in> set order" and "(order ! i, p) \<in> set (zip order (as_pools st))" using i by (auto simp: set_zip p_def)
  have R: "?R (order ! i) p" unfolding p_def using zip i len by (auto simp: list_all2_conv_all_nth)
  then show "reproduces Q (as_models st) p (sg_shape g)" by (simp add: g_def)
  from R show "selectorMatches (ps_NodeSelector (pool_Spec p)) lbls \<longleftrightarrow> get_str lbls ShapeLabel = pool_Name p"
    by (auto simp: selectorMatches_def fmpred_iff split: if_splits)
  show "shape_key Q (sg_shape g) = order ! i" "sg_capacities g = capacities_of Q (order ! i) xs"
    using assms(1) mem by (auto simp: g_def groups_ok_def group_of_def fmlookup_dom'_iff)
qed

lemma assembled_nodes:
  assumes g: "groups_ok Q xs groups order" and a: "assembly_ok Q groups opts order st" and i: "i < length (as_pools st)" and emit: "co_EmitNodes opts"
  shows "map nd_Capacity (filter (\<lambda>n. selectorMatches (ps_NodeSelector (pool_Spec (as_pools st ! i))) (nd_Labels n)) (as_simulated st))
    = capacities_of Q (order ! i) xs"
proof -
  let ?b = "\<lambda>k p. buildNodes (pool_Name p) (sg_capacities (group_of groups k))" and ?p = "as_pools st ! i"
  have dist: "distinct (map pool_Name (as_pools st))" and sims: "as_simulated st = concat (map2 ?b order (as_pools st))"
    using a emit by (simp_all add: assembly_ok_def)
  note pool = assembled_pool [OF g a i] and len = assembly_length [OF a]
  have "filter (\<lambda>n. get_str (nd_Labels n) ShapeLabel = pool_Name ?p) (concat (map2 ?b order (as_pools st))) = ?b (order ! i) ?p"
    by (rule filter_concat_map2 [OF len dist pool(2)]) (rule buildNodes_fields(2))
  then show ?thesis by (simp add: sims pool(6) pool(5) buildNodes_fields(1))
qed

section \<open>Properties: the fleet\<close>


section \<open>Lemmas: topology\<close>

definition nvlink_domain :: "'q Device \<Rightarrow> string option" where
  "nvlink_domain d = Option.bind (fmlookup (dv_Attributes d) AttrNVLinkDomain) da_StringValue"

definition numa_node :: "'q Device \<Rightarrow> int option" where
  "numa_node d = Option.bind (fmlookup (dv_Attributes d) AttrNUMANode) da_IntValue"

definition members :: "(string, string fset) fmap \<Rightarrow> string \<Rightarrow> string set" where
  "members domains k = (case fmlookup domains k of None \<Rightarrow> {} | Some ms \<Rightarrow> fset ms)"

lemma topology_step_eq:
  "topology_step (domains, numa) d =
     ((case nvlink_domain d of
         None \<Rightarrow> domains
       | Some k \<Rightarrow> fmupd k (finsert (device_identity d) (case fmlookup domains k of None \<Rightarrow> {||} | Some ms \<Rightarrow> ms)) domains),
      numa \<or> numa_node d \<noteq> None)"
  by (auto simp: topology_step_def nvlink_domain_def numa_node_def Let_def split: option.splits)

lemma topology_fold:
  "foldl topology_step (fmempty, False) ds = (domains, numa) \<Longrightarrow>
     fmdom' domains = {k. \<exists>d \<in> set ds. nvlink_domain d = Some k}
   \<and> (\<forall>k. members domains k = device_identity ` {d \<in> set ds. nvlink_domain d = Some k})
   \<and> (numa \<longleftrightarrow> (\<exists>d \<in> set ds. numa_node d \<noteq> None))"
proof (induction ds arbitrary: domains numa rule: rev_induct)
  case (snoc d ds)
  obtain dom0 numa0 where f: "foldl topology_step (fmempty, False) ds = (dom0, numa0)" by (cases "foldl topology_step (fmempty, False) ds")
  note IH = snoc.IH [OF f]
  show ?case
  proof (cases "nvlink_domain d")
    case None
    then have "domains = dom0" "numa = (numa0 \<or> numa_node d \<noteq> None)" using snoc.prems by (simp_all add: f topology_step_eq)
    moreover have "{e \<in> set (ds @ [d]). nvlink_domain e = Some k} = {e \<in> set ds. nvlink_domain e = Some k}" for k
      using None by auto
    ultimately show ?thesis using IH None by auto
  next
    case (Some k)
    then have dom: "domains = fmupd k (finsert (device_identity d) (case fmlookup dom0 k of None \<Rightarrow> {||} | Some ms \<Rightarrow> ms)) dom0"
      and numa: "numa = (numa0 \<or> numa_node d \<noteq> None)" using snoc.prems by (simp_all add: f topology_step_eq)
    have "members domains k' = (if k' = k then insert (device_identity d) (members dom0 k) else members dom0 k')" for k'
      by (simp add: dom members_def split: option.splits)
    moreover have "{e \<in> set (ds @ [d]). nvlink_domain e = Some k'} =
        (if k' = k then insert d {e \<in> set ds. nvlink_domain e = Some k} else {e \<in> set ds. nvlink_domain e = Some k'})" for k'
      using Some by auto
    ultimately have "\<forall>k'. members domains k' = device_identity ` {e \<in> set (ds @ [d]). nvlink_domain e = Some k'}" using IH by simp
    moreover have "fmdom' domains = {k'. \<exists>e \<in> set (ds @ [d]). nvlink_domain e = Some k'}" using IH Some by (auto simp: dom)
    ultimately show ?thesis using IH numa by auto
  qed
qed (simp add: members_def)

lemma foldl_max_bounds:
  fixes m :: int
  shows "(\<And>x. x \<in> set xs \<Longrightarrow> x \<le> m) \<Longrightarrow> m \<in> set xs \<or> m = a \<Longrightarrow> a \<le> m \<Longrightarrow> foldl max a xs = m"
proof (induction xs arbitrary: a)
  case (Cons x xs)
  have "m \<in> set xs \<or> m = max a x" "max a x \<le> m" using Cons.prems by auto
  then have "foldl max (max a x) xs = m" using Cons.prems(1) by (intro Cons.IH) simp_all
  then show ?case by simp
qed simp

text \<open>The devices of a node with \<open>g\<close> cards in domains of size \<open>s\<close>: each belongs to a card, and every card has one.\<close>

definition on_card :: "string \<Rightarrow> int \<Rightarrow> bool \<Rightarrow> int \<Rightarrow> 'q Device \<Rightarrow> bool" where
  "on_card node s numa i d \<longleftrightarrow> device_identity d = DeviceUUID node i
     \<and> nvlink_domain d = (if 0 < s then Some (NVLinkDomain i s) else None) \<and> (numa_node d \<noteq> None \<longleftrightarrow> numa)"

definition cards_published :: "string \<Rightarrow> int \<Rightarrow> int \<Rightarrow> bool \<Rightarrow> 'q Device list \<Rightarrow> bool" where
  "cards_published node g s numa ds \<longleftrightarrow>
     (\<forall>d \<in> set ds. \<exists>i. 0 \<le> i \<and> i < g \<and> on_card node s numa i d) \<and> (\<forall>i. 0 \<le> i \<and> i < g \<longrightarrow> (\<exists>d \<in> set ds. on_card node s numa i d))"

text \<open>The size recovered: the declared one, or the number of cards when that is less.\<close>

definition recovered_size :: "int \<Rightarrow> int \<Rightarrow> int" where
  "recovered_size s g = (if 0 < s then min s g else 0)"

lemma recovered_size_domains:
  assumes "0 \<le> i" "i < g"
  shows "NVLinkDomain i (recovered_size s g) = NVLinkDomain i s"
proof (cases "0 < s \<and> g < s")
  case True
  then have "i div g = 0" "i div s = 0" using assms by (simp_all add: div_pos_pos_trivial)
  then show ?thesis using True assms by (simp add: NVLinkDomain_def recovered_size_def sdiv_nonneg)
qed (auto simp: recovered_size_def NVLinkDomain_def)

text \<open>The cards in the domain of card \<open>i\<close>: at most a whole domain, and the first domain is as full as it gets.\<close>

definition domain_cards :: "int \<Rightarrow> int \<Rightarrow> int \<Rightarrow> int set" where
  "domain_cards s g i = {j. 0 \<le> j \<and> j < g \<and> j div s = i div s}"

lemma domain_cards_card:
  assumes "0 < s" "0 \<le> g"
  shows "int (card (domain_cards s g i)) \<le> min s g" and "int (card (domain_cards s g 0)) = min s g"
proof -
  have "card (domain_cards s g i) \<le> card {0..<g}" unfolding domain_cards_def by (intro card_mono) auto
  then show "int (card (domain_cards s g i)) \<le> min s g"
    using same_quotient_card [OF assms(1), of g "i div s"] assms by (simp add: domain_cards_def) linarith
  have "domain_cards s g 0 = {0..<min s g}"
    using assms(1) by (auto simp: domain_cards_def div_pos_pos_trivial pos_imp_zdiv_nonneg_iff zdiv_eq_0_iff)
  then show "int (card (domain_cards s g 0)) = min s g" using assms by simp
qed

text \<open>The identities published for a domain are those of its cards.\<close>

lemma published_domain:
  assumes cards: "cards_published node g s numa ds" and s: "0 < s" and i: "0 \<le> i"
  shows "device_identity ` {d \<in> set ds. nvlink_domain d = Some (NVLinkDomain i s)} = DeviceUUID node ` domain_cards s g i"
proof (intro set_eqI iffI)
  have same: "NVLinkDomain j s = NVLinkDomain i s \<longleftrightarrow> j div s = i div s" if "0 \<le> j" for j
    using s that i by (simp add: NVLinkDomain_def sdiv_nonneg)
  {
    fix x assume "x \<in> device_identity ` {d \<in> set ds. nvlink_domain d = Some (NVLinkDomain i s)}"
    then obtain d where d: "d \<in> set ds" "nvlink_domain d = Some (NVLinkDomain i s)" "x = device_identity d" by auto
    then obtain j where "0 \<le> j" "j < g" "on_card node s numa j d" using cards unfolding cards_published_def by blast
    then show "x \<in> DeviceUUID node ` domain_cards s g i" using d s same by (auto simp: on_card_def domain_cards_def)
  }
  fix x assume "x \<in> DeviceUUID node ` domain_cards s g i"
  then obtain j where j: "x = DeviceUUID node j" "0 \<le> j" "j < g" "j div s = i div s" by (auto simp: domain_cards_def)
  then obtain d where "d \<in> set ds" "on_card node s numa j d" using cards unfolding cards_published_def by blast
  moreover from this have "nvlink_domain d = Some (NVLinkDomain i s)" "x = device_identity d" using s same j by (simp_all add: on_card_def)
  ultimately show "x \<in> device_identity ` {d \<in> set ds. nvlink_domain d = Some (NVLinkDomain i s)}" by blast
qed

text \<open>So the largest domain that is counted has the recovered size.\<close>

lemma largest_domain:
  assumes cards: "cards_published node g s numa ds" and g: "1 \<le> g" "g < 2 ^ 31" and inj: "inj_on (DeviceUUID node) {0..<g}"
    and dom: "fmdom' domains = {k. \<exists>d \<in> set ds. nvlink_domain d = Some k}"
    and mem: "\<And>k. members domains k = device_identity ` {d \<in> set ds. nvlink_domain d = Some k}"
  defines "counted \<equiv> (\<lambda>k. case fmlookup domains k of None \<Rightarrow> 0 | Some ms \<Rightarrow> narrow (int (fcard ms)))"
  shows "foldl max 0 (map counted (sorted_list_of_fset (fmdom domains))) = recovered_size s g"
proof (cases "0 < s")
  case False
  then have "nvlink_domain d = None" if "d \<in> set ds" for d
    using cards that unfolding cards_published_def on_card_def by auto
  then have "fmdom' domains = {}" by (simp add: dom)
  then have "fmdom domains = {||}" by (metis bot_fset.rep_eq fset_inject fmdom'_alt_def)
  then show ?thesis using False by (simp add: recovered_size_def sorted_list_of_fset.rep_eq)
next
  case True
  have "card (members domains (NVLinkDomain i s)) = card (domain_cards s g i)" if "0 \<le> i" for i
    unfolding mem published_domain [OF cards True that] by (rule card_image) (rule inj_on_subset [OF inj], auto simp: domain_cards_def)
  moreover have "counted k = narrow (int (card (members domains k)))" if "k \<in> fmdom' domains" for k
    using that by (auto simp: counted_def members_def fcard.rep_eq fmlookup_dom'_iff)
  ultimately have counted: "counted (NVLinkDomain i s) = int (card (domain_cards s g i))" if "0 \<le> i" "NVLinkDomain i s \<in> fmdom' domains" for i
    using that domain_cards_card(1) [OF True, of g i] g by (simp add: narrow_def)
  have set: "set (sorted_list_of_fset (fmdom domains)) = fmdom' domains" by (simp add: fmdom'_alt_def)
  have zero: "NVLinkDomain 0 s \<in> fmdom' domains"
    using cards g True unfolding cards_published_def by (force simp: dom on_card_def)
  then have "recovered_size s g \<in> counted ` fmdom' domains"
    using counted [of 0] domain_cards_card(2) [OF True, of g] True g by (force simp: recovered_size_def)
  moreover have "counted k \<le> recovered_size s g" if k: "k \<in> fmdom' domains" for k
  proof -
    obtain i where i: "0 \<le> i" "k = NVLinkDomain i s" using k cards True unfolding dom cards_published_def on_card_def by fastforce
    then show ?thesis using k counted domain_cards_card(1) [OF True, of g i] True g by (simp add: recovered_size_def)
  qed
  ultimately show ?thesis using True g by (intro foldl_max_bounds) (simp_all only: set_map set, auto simp: recovered_size_def)
qed

lemma topologyOf_cards:
  assumes cards: "cards_published node g s numa (concat (map (\<lambda>s. rss_Devices (rs_Spec s)) slices))"
    and g: "1 \<le> g" "g < 2 ^ 31" and inj: "inj_on (DeviceUUID node) {0..<g}"
  shows "topologyOf slices = \<lparr> top_NVLinkDomainSize = recovered_size s g, top_NUMAAware = numa \<rparr>"
proof -
  define ds where "ds = concat (map (\<lambda>s. rss_Devices (rs_Spec s)) slices)"
  note cards = cards [folded ds_def]
  obtain domains na where f: "foldl topology_step (fmempty, False) ds = (domains, na)" by (cases "foldl topology_step (fmempty, False) ds")
  from topology_fold [OF f] have dom: "fmdom' domains = {k. \<exists>d \<in> set ds. nvlink_domain d = Some k}"
    and mem: "\<And>k. members domains k = device_identity ` {d \<in> set ds. nvlink_domain d = Some k}"
    and na: "na \<longleftrightarrow> (\<exists>d \<in> set ds. numa_node d \<noteq> None)" by blast+
  have "\<exists>d \<in> set ds. on_card node s numa 0 d" using cards g by (simp add: cards_published_def)
  then have "na = numa" using cards na unfolding cards_published_def on_card_def by blast
  with largest_domain [OF cards g inj dom mem] show ?thesis by (simp add: topologyOf_def ds_def [symmetric] f)
qed

section \<open>Lemmas: reading a simulated node back\<close>

lemma migCapacity_fold:
  "fmlookup (foldl (\<lambda>instances name.
     case CutPrefix name MIGResourcePrefix of
       None \<Rightarrow> instances
     | Some prof \<Rightarrow>
         (case fmlookup c name of
            None \<Rightarrow> instances
          | Some quantity \<Rightarrow> if q_Value Q quantity > 0 then fmupd prof (q_Value Q quantity) instances else instances))
     m names) p =
   (if MIGResourceName p \<in> set names
    then (case fmlookup c (MIGResourceName p) of
            Some q \<Rightarrow> if q_Value Q q > 0 then Some (q_Value Q q) else fmlookup m p | None \<Rightarrow> fmlookup m p)
    else fmlookup m p)"
proof (induction names arbitrary: m)
  case (Cons name names)
  have cut: "CutPrefix name MIGResourcePrefix = Some prof \<longleftrightarrow> name = MIGResourceName prof" for prof
    by (simp add: CutPrefix_Some_iff MIGResourceName_def)
  show ?case
  proof (cases "CutPrefix name MIGResourcePrefix")
    case None
    then have "name \<noteq> MIGResourceName p" using cut by (metis option.distinct(1))
    then show ?thesis using None Cons.IH by simp
  next
    case (Some prof)
    then have "name = MIGResourceName prof" by (simp add: cut)
    then show ?thesis using Some Cons.IH by (auto split: option.splits)
  qed
qed simp

lemma migCapacity_lookup:
  "fmlookup (migCapacity Q node) p =
     (case fmlookup (nd_Capacity node) (MIGResourceName p) of
        Some q \<Rightarrow> if q_Value Q q > 0 then Some (q_Value Q q) else None | None \<Rightarrow> None)"
  unfolding migCapacity_def migCapacity_fold by (auto simp: fmlookup_dom_iff split: option.splits)

lemma labelsMatch_get: "labelsMatch has desired \<Longrightarrow> fmlookup desired k = Some v \<Longrightarrow> get_str has k = v"
  by (simp add: labelsMatch_def fmpred_iff)

text \<open>The labels a settled node carries, whatever else is on it.\<close>

lemma settled_labels:
  assumes "labelsMatch lbls (NodeLabels Q pool model)"
  shows "get_str lbls LabelGPUPresent = ''true''" "get_str lbls LabelGPUProduct = ms_ProductName (model_Spec model)"
    "get_str lbls LabelGPUMemory = Itoa (q_Value Q (ms_Memory (model_Spec model)) sdiv mib)"
    "get_str lbls LabelGPUCount = (if MIGEnabled (pool_Spec pool) then ''0'' else Itoa (ps_GPUsPerNode (pool_Spec pool)))"
    "MIGEnabled (pool_Spec pool) \<Longrightarrow> get_str lbls LabelMIGStrategy = MIGStrategyMixed"
  by (rule labelsMatch_get [OF assms], auto simp: NodeLabels_def Let_def label_key_defs fmlookup_of_list labelTrue_def split: prod.splits)+

lemma settled_compute:
  assumes m: "labelsMatch lbls (NodeLabels Q pool model)" and p: "computeCapabilityPattern (ms_ComputeCapability (model_Spec model))"
  shows "computeCapability lbls = Some (ms_ComputeCapability (model_Spec model))"
proof -
  let ?c = "ms_ComputeCapability (model_Spec model)"
  obtain a b where cut: "Cut ?c CHR ''.'' = (a, b, True)" and ab: "a \<noteq> []" "b \<noteq> []"
    using p by (auto simp: computeCapabilityPattern_def split: prod.splits)
  have "?c = a @ ''.'' @ b" using Cut_found [of ?c "CHR ''.''" a b] cut by simp
  moreover have "get_str lbls LabelComputeMajor = a" "get_str lbls LabelComputeMinor = b"
    by (rule labelsMatch_get [OF m], simp add: NodeLabels_def Let_def label_key_defs fmlookup_of_list cut)+
  ultimately show ?thesis using ab p by (simp add: computeCapability_def Let_def)
qed

lemma settled_memory:
  assumes laws: "quantity_laws Q amt" and m: "labelsMatch lbls (NodeLabels Q pool model)"
    and mem: "amt (ms_Memory (model_Spec model)) = of_int (n * 2 ^ 20)" "0 < n" "n < 2 ^ 43"
  shows "\<exists>q. gpuMemory Q lbls = Some q \<and> amt q = amt (ms_Memory (model_Spec model))"
proof -
  have r: "n * 2 ^ 20 < 2 ^ 43 * 2 ^ 20" using mem by (intro mult_strict_right_mono) simp_all
  then have "q_Value Q (ms_Memory (model_Spec model)) = n * 2 ^ 20"
    using mem(2) by (intro Value_of_int [OF laws mem(1)]) simp_all
  then have "get_str lbls LabelGPUMemory = Itoa n"
    using settled_labels(3) [OF m] mem(2) by (simp add: mib_def sdiv_nonneg)
  moreover have "ParseInt 64 (Itoa n) = Some n" using mem by (intro ParseInt_Itoa) simp_all
  moreover have "wrap64 (wrap64 (n * 1024) * 1024) = n * 2 ^ 20" using mem r by (simp add: int64_range_def)
  ultimately show ?thesis using mem by (simp add: gpuMemory_def quantity_laws_NewQuantity [OF laws])
qed

lemma gpu_device_on_card:
  "on_card n (top_NVLinkDomainSize (ps_Topology (pool_Spec pool))) (top_NUMAAware (ps_Topology (pool_Spec pool))) i (gpu_device pool model n st i)"
  by (auto simp: on_card_def device_identity_def nvlink_domain_def numa_node_def gpu_device_def Let_def attr_defs fmlookup_of_list
      stringAttr_def intAttr_def split: option.splits)

lemma tainted_migDevice_on_card:
  "on_card n (top_NVLinkDomainSize (ps_Topology (pool_Spec pool))) (top_NUMAAware (ps_Topology (pool_Spec pool)))
     (in_GPUIndex inst) (tainted_migDevice Q pool model n st inst)"
  by (auto simp: on_card_def device_identity_def nvlink_domain_def numa_node_def tainted_migDevice_def migDevice_def Let_def attr_defs
      fmlookup_of_list stringAttr_def intAttr_def split: option.splits)

lemma settled_resources:
  assumes laws: "quantity_laws Q amt" and r: "resourcesMatch Q has want"
  shows "fmlookup want k = Some w \<Longrightarrow> \<exists>q. fmlookup has k = Some q \<and> amt q = amt w"
    "fmlookup has k = Some q \<Longrightarrow> managesResource k \<Longrightarrow> \<exists>w. fmlookup want k = Some w \<and> amt q = amt w"
proof -
  show *: "\<exists>q. fmlookup has k = Some q \<and> amt q = amt w" if "fmlookup want k = Some w" for k w
  proof -
    have "case fmlookup has k of None \<Rightarrow> False | Some q \<Rightarrow> q_Cmp Q q w = 0"
      using r that by (simp add: resourcesMatch_def fmpred_iff)
    then show ?thesis by (cases "fmlookup has k") (simp_all add: quantity_simps [OF laws])
  qed
  show "\<exists>w. fmlookup want k = Some w \<and> amt q = amt w" if h: "fmlookup has k = Some q" and m: "managesResource k"
  proof -
    obtain w where "fmlookup want k = Some w" using r h m by (auto simp: resourcesMatch_def fmpred_iff)
    with * [OF this] h show ?thesis by auto
  qed
qed

lemma managesResource_MIG [simp]: "managesResource (MIGResourceName p)"
  by (simp add: managesResource_def MIGResourceName_def HasPrefix_def)

lemma countCounterSets_none: "(\<And>s. s \<in> set slices \<Longrightarrow> rss_SharedCounters (rs_Spec s) = []) \<Longrightarrow> countCounterSets slices = 0"
proof -
  assume "\<And>s. s \<in> set slices \<Longrightarrow> rss_SharedCounters (rs_Spec s) = []"
  then have "concat (map (\<lambda>s. rss_SharedCounters (rs_Spec s)) slices) = []" by simp
  then show ?thesis unfolding countCounterSets_def by (simp only:) (simp add: narrow_def fcard.rep_eq)
qed

lemma countCounterSets_Nil [simp]: "countCounterSets [] = 0"
  by (rule countCounterSets_none) simp

section \<open>Properties: reading a simulated node back\<close>

text \<open>
  Capture inverts the simulation of whole cards. On a node that the operator has settled, with the slice it
  published and no MIG label left over, \<open>shapeOf\<close> reads back product, memory, compute capability and number of
  cards without a warning, and a topology under which every card has the NVLink domain it had. Different cards
  must have different UUIDs, which rests on SHA-256.
\<close>

theorem shapeOf_whole:
  assumes laws: "quantity_laws Q amt" and off: "\<not> MIGEnabled (pool_Spec pool)"
    and g: "1 \<le> ps_GPUsPerNode (pool_Spec pool)" "ps_GPUsPerNode (pool_Spec pool) < 2 ^ 31"
    and built: "BuildResourceSlice pool model (nd_Name node) st = Some sl"
    and lbls: "labelsMatch (nd_Labels node) (NodeLabels Q pool model)" "get_str (nd_Labels node) LabelMIGStrategy = []"
    and res: "resourcesMatch Q (nd_Capacity node) (NodeResources Q pool table)"
    and prod: "ms_ProductName (model_Spec model) \<noteq> []"
    and comp: "computeCapabilityPattern (ms_ComputeCapability (model_Spec model))"
    and mem: "amt (ms_Memory (model_Spec model)) = of_int (n * 2 ^ 20)" "0 < n" "n < 2 ^ 43"
    and uuids: "inj_on (DeviceUUID (nd_Name node)) {0..<ps_GPUsPerNode (pool_Spec pool)}"
  shows "\<exists>memory size. shapeOf Q node [sl] opts =
      ([], Inr (Some \<lparr> sh_product = ms_ProductName (model_Spec model), sh_memory = memory,
         sh_compute = ms_ComputeCapability (model_Spec model), sh_gpus = ps_GPUsPerNode (pool_Spec pool), sh_sharing = SharingModeNone,
         sh_partition = [], sh_topology = \<lparr> top_NVLinkDomainSize = size, top_NUMAAware = top_NUMAAware (ps_Topology (pool_Spec pool)) \<rparr>,
         sh_profiles = [] \<rparr>))
    \<and> amt memory = amt (ms_Memory (model_Spec model))
    \<and> (\<forall>i. 0 \<le> i \<and> i < ps_GPUsPerNode (pool_Spec pool) \<longrightarrow>
         NVLinkDomain i size = NVLinkDomain i (top_NVLinkDomainSize (ps_Topology (pool_Spec pool))))"
proof -
  let ?g = "ps_GPUsPerNode (pool_Spec pool)" and ?s = "top_NVLinkDomainSize (ps_Topology (pool_Spec pool))"
    and ?numa = "top_NUMAAware (ps_Topology (pool_Spec pool))"
  have sl: "rss_Devices (rs_Spec sl) = map (gpu_device pool model (nd_Name node) st) (range_int ?g)" "rss_SharedCounters (rs_Spec sl) = []"
    using built by (auto simp: BuildResourceSlice_def Let_def split: if_splits)
  have "cards_published (nd_Name node) ?g ?s ?numa (concat (map (\<lambda>s. rss_Devices (rs_Spec s)) [sl]))"
    unfolding cards_published_def using gpu_device_on_card [of "nd_Name node" pool _ model st]
    by (auto simp: sl Bex_def)
  note topo = topologyOf_cards [OF this g uuids]
  have "fmlookup (migCapacity Q node) p = None" for p
  proof (rule ccontr)
    assume "fmlookup (migCapacity Q node) p \<noteq> None"
    then obtain q where "fmlookup (nd_Capacity node) (MIGResourceName p) = Some q" by (auto simp: migCapacity_lookup split: option.splits)
    from settled_resources(2) [OF laws res this] obtain w where "fmlookup (NodeResources Q pool table) (MIGResourceName p) = Some w" by auto
    then show False using off by (simp add: NodeResources_def nodeResourcesFor_def)
  qed
  then have mc: "migCapacity Q node = fmempty" by (intro fmap_ext) simp
  obtain memory where memory: "gpuMemory Q (nd_Labels node) = Some memory" "amt memory = amt (ms_Memory (model_Spec model))"
    using settled_memory [OF laws lbls(1) mem] by blast
  have "physicalGPUs node [sl] False opts = Inr ?g"
    using settled_labels(4) [OF lbls(1)] off g ParseInt_Itoa [of 32 ?g] countCounterSets_none [of "[sl]"]
    by (simp add: physicalGPUs_def sl int32_range_def)
  then have "shapeOf Q node [sl] opts = ([], Inr (Some \<lparr> sh_product = ms_ProductName (model_Spec model), sh_memory = memory,
         sh_compute = ms_ComputeCapability (model_Spec model), sh_gpus = ?g, sh_sharing = SharingModeNone,
         sh_partition = [], sh_topology = \<lparr> top_NVLinkDomainSize = recovered_size ?s ?g, top_NUMAAware = ?numa \<rparr>, sh_profiles = [] \<rparr>))"
    using settled_labels(1,2) [OF lbls(1)] prod settled_compute [OF lbls(1) comp] memory(1) lbls(2) mc topo
    by (simp add: shapeOf_def Let_def capture_labelTrue_def MIGStrategyMixed_def migStrategySingle_def)
  then show ?thesis using memory(2) recovered_size_domains [of _ ?g ?s] by blast
qed

section \<open>Lemmas: reading a partition back\<close>

lemma declared_distinct:
  assumes "distinct (map mpe_Profile es)"
  shows "e \<in> set es \<Longrightarrow> declared es (mpe_Profile e) = mpe_Count e"
    and "k \<notin> mpe_Profile ` set es \<Longrightarrow> declared es k = 0"
proof -
  show none: "k \<notin> mpe_Profile ` set es \<Longrightarrow> declared es k = 0" for k es by (induction es) (auto simp: declared_def)
  show "e \<in> set es \<Longrightarrow> declared es (mpe_Profile e) = mpe_Count e" using assms
  proof (induction es)
    case (Cons x xs)
    have "declared (x # xs) k = (if mpe_Profile x = k then mpe_Count x else 0) + declared xs k" for k by (simp add: declared_def)
    moreover have "mpe_Profile x \<noteq> mpe_Profile e" if "e \<in> set xs" using Cons.prems that by auto
    ultimately show ?case using Cons none [of "mpe_Profile x" xs] by auto
  qed simp
qed

lemma sorted_entries:
  assumes d: "distinct (map mpe_Profile es)" and F: "fset F = mpe_Profile ` set es"
  shows "map (\<lambda>k. \<lparr> mpe_Profile = k, mpe_Count = declared es k \<rparr>) (sorted_list_of_fset F) = sort_key mpe_Profile es"
proof -
  have "sorted_list_of_fset F = map mpe_Profile (sort_key mpe_Profile es)"
  proof (rule sorted_distinct_set_unique)
    show "distinct (map mpe_Profile (sort_key mpe_Profile es))" using d by (metis distinct_map distinct_sort set_sort)
  qed (simp_all add: sorted_list_of_fset.rep_eq F)
  moreover have "\<lparr> mpe_Profile = mpe_Profile e, mpe_Count = declared es (mpe_Profile e) \<rparr> = e" if "e \<in> set es" for e
    using declared_distinct(1) [OF d that] by simp
  ultimately show ?thesis by (simp add: o_def) (rule map_idI, simp)
qed

lemma layout_loop_exact:
  assumes "0 < gpus" and "\<And>k. k \<in> set ks \<Longrightarrow> ParseProfileName Q k \<noteq> None \<and> get_int resources k = c k * gpus \<and> 1 \<le> c k \<and> c k \<le> 8"
  shows "layout_loop Q n True resources gpus out ws ks =
    (out\<lparr> ml_partition := ml_partition out @ map (\<lambda>k. \<lparr> mpe_Profile = k, mpe_Count = c k \<rparr>) ks \<rparr>, ws)"
  using assms(2)
proof (induction ks arbitrary: out)
  case (Cons k ks)
  obtain shape where p: "ParseProfileName Q k = Some shape" using Cons.prems [of k] by auto
  have c: "1 \<le> c k" "c k \<le> 8" "get_int resources k = c k * gpus" using Cons.prems [of k] by auto
  have "(c k * gpus) sdiv gpus = c k" "(c k * gpus) smod gpus = 0"
    using c assms(1) by (simp_all add: sdiv_nonneg smod_nonneg)
  moreover have "wrap32 (c k) = c k" using c by (simp add: int32_range_def)
  ultimately have "layout_loop Q n True resources gpus out ws (k # ks) =
      layout_loop Q n True resources gpus (out\<lparr> ml_partition := ml_partition out @ [\<lparr> mpe_Profile = k, mpe_Count = c k \<rparr>] \<rparr>) ws ks"
    using c by (simp add: p maxInstancesPerGPU_def)
  then show ?case using Cons.IH [of "out\<lparr> ml_partition := ml_partition out @ [\<lparr> mpe_Profile = k, mpe_Count = c k \<rparr>] \<rparr>"] Cons.prems
    by simp
qed simp

text \<open>The extended resources of a partitioned node say how many instances of each profile a card has.\<close>

lemma migCapacity_static:
  assumes laws: "quantity_laws Q amt" and on: "MIGEnabled (pool_Spec pool)" and ne: "ps_MIGPartition (pool_Spec pool) \<noteq> []"
    and res: "resourcesMatch Q (nd_Capacity node) (NodeResources Q pool table)"
    and c: "counts_ok (ps_MIGPartition (pool_Spec pool))" and d: "distinct (map mpe_Profile (ps_MIGPartition (pool_Spec pool)))"
    and known: "known_profiles table (ps_MIGPartition (pool_Spec pool))" and dt: "distinct (map pr_Name (tb_Profiles table))"
    and g: "1 \<le> ps_GPUsPerNode (pool_Spec pool)" "ps_GPUsPerNode (pool_Spec pool) < 2 ^ 31"
  shows "fmlookup (migCapacity Q node) k =
    (if k \<in> mpe_Profile ` set (ps_MIGPartition (pool_Spec pool))
     then Some (declared (ps_MIGPartition (pool_Spec pool)) k * ps_GPUsPerNode (pool_Spec pool)) else None)"
proof -
  let ?es = "ps_MIGPartition (pool_Spec pool)" and ?g = "ps_GPUsPerNode (pool_Spec pool)"
  have per: "perCard Q pool table p = declared ?es (pr_Name p)" for p
    using get_partition_counts_ok [OF c] get_partition_counts by (simp add: perCard_declared [OF ne])
  show ?thesis
  proof (cases "k \<in> mpe_Profile ` set ?es")
    case True
    then obtain e where e: "e \<in> set ?es" "k = mpe_Profile e" by blast
    have n: "declared ?es k = mpe_Count e" "1 \<le> mpe_Count e" "mpe_Count e \<le> 8"
      using declared_distinct(1) [OF d e(1)] e c by (simp_all add: counts_ok_def)
    obtain p where p: "p \<in> set (tb_Profiles table)" "pr_Name p = k" using known e by (auto simp: known_profiles_def)
    let ?n = "mpe_Count e * ?g"
    have range: "0 < ?n" "?n < 2 ^ 62"
      using n g mult_mono [of "mpe_Count e" 8 ?g "2 ^ 31"] by simp_all
    have "fmlookup (NodeResources Q pool table) (MIGResourceName k) = Some (q_NewQuantity Q (wrap64 ?n) DecimalSI)"
      using nodeResourcesFor_MIG [OF on dt p(1), of Q ?g] n per [of p] p(2) by (simp add: NodeResources_def)
    from settled_resources(1) [OF laws res this] obtain q where
      q: "fmlookup (nd_Capacity node) (MIGResourceName k) = Some q" "amt q = of_int ?n"
      using range by (auto simp: quantity_laws_NewQuantity [OF laws] int64_range_def)
    have "q_Value Q q = ?n" using range by (intro Value_of_int [OF laws q(2)]) simp_all
    then show ?thesis using True q(1) range n(1) by (simp add: migCapacity_lookup)
  next
    case False
    have "fmlookup (nd_Capacity node) (MIGResourceName k) = None"
    proof (rule ccontr)
      assume "fmlookup (nd_Capacity node) (MIGResourceName k) \<noteq> None"
      then obtain q where "fmlookup (nd_Capacity node) (MIGResourceName k) = Some q" by blast
      from settled_resources(2) [OF laws res this] obtain w where "fmlookup (NodeResources Q pool table) (MIGResourceName k) = Some w" by auto
      then have "MIGResourceName k \<in> fmdom' (nodeResourcesFor Q pool table ?g)" unfolding NodeResources_def by (rule fmdom'I)
      then obtain p where "pr_Name p = k" "0 < perCard Q pool table p" using on by (auto simp: nodeResourcesFor_dom)
      then show False using per declared_distinct(2) [OF d False] by simp
    qed
    then show ?thesis using False by (simp add: migCapacity_lookup)
  qed
qed

lemma ValidatePartition_known: "ValidatePartition Q es t = Inr u \<Longrightarrow> known_profiles t es"
proof (rule ccontr)
  assume v: "ValidatePartition Q es t = Inr u" and "\<not> known_profiles t es"
  from partition_loop_unknown [OF this(2), of Q 0 "q_NewQuantity Q 0 BinarySI"] show False
    using v by (auto simp: ValidatePartition_def split: if_splits)
qed

lemma static_cards_published:
  assumes b: "BuildMIGSlices Q pool model table n st = Some slices" and ne: "ps_MIGPartition (pool_Spec pool) \<noteq> []"
    and c: "counts_ok (ps_MIGPartition (pool_Spec pool))" and known: "known_profiles table (ps_MIGPartition (pool_Spec pool))"
    and g: "1 \<le> ps_GPUsPerNode (pool_Spec pool)" "ps_GPUsPerNode (pool_Spec pool) + 16 < 2 ^ 31"
  shows "cards_published n (ps_GPUsPerNode (pool_Spec pool)) (top_NVLinkDomainSize (ps_Topology (pool_Spec pool)))
      (top_NUMAAware (ps_Topology (pool_Spec pool))) (concat (map (\<lambda>s. rss_Devices (rs_Spec s)) slices))"
    and "countCounterSets slices = ps_GPUsPerNode (pool_Spec pool)"
proof -
  let ?g = "ps_GPUsPerNode (pool_Spec pool)" and ?es = "ps_MIGPartition (pool_Spec pool)"
  have g0: "0 \<le> ?g" using g by simp
  obtain "is" where i: "mig_instances pool table = Some is"
    and dev: "pool_devices slices = map (tainted_migDevice Q pool model n st) is"
    and cnt: "map cs_Name (pool_counters slices) = map CounterSetName (range_int ?g)"
    by (rule BuildMIGSlices_contents [OF b g0 g(2)])
  have e: "ExpandPartitioned ?g table ?es = Some is" using i ne by (auto simp: mig_instances_def split: option.splits)
  have "\<exists>x \<in> set is. in_GPUIndex x = j" if "0 \<le> j" "j < ?g" for j
  proof -
    obtain x where x: "x \<in> set ?es" using ne by (cases ?es) auto
    then obtain p where p: "p \<in> set (tb_Profiles table)" "pr_Name p = mpe_Profile x" using known by (auto simp: known_profiles_def)
    have "0 < declared ?es (pr_Name p)"
    proof -
      have "mpe_Count x \<le> declared ?es (mpe_Profile x)" unfolding declared_def
        using x c by (intro member_le_sum_list) (auto simp: counts_ok_def image_iff)
      then show ?thesis using x c p(2) by (auto simp: counts_ok_def)
    qed
    then have "p \<in> set (map in_Profile (on_gpu j is))"
      using p(1) that unfolding on_gpu_ExpandPartitioned [OF e]
      by (auto simp: expand_profiles_fields(1) get_partition_counts_ok [OF c])
    then show ?thesis by (auto simp: on_gpu_def)
  qed
  then show "cards_published n ?g (top_NVLinkDomainSize (ps_Topology (pool_Spec pool)))
      (top_NUMAAware (ps_Topology (pool_Spec pool))) (concat (map (\<lambda>s. rss_Devices (rs_Spec s)) slices))"
    unfolding pool_devices_def [symmetric] dev cards_published_def
    using mig_instances_contract(4) [OF i] tainted_migDevice_on_card [of n pool _ Q model st]
    by (auto simp: instance_ok_def) metis
  have "distinct (map CounterSetName (range_int ?g))" by (simp add: distinct_map inj_on_def)
  then have "fcard (fset_of_list (map cs_Name (pool_counters slices))) = nat ?g"
    unfolding cnt fcard.rep_eq fset_of_list.rep_eq by (simp only: distinct_card) simp
  then show "countCounterSets slices = ?g"
    using g by (simp add: countCounterSets_def pool_counters_def [symmetric] narrow_def del: set_map fset_of_list_map)
qed

text \<open>The loop of \<open>migLayout\<close> on the counts that a partition of a built-in table advertises.\<close>

lemma static_layout:
  assumes laws: "quantity_laws Q amt" and t: "ProfilesFor Q product = Some t"
    and mc: "\<And>k. fmlookup m k = (if k \<in> mpe_Profile ` set es then Some (declared es k * g) else None)"
    and d: "distinct (map mpe_Profile es)" and counts: "counts_ok es"
    and known: "\<forall>e \<in> set es. mpe_Profile e \<in> pr_Name ` set (tb_Profiles t)" and g: "1 \<le> g"
  shows "layout_loop Q n True m g \<lparr> ml_partition = [], ml_profiles = [] \<rparr> [] (sorted_list_of_fset (fmdom m))
    = (\<lparr> ml_partition = sort_key mpe_Profile es, ml_profiles = [] \<rparr>, [])"
proof -
  have dom: "fset (fmdom m) = mpe_Profile ` set es"
    unfolding fmdom'_alt_def [symmetric] by (auto simp: fmlookup_dom'_iff mc split: if_splits)
  have "ParseProfileName Q k \<noteq> None \<and> get_int m k = declared es k * g \<and> 1 \<le> declared es k \<and> declared es k \<le> 8"
    if "k \<in> set (sorted_list_of_fset (fmdom m))" for k
  proof -
    have k: "k \<in> mpe_Profile ` set es" using that dom by simp
    then obtain e where e: "e \<in> set es" "k = mpe_Profile e" by blast
    obtain p where p: "p \<in> set (tb_Profiles t)" "pr_Name p = k" using known k by auto
    then have "self_described Q amt p" using ProfilesFor_ok [OF laws t] by (simp add: list_all_iff)
    then have "ParseProfileName Q k \<noteq> None" using p by (auto simp: self_described_def split: option.splits)
    then show ?thesis using mc k declared_distinct(1) [OF d e(1)] e counts by (auto simp: get_int_def counts_ok_def)
  qed
  from layout_loop_exact [where n = n and out = "\<lparr> ml_partition = [], ml_profiles = [] \<rparr>" and ws = "[]"
        and ks = "sorted_list_of_fset (fmdom m)", OF _ this] g
  show ?thesis using sorted_entries [OF d dom] by simp
qed

text \<open>
  Capture inverts the simulation of partitioned cards. On a settled node of a pool with a declared partition,
  of a product with built-in profiles, \<open>shapeOf\<close> reads back the number of cards, the topology, and the partition
  itself, sorted by profile. The only warning it can give is that the built-in table does not hold the partition.
\<close>

theorem shapeOf_static_MIG:
  assumes laws: "quantity_laws Q amt" and on: "MIGEnabled (pool_Spec pool)" and ne: "ps_MIGPartition (pool_Spec pool) \<noteq> []"
    and schema: "pool_schema pool" "counts_ok (ps_MIGPartition (pool_Spec pool))"
    and accepted: "check_pool Q pool model = Inr table"
    and builtin: "ProfilesFor Q (ms_ProductName (model_Spec model)) = Some t" "ms_MIGProfiles (model_Spec model) = []"
    and built: "BuildMIGSlices Q pool model table (nd_Name node) st = Some slices"
    and lbls: "labelsMatch (nd_Labels node) (NodeLabels Q pool model)"
    and res: "resourcesMatch Q (nd_Capacity node) (NodeResources Q pool table)"
    and prod: "ms_ProductName (model_Spec model) \<noteq> []"
    and comp: "computeCapabilityPattern (ms_ComputeCapability (model_Spec model))"
    and mem: "amt (ms_Memory (model_Spec model)) = of_int (n * 2 ^ 20)" "0 < n" "n < 2 ^ 43"
    and uuids: "inj_on (DeviceUUID (nd_Name node)) {0..<ps_GPUsPerNode (pool_Spec pool)}"
  shows "\<exists>memory size ws. shapeOf Q node slices opts =
      (ws, Inr (Some \<lparr> sh_product = ms_ProductName (model_Spec model), sh_memory = memory,
         sh_compute = ms_ComputeCapability (model_Spec model), sh_gpus = ps_GPUsPerNode (pool_Spec pool), sh_sharing = SharingModeMIG,
         sh_partition = sort_key mpe_Profile (ps_MIGPartition (pool_Spec pool)),
         sh_topology = \<lparr> top_NVLinkDomainSize = size, top_NUMAAware = top_NUMAAware (ps_Topology (pool_Spec pool)) \<rparr>, sh_profiles = [] \<rparr>))
    \<and> (ws = [] \<or> (\<exists>e. ws = [DoesNotFit (nd_Name node) e])) \<and> amt memory = amt (ms_Memory (model_Spec model))
    \<and> (\<forall>i. 0 \<le> i \<and> i < ps_GPUsPerNode (pool_Spec pool) \<longrightarrow>
         NVLinkDomain i size = NVLinkDomain i (top_NVLinkDomainSize (ps_Topology (pool_Spec pool))))"
proof -
  let ?g = "ps_GPUsPerNode (pool_Spec pool)" and ?s = "top_NVLinkDomainSize (ps_Topology (pool_Spec pool))"
    and ?numa = "top_NUMAAware (ps_Topology (pool_Spec pool))" and ?es = "ps_MIGPartition (pool_Spec pool)"
    and ?product = "ms_ProductName (model_Spec model)"
  have g: "1 \<le> ?g" "?g < 2 ^ 31" "?g + 16 < 2 ^ 31" and d: "distinct (map mpe_Profile ?es)" using schema(1) by (simp_all add: pool_schema_def)
  have v: "Resolve Q model = Inr table" "ValidatePartition Q ?es table = Inr ()"
    using accepted on by (auto simp: check_pool_def split: sum.splits)
  have known: "known_profiles table ?es" using v(2) by (rule ValidatePartition_known)
  have dt: "distinct (map pr_Name (tb_Profiles table))" using v(1) by (auto simp: Resolve_Inr_iff tableOK_def)
  have profs: "tb_Profiles table = tb_Profiles t"
    using v(1) builtin by (simp add: Resolve_Inr_iff baseTable_def Let_def split: option.splits)
  note topo = topologyOf_cards [OF static_cards_published(1) [OF built ne schema(2) known g(1,3)] g(1,2) uuids]
  have mc: "fmlookup (migCapacity Q node) k = (if k \<in> mpe_Profile ` set ?es then Some (declared ?es k * ?g) else None)" for k
    by (rule migCapacity_static [OF laws on ne res schema(2) d known dt g(1,2)])
  have rne: "migCapacity Q node \<noteq> fmempty" using ne mc by (metis fmempty_lookup image_is_empty all_not_in_conv option.distinct(1) set_empty)
  note layout = static_layout [OF laws builtin(1) mc d schema(2) known [unfolded known_profiles_def profs] g(1)]
  obtain memory where memory: "gpuMemory Q (nd_Labels node) = Some memory" "amt memory = amt (ms_Memory (model_Spec model))"
    using settled_memory [OF laws lbls mem] by blast
  obtain ws where ws: "migLayout Q (nd_Name node) ?product memory (migCapacity Q node) ?g = (\<lparr> ml_partition = sort_key mpe_Profile ?es, ml_profiles = [] \<rparr>, ws)"
      "ws = [] \<or> (\<exists>e. ws = [DoesNotFit (nd_Name node) e])"
    using rne layout by (cases "ValidatePartition Q (sort_key mpe_Profile ?es) t") (auto simp: migLayout_def builtin Let_def)
  have "physicalGPUs node slices True opts = Inr ?g"
    using static_cards_published(2) [OF built ne schema(2) known g(1,3)] g by (simp add: physicalGPUs_def)
  moreover have "Atoi ''0'' = Some 0" by code_simp
  ultimately have "shapeOf Q node slices opts = (ws, Inr (Some \<lparr> sh_product = ?product, sh_memory = memory,
         sh_compute = ms_ComputeCapability (model_Spec model), sh_gpus = ?g, sh_sharing = SharingModeMIG,
         sh_partition = sort_key mpe_Profile ?es, sh_topology = \<lparr> top_NVLinkDomainSize = recovered_size ?s ?g, top_NUMAAware = ?numa \<rparr>, sh_profiles = [] \<rparr>))"
    using settled_labels [OF lbls] on prod settled_compute [OF lbls comp] memory(1) ws(1) topo
    by (simp add: shapeOf_def Let_def capture_labelTrue_def MIGStrategyMixed_def migStrategySingle_def)
  then show ?thesis using memory(2) ws(2) recovered_size_domains [of _ ?g ?s] by blast
qed

section \<open>A captured fleet\<close>

text \<open>When \<open>Capture\<close> succeeds: some node has a shape and no node has an error.\<close>

lemma capture_loop_Inr:
  "(\<exists>r. capture_loop Q byNode opts ws groups order nodes = Inr r) \<longleftrightarrow>
     (\<forall>n \<in> set nodes. \<exists>s. snd (shapeOf Q n (case fmlookup byNode (nd_Name n) of None \<Rightarrow> [] | Some ss \<Rightarrow> ss) opts) = Inr s)"
proof (induction nodes arbitrary: ws groups order)
  case (Cons n nodes)
  obtain w r where "shapeOf Q n (case fmlookup byNode (nd_Name n) of None \<Rightarrow> [] | Some ss \<Rightarrow> ss) opts = (w, r)"
    using prod.exhaust by blast
  then show ?case using Cons.IH by (cases r) (auto simp: Let_def split: option.splits prod.splits)
qed simp

theorem Capture_succeeds_iff:
  "snd (Capture Q nodes published opts) = None \<longleftrightarrow>
     captured Q (indexSlicesByNode published) opts nodes \<noteq> []
   \<and> (\<forall>n \<in> set nodes. \<exists>s. snd (shapeOf Q n (case fmlookup (indexSlicesByNode published) (nd_Name n) of None \<Rightarrow> [] | Some ss \<Rightarrow> ss) opts) = Inr s)"
proof (cases "capture_loop Q (indexSlicesByNode published) opts [] fmempty [] nodes")
  case (Inl e)
  then show ?thesis using capture_loop_Inr [of Q "indexSlicesByNode published" opts "[]" fmempty "[]" nodes]
    by (auto simp: Capture_def)
next
  case (Inr r)
  obtain ws groups order where r: "r = (ws, groups, order)" by (cases r) auto
  have "groups_ok Q [] fmempty []" by (simp add: groups_ok_def)
  from capture_loop_ok [OF Inr [unfolded r] this] have "fmdom' groups = {} \<longleftrightarrow> captured Q (indexSlicesByNode published) opts nodes = []"
    by (auto simp: groups_ok_def)
  then have "fmdom groups = {||} \<longleftrightarrow> captured Q (indexSlicesByNode published) opts nodes = []"
    by (metis bot_fset.rep_eq fmdom'_alt_def fset_inverse)
  then show ?thesis using Inr r capture_loop_Inr [of Q "indexSlicesByNode published" opts "[]" fmempty "[]" nodes]
    by (auto simp: Capture_def)
qed

definition example_gpu_node :: "string \<Rightarrow> int \<Rightarrow> int Node" where
  "example_gpu_node name cards =
     \<lparr> nd_Name = name, nd_Labels = fmap_of_list [(LabelGPUPresent, ''true''), (LabelGPUProduct, ''NVIDIA-H100''), (LabelGPUMemory, Itoa 81920),
         (LabelGPUCount, Itoa cards), (LabelComputeMajor, ''9''), (LabelComputeMinor, ''0'')],
       nd_Annotations = fmempty, nd_Capacity = fmempty, nd_Allocatable = fmempty, nd_Taints = [], nd_NodeInfo = no_node_info, nd_Phase = [] \<rparr>"

lemma shapeOf_readable:
  assumes "get_str (nd_Labels node) LabelGPUPresent = capture_labelTrue" "get_str (nd_Labels node) LabelGPUProduct \<noteq> []"
    "gpuMemory Q (nd_Labels node) = Some m" "computeCapability (nd_Labels node) = Some c"
    "\<And>b. \<exists>g. physicalGPUs node published b opts = Inr g"
  shows "\<exists>s. snd (shapeOf Q node published opts) = Inr (Some s)"
proof -
  obtain g where "physicalGPUs node published
      (get_str (nd_Labels node) LabelMIGStrategy = MIGStrategyMixed \<or> migCapacity Q node \<noteq> fmempty) opts = Inr g" using assms(5) by blast
  then show ?thesis using assms(1-4) by (simp add: shapeOf_def Let_def split: prod.splits)
qed

lemma example_gpu_node_shape:
  assumes "1 \<le> cards" "cards < 2 ^ 31" "0 < co_GPUsPerNode opts"
  shows "\<exists>s. snd (shapeOf int_quantity (example_gpu_node name cards) [] opts) = Inr (Some s)"
proof -
  let ?l = "nd_Labels (example_gpu_node name cards)"
  have l: "get_str ?l LabelGPUPresent = capture_labelTrue" "get_str ?l LabelGPUProduct \<noteq> []" "get_str ?l LabelGPUMemory = Itoa 81920"
    "get_str ?l LabelGPUCount = Itoa cards" "get_str ?l LabelComputeMajor = ''9''" "get_str ?l LabelComputeMinor = ''0''"
    by (simp_all add: example_gpu_node_def get_str_def fmlookup_of_list label_key_defs capture_labelTrue_def)
  have "computeCapabilityPattern ''9.0''" by code_simp
  then have c: "computeCapability ?l = Some ''9.0''" by (simp add: computeCapability_def l)
  obtain m where m: "gpuMemory int_quantity ?l = Some m" using ParseInt_Itoa [of 64 81920] by (simp add: gpuMemory_def l)
  have g: "\<exists>g. physicalGPUs (example_gpu_node name cards) [] b opts = Inr g" for b
    using assms ParseInt_Itoa [of 32 cards] by (simp add: physicalGPUs_def Let_def l(4))
  show ?thesis by (rule shapeOf_readable [OF l(1,2) m c g])
qed

definition example_fleet :: "int Node list" where
  "example_fleet = [example_gpu_node ''a'' 8, example_gpu_node ''b'' 4, example_gpu_node ''c'' 8]"


section \<open>A settled node\<close>

text \<open>A pool of one card per node, its model, and a node as the operator leaves it.\<close>

definition one_card_pool :: "string \<Rightarrow> MIGPartitionEntry list \<Rightarrow> int pool" where
  "one_card_pool mode parts = up_pool ((example_opts ''80Gi'')\<lparr> up_GPUsPerNode := 1 \<rparr>) mode parts [] fmempty"

definition h100_model :: "int \<Rightarrow> int GPUModel" where
  "h100_model mebibytes = up_model (example_opts ''80Gi'') (mebibytes * 2 ^ 20) []"

definition captured_node :: "int pool \<Rightarrow> int GPUModel \<Rightarrow> int Table \<Rightarrow> int Node" where
  "captured_node pool model table =
     \<lparr> nd_Name = ''node-0'', nd_Labels = NodeLabels int_quantity pool model, nd_Annotations = fmempty,
       nd_Capacity = NodeResources int_quantity pool table, nd_Allocatable = NodeResources int_quantity pool table,
       nd_Taints = [], nd_NodeInfo = no_node_info, nd_Phase = [] \<rparr>"

lemma captured_node_ok:
  "nd_Name (captured_node p m t) = ''node-0''"
  "labelsMatch (nd_Labels (captured_node p m t)) (NodeLabels int_quantity p m)"
  "resourcesMatch int_quantity (nd_Capacity (captured_node p m t)) (NodeResources int_quantity p t)"
  by (simp_all add: captured_node_def labelsMatch_def resourcesMatch_def fmpred_iff get_str_def int_quantity_def)

lemma one_card_pool_simps:
  "ps_GPUsPerNode (pool_Spec (one_card_pool m ps)) = 1" "MIGEnabled (pool_Spec (one_card_pool m ps)) \<longleftrightarrow> m = SharingModeMIG"
  "ps_MIGPartition (pool_Spec (one_card_pool m ps)) = ps"
  by (simp_all add: one_card_pool_def up_pool_def MIGEnabled_def)

lemma h100_model_simps:
  "ms_ProductName (model_Spec (h100_model n)) = ''NVIDIA-H100-80GB-HBM3''" "ms_ComputeCapability (model_Spec (h100_model n)) = ''9.0''"
  "ms_Memory (model_Spec (h100_model n)) = n * 2 ^ 20" "ms_MIGProfiles (model_Spec (h100_model n)) = []" "ms_MIGBudget (model_Spec (h100_model n)) = None"
  by (simp_all add: h100_model_def up_model_def example_opts_def)

lemma pattern_9_0: "computeCapabilityPattern ''9.0''"
  by code_simp

lemma whole_strategy: "get_str (nd_Labels (captured_node (one_card_pool SharingModeNone []) (h100_model n) t)) LabelMIGStrategy = []"
proof -
  have "Cut ''9.0'' CHR ''.'' = (''9'', ''0'', True)" by code_simp
  then show ?thesis
    by (simp add: captured_node_def NodeLabels_def Let_def h100_model_simps one_card_pool_simps get_str_def fmlookup_of_list label_key_defs)
qed

lemma one_card_accepted:
  "check_pool int_quantity (one_card_pool SharingModeMIG [\<lparr> mpe_Profile = ''1g.10gb'', mpe_Count = 2 \<rparr>]) (h100_model 81920) = Inr h100_table"
proof -
  let ?p = "one_card_pool SharingModeMIG [\<lparr> mpe_Profile = ''1g.10gb'', mpe_Count = 2 \<rparr>]"
  have "baseTable int_quantity (h100_model 81920) = h100_table"
    by (simp add: baseTable_def Let_def h100_model_simps example_table) (simp add: h100_table_def)
  moreover have "tableOK int_quantity h100_table" by code_simp
  ultimately have "Resolve int_quantity (h100_model 81920) = Inr h100_table" by (simp add: Resolve_Inr_iff)
  moreover have "ValidatePartition int_quantity [\<lparr> mpe_Profile = ''1g.10gb'', mpe_Count = 2 \<rparr>] h100_table = Inr ()" by code_simp
  moreover have "ValidateOccupancy ?p = Inr ()" "ValidateFaults ?p = Inr ()"
    by (simp_all add: ValidateOccupancy_def ValidateFaults_def one_card_pool_def up_pool_def)
  ultimately show ?thesis by (simp add: check_pool_def one_card_pool_simps)
qed

section \<open>Boundaries\<close>

text \<open>A number of cards that was derived is positive, so the division in \<open>migLayout\<close> never panics.\<close>

theorem physicalGPUs_pos: "physicalGPUs node published partitioned opts = Inr g \<Longrightarrow> 0 < g"
  using ParseInt_range [of 32 "get_str (nd_Labels node) LabelGPUCount"]
  by (auto simp: physicalGPUs_def Let_def int32_range_def split: if_splits option.splits)

text \<open>
  A memory label of \<open>2 ^ 44\<close> MiB is read as no memory at all: the product of two \<open>1024\<close>s is taken in 64 bits.
\<close>

theorem gpuMemory_wraps: "gpuMemory int_quantity (fmupd LabelGPUMemory (Itoa (2 ^ 44)) fmempty) = Some 0"
proof -
  have "wrap64 (wrap64 (2 ^ 44 * 1024) * 1024) = 0" by code_simp
  moreover have "ParseInt 64 (Itoa (2 ^ 44)) = Some (2 ^ 44)" by (rule ParseInt_Itoa) simp_all
  ultimately show ?thesis by (simp add: gpuMemory_def get_str_def) (simp add: int_quantity_def)
qed

text \<open>
  The names of nodes can be longer than the 63 bytes of a label value although the base of a name is cut at 50:
  the hundred and first node of a MIG shape with 16 cards, when its model has another shape.
\<close>

theorem node_name_too_long:
  assumes "length name = 50" "sh_gpus shape = 16" "sh_sharing shape = SharingModeMIG" "100 < length caps"
  shows "length (nd_Name (buildNodes (pool_base 2 name shape) caps ! 100)) = 64"
proof -
  have "Itoa 16 = ''16''" "Itoa 100 = ''100''" by code_simp+
  moreover have "TrimSuffix (name @ ''-16gpu-mig'') ''-pool'' = name @ ''-16gpu-mig''"
    by (simp add: TrimSuffix_def HasSuffix_def assms(1))
  ultimately show ?thesis using assms by (simp add: buildNodes_def buildNode_def pool_base_def)
qed

text \<open>
  An H100 reports 81559 MiB, a little less than the 80 GiB of the built-in table. Its partition is captured without
  a warning, since it is checked against the built-in memory, and the operator refuses the pool, since it resolves
  the captured memory.
\<close>

definition h100_node :: "int Node" where
  "h100_node =
     \<lparr> nd_Name = ''n'', nd_Labels = fmap_of_list [(LabelGPUPresent, ''true''), (LabelGPUProduct, ''NVIDIA-H100-80GB-HBM3''),
         (LabelGPUMemory, Itoa 81559), (LabelComputeMajor, ''9''), (LabelComputeMinor, ''0''), (LabelMIGStrategy, MIGStrategyMixed)],
       nd_Annotations = fmempty, nd_Capacity = fmupd (MIGResourceName ''1g.10gb'') 14 fmempty, nd_Allocatable = fmempty,
       nd_Taints = [], nd_NodeInfo = no_node_info, nd_Phase = [] \<rparr>"

lemma h100_node_shape:
  "shapeOf int_quantity h100_node [] \<lparr> co_GPUsPerNode = 2, co_EmitNodes = True \<rparr> =
     ([], Inr (Some \<lparr> sh_product = ''NVIDIA-H100-80GB-HBM3'', sh_memory = 81559 * 2 ^ 20, sh_compute = ''9.0'', sh_gpus = 2,
       sh_sharing = SharingModeMIG, sh_partition = [\<lparr> mpe_Profile = ''1g.10gb'', mpe_Count = 7 \<rparr>],
       sh_topology = \<lparr> top_NVLinkDomainSize = 0, top_NUMAAware = False \<rparr>, sh_profiles = [] \<rparr>))"
proof -
  let ?l = "nd_Labels h100_node"
  have l: "get_str ?l LabelGPUPresent = capture_labelTrue" "get_str ?l LabelGPUProduct = ''NVIDIA-H100-80GB-HBM3''"
    "get_str ?l LabelGPUMemory = Itoa 81559" "get_str ?l LabelGPUCount = []" "get_str ?l LabelComputeMajor = ''9''"
    "get_str ?l LabelComputeMinor = ''0''" "get_str ?l LabelMIGStrategy = MIGStrategyMixed" "nd_Name h100_node = ''n''"
    by (simp_all add: h100_node_def get_str_def fmlookup_of_list label_key_defs capture_labelTrue_def)
  have c: "computeCapability ?l = Some ''9.0''" using pattern_9_0 by (simp add: computeCapability_def l)
  have w: "wrap64 (wrap64 (81559 * 1024) * 1024) = 81559 * 2 ^ 20" by code_simp
  have m: "gpuMemory int_quantity ?l = Some (81559 * 2 ^ 20)"
    using ParseInt_Itoa [of 64 81559] w by (simp add: gpuMemory_def l) (simp add: int_quantity_def)
  have mc: "migCapacity int_quantity h100_node = fmupd ''1g.10gb'' 14 fmempty"
    by (rule fmap_ext) (simp add: migCapacity_lookup h100_node_def int_quantity_def)
  have g: "physicalGPUs h100_node [] True \<lparr> co_GPUsPerNode = 2, co_EmitNodes = True \<rparr> = Inr 2"
    by (simp add: physicalGPUs_def Let_def)
  have p: "ParseProfileName int_quantity ''1g.10gb'' \<noteq> None" by code_simp
  have lay: "layout_loop int_quantity ''n'' True (fmupd ''1g.10gb'' 14 fmempty) 2 \<lparr> ml_partition = [], ml_profiles = [] \<rparr> [] [''1g.10gb''] =
      (\<lparr> ml_partition = [\<lparr> mpe_Profile = ''1g.10gb'', mpe_Count = 7 \<rparr>], ml_profiles = [] \<rparr>, [])"
    using layout_loop_exact [of 2 "[''1g.10gb'']" int_quantity "fmupd ''1g.10gb'' 14 fmempty" "\<lambda>_. 7"] p by simp
  have "ValidatePartition int_quantity [\<lparr> mpe_Profile = ''1g.10gb'', mpe_Count = 7 \<rparr>] h100_table = Inr ()" by code_simp
  then have "migLayout int_quantity ''n'' ''NVIDIA-H100-80GB-HBM3'' (81559 * 2 ^ 20) (fmupd ''1g.10gb'' 14 fmempty) 2 =
      (\<lparr> ml_partition = [\<lparr> mpe_Profile = ''1g.10gb'', mpe_Count = 7 \<rparr>], ml_profiles = [] \<rparr>, [])"
    by (simp add: migLayout_def Let_def example_table sorted_list_of_fset.rep_eq lay del: layout_loop.simps)
  moreover have "topologyOf [] = \<lparr> top_NVLinkDomainSize = 0, top_NUMAAware = False \<rparr>"
    by (simp add: topologyOf_def sorted_list_of_fset.rep_eq)
  moreover have "Atoi [] = None" by (simp add: ParseInt_def)
  ultimately show ?thesis by (simp add: shapeOf_def Let_def l m c mc g MIGStrategyMixed_def migStrategySingle_def)
qed

theorem capture_smaller_card:
  "\<exists>shape e. shapeOf int_quantity h100_node [] \<lparr> co_GPUsPerNode = 2, co_EmitNodes = True \<rparr> = ([], Inr (Some shape))
     \<and> check_pool int_quantity (buildPool p m shape) (buildModel m shape) = Inl (''MIGProfilesInvalid'', MsgMig e)"
proof -
  let ?s = "\<lparr> sh_product = ''NVIDIA-H100-80GB-HBM3'', sh_memory = 81559 * 2 ^ 20, sh_compute = ''9.0'', sh_gpus = 2,
       sh_sharing = SharingModeMIG, sh_partition = [\<lparr> mpe_Profile = ''1g.10gb'', mpe_Count = 7 \<rparr>],
       sh_topology = \<lparr> top_NVLinkDomainSize = 0, top_NUMAAware = False \<rparr>, sh_profiles = [] \<rparr> :: int nodeShape"
  have "baseTable int_quantity (buildModel m ?s) = h100_table\<lparr> tb_Budget := \<lparr> bd_Memory = 81559 * 2 ^ 20, bd_Slices = 7 \<rparr> \<rparr>"
    by (simp add: baseTable_def Let_def buildModel_def example_table) (simp add: h100_table_def)
  moreover have "\<not> tableOK int_quantity (h100_table\<lparr> tb_Budget := \<lparr> bd_Memory = 81559 * 2 ^ 20, bd_Slices = 7 \<rparr> \<rparr>)" by code_simp
  ultimately obtain e where "Resolve int_quantity (buildModel m ?s) = Inl e"
    using Resolve_Inr_iff [of int_quantity "buildModel m ?s"] by (cases "Resolve int_quantity (buildModel m ?s)") auto
  then have "check_pool int_quantity (buildPool p m ?s) (buildModel m ?s) = Inl (''MIGProfilesInvalid'', MsgMig e)"
    by (simp add: check_pool_def buildPool_def MIGEnabled_def)
  then show ?thesis using h100_node_shape by blast
qed

end
