(* ===== verification/Cli_Apply.thy ===== *)
theory Cli_Apply
  imports Cli_Capture Cli_Status
begin

text \<open>
  \<open>internal/cli/apply.go\<close>, \<open>readonly.go\<close>, \<open>version.go\<close> and the commands of \<open>cmd/ghostgpu/main.go\<close> from their parsed flags on.
  The cluster is a record of operations on a world \<open>'w\<close>, as in \<open>Controller\<close>. An object's resource version is an
  argument of the update instead of a field that is set before it; a copy of an object is always an object, so that
  error of \<open>Apply\<close> does not occur. The \<open>select\<close> of \<open>WaitForPool\<close> is one operation: the context's error, or another round.
  The loop is a partial function: a run that never ends is \<open>None\<close>.

  What a command prints is rendered, or kept as a value (\<open>PoolMessage\<close>, \<open>CmdError\<close>) where it contains the text of an error or
  a duration. The flags themselves and the construction of clients are in \<open>Cli_Main\<close>.
\<close>

section \<open>version.go\<close>

record BuildInfo =
  bi_Version :: string
  bi_Commit :: string
  bi_Date :: string

definition VersionLine :: "BuildInfo \<Rightarrow> string" where
  "VersionLine b =
     (let version = (if bi_Version b = [] then ''dev'' else bi_Version b);
          commit = (if bi_Commit b \<noteq> [] then bi_Commit b else ''unknown commit'');
          built = (if bi_Date b \<noteq> [] then ''built '' @ bi_Date b else ''built at an unknown time'')
      in ''ghostgpu '' @ version @ '' ('' @ commit @ '', '' @ built @ '')'')"

section \<open>apply.go\<close>

datatype CtxError = DeadlineExceeded | Canceled

type_synonym objectKey = "string \<times> string"

record ('w, 'q, 'm) cluster =
  cl_Get :: "objectKey \<Rightarrow> 'w \<Rightarrow> (ApiError + string) \<times> 'w"
  cl_Create :: "('q, 'm) Object \<Rightarrow> 'w \<Rightarrow> (ApiError + unit) \<times> 'w"
  cl_Update :: "('q, 'm) Object \<Rightarrow> string \<Rightarrow> 'w \<Rightarrow> (ApiError + unit) \<times> 'w"
  cl_GetPool :: "string \<Rightarrow> 'w \<Rightarrow> (ApiError + 'm GPUPool) \<times> 'w"
  cl_Wait :: "'w \<Rightarrow> CtxError option \<times> 'w"

text \<open>\<open>strings.ToLower\<close> of the kind.\<close>

definition object_kind :: "('q, 'm) Object \<Rightarrow> string" where
  "object_kind obj = map char_of (lower_runes (object_Kind obj))"

definition object_key :: "('q, 'm) Object \<Rightarrow> objectKey" where
  "object_key obj = (object_kind obj, object_name obj)"

datatype ApplyError = Creating objectKey ApiError | Reading objectKey ApiError | Updating objectKey ApiError

definition apply_line :: "('q, 'm) Object \<Rightarrow> string \<Rightarrow> string" where
  "apply_line obj what = object_kind obj @ ''/'' @ object_name obj @ '' '' @ what"

text \<open>The loop of \<open>Apply\<close>, with the lines so far; the error is \<open>None\<close> on success.\<close>

fun apply_objects ::
  "('w, 'q, 'm) cluster \<Rightarrow> string list \<Rightarrow> ('q, 'm) Object list \<Rightarrow> 'w \<Rightarrow> (string list \<times> ApplyError option) \<times> 'w" where
  "apply_objects C results [] w = ((results, None), w)"
| "apply_objects C results (obj # objs) w =
     (case cl_Get C (object_key obj) w of
        (Inl NotFound, w1) \<Rightarrow>
          (case cl_Create C obj w1 of
             (Inl e, w2) \<Rightarrow> ((results, Some (Creating (object_key obj) e)), w2)
           | (Inr _, w2) \<Rightarrow> apply_objects C (results @ [apply_line obj ''created'']) objs w2)
      | (Inl e, w1) \<Rightarrow> ((results, Some (Reading (object_key obj) e)), w1)
      | (Inr resourceVersion, w1) \<Rightarrow>
          (case cl_Update C obj resourceVersion w1 of
             (Inl e, w2) \<Rightarrow> ((results, Some (Updating (object_key obj) e)), w2)
           | (Inr _, w2) \<Rightarrow> apply_objects C (results @ [apply_line obj ''configured'']) objs w2))"

definition Apply :: "('w, 'q, 'm) cluster \<Rightarrow> ('q, 'm) Object list \<Rightarrow> 'w \<Rightarrow> (string list \<times> ApplyError option) \<times> 'w" where
  "Apply C objs w = apply_objects C [] objs w"

record PoolReport =
  pr_NodesMatched :: int
  pr_DevicesPublished :: int

datatype WaitError = WaitRead ApiError | WaitDone CtxError

text \<open>One round of \<open>WaitForPool\<close>: the report and the result to return, if any.\<close>

definition report_of :: "'m GPUPool \<Rightarrow> PoolReport" where
  "report_of pool = \<lparr> pr_NodesMatched = st_NodesMatched (pool_Status pool), pr_DevicesPublished = st_DevicesPublished (pool_Status pool) \<rparr>"

definition reconciled :: "'m GPUPool \<Rightarrow> bool" where
  "reconciled pool \<longleftrightarrow> st_ObservedGeneration (pool_Status pool) \<ge> pool_Generation pool"

partial_function (option) wait_loop ::
  "('w, 'q, 'm) cluster \<Rightarrow> string \<Rightarrow> PoolReport \<Rightarrow> 'w \<Rightarrow> ((PoolReport \<times> WaitError option) \<times> 'w) option" where
  "wait_loop C name seen w =
     (case cl_GetPool C name w of (r, w1) \<Rightarrow>
        (case (case r of
                 Inl NotFound \<Rightarrow> (seen, None)
               | Inl e \<Rightarrow> (seen, Some (Some (WaitRead e)))
               | Inr pool \<Rightarrow> (report_of pool,
                   if reconciled pool \<and> pr_DevicesPublished (report_of pool) > 0 then Some None else None)) of
           (seen1, Some result) \<Rightarrow> Some ((seen1, result), w1)
         | (seen1, None) \<Rightarrow>
             (case cl_Wait C w1 of
                (Some e, w2) \<Rightarrow> Some ((seen1, Some (WaitDone e)), w2)
              | (None, w2) \<Rightarrow> wait_loop C name seen1 w2)))"

definition WaitForPool ::
  "('w, 'q, 'm) cluster \<Rightarrow> string \<Rightarrow> 'w \<Rightarrow> ((PoolReport \<times> WaitError option) \<times> 'w) option" where
  "WaitForPool C name w = wait_loop C name \<lparr> pr_NodesMatched = 0, pr_DevicesPublished = 0 \<rparr> w"

section \<open>readonly.go\<close>

text \<open>What capture sees of a client: its reads. There is no operation that writes.\<close>

record ('w, 'q) ReadOnly =
  ro_ListNodes :: "'w \<Rightarrow> (ApiError + 'q Node list) \<times> 'w"
  ro_ListSlices :: "'w \<Rightarrow> (ApiError + 'q ResourceSlice list) \<times> 'w"

section \<open>main.go\<close>

datatype Command = UpCommand | StatusCommand | CaptureCommand | VersionCommand | UsageExit

definition command_of :: "string list \<Rightarrow> Command" where
  "command_of args =
     (case args of
        [] \<Rightarrow> UsageExit
      | a # _ \<Rightarrow>
          if a = ''up'' then UpCommand
          else if a = ''status'' then StatusCommand
          else if a = ''capture'' then CaptureCommand
          else if a = ''version'' \<or> a = ''--version'' then VersionCommand
          else UsageExit)"

text \<open>Why there is no client: the scheme, the kubeconfig or its context, or the connection.\<close>

datatype ClientError = SchemeFailed string | SchemePanicked string | NoKubeconfig string | BadContext string string | Connecting string

datatype 'q CmdError =
    FlagOutOfRange string int
  | BadOptions "'q UpError"
  | RenderFailed "string \<times> string"
  | NoClient ClientError
  | ApplyFailed ApplyError
  | ListFailed string ApiError
  | CaptureFailed CaptureError

text \<open>\<open>runCapture\<close> after its flags: the warnings it prints (that the slices were unreadable, then those of
  \<open>Capture\<close>) and the text or the error. A failed list leaves the slices empty.\<close>

record CaptureFlags =
  cf_nodes :: bool
  cf_gpusPerNode :: int

definition runCapture ::
  "'q quantity_ops \<Rightarrow> (('q, 'm) Object \<Rightarrow> string + string) \<Rightarrow> ('w, 'q) ReadOnly \<Rightarrow> CaptureFlags \<Rightarrow> 'w
   \<Rightarrow> (ApiError option \<times> 'q CaptureWarning list \<times> ('q CmdError + string)) \<times> 'w" where
  "runCapture Q marshal reader flags w =
     (case ro_ListNodes reader w of
        (Inl e, w1) \<Rightarrow> ((None, [], Inl (ListFailed ''nodes'' e)), w1)
      | (Inr nodes, w1) \<Rightarrow>
          (case ro_ListSlices reader w1 of (listed, w2) \<Rightarrow>
             (let published = (case listed of Inl _ \<Rightarrow> [] | Inr ss \<Rightarrow> ss);
                  unread = (case listed of Inl e \<Rightarrow> Some e | Inr _ \<Rightarrow> None)
              in case Capture Q nodes published \<lparr> co_GPUsPerNode = wrap32 (cf_gpusPerNode flags), co_EmitNodes = cf_nodes flags \<rparr> of
                   (result, Some e) \<Rightarrow> ((unread, [], Inl (CaptureFailed e)), w2)
                 | (result, None) \<Rightarrow>
                     ((unread, cr_Warnings result,
                       case RenderYAML marshal (cr_Objects result) of Inl e \<Rightarrow> Inl (RenderFailed e) | Inr rendered \<Rightarrow> Inr rendered), w2))))"

text \<open>The views of \<open>runStatus\<close>, and its three lists, which are read in this order.\<close>

record StatusFlags =
  sf_node :: string
  sf_devices :: bool
  sf_budgets :: bool

definition status_text :: "'q quantity_ops \<Rightarrow> StatusFlags \<Rightarrow> 'q Report \<Rightarrow> string" where
  "status_text Q flags report =
     (if \<not> sf_devices flags \<and> \<not> sf_budgets flags \<and> sf_node flags = []
      then RenderPools report @ (if rep_Pools report = [] then ''no GPUPools found'' @ [CHR 0x0A] else [])
      else
        (let showDevices = (if \<not> sf_devices flags \<and> \<not> sf_budgets flags then True else sf_devices flags)
         in (if showDevices then RenderDevices report (sf_node flags) else [])
            @ (if sf_budgets flags then (if showDevices then [CHR 0x0A] else []) @ RenderGPUs Q report (sf_node flags) else [])))"

definition runStatus ::
  "'q quantity_ops \<Rightarrow> ApiError + 'm GPUPool list \<Rightarrow> ApiError + 'q ResourceSlice list \<Rightarrow> ApiError + ResourceClaim list \<Rightarrow> StatusFlags
   \<Rightarrow> 'q CmdError + string" where
  "runStatus Q pools slices claims flags =
     (case pools of Inl e \<Rightarrow> Inl (ListFailed ''pools'' e) | Inr ps \<Rightarrow>
      (case slices of Inl e \<Rightarrow> Inl (ListFailed ''resource slices'' e) | Inr ss \<Rightarrow>
       (case claims of Inl e \<Rightarrow> Inl (ListFailed ''resource claims'' e) | Inr cs \<Rightarrow>
         Inr (status_text Q flags (BuildReport Q ps ss cs)))))"

record UpFlags =
  uf_opts :: UpOptions
  uf_gpus :: int
  uf_nvlink :: int
  uf_busy :: int
  uf_dryRun :: bool
  uf_wait :: int

text \<open>The loop that narrows the three numbers.\<close>

fun narrow_flags :: "(string \<times> int) list \<Rightarrow> 'q CmdError + int list" where
  "narrow_flags [] = Inr []"
| "narrow_flags ((name, value) # fs) =
     (if value > 2 ^ 31 - 1 \<or> value < - (2 ^ 31) then Inl (FlagOutOfRange name value)
      else (case narrow_flags fs of Inl e \<Rightarrow> Inl e | Inr vs \<Rightarrow> Inr (wrap32 value # vs)))"

definition up_options :: "UpFlags \<Rightarrow> 'q CmdError + UpOptions" where
  "up_options flags =
     (case narrow_flags [(''gpus-per-node'', uf_gpus flags), (''nvlink-domain-size'', uf_nvlink flags), (''busy-per-node'', uf_busy flags)] of
        Inl e \<Rightarrow> Inl e
      | Inr vs \<Rightarrow> Inr ((uf_opts flags)\<lparr> up_GPUsPerNode := vs ! 0, up_NVLinkDomainSize := vs ! 1, up_BusyPerNode := vs ! 2 \<rparr>))"

datatype PoolMessage = Simulating int int | NoDevicesAfter int | StatusUnreadable WaitError

text \<open>A connection: the cluster under the background context, under a deadline, and whether an error of a read is
  the deadline's.\<close>

record ('w, 'q, 'm) connection =
  cn_cluster :: "('w, 'q, 'm) cluster"
  cn_withTimeout :: "int \<Rightarrow> ('w, 'q, 'm) cluster"
  cn_IsDeadline :: "ApiError \<Rightarrow> bool"

definition reportPool :: "('w, 'q, 'm) connection \<Rightarrow> string \<Rightarrow> int \<Rightarrow> 'w \<Rightarrow> (PoolMessage \<times> 'w) option" where
  "reportPool N name timeout w =
     (case WaitForPool (cn_withTimeout N timeout) name w of
        None \<Rightarrow> None
      | Some ((report, err), w1) \<Rightarrow>
          Some ((case err of
                   None \<Rightarrow> Simulating (pr_DevicesPublished report) (pr_NodesMatched report)
                 | Some (WaitDone DeadlineExceeded) \<Rightarrow> NoDevicesAfter timeout
                 | Some (WaitDone e) \<Rightarrow> StatusUnreadable (WaitDone e)
                 | Some (WaitRead e) \<Rightarrow> if cn_IsDeadline N e then NoDevicesAfter timeout else StatusUnreadable (WaitRead e)), w1))"

text \<open>\<open>runUp\<close> after its flags: the lines printed, the message about the pool and the error, if any.\<close>

definition runUp ::
  "'q up_env \<Rightarrow> 'q quantity_ops \<Rightarrow> (('q, 'm) Object \<Rightarrow> string + string) \<Rightarrow> ClientError + ('w, 'q, 'm) connection \<Rightarrow> UpFlags \<Rightarrow> 'w
   \<Rightarrow> ((string list \<times> PoolMessage option \<times> 'q CmdError option) \<times> 'w) option" where
  "runUp E Q marshal connect flags w =
     (case up_options flags of Inl e \<Rightarrow> Some (([], None, Some e), w) | Inr opts \<Rightarrow>
      (case BuildManifests E Q opts of Inl e \<Rightarrow> Some (([], None, Some (BadOptions e)), w) | Inr objs \<Rightarrow>
        if uf_dryRun flags
        then Some ((case RenderYAML marshal objs of
                      Inl e \<Rightarrow> ([], None, Some (RenderFailed e)) | Inr rendered \<Rightarrow> ([rendered], None, None)), w)
        else
          (case connect of Inl err \<Rightarrow> Some (([], None, Some (NoClient err)), w) | Inr N \<Rightarrow>
            (case Apply (cn_cluster N) objs w of ((results, err), w1) \<Rightarrow>
              (case err of
                 Some e \<Rightarrow> Some ((results, None, Some (ApplyFailed e)), w1)
               | None \<Rightarrow>
                   if uf_wait flags > 0
                   then (case reportPool N (up_Name opts @ ''-pool'') (uf_wait flags) w1 of
                           None \<Rightarrow> None | Some (msg, w2) \<Rightarrow> Some ((results, Some msg, None), w2))
                   else Some ((results, None, None), w1))))))"

section \<open>Lemmas\<close>

lemma object_kind_simps [simp]:
  "object_kind (ModelObject m) = ''gpumodel''" "object_kind (PoolObject p) = ''gpupool''" "object_kind (NodeObject n) = ''node''"
proof -
  have "map char_of (lower_runes ''GPUModel'') = ''gpumodel''" "map char_of (lower_runes ''GPUPool'') = ''gpupool''"
    "map char_of (lower_runes ''Node'') = ''node''" by code_simp+
  then show "object_kind (ModelObject m) = ''gpumodel''" "object_kind (PoolObject p) = ''gpupool''" "object_kind (NodeObject n) = ''node''"
    by (simp_all add: object_kind_def kindGPUModel_def kindGPUPool_def node_TypeMeta_def)
qed

text \<open>A context whose deadline comes nearer with every round: \<open>left\<close> bounds the rounds to come.\<close>

definition nearing :: "('w, 'q, 'm) cluster \<Rightarrow> ('w \<Rightarrow> nat) \<Rightarrow> bool" where
  "nearing C left \<longleftrightarrow>
     (\<forall>name w r w1. cl_GetPool C name w = (r, w1) \<longrightarrow> left w1 \<le> left w) \<and> (\<forall>w w2. cl_Wait C w = (None, w2) \<longrightarrow> left w2 < left w)"

text \<open>What a result of \<open>WaitForPool\<close> may be, and which call left the world as it is.\<close>

definition wait_ok :: "('w, 'q, 'm) cluster \<Rightarrow> string \<Rightarrow> PoolReport \<times> WaitError option \<Rightarrow> 'w \<Rightarrow> bool" where
  "wait_ok C name = (\<lambda>(report, err) w'.
     case err of
       None \<Rightarrow> \<exists>pool w. cl_GetPool C name w = (Inr pool, w') \<and> reconciled pool \<and> report = report_of pool \<and> 0 < st_DevicesPublished (pool_Status pool)
     | Some (WaitRead e) \<Rightarrow> e \<noteq> NotFound \<and> (\<exists>w. cl_GetPool C name w = (Inl e, w'))
     | Some (WaitDone e) \<Rightarrow> \<exists>w. cl_Wait C w = (Some e, w'))"

text \<open>One round: it returns, or it waits and goes on with what it has seen.\<close>

definition wait_again :: "('w, 'q, 'm) cluster \<Rightarrow> string \<Rightarrow> 'w \<Rightarrow> PoolReport \<Rightarrow> ((PoolReport \<times> WaitError option) \<times> 'w) option" where
  "wait_again C name w1 seen =
     (case cl_Wait C w1 of (Some e, w2) \<Rightarrow> Some ((seen, Some (WaitDone e)), w2) | (None, w2) \<Rightarrow> wait_loop C name seen w2)"

lemma wait_round:
  assumes "cl_GetPool C name w = (r, w1)"
  shows "r = Inl NotFound \<Longrightarrow> wait_loop C name seen w = wait_again C name w1 seen"
    and "\<lbrakk> r = Inl e; e \<noteq> NotFound \<rbrakk> \<Longrightarrow> wait_loop C name seen w = Some ((seen, Some (WaitRead e)), w1)"
    and "\<lbrakk> r = Inr pool; reconciled pool \<and> 0 < pr_DevicesPublished (report_of pool) \<rbrakk>
      \<Longrightarrow> wait_loop C name seen w = Some ((report_of pool, None), w1)"
    and "\<lbrakk> r = Inr pool; \<not> (reconciled pool \<and> 0 < pr_DevicesPublished (report_of pool)) \<rbrakk>
      \<Longrightarrow> wait_loop C name seen w = wait_again C name w1 (report_of pool)"
  by (subst wait_loop.simps, force simp: assms wait_again_def split: ApiError.splits)+

lemma wait_loop_returns:
  assumes n: "nearing C left"
  shows "\<exists>result w'. wait_loop C name seen w = Some (result, w') \<and> wait_ok C name result w'"
proof (induction "left w" arbitrary: w seen rule: less_induct)
  case less
  obtain r w1 where g: "cl_GetPool C name w = (r, w1)" by (cases "cl_GetPool C name w")
  have again: "\<exists>result w'. wait_again C name w1 s = Some (result, w') \<and> wait_ok C name result w'" for s
  proof (cases "cl_Wait C w1")
    case (Pair c w2)
    show ?thesis
    proof (cases c)
      case None
      then have "left w2 < left w1" "left w1 \<le> left w" using n g Pair by (auto simp: nearing_def)
      then show ?thesis using less.hyps [of w2 s] None Pair by (simp add: wait_again_def)
    qed (use Pair in \<open>auto simp: wait_again_def wait_ok_def\<close>)
  qed
  show ?case
  proof (cases r)
    case (Inl e)
    then show ?thesis using g again wait_round(1,2) [OF g] by (cases "e = NotFound") (auto simp: wait_ok_def)
  next
    case (Inr pool)
    then show ?thesis using g again wait_round(3,4) [OF g]
      by (cases "reconciled pool \<and> 0 < pr_DevicesPublished (report_of pool)") (auto simp: wait_ok_def report_of_def)
  qed
qed

text \<open>A cluster that stores what it is given, under the key of its kind and name.\<close>

definition stores :: "('w, 'q, 'm) cluster \<Rightarrow> ('w \<Rightarrow> objectKey \<Rightarrow> (('q, 'm) Object \<times> string) option) \<Rightarrow> bool" where
  "stores C look \<longleftrightarrow>
     (\<forall>k w. cl_Get C k w = ((case look w k of None \<Rightarrow> Inl NotFound | Some (_, v) \<Rightarrow> Inr v), w))
   \<and> (\<forall>obj w. look w (object_key obj) = None \<longrightarrow>
        (\<exists>v w'. cl_Create C obj w = (Inr (), w') \<and> look w' = (look w)(object_key obj \<mapsto> (obj, v))))
   \<and> (\<forall>obj w old v. look w (object_key obj) = Some (old, v) \<longrightarrow>
        (\<exists>v' w'. cl_Update C obj v w = (Inr (), w') \<and> look w' = (look w)(object_key obj \<mapsto> (obj, v'))))"

definition outcome_line :: "(objectKey \<Rightarrow> 'a option) \<Rightarrow> ('q, 'm) Object \<Rightarrow> string" where
  "outcome_line m obj = apply_line obj (if m (object_key obj) = None then ''created'' else ''configured'')"

lemma stores_Get: "stores C look \<Longrightarrow> cl_Get C k w = ((case look w k of None \<Rightarrow> Inl NotFound | Some (_, v) \<Rightarrow> Inr v), w)"
  unfolding stores_def by blast

lemma apply_objects_step:
  assumes "stores C look"
  shows "\<exists>v w'. look w' = (look w)(object_key obj \<mapsto> (obj, v))
    \<and> apply_objects C results (obj # objs) w = apply_objects C (results @ [outcome_line (look w) obj]) objs w'"
proof (cases "look w (object_key obj)")
  case None
  then obtain v w' where "cl_Create C obj w = (Inr (), w')" "look w' = (look w)(object_key obj \<mapsto> (obj, v))"
    using assms unfolding stores_def by blast
  moreover have "cl_Get C (object_key obj) w = (Inl NotFound, w)" using None by (simp add: stores_Get [OF assms])
  ultimately show ?thesis using None by (intro exI [of _ v] exI [of _ w']) (simp add: outcome_line_def)
next
  case (Some s)
  obtain old v where s: "s = (old, v)" by (cases s)
  then obtain v' w' where "cl_Update C obj v w = (Inr (), w')" "look w' = (look w)(object_key obj \<mapsto> (obj, v'))"
    using assms Some unfolding stores_def by blast
  moreover have "cl_Get C (object_key obj) w = (Inr v, w)" using Some s by (simp add: stores_Get [OF assms])
  ultimately show ?thesis using Some by (intro exI [of _ v'] exI [of _ w']) (simp add: outcome_line_def)
qed

lemma apply_objects_stores:
  assumes s: "stores C look" and "distinct (map object_key objs)"
  shows "\<exists>w'. apply_objects C results objs w = ((results @ map (outcome_line (look w)) objs, None), w')
    \<and> (\<forall>obj \<in> set objs. \<exists>v. look w' (object_key obj) = Some (obj, v)) \<and> (\<forall>k. k \<notin> object_key ` set objs \<longrightarrow> look w' k = look w k)"
  using assms(2)
proof (induction objs arbitrary: results w)
  case (Cons obj objs)
  from apply_objects_step [OF s, of w obj results objs] obtain v w1 where
    w1: "look w1 = (look w)(object_key obj \<mapsto> (obj, v))"
    and step: "apply_objects C results (obj # objs) w = apply_objects C (results @ [outcome_line (look w) obj]) objs w1" by blast
  have fresh: "object_key obj \<notin> object_key ` set objs" and d: "distinct (map object_key objs)" using Cons.prems by simp_all
  from Cons.IH [OF d, of "results @ [outcome_line (look w) obj]" w1] obtain w' where
    run: "apply_objects C (results @ [outcome_line (look w) obj]) objs w1 =
      (((results @ [outcome_line (look w) obj]) @ map (outcome_line (look w1)) objs, None), w')"
    and stored: "\<forall>obj \<in> set objs. \<exists>v. look w' (object_key obj) = Some (obj, v)"
    and rest: "\<forall>k. k \<notin> object_key ` set objs \<longrightarrow> look w' k = look w1 k" by blast
  have "map (outcome_line (look w1)) objs = map (outcome_line (look w)) objs"
    using fresh by (intro map_cong refl) (auto simp: outcome_line_def w1 image_iff)
  moreover have "look w' (object_key obj) = Some (obj, v)" using rest [rule_format, OF fresh] w1 by simp
  ultimately show ?case using run stored rest w1 step by (intro exI [of _ w']) auto
qed simp

lemma BuildManifests_keys:
  "BuildManifests E Q opts = (Inr objs :: 'q UpError + ('q, 'm) Object list) \<Longrightarrow> distinct (map object_key objs)"
  by (auto simp: BuildManifests_def Let_def object_key_def split: sum.splits option.splits if_splits prod.splits)

text \<open>The objects that the flags of \<open>up\<close> describe.\<close>

definition up_manifests :: "'q up_env \<Rightarrow> 'q quantity_ops \<Rightarrow> UpFlags \<Rightarrow> 'q CmdError + ('q, 'm) Object list" where
  "up_manifests E Q flags =
     (case up_options flags of Inl e \<Rightarrow> Inl e
      | Inr opts \<Rightarrow> (case BuildManifests E Q opts of Inl e \<Rightarrow> Inl (BadOptions e) | Inr objs \<Rightarrow> Inr objs))"

lemma runUp_refused: "up_manifests E Q flags = (Inl e :: 'q CmdError + ('q, 'm) Object list) \<Longrightarrow>
    runUp E Q (marshal :: ('q, 'm) Object \<Rightarrow> string + string) connect flags w = Some (([], None, Some e), w)"
  by (auto simp: up_manifests_def runUp_def split: sum.splits)

lemma reportPool_returns:
  assumes "nearing (cn_withTimeout N timeout) left"
  shows "\<exists>msg w'. reportPool N name timeout w = Some (msg, w')"
proof -
  obtain report err w1 where "WaitForPool (cn_withTimeout N timeout) name w = Some ((report, err), w1)"
    using wait_loop_returns [OF assms, of name _ w] unfolding WaitForPool_def by (metis surj_pair)
  then show ?thesis by (simp add: reportPool_def)
qed

section \<open>Properties\<close>

text \<open>
  C33: \<open>WaitForPool\<close> returns. Its loop has no bound of its own, but when every round brings the context's deadline
  nearer it ends; a success reports a status that the operator wrote for the current generation, with devices, and
  a failure is an error of the read other than a missing pool, or the context's.
\<close>

theorem WaitForPool_returns:
  assumes "nearing C left"
  shows "\<exists>result w'. WaitForPool C name w = Some (result, w') \<and> wait_ok C name result w'"
  unfolding WaitForPool_def by (rule wait_loop_returns [OF assms])

text \<open>A cluster whose clock counts down and whose pool is reconciled when one round is left.\<close>

definition countdown_cluster :: "(nat, int, unit) cluster" where
  "countdown_cluster = \<lparr> cl_Get = \<lambda>k w. (Inl NotFound, w), cl_Create = \<lambda>obj w. (Inr (), w), cl_Update = \<lambda>obj v w. (Inr (), w),
     cl_GetPool = \<lambda>name w. (if w = 1 then Inr example_counted_pool else Inl NotFound, w),
     cl_Wait = \<lambda>w. if w = 0 then (Some DeadlineExceeded, w) else (None, w - 1) \<rparr>"

theorem WaitForPool_returns_witness:
  "\<exists>result w'. WaitForPool countdown_cluster ''h100-pool'' 3 = Some (result, w') \<and> wait_ok countdown_cluster ''h100-pool'' result w'"
proof -
  have "nearing countdown_cluster id" by (auto simp: nearing_def countdown_cluster_def split: if_splits)
  then show ?thesis by (rule WaitForPool_returns)
qed


text \<open>A cluster that is its own store; the resource version grows with every update.\<close>

definition stored_cluster :: "(objectKey \<Rightarrow> ((int, int ReadyMessage) Object \<times> string) option, int, int ReadyMessage) cluster" where
  "stored_cluster = \<lparr>
     cl_Get = \<lambda>k w. ((case w k of None \<Rightarrow> Inl NotFound | Some (_, v) \<Rightarrow> Inr v), w),
     cl_Create = \<lambda>obj w. if w (object_key obj) = None then (Inr (), w(object_key obj \<mapsto> (obj, ''1''))) else (Inl (ApiFailure ''exists''), w),
     cl_Update = \<lambda>obj v w. (case w (object_key obj) of
         Some (_, v') \<Rightarrow> if v = v' then (Inr (), w(object_key obj \<mapsto> (obj, v @ ''1''))) else (Inl (ApiFailure ''conflict''), w)
       | None \<Rightarrow> (Inl NotFound, w)),
     cl_GetPool = \<lambda>name w. (Inl NotFound, w), cl_Wait = \<lambda>w. (Some DeadlineExceeded, w) \<rparr>"



text \<open>The store above as a connection.\<close>

definition stored_connection ::
  "(objectKey \<Rightarrow> ((int, int ReadyMessage) Object \<times> string) option, int, int ReadyMessage) connection" where
  "stored_connection = \<lparr> cn_cluster = stored_cluster, cn_withTimeout = (\<lambda>_. stored_cluster), cn_IsDeadline = (\<lambda>_. False) \<rparr>"


text \<open>
  The numbers typed for \<open>up\<close> are the numbers used. They are narrowed to 32 bits only when they fit; otherwise the
  first that does not is named with the value typed.
\<close>

theorem up_options_exact:
  "up_options flags =
     (case find (\<lambda>(name, value). \<not> int32_range value)
        [(''gpus-per-node'', uf_gpus flags), (''nvlink-domain-size'', uf_nvlink flags), (''busy-per-node'', uf_busy flags)] of
        Some (name, value) \<Rightarrow> Inl (FlagOutOfRange name value)
      | None \<Rightarrow> Inr ((uf_opts flags)\<lparr> up_GPUsPerNode := uf_gpus flags, up_NVLinkDomainSize := uf_nvlink flags, up_BusyPerNode := uf_busy flags \<rparr>))"
proof -
  have n: "narrow_flags fs = (case find (\<lambda>(name, value). \<not> int32_range value) fs of
      Some (name, value) \<Rightarrow> Inl (FlagOutOfRange name value) | None \<Rightarrow> Inr (map snd fs))" for fs
    by (induction fs rule: narrow_flags.induct) (auto simp: int32_range_def split: option.splits prod.splits)
  show ?thesis unfolding up_options_def n by (auto split: option.splits prod.splits)
qed

text \<open>
  \<open>capture\<close> has no such check: its number of cards is taken modulo \<open>2 ^ 32\<close>, so 4294967304 means 8.
\<close>

theorem runCapture_flag_wraps:
  "runCapture Q marshal reader (flags\<lparr> cf_gpusPerNode := n + 2 ^ 32 \<rparr>) w = runCapture Q marshal reader (flags\<lparr> cf_gpusPerNode := n \<rparr>) w"
proof -
  have "wrap32 (n + 2 ^ 32) = wrap32 n"
    using mod_add_self2 [of "n + 2 ^ 31" "2 ^ 32"] by (simp add: wrap32_def add.commute)
  then have "\<lparr> co_GPUsPerNode = wrap32 (cf_gpusPerNode (flags\<lparr> cf_gpusPerNode := n + 2 ^ 32 \<rparr>)), co_EmitNodes = e \<rparr>
      = \<lparr> co_GPUsPerNode = wrap32 (cf_gpusPerNode (flags\<lparr> cf_gpusPerNode := n \<rparr>)), co_EmitNodes = e \<rparr>" for e by simp
  moreover have "cf_nodes (flags\<lparr> cf_gpusPerNode := m \<rparr>) = cf_nodes flags" for m by simp
  ultimately show ?thesis unfolding runCapture_def by presburger
qed

end
