(* ===== verification/Cli_Main.thy ===== *)
theory Cli_Main
  imports Cli_Apply Go_Flags
begin

text \<open>
  \<open>cmd/ghostgpu/main.go\<close> from the command line to the exit code: the dispatch, the flags of the three commands, the
  clients they connect with, and what is printed where. The commands behind their flags are in \<open>Cli_Apply\<close>, the registration
  of the API types in \<open>Type_Registry\<close>. The Kubernetes client libraries are parameters (\<open>client_libs\<close>): schemes, which
  configuration a context names, and what a connection answers. \<open>os.Exit\<close> ends \<open>run\<close> with a code; a panic while the types are
  registered ends the process with code 2, as the Go runtime does. A run of \<open>up\<close> that waits forever is \<open>None\<close>.
\<close>

section \<open>Clients\<close>

text \<open>A connection, as each of the commands uses it.\<close>

record ('w, 'q, 'm) api_client =
  ac_up :: "('w, 'q, 'm) connection"
  ac_reader :: "('w, 'q) ReadOnly"
  ac_ListPools :: "'w \<Rightarrow> ApiError + 'm GPUPool list"
  ac_ListSlices :: "'w \<Rightarrow> ApiError + 'q ResourceSlice list"
  ac_ListClaims :: "'w \<Rightarrow> ApiError + ResourceClaim list"

record ('s, 'b, 'cfg, 'w, 'q, 'm) client_libs =
  lib_scheme :: "('s, 'b) scheme_libs"
  lib_GetConfig :: "string + 'cfg"
  lib_ContextConfig :: "string \<Rightarrow> string + 'cfg"
  lib_New :: "'cfg \<Rightarrow> 's \<Rightarrow> string + ('w, 'q, 'm) api_client"

text \<open>The scheme with the API types, or how registering them failed.\<close>

definition client_scheme :: "('s, 'b) scheme_libs \<Rightarrow> ClientError + 's" where
  "client_scheme L = (case Scheme L of Registered s \<Rightarrow> Inr s | Refused e \<Rightarrow> Inl (SchemeFailed e) | Panicked p \<Rightarrow> Inl (SchemePanicked p))"

definition newClient :: "('s, 'b, 'cfg, 'w, 'q, 'm) client_libs \<Rightarrow> ClientError + ('w, 'q, 'm) api_client" where
  "newClient L =
     (case client_scheme (lib_scheme L) of Inl e \<Rightarrow> Inl e | Inr scheme \<Rightarrow>
      (case lib_GetConfig L of Inl e \<Rightarrow> Inl (NoKubeconfig e) | Inr cfg \<Rightarrow>
       (case lib_New L cfg scheme of Inl e \<Rightarrow> Inl (Connecting e) | Inr c \<Rightarrow> Inr c)))"

definition configFor :: "('s, 'b, 'cfg, 'w, 'q, 'm) client_libs \<Rightarrow> string \<Rightarrow> ClientError + 'cfg" where
  "configFor L kubeContext =
     (if kubeContext = [] then (case lib_GetConfig L of Inl e \<Rightarrow> Inl (NoKubeconfig e) | Inr cfg \<Rightarrow> Inr cfg)
      else (case lib_ContextConfig L kubeContext of Inl e \<Rightarrow> Inl (BadContext kubeContext e) | Inr cfg \<Rightarrow> Inr cfg))"

definition NewReadOnly :: "('w, 'q, 'm) api_client \<Rightarrow> ('w, 'q) ReadOnly" where
  "NewReadOnly c = ac_reader c"

definition newReader :: "('s, 'b, 'cfg, 'w, 'q, 'm) client_libs \<Rightarrow> string \<Rightarrow> ClientError + ('w, 'q) ReadOnly" where
  "newReader L kubeContext =
     (case client_scheme (lib_scheme L) of Inl e \<Rightarrow> Inl e | Inr scheme \<Rightarrow>
      (case configFor L kubeContext of Inl e \<Rightarrow> Inl e | Inr cfg \<Rightarrow>
       (case lib_New L cfg scheme of Inl e \<Rightarrow> Inl (Connecting e) | Inr c \<Rightarrow> Inr (NewReadOnly c))))"

section \<open>Flags\<close>

definition capture_flags :: flags where
  "capture_flags = fmap_of_list
     [(''context'', StringValue ''''), (''nodes'', BoolValue True), (''gpus-per-node'', IntValue 0)]"

definition status_flags :: flags where
  "status_flags = fmap_of_list
     [(''node'', StringValue ''''), (''devices'', BoolValue False), (''budgets'', BoolValue False)]"

definition up_flags :: flags where
  "up_flags = fmap_of_list
     [(''name'', StringValue ''h100''), (''gpu'', StringValue ''NVIDIA-H100-SXM''), (''memory'', StringValue ''80Gi''),
      (''compute-capability'', StringValue ''9.0''), (''gpus-per-node'', IntValue 8), (''nvlink-domain-size'', IntValue 4),
      (''numa'', BoolValue False), (''node-selector'', StringValue ''type=kwok''), (''sharing-mode'', StringValue ''none''),
      (''mig-profiles'', StringValue ''''), (''mig-partition'', StringValue ''''), (''busy-per-node'', IntValue 0),
      (''dra'', BoolValue True), (''extended-resource'', BoolValue True), (''dry-run'', BoolValue False),
      (''wait'', DurationValue (60 * 10 ^ 9))]"

text \<open>The variables the flags of \<open>up\<close> are bound to. The three numbers are narrowed into the options later.\<close>

definition read_up :: "flags \<Rightarrow> UpFlags" where
  "read_up fs =
     \<lparr> uf_opts =
         \<lparr> up_Name = string_flag fs ''name'', up_Product = string_flag fs ''gpu'', up_Memory = string_flag fs ''memory'',
           up_Compute = string_flag fs ''compute-capability'', up_GPUsPerNode = 0, up_NVLinkDomainSize = 0,
           up_NUMAAware = bool_flag fs ''numa'', up_NodeSelector = string_flag fs ''node-selector'', up_DRA = bool_flag fs ''dra'',
           up_ExtendedResource = bool_flag fs ''extended-resource'', up_SharingMode = string_flag fs ''sharing-mode'',
           up_MIGProfiles = string_flag fs ''mig-profiles'', up_MIGPartition = string_flag fs ''mig-partition'', up_BusyPerNode = 0 \<rparr>,
       uf_gpus = int_flag fs ''gpus-per-node'', uf_nvlink = int_flag fs ''nvlink-domain-size'', uf_busy = int_flag fs ''busy-per-node'',
       uf_dryRun = bool_flag fs ''dry-run'', uf_wait = duration_flag fs ''wait'' \<rparr>"

section \<open>The program\<close>

datatype Line = Text string | PoolLine PoolMessage

datatype 'q ErrLine =
    UsageText
  | FlagMessage FlagError
  | SlicesUnread ApiError
  | WarningLine "'q CaptureWarning"
  | ErrorLine "'q CmdError"
  | PanicLine string

text \<open>How \<open>run\<close> ends: it returns an error or nil, or it exits; with what was printed.\<close>

datatype 'q run_result =
    Return "'q CmdError option" "Line list" "'q ErrLine list"
  | Exit int "'q ErrLine list"

record ('s, 'b, 'cfg, 'w, 'q, 'm) program =
  pg_env :: "'q up_env"
  pg_quantity :: "'q quantity_ops"
  pg_marshal :: "('q, 'm) Object \<Rightarrow> string + string"
  pg_libs :: "('s, 'b, 'cfg, 'w, 'q, 'm) client_libs"
  pg_build :: BuildInfo

definition bad_flags :: "FlagError \<Rightarrow> 'q run_result" where
  "bad_flags e = Exit (flag_exit e) [FlagMessage e]"

definition runCapture_args :: "('s, 'b, 'cfg, 'w, 'q, 'm) program \<Rightarrow> string list \<Rightarrow> 'w \<Rightarrow> 'q run_result \<times> 'w" where
  "runCapture_args P args w =
     (case flag_Parse capture_flags args of
        Inl e \<Rightarrow> (bad_flags e, w)
      | Inr (fs, _) \<Rightarrow>
          (case newReader (pg_libs P) (string_flag fs ''context'') of
             Inl e \<Rightarrow> (Return (Some (NoClient e)) [] [], w)
           | Inr reader \<Rightarrow>
               (case runCapture (pg_quantity P) (pg_marshal P) reader
                       \<lparr> cf_nodes = bool_flag fs ''nodes'', cf_gpusPerNode = int_flag fs ''gpus-per-node'' \<rparr> w of
                  ((unread, warnings, result), w1) \<Rightarrow>
                    (let notes = (case unread of None \<Rightarrow> [] | Some e \<Rightarrow> [SlicesUnread e]) @ map WarningLine warnings
                     in (case result of Inl e \<Rightarrow> Return (Some e) [] notes | Inr rendered \<Rightarrow> Return None [Text rendered] notes, w1)))))"

definition runStatus_args :: "('s, 'b, 'cfg, 'w, 'q, 'm) program \<Rightarrow> string list \<Rightarrow> 'w \<Rightarrow> 'q run_result \<times> 'w" where
  "runStatus_args P args w =
     (case flag_Parse status_flags args of
        Inl e \<Rightarrow> (bad_flags e, w)
      | Inr (fs, _) \<Rightarrow>
          (case newClient (pg_libs P) of
             Inl e \<Rightarrow> (Return (Some (NoClient e)) [] [], w)
           | Inr c \<Rightarrow>
               ((case runStatus (pg_quantity P) (ac_ListPools c w) (ac_ListSlices c w) (ac_ListClaims c w)
                        \<lparr> sf_node = string_flag fs ''node'', sf_devices = bool_flag fs ''devices'', sf_budgets = bool_flag fs ''budgets'' \<rparr> of
                   Inl e \<Rightarrow> Return (Some e) [] [] | Inr shown \<Rightarrow> Return None [Text shown] []), w)))"

definition runUp_args :: "('s, 'b, 'cfg, 'w, 'q, 'm) program \<Rightarrow> string list \<Rightarrow> 'w \<Rightarrow> ('q run_result \<times> 'w) option" where
  "runUp_args P args w =
     (case flag_Parse up_flags args of
        Inl e \<Rightarrow> Some (bad_flags e, w)
      | Inr (fs, _) \<Rightarrow>
          (case runUp (pg_env P) (pg_quantity P) (pg_marshal P)
                  (case newClient (pg_libs P) of Inl e \<Rightarrow> Inl e | Inr c \<Rightarrow> Inr (ac_up c)) (read_up fs) w of
             None \<Rightarrow> None
           | Some ((lines, msg, err), w1) \<Rightarrow>
               Some (Return err (map Text lines @ (case msg of None \<Rightarrow> [] | Some m \<Rightarrow> [PoolLine m])) [], w1)))"

definition run :: "('s, 'b, 'cfg, 'w, 'q, 'm) program \<Rightarrow> string list \<Rightarrow> 'w \<Rightarrow> ('q run_result \<times> 'w) option" where
  "run P args w =
     (case command_of args of
        UpCommand \<Rightarrow> runUp_args P (tl args) w
      | StatusCommand \<Rightarrow> Some (runStatus_args P (tl args) w)
      | CaptureCommand \<Rightarrow> Some (runCapture_args P (tl args) w)
      | VersionCommand \<Rightarrow> Some (Return None [Text (VersionLine (pg_build P) @ [CHR 0x0A])] [], w)
      | UsageExit \<Rightarrow> Some (Exit 2 [UsageText], w))"

text \<open>How the process ends with an error: \<open>main\<close> prints it and exits with 1, or it was a panic.\<close>

fun exit_line :: "'q CmdError \<Rightarrow> int \<times> 'q ErrLine" where
  "exit_line (NoClient (SchemePanicked p)) = (2, PanicLine p)"
| "exit_line e = (1, ErrorLine e)"

text \<open>The exit code of the process and its two outputs.\<close>

definition cli_main :: "('s, 'b, 'cfg, 'w, 'q, 'm) program \<Rightarrow> string list \<Rightarrow> 'w \<Rightarrow> ((int \<times> Line list \<times> 'q ErrLine list) \<times> 'w) option" where
  "cli_main P args w =
     (case run P args w of
        None \<Rightarrow> None
      | Some (Exit code notes, w1) \<Rightarrow> Some ((code, [], notes), w1)
      | Some (Return None lines notes, w1) \<Rightarrow> Some ((0, lines, notes), w1)
      | Some (Return (Some e) lines notes, w1) \<Rightarrow> (case exit_line e of (code, line) \<Rightarrow> Some ((code, lines, notes @ [line]), w1)))"

section \<open>Lemmas\<close>

text \<open>A client whose reads leave the cluster as it is.\<close>

definition reads_only :: "('w, 'q, 'm) api_client \<Rightarrow> bool" where
  "reads_only c \<longleftrightarrow> (\<forall>w. snd (ro_ListNodes (ac_reader c) w) = w \<and> snd (ro_ListSlices (ac_reader c) w) = w)"

lemma newReader_reads:
  "newReader L ctx = Inr reader \<Longrightarrow> \<exists>cfg scheme c. lib_New L cfg scheme = Inr c \<and> reader = ac_reader c"
  by (auto simp: newReader_def NewReadOnly_def split: option.splits sum.splits)

lemma runCapture_reads:
  assumes "\<And>w. snd (ro_ListNodes reader w) = w" "\<And>w. snd (ro_ListSlices reader w) = w"
  shows "snd (runCapture Q marshal reader flags w) = w"
  using assms(1) [of w] assms(2) [of w] by (auto simp: runCapture_def Let_def split: prod.splits sum.splits option.splits)

lemma runCapture_args_reads:
  assumes "\<forall>cfg scheme c. lib_New (pg_libs P) cfg scheme = Inr c \<longrightarrow> reads_only c"
  shows "snd (runCapture_args P args w) = w"
proof (cases "flag_Parse capture_flags args")
  case (Inr ps)
  then obtain fs left where fs: "flag_Parse capture_flags args = Inr (fs, left)" by (cases ps) auto
  let ?flags = "\<lparr> cf_nodes = bool_flag fs ''nodes'', cf_gpusPerNode = int_flag fs ''gpus-per-node'' \<rparr>"
  show ?thesis
  proof (cases "newReader (pg_libs P) (string_flag fs ''context'')")
    case (Inr reader)
    have reads: "snd (runCapture (pg_quantity P) (pg_marshal P) reader ?flags w) = w"
      using newReader_reads [OF Inr] assms by (intro runCapture_reads) (auto simp: reads_only_def)
    then show ?thesis
      by (cases "runCapture (pg_quantity P) (pg_marshal P) reader ?flags w") (auto simp: runCapture_args_def fs Inr Let_def)
  qed (simp add: runCapture_args_def fs)
qed (simp add: runCapture_args_def)

lemma runStatus_args_reads: "snd (runStatus_args P args w) = w"
  by (auto simp: runStatus_args_def split: sum.splits prod.splits)

text \<open>What a run of \<open>up\<close> needs to change the cluster.\<close>

lemma runUp_writes:
  assumes "runUp E Q (marshal :: ('q, 'm) Object \<Rightarrow> string + string) connect flags w = Some (r, w')" "w' \<noteq> w"
  shows "\<not> uf_dryRun flags \<and> (\<exists>objs. up_manifests E Q flags = (Inr objs :: 'q CmdError + ('q, 'm) Object list)) \<and> (\<exists>N. connect = Inr N)"
  using assms by (auto simp: runUp_def up_manifests_def split: sum.splits if_splits)

text \<open>Without a cluster, a dry run is the same.\<close>

lemma runUp_dry: "uf_dryRun flags \<Longrightarrow> runUp E Q marshal connect flags w = runUp E Q marshal connect' flags w"
  by (simp add: runUp_def split: sum.split)

lemma command_of_up: "command_of args = UpCommand \<longleftrightarrow> (\<exists>rest. args = ''up'' # rest)"
  by (auto simp: command_of_def split: list.splits)

lemma cli_main_world: "cli_main P args w = Some (out, w') \<Longrightarrow> \<exists>r. run P args w = Some (r, w')"
  by (auto simp: cli_main_def split: option.splits prod.splits run_result.splits)

text \<open>The flags a command parses, and how they fail.\<close>

fun flags_of :: "Command \<Rightarrow> flags option" where
  "flags_of UpCommand = Some up_flags"
| "flags_of StatusCommand = Some status_flags"
| "flags_of CaptureCommand = Some capture_flags"
| "flags_of _ = None"

definition flag_failure :: "string list \<Rightarrow> FlagError option" where
  "flag_failure args =
     (case flags_of (command_of args) of None \<Rightarrow> None
      | Some fs \<Rightarrow> (case flag_Parse fs (tl args) of Inl e \<Rightarrow> Some e | Inr _ \<Rightarrow> None))"

text \<open>A run that parses its flags returns, and prints no line for an error.\<close>

definition no_error :: "'q ErrLine list \<Rightarrow> bool" where
  "no_error notes \<longleftrightarrow> (\<forall>e. ErrorLine e \<notin> set notes) \<and> (\<forall>p. PanicLine p \<notin> set notes)"

lemma run_returns:
  assumes "run P args w = Some (r, w')" "command_of args \<noteq> UsageExit" "flag_failure args = None"
  shows "\<exists>err lines notes. r = Return err lines notes \<and> no_error notes"
proof (cases "command_of args")
  case UpCommand
  then show ?thesis using assms by (auto simp: run_def flag_failure_def runUp_args_def no_error_def split: sum.splits option.splits prod.splits)
next
  case StatusCommand
  then show ?thesis using assms by (auto simp: run_def flag_failure_def runStatus_args_def no_error_def split: sum.splits)
next
  case CaptureCommand
  then show ?thesis using assms
    by (auto simp: run_def flag_failure_def runCapture_args_def no_error_def Let_def split: sum.splits prod.splits option.splits)
qed (use assms in \<open>auto simp: run_def no_error_def\<close>)

lemma run_exits:
  assumes "run P args w = Some (r, w')"
  shows "flag_failure args = Some e \<Longrightarrow> r = bad_flags e" and "command_of args = UsageExit \<Longrightarrow> r = Exit 2 [UsageText]"
  using assms
  by (auto simp: run_def flag_failure_def runUp_args_def runStatus_args_def runCapture_args_def split: option.splits sum.splits Command.splits)

text \<open>The exit code of a command that returns, from the last line on standard error.\<close>

lemma return_code:
  assumes "no_error ns" and "case err of None \<Rightarrow> code = 0 \<and> notes = ns | Some e \<Rightarrow> (\<exists>line. exit_line e = (code, line) \<and> notes = ns @ [line])"
  shows "(code = 2 \<longleftrightarrow> (\<exists>p. notes \<noteq> [] \<and> last notes = PanicLine p)) \<and> (code = 1 \<longleftrightarrow> (\<exists>e. notes \<noteq> [] \<and> last notes = ErrorLine e)) \<and> code \<in> {0, 1, 2}"
proof (cases err)
  case None
  have "last ns \<noteq> PanicLine p" "last ns \<noteq> ErrorLine e" if "ns \<noteq> []" for p e
    using last_in_set [OF that] assms(1) by (auto simp: no_error_def)
  then show ?thesis using None assms(2) by auto
next
  case (Some e)
  then show ?thesis using assms(2) by (cases e rule: exit_line.cases) auto
qed

text \<open>The flags of \<open>up\<close>, each written out.\<close>

definition up_settings :: "UpFlags \<Rightarrow> (string \<times> flag_value) list" where
  "up_settings f =
     [(''name'', StringValue (up_Name (uf_opts f))), (''gpu'', StringValue (up_Product (uf_opts f))),
      (''memory'', StringValue (up_Memory (uf_opts f))), (''compute-capability'', StringValue (up_Compute (uf_opts f))),
      (''gpus-per-node'', IntValue (uf_gpus f)), (''nvlink-domain-size'', IntValue (uf_nvlink f)),
      (''numa'', BoolValue (up_NUMAAware (uf_opts f))), (''node-selector'', StringValue (up_NodeSelector (uf_opts f))),
      (''sharing-mode'', StringValue (up_SharingMode (uf_opts f))), (''mig-profiles'', StringValue (up_MIGProfiles (uf_opts f))),
      (''mig-partition'', StringValue (up_MIGPartition (uf_opts f))), (''busy-per-node'', IntValue (uf_busy f)),
      (''dra'', BoolValue (up_DRA (uf_opts f))), (''extended-resource'', BoolValue (up_ExtendedResource (uf_opts f))),
      (''dry-run'', BoolValue (uf_dryRun f)), (''wait'', DurationValue (uf_wait f))]"

definition set_flags :: "flags \<Rightarrow> (string \<times> flag_value) list \<Rightarrow> flags" where
  "set_flags fs kvs = foldl (\<lambda>fs (name, v). fmupd name v fs) fs kvs"

lemma set_flags_lookup:
  "fmlookup (set_flags fs kvs) k = (case map_of (rev kvs) k of Some v \<Rightarrow> Some v | None \<Rightarrow> fmlookup fs k)"
  by (induction kvs rule: rev_induct) (auto simp: set_flags_def)

lemma up_settings_ok:
  assumes "int64_range (uf_gpus f)" "int64_range (uf_nvlink f)" "int64_range (uf_busy f)" "int64_range (uf_wait f)"
  shows "\<forall>(name, v) \<in> set (up_settings f). flag_name name \<and> in_range v \<and> (\<exists>u. fmlookup up_flags name = Some u \<and> same_kind u v)"
  using assms by (simp add: up_settings_def up_flags_def flag_name_def fmlookup_of_list)

lemma read_up_settings:
  "read_up (set_flags fs (up_settings f)) = f\<lparr> uf_opts := (uf_opts f)\<lparr> up_GPUsPerNode := 0, up_NVLinkDomainSize := 0, up_BusyPerNode := 0 \<rparr> \<rparr>"
  by (simp add: read_up_def string_flag_def bool_flag_def int_flag_def duration_flag_def set_flags_lookup up_settings_def)

lemma flag_Parse_settings:
  assumes "int64_range (uf_gpus f)" "int64_range (uf_nvlink f)" "int64_range (uf_busy f)" "int64_range (uf_wait f)"
  shows "flag_Parse up_flags (map render_flag (up_settings f) @ args) = flag_Parse (set_flags up_flags (up_settings f)) args"
  unfolding set_flags_def by (rule flag_Parse_render [OF up_settings_ok [OF assms]])

section \<open>Properties\<close>

text \<open>
  C13: only \<open>up\<close> writes. Whatever the arguments, if the program ends and the cluster is not what it was, then the command was \<open>up\<close>,
  its flags were accepted, \<open>--dry-run\<close> was not set, the flags describe objects and there was a client to apply them with. \<open>status\<close>,
  \<open>capture\<close>, a request for help, a usage error and a refused input leave the cluster as it is.
\<close>

theorem only_up_writes:
  fixes P :: "('s, 'b, 'cfg, 'w, 'q, 'm) program"
  assumes reads: "\<forall>cfg scheme c. lib_New (pg_libs P) cfg scheme = Inr c \<longrightarrow> reads_only c"
    and ends: "cli_main P args w = Some (out, w')" and changed: "w' \<noteq> w"
  shows "\<exists>rest fs left c. args = ''up'' # rest \<and> flag_Parse up_flags rest = Inr (fs, left) \<and> \<not> bool_flag fs ''dry-run''
    \<and> (\<exists>objs. up_manifests (pg_env P) (pg_quantity P) (read_up fs) = (Inr objs :: 'q CmdError + ('q, 'm) Object list))
    \<and> newClient (pg_libs P) = Inr c"
proof -
  obtain r where r: "run P args w = Some (r, w')" using cli_main_world [OF ends] by blast
  have "snd (runCapture_args P (tl args) w) = w" by (rule runCapture_args_reads) (rule reads)
  with r have up: "command_of args = UpCommand"
    using changed runStatus_args_reads [of P "tl args" w]
    by (auto simp: run_def split: Command.splits)
  then obtain rest where rest: "args = ''up'' # rest" using command_of_up by blast
  then obtain fs left res where fs: "flag_Parse up_flags rest = Inr (fs, left)"
    and run: "runUp (pg_env P) (pg_quantity P) (pg_marshal P) (case newClient (pg_libs P) of Inl e \<Rightarrow> Inl e | Inr c \<Rightarrow> Inr (ac_up c)) (read_up fs) w = Some (res, w')"
    using r up changed by (auto simp: run_def runUp_args_def split: sum.splits option.splits prod.splits)
  from runUp_writes [OF run changed] rest fs show ?thesis by (auto simp: read_up_def split: sum.splits)
qed

text \<open>A program over the cluster that is its own store; nothing is waited for.\<close>

definition example_client :: "(objectKey \<Rightarrow> ((int, int ReadyMessage) Object \<times> string) option, int, int ReadyMessage) api_client" where
  "example_client = \<lparr> ac_up = stored_connection, ac_reader = \<lparr> ro_ListNodes = (\<lambda>w. (Inr [], w)), ro_ListSlices = (\<lambda>w. (Inr [], w)) \<rparr>,
     ac_ListPools = (\<lambda>_. Inr []), ac_ListSlices = (\<lambda>_. Inr []), ac_ListClaims = (\<lambda>_. Inr []) \<rparr>"

definition example_program :: "(known_types, (known_types \<Rightarrow> known_types outcome) list, unit, objectKey \<Rightarrow> ((int, int ReadyMessage) Object \<times> string) option, int, int ReadyMessage) program" where
  "example_program = \<lparr> pg_env = example_env, pg_quantity = int_quantity, pg_marshal = (\<lambda>_. Inr []),
     pg_libs = \<lparr> lib_scheme = listed_libs, lib_GetConfig = Inr (),
       lib_ContextConfig = (\<lambda>_. Inr ()), lib_New = (\<lambda>_ _. Inr example_client) \<rparr>,
     pg_build = \<lparr> bi_Version = ''dev'', bi_Commit = [], bi_Date = [] \<rparr> \<rparr>"

definition example_flags :: UpFlags where
  "example_flags = \<lparr> uf_opts = example_opts ''80Gi'', uf_gpus = 8, uf_nvlink = 4, uf_busy = 2, uf_dryRun = False, uf_wait = 0 \<rparr>"

lemma example_run:
  "\<exists>lines w'. cli_main example_program (''up'' # map render_flag (up_settings example_flags)) Map.empty = Some ((0, lines, []), w') \<and> w' \<noteq> Map.empty"
proof -
  let ?fs = "set_flags up_flags (up_settings example_flags)"
  let ?objs = "[ModelObject (up_model (example_opts ''80Gi'') (80 * 2 ^ 30) []), PoolObject (example_up_pool ''80Gi'')]"
  have n: "env_ParseQuantity example_env ''80Gi'' = Inr (80 * 2 ^ 30)" by code_simp
  have b: "BuildManifests example_env int_quantity (example_opts ''80Gi'') = Inr ?objs" by (rule example_built [OF n _ example_options(1)]) simp
  have parsed: "flag_Parse up_flags (map render_flag (up_settings example_flags)) = Inr (?fs, [])"
    using flag_Parse_settings [of example_flags "[]"] by (simp add: example_flags_def int64_range_def)
  have o: "up_options (read_up ?fs) = (Inr (example_opts ''80Gi'') :: int CmdError + _)"
    unfolding read_up_settings by (simp add: up_options_def example_flags_def example_opts_def wrap32_def)
  have f: "\<not> uf_dryRun (read_up ?fs)" "uf_wait (read_up ?fs) = 0" unfolding read_up_settings by (simp_all add: example_flags_def)
  have st: "stores (cn_cluster stored_connection) (\<lambda>w. w)" by (auto simp: stores_def stored_cluster_def stored_connection_def)
  from apply_objects_stores [OF st BuildManifests_keys [OF b], of "[]" Map.empty] obtain w' lines where
    w': "Apply (cn_cluster stored_connection) ?objs Map.empty = ((lines, None), w')" "\<forall>obj \<in> set ?objs. \<exists>v. w' (object_key obj) = Some (obj, v)"
    unfolding Apply_def by auto
  have client: "newClient (pg_libs example_program) = Inr example_client"
    using listed_Scheme by (auto simp: newClient_def client_scheme_def example_program_def)
  have "runUp example_env int_quantity (\<lambda>_. Inr []) (Inr stored_connection) (read_up ?fs) Map.empty = Some ((lines, None, None), w')"
    using o b f w'(1) by (simp add: runUp_def)
  then have "cli_main example_program (''up'' # map render_flag (up_settings example_flags)) Map.empty = Some ((0, map Text lines, []), w')"
    using client by (simp add: cli_main_def run_def command_of_def runUp_args_def parsed) (simp add: example_program_def example_client_def)
  moreover have "w' \<noteq> Map.empty" using w'(2) by auto
  ultimately show ?thesis by blast
qed

theorem only_up_writes_witness:
  "\<exists>fs left. flag_Parse up_flags (map render_flag (up_settings example_flags)) = Inr (fs, left) \<and> \<not> bool_flag fs ''dry-run''"
proof -
  obtain lines w' where r: "cli_main example_program (''up'' # map render_flag (up_settings example_flags)) Map.empty = Some ((0, lines, []), w')" "w' \<noteq> Map.empty"
    using example_run by blast
  have "\<forall>cfg scheme c. lib_New (pg_libs example_program) cfg scheme = Inr c \<longrightarrow> reads_only c"
    by (auto simp: example_program_def example_client_def reads_only_def)
  from only_up_writes [OF this r] show ?thesis by auto
qed

text \<open>
  The exit code. It is 2 for a missing or unknown command, for flags that are not understood and for a panic, 1 exactly when a command
  returns an error, which is then the last line on standard error, and 0 otherwise, a request for help included.
\<close>

theorem cli_exit_code:
  assumes "cli_main P args w = Some ((code, lines, notes), w')"
  shows "(code = 2 \<longleftrightarrow> command_of args = UsageExit \<or> (\<exists>e. flag_failure args = Some e \<and> e \<noteq> ErrHelp)
          \<or> (\<exists>p. notes \<noteq> [] \<and> last notes = PanicLine p))
    \<and> (code = 1 \<longleftrightarrow> (\<exists>e. notes \<noteq> [] \<and> last notes = ErrorLine e)) \<and> code \<in> {0, 1, 2}
    \<and> (flag_failure args = Some ErrHelp \<longrightarrow> code = 0)"
proof -
  obtain r where r: "run P args w = Some (r, w')" using cli_main_world [OF assms] by blast
  note main = assms [unfolded cli_main_def r, simplified]
  show ?thesis
  proof (cases "flag_failure args")
    case (Some e)
    then have "command_of args \<noteq> UsageExit" by (auto simp: flag_failure_def)
    then show ?thesis using Some main run_exits(1) [OF r Some] by (auto simp: bad_flags_def flag_exit_def split: if_splits)
  next
    case None
    show ?thesis
    proof (cases "command_of args = UsageExit")
      case True
      then show ?thesis using None main run_exits(2) [OF r True] by auto
    next
      case False
      from run_returns [OF r False None] obtain err ls ns where ret: "r = Return err ls ns" "no_error ns" by blast
      have "case err of None \<Rightarrow> code = 0 \<and> notes = ns | Some e \<Rightarrow> (\<exists>line. exit_line e = (code, line) \<and> notes = ns @ [line])"
        using main by (auto simp: ret(1) split: option.splits prod.splits)
      from return_code [OF ret(2) this] None False show ?thesis by auto
    qed
  qed
qed

theorem cli_exit_code_witness:
  "cli_main example_program [''down''] Map.empty = Some ((2, [], [UsageText]), Map.empty)
   \<and> (command_of [''down''] = UsageExit \<or> (\<exists>e. flag_failure [''down''] = Some e \<and> e \<noteq> ErrHelp))"
proof -
  have r: "cli_main example_program [''down''] Map.empty = Some ((2, [], [UsageText]), Map.empty)"
    by (simp add: cli_main_def run_def command_of_def)
  from cli_exit_code [OF r] r show ?thesis by simp
qed

text \<open>
  C39: the flags of \<open>up\<close> are read back as they are written. For every setting of the sixteen flags, whatever the strings contain and as long as the
  numbers fit 64 bits, writing each as \<open>--name=value\<close> and parsing gives the setting and no argument left over, and
  the options built from it are those of the setting.
\<close>

theorem up_flags_roundtrip:
  assumes "int64_range (uf_gpus f)" "int64_range (uf_nvlink f)" "int64_range (uf_busy f)" "int64_range (uf_wait f)"
  shows "\<exists>fs. flag_Parse up_flags (map render_flag (up_settings f)) = Inr (fs, [])
    \<and> read_up fs = f\<lparr> uf_opts := (uf_opts f)\<lparr> up_GPUsPerNode := 0, up_NVLinkDomainSize := 0, up_BusyPerNode := 0 \<rparr> \<rparr>
    \<and> up_options (read_up fs) = (up_options f :: 'q CmdError + UpOptions)"
proof -
  have "flag_Parse up_flags (map render_flag (up_settings f)) = Inr (set_flags up_flags (up_settings f), [])"
    using flag_Parse_settings [OF assms, of "[]"] by simp
  moreover have "up_options (read_up (set_flags up_flags (up_settings f))) = (up_options f :: 'q CmdError + UpOptions)"
    unfolding read_up_settings by (simp add: up_options_def split: sum.split)
  ultimately show ?thesis using read_up_settings by blast
qed

theorem up_flags_roundtrip_witness:
  "\<exists>fs. flag_Parse up_flags (map render_flag (up_settings (read_up up_flags))) = Inr (fs, [])
    \<and> up_options (read_up fs) = (up_options (read_up up_flags) :: int CmdError + UpOptions)"
proof -
  have "int64_range (uf_gpus (read_up up_flags))" "int64_range (uf_nvlink (read_up up_flags))" "int64_range (uf_busy (read_up up_flags))"
    "int64_range (uf_wait (read_up up_flags))" by (simp_all add: read_up_def int_flag_def duration_flag_def up_flags_def fmlookup_of_list int64_range_def)
  from up_flags_roundtrip [OF this] show ?thesis by blast
qed

text \<open>
  An argument that is not a flag ends the flags, and nothing looks at what is left: \<open>ghostgpu up h100 --dry-run\<close> is
  \<open>ghostgpu up\<close> with its defaults, and writes to the cluster.
\<close>

theorem positional_arguments_hide_flags:
  assumes "length s < 2 \<or> hd s \<noteq> CHR ''-''"
  shows "cli_main P (''up'' # s # rest) w = cli_main P [''up''] w"
  by (simp add: cli_main_def run_def command_of_def runUp_args_def flag_Parse_positional [OF assms])

theorem positional_arguments_hide_flags_witness:
  "cli_main example_program [''up'', ''h100'', ''--dry-run''] w = cli_main example_program [''up''] w"
  by (rule positional_arguments_hide_flags) simp

text \<open>The Go type of an object that is written.\<close>

definition Node_type :: reflect_Type where
  "Node_type = \<lparr> rt_PkgPath = ''k8s.io/api/core/v1'', rt_Name = ''Node'' \<rparr>"

fun object_type :: "('q, 'm) Object \<Rightarrow> reflect_Type" where
  "object_type (ModelObject _) = v1alpha1_type ''GPUModel''"
| "object_type (PoolObject _) = v1alpha1_type ''GPUPool''"
| "object_type (NodeObject _) = Node_type"



end
