(* ===== verification/Dump_Slices.thy ===== *)
theory Dump_Slices
  imports Controller Go_Flags
begin

text \<open>
  \<open>hack/dump-migslices/main.go\<close>: the tool that prints the slices of a MIG pool without an operator. \<open>ParseQuantity\<close>, on whose errors
  \<open>MustParse\<close> panics, and \<open>yaml.Marshal\<close> are parameters. The tool prints what the operator publishes for the pool it describes.
\<close>

section \<open>main.go\<close>

definition dump_flags :: flags where
  "dump_flags = fmap_of_list
     [(''gpus'', IntValue 16), (''product'', StringValue ''NVIDIA-H100-80GB-HBM3''), (''memory'', StringValue ''80Gi''),
      (''node'', StringValue ''node-a''), (''busy'', IntValue 0), (''faulted'', IntValue 0)]"

definition dump_model :: "string \<Rightarrow> 'q \<Rightarrow> 'q GPUModel" where
  "dump_model product memory =
     \<lparr> model_Name = ''h100'', model_Spec = \<lparr> ms_Vendor = ''nvidia'', ms_ProductName = product, ms_Memory = memory,
         ms_ComputeCapability = ''9.0'', ms_MIGProfiles = [], ms_MIGBudget = None \<rparr> \<rparr>"

definition dump_pool :: "int \<Rightarrow> 'q pool" where
  "dump_pool gpus =
     \<lparr> pool_Name = ''h100-pool'', pool_Generation = 0,
       pool_Spec = \<lparr> ps_ModelRef = ''h100'', ps_NodeSelector = fmempty, ps_GPUsPerNode = wrap32 gpus,
         ps_Advertise = \<lparr> adv_DRA = None, adv_ExtendedResource = None \<rparr>,
         ps_MIGPartition = [], ps_Faults = [], ps_Utilization = None, ps_Occupancy = [],
         ps_SharingMode = SharingModeMIG, ps_Topology = \<lparr> top_NVLinkDomainSize = 4, top_NUMAAware = True \<rparr> \<rparr>,
       pool_Status = \<lparr> st_Conditions = [], st_ObservedGeneration = 0, st_NodesMatched = 0, st_DevicesPublished = 0,
         st_GPUsOccupied = 0, st_GPUsFaulted = 0, st_MIGProfilesPublished = 0 \<rparr> \<rparr>"

definition dump_state :: "int \<Rightarrow> int \<Rightarrow> NodeState" where
  "dump_state busy faulted = \<lparr> ns_Busy = wrap32 busy, ns_Faulted = wrap32 faulted, ns_Effect = [], ns_XID = 79 \<rparr>"

text \<open>A slice with the type metadata it is printed with.\<close>

record 'q typed_slice =
  tsl_APIVersion :: string
  tsl_Kind :: string
  tsl_slice :: "'q ResourceSlice"

definition typed :: "'q ResourceSlice \<Rightarrow> 'q typed_slice" where
  "typed sl = \<lparr> tsl_APIVersion = ''resource.k8s.io/v1'', tsl_Kind = ''ResourceSlice'', tsl_slice = sl \<rparr>"

datatype 'q DumpError = DumpResolve "'q MigError" | DumpMarshal string

text \<open>The loop: the text printed, and the error it stopped with.\<close>

fun dump_loop :: "('q typed_slice \<Rightarrow> string + string) \<Rightarrow> nat \<Rightarrow> 'q ResourceSlice list \<Rightarrow> string \<times> 'q DumpError option" where
  "dump_loop marshal i [] = ([], None)"
| "dump_loop marshal i (sl # sls) =
     (case marshal (typed sl) of
        Inl e \<Rightarrow> ([], Some (DumpMarshal e))
      | Inr out \<Rightarrow>
          (case dump_loop marshal (Suc i) sls of
             (rest, err) \<Rightarrow> ((if i > 0 then ''---'' @ [CHR 0x0A] else []) @ out @ rest, err)))"

datatype 'q dump_end = DumpFlags FlagError | DumpPanic | DumpPrinted string "'q DumpError option"

definition dump_slices ::
  "'q quantity_ops \<Rightarrow> (string \<Rightarrow> string + 'q) \<Rightarrow> flags \<Rightarrow> ('q DumpError + 'q ResourceSlice list) option" where
  "dump_slices Q parse fs =
     (case parse (string_flag fs ''memory'') of
        Inl _ \<Rightarrow> None
      | Inr memory \<Rightarrow>
          (let model = dump_model (string_flag fs ''product'') memory in
           case Resolve Q model of
             Inl e \<Rightarrow> Some (Inl (DumpResolve e))
           | Inr table \<Rightarrow>
               map_option Inr (BuildMIGSlices Q (dump_pool (int_flag fs ''gpus'') :: 'q pool) model table (string_flag fs ''node'')
                 (dump_state (int_flag fs ''busy'') (int_flag fs ''faulted'')))))"

definition dump_main ::
  "'q quantity_ops \<Rightarrow> (string \<Rightarrow> string + 'q) \<Rightarrow> ('q typed_slice \<Rightarrow> string + string) \<Rightarrow> string list \<Rightarrow> 'q dump_end" where
  "dump_main Q parse marshal args =
     (case flag_Parse dump_flags args of
        Inl e \<Rightarrow> DumpFlags e
      | Inr (fs, _) \<Rightarrow>
          (case dump_slices Q parse fs of
             None \<Rightarrow> DumpPanic
           | Some (Inl e) \<Rightarrow> DumpPrinted [] (Some e)
           | Some (Inr slices) \<Rightarrow> (case dump_loop marshal 0 slices of (out, err) \<Rightarrow> DumpPrinted out err)))"

fun dump_exit :: "'q dump_end \<Rightarrow> int" where
  "dump_exit (DumpFlags e) = flag_exit e"
| "dump_exit DumpPanic = 2"
| "dump_exit (DumpPrinted _ err) = (if err = None then 0 else 1)"

section \<open>Properties\<close>

text \<open>The pool a user would declare for what the tool is told.\<close>

definition declared_pool :: "int \<Rightarrow> int \<Rightarrow> int \<Rightarrow> 'q pool" where
  "declared_pool gpus busy faulted =
     (dump_pool gpus)\<lparr> pool_Spec := (pool_Spec (dump_pool gpus :: 'q pool))
       \<lparr> ps_Occupancy := [\<lparr> oe_NodeSelector = fmempty, oe_BusyPerNode = busy \<rparr>],
         ps_Faults := [\<lparr> fe_NodeSelector = fmempty, fe_GPUs = faulted, fe_Effect = FaultEffectEvict, fe_XID = 79 \<rparr>] \<rparr> \<rparr>"

lemma BuildMIGSlices_declarations:
  assumes "\<And>i. Taint s i = Taint s' i"
  shows "BuildMIGSlices Q (pool\<lparr> pool_Spec := (pool_Spec pool)\<lparr> ps_Occupancy := occ, ps_Faults := faults \<rparr> \<rparr>) model table node s
    = BuildMIGSlices Q pool model table node s'"
proof -
  let ?p = "pool\<lparr> pool_Spec := (pool_Spec pool)\<lparr> ps_Occupancy := occ, ps_Faults := faults \<rparr> \<rparr>"
  have c: "counter_slice Q ?p = counter_slice Q pool" by (simp add: fun_eq_iff counter_slice_def)
  have t: "tainted_migDevice Q ?p model node s = tainted_migDevice Q pool model node s'"
    by (simp add: fun_eq_iff tainted_migDevice_def migDevice_def assms)
  have d: "device_slice Q ?p model node s = device_slice Q pool model node s'"
    unfolding fun_eq_iff device_slice_def t by simp
  have i: "mig_instances ?p table = mig_instances pool table" by (simp add: mig_instances_def split: option.split)
  have g: "ps_GPUsPerNode (pool_Spec ?p) = ps_GPUsPerNode (pool_Spec pool)" by simp
  show ?thesis unfolding BuildMIGSlices_def i c d g ..
qed

lemma declared_taints:
  assumes "0 \<le> busy" "busy \<le> gpus" "0 \<le> faulted" "faulted \<le> gpus" "int32_range gpus"
  shows "Taint (StateFor (declared_pool gpus busy faulted :: 'q pool) node) i = Taint (dump_state busy faulted) i"
proof -
  have "int32_range busy" "int32_range faulted" using assms by (auto simp: int32_range_def)
  then show ?thesis using assms
    by (simp add: StateFor_def declared_pool_def dump_pool_def BusyGPUs_def selectorMatches_def dump_state_def Taint_def IsFaulted_def IsOccupied_def
        FaultedTaint_def FaultEffectEvict_def FaultEffectUnschedulable_def Let_def)
qed

text \<open>
  The tool prints what the operator publishes. For a number of cards that fits 32 bits and occupancy and faults within it, the slices it prints for a node are
  those the controller wants for that node under the pool that declares the same, taints included; when the product has no usable
  profiles it fails with the error for which the operator refuses the pool.
\<close>

theorem dump_prints_published:
  fixes Q :: "'q quantity_ops" and node :: "'q Node"
  assumes range: "int32_range gpus" "0 \<le> busy" "busy \<le> gpus" "0 \<le> faulted" "faulted \<le> gpus"
    and flags: "int_flag fs ''gpus'' = gpus" "int_flag fs ''busy'' = busy" "int_flag fs ''faulted'' = faulted" "string_flag fs ''node'' = nd_Name node"
    and memory: "parse (string_flag fs ''memory'') = Inr m"
  shows "case Resolve Q (dump_model (string_flag fs ''product'') m) of
      Inl e \<Rightarrow> dump_slices Q parse fs = Some (Inl (DumpResolve e))
        \<and> check_pool Q (declared_pool gpus busy faulted) (dump_model (string_flag fs ''product'') m) = Inl (''MIGProfilesInvalid'', MsgMig e)
    | Inr table \<Rightarrow> dump_slices Q parse fs =
        map_option Inr (desired_slices Q (declared_pool gpus busy faulted) (dump_model (string_flag fs ''product'') m) table node)"
proof (cases "Resolve Q (dump_model (string_flag fs ''product'') m)")
  case (Inl e)
  then show ?thesis using memory
    by (simp add: dump_slices_def check_pool_def declared_pool_def dump_pool_def MIGEnabled_def)
next
  case (Inr table)
  let ?p = "declared_pool gpus busy faulted :: 'q pool"
  have on: "DRAEnabled (ps_Advertise (pool_Spec ?p))" "MIGEnabled (pool_Spec ?p)"
    by (simp_all add: declared_pool_def dump_pool_def DRAEnabled_def MIGEnabled_def)
  have "desired_slices Q ?p (dump_model (string_flag fs ''product'') m) table node =
      BuildMIGSlices Q ?p (dump_model (string_flag fs ''product'') m) table (nd_Name node)
        (StateFor ?p node)"
    using on by (simp add: desired_slices_def)
  also have "\<dots> = BuildMIGSlices Q (dump_pool gpus :: 'q pool) (dump_model (string_flag fs ''product'') m) table (nd_Name node) (dump_state busy faulted)"
    unfolding declared_pool_def
    by (rule BuildMIGSlices_declarations) (rule declared_taints [unfolded declared_pool_def, OF range(2-5,1)])
  finally show ?thesis using Inr memory flags by (simp add: dump_slices_def)
qed

theorem dump_prints_published_witness:
  "case Resolve int_quantity (dump_model ''NVIDIA-H100-80GB-HBM3'' (80 * 2 ^ 30)) of
      Inl e \<Rightarrow> dump_slices int_quantity (\<lambda>_. Inr (80 * 2 ^ 30)) dump_flags = Some (Inl (DumpResolve e))
        \<and> check_pool int_quantity (declared_pool 16 0 0) (dump_model ''NVIDIA-H100-80GB-HBM3'' (80 * 2 ^ 30)) = Inl (''MIGProfilesInvalid'', MsgMig e)
    | Inr table \<Rightarrow> dump_slices int_quantity (\<lambda>_. Inr (80 * 2 ^ 30)) dump_flags =
        map_option Inr (desired_slices int_quantity (declared_pool 16 0 0) (dump_model ''NVIDIA-H100-80GB-HBM3'' (80 * 2 ^ 30)) table
          (example_node\<lparr> nd_Name := ''node-a'' \<rparr>))"
proof -
  have f: "int_flag dump_flags ''gpus'' = 16" "int_flag dump_flags ''busy'' = 0" "int_flag dump_flags ''faulted'' = 0"
    "string_flag dump_flags ''node'' = nd_Name (example_node\<lparr> nd_Name := ''node-a'' \<rparr>)" "string_flag dump_flags ''product'' = ''NVIDIA-H100-80GB-HBM3''"
    by (simp_all add: dump_flags_def int_flag_def string_flag_def fmlookup_of_list)
  have r: "int32_range 16" "(0::int) \<le> 0" "(0::int) \<le> 16" by (simp_all add: int32_range_def)
  from dump_prints_published [OF r(1) r(2,3) r(2,3) f(1-4), where parse = "\<lambda>_. Inr (80 * 2 ^ 30)" and Q = int_quantity, OF refl]
  show ?thesis unfolding f(5) .
qed

text \<open>
  The number of cards is narrowed without a check: 4294967312 cards are printed as 16.
\<close>

theorem dump_gpus_wrap: "dump_pool (n + 2 ^ 32) = dump_pool n"
proof -
  have "wrap32 (n + 2 ^ 32) = wrap32 n" using mod_add_self2 [of "n + 2 ^ 31" "2 ^ 32"] by (simp add: wrap32_def add.commute)
  then show ?thesis by (simp add: dump_pool_def)
qed

end
