(* ===== verification/Test_Utils.thy ===== *)
theory Test_Utils
  imports Go_Strings
begin

text \<open>
  \<open>test/utils/utils.go\<close>: the helpers of the end-to-end tests. The operating system is a record of operations on a world \<open>'w\<close>.
  What is written to the log of the test framework is left out; the warnings of \<open>UninstallCertManager\<close> are returned.
  The text of an error is kept as a value. Writing to a buffer in memory never fails, so those errors of \<open>UncommentCode\<close> do not occur.
\<close>

section \<open>Standard library\<close>

text \<open>\<open>strings.Index\<close>, and \<open>strings.ReplaceAll\<close> with nothing in place of a non-empty string.\<close>

fun Index :: "string \<Rightarrow> string \<Rightarrow> nat option" where
  "Index [] sub = (if sub = [] then Some 0 else None)"
| "Index (c # cs) sub = (if HasPrefix (c # cs) sub then Some 0 else map_option Suc (Index cs sub))"

function DeleteAll :: "string \<Rightarrow> string \<Rightarrow> string" where
  "DeleteAll s old =
     (if old = [] then s else if HasPrefix s old then DeleteAll (drop (length old) s) old
      else (case s of [] \<Rightarrow> [] | c # cs \<Rightarrow> c # DeleteAll cs old))"
  by pat_completeness auto
termination
proof (relation "measure (\<lambda>(s, _). length s)")
  fix s old :: string assume "old \<noteq> []" "HasPrefix s old"
  then have "0 < length old" "0 < length s" by (auto simp: HasPrefix_def)
  then show "((drop (length old) s, old), (s, old)) \<in> measure (\<lambda>(s, _). length s)" by simp
qed auto

declare DeleteAll.simps [simp del]

text \<open>
  The lines of a \<open>bufio.Scanner\<close>: without their ends, a carriage return in front of it included; what follows the last
  newline is a line only if it is not empty. Scanning stops, without a sign to a caller that does not ask, at
  the first line that does not fit the buffer.
\<close>

definition MaxScanTokenSize :: nat where "MaxScanTokenSize = 64 * 1024"

definition newline :: char where "newline = CHR 0x0A"
definition carriage_return :: char where "carriage_return = CHR 0x0D"

definition raw_lines :: "string \<Rightarrow> string list" where
  "raw_lines s = (let parts = Split s newline in if last parts = [] then butlast parts else parts)"

definition scan_lines :: "string \<Rightarrow> string list" where
  "scan_lines s = map (\<lambda>l. TrimSuffix l [carriage_return]) (takeWhile (\<lambda>l. length l < MaxScanTokenSize) (raw_lines s))"

section \<open>utils.go\<close>

record cmd =
  cmd_Args :: "string list"
  cmd_Dir :: string
  cmd_Env :: "string list"

record 'w os_ops =
  os_Getwd :: "'w \<Rightarrow> string \<times> string option"
  os_Chdir :: "string \<Rightarrow> 'w \<Rightarrow> string option \<times> 'w"
  os_Environ :: "'w \<Rightarrow> string list"
  os_LookupEnv :: "string \<Rightarrow> 'w \<Rightarrow> string option"
  os_CombinedOutput :: "cmd \<Rightarrow> 'w \<Rightarrow> (string \<times> string option) \<times> 'w"
  os_ReadFile :: "string \<Rightarrow> 'w \<Rightarrow> string + string"
  os_WriteFile :: "string \<Rightarrow> string \<Rightarrow> 'w \<Rightarrow> string option \<times> 'w"

datatype UtilError =
    GetwdFailed string
  | CommandFailed string string string
  | ReadFileFailed string string
  | TargetNotFound string
  | WriteFileFailed string string

definition certmanagerVersion :: string where "certmanagerVersion = ''v1.20.2''"

definition certmanagerURL :: string where
  "certmanagerURL = ''https://github.com/cert-manager/cert-manager/releases/download/'' @ certmanagerVersion @ ''/cert-manager.yaml''"

definition defaultKindBinary :: string where "defaultKindBinary = ''kind''"
definition defaultKindCluster :: string where "defaultKindCluster = ''kind''"

definition GetProjectDir :: "'w os_ops \<Rightarrow> 'w \<Rightarrow> string \<times> UtilError option" where
  "GetProjectDir S w =
     (case os_Getwd S w of
        (wd, Some e) \<Rightarrow> (wd, Some (GetwdFailed e))
      | (wd, None) \<Rightarrow> (DeleteAll wd ''/test/e2e'', None))"

definition Run :: "'w os_ops \<Rightarrow> string list \<Rightarrow> 'w \<Rightarrow> (string \<times> UtilError option) \<times> 'w" where
  "Run S args w =
     (let dir = fst (GetProjectDir S w);
          w1 = snd (os_Chdir S dir w);
          cmd = \<lparr> cmd_Args = args, cmd_Dir = dir, cmd_Env = os_Environ S w1 @ [''GO111MODULE=on''] \<rparr>
      in case os_CombinedOutput S cmd w1 of
           ((output, Some e), w2) \<Rightarrow> ((output, Some (CommandFailed (Join args '' '') output e)), w2)
         | ((output, None), w2) \<Rightarrow> ((output, None), w2))"

text \<open>Commands one after another, whose errors are only warned about.\<close>

fun run_warning :: "'w os_ops \<Rightarrow> string list list \<Rightarrow> 'w \<Rightarrow> UtilError list \<times> 'w" where
  "run_warning S [] w = ([], w)"
| "run_warning S (args # rest) w =
     (case Run S args w of ((_, err), w1) \<Rightarrow>
        (case run_warning S rest w1 of (warnings, w2) \<Rightarrow> ((case err of None \<Rightarrow> [] | Some e \<Rightarrow> [e]) @ warnings, w2)))"

definition kubeSystemLeases :: "string list" where
  "kubeSystemLeases = [''cert-manager-cainjector-leader-election'', ''cert-manager-controller'']"

definition UninstallCertManager :: "'w os_ops \<Rightarrow> 'w \<Rightarrow> UtilError list \<times> 'w" where
  "UninstallCertManager S w =
     run_warning S ([''kubectl'', ''delete'', ''-f'', certmanagerURL]
       # map (\<lambda>lease. [''kubectl'', ''delete'', ''lease'', lease, ''-n'', ''kube-system'', ''--ignore-not-found'', ''--force'', ''--grace-period=0''])
           kubeSystemLeases) w"

definition InstallCertManager :: "'w os_ops \<Rightarrow> 'w \<Rightarrow> UtilError option \<times> 'w" where
  "InstallCertManager S w =
     (case Run S [''kubectl'', ''apply'', ''-f'', certmanagerURL] w of
        ((_, Some e), w1) \<Rightarrow> (Some e, w1)
      | ((_, None), w1) \<Rightarrow>
          (case Run S [''kubectl'', ''wait'', ''deployment.apps/cert-manager-webhook'', ''--for'', ''condition=Available'',
                  ''--namespace'', ''cert-manager'', ''--timeout'', ''5m''] w1 of
             ((_, err), w2) \<Rightarrow> (err, w2)))"

definition GetNonEmptyLines :: "string \<Rightarrow> string list" where
  "GetNonEmptyLines output = filter (\<lambda>element. element \<noteq> []) (Split output newline)"

definition certManagerCRDs :: "string list" where
  "certManagerCRDs = [''certificates.cert-manager.io'', ''issuers.cert-manager.io'', ''clusterissuers.cert-manager.io'',
     ''certificaterequests.cert-manager.io'', ''orders.acme.cert-manager.io'', ''challenges.acme.cert-manager.io'']"

definition IsCertManagerCRDsInstalled :: "'w os_ops \<Rightarrow> 'w \<Rightarrow> bool \<times> 'w" where
  "IsCertManagerCRDsInstalled S w =
     (case Run S [''kubectl'', ''get'', ''crds''] w of
        ((_, Some _), w1) \<Rightarrow> (False, w1)
      | ((output, None), w1) \<Rightarrow> (list_ex (\<lambda>crd. list_ex (\<lambda>line. Contains line crd) (GetNonEmptyLines output)) certManagerCRDs, w1))"

definition LoadImageToKindClusterWithName :: "'w os_ops \<Rightarrow> string \<Rightarrow> 'w \<Rightarrow> UtilError option \<times> 'w" where
  "LoadImageToKindClusterWithName S name w =
     (let cluster = (case os_LookupEnv S ''KIND_CLUSTER'' w of Some v \<Rightarrow> v | None \<Rightarrow> defaultKindCluster);
          kindBinary = (case os_LookupEnv S ''KIND'' w of Some v \<Rightarrow> v | None \<Rightarrow> defaultKindBinary)
      in case Run S (kindBinary # [''load'', ''docker-image'', name, ''--name'', cluster]) w of ((_, err), w1) \<Rightarrow> (err, w1))"

definition UncommentCode :: "'w os_ops \<Rightarrow> string \<Rightarrow> string \<Rightarrow> string \<Rightarrow> 'w \<Rightarrow> UtilError option \<times> 'w" where
  "UncommentCode S filename target marker w =
     (case os_ReadFile S filename w of
        Inl e \<Rightarrow> (Some (ReadFileFailed filename e), w)
      | Inr content \<Rightarrow>
          (case Index content target of
             None \<Rightarrow> (Some (TargetNotFound target), w)
           | Some idx \<Rightarrow>
               (let lines = scan_lines target in
                if lines = [] then (None, w)
                else
                    (let out = take idx content @ Join (map (\<lambda>l. TrimPrefix l marker) lines) [newline] @ drop (idx + length target) content
                     in case os_WriteFile S filename out w of
                          (Some e, w1) \<Rightarrow> (Some (WriteFileFailed filename e), w1)
                        | (None, w1) \<Rightarrow> (None, w1)))))"

section \<open>Lemmas\<close>

lemma HasPrefix_Cons: "HasPrefix (c # cs) (d # ds) \<longleftrightarrow> c = d \<and> HasPrefix cs ds"
  by (auto simp: HasPrefix_def)

lemma HasPrefix_first_part: "sep \<notin> set sub \<Longrightarrow> HasPrefix s sub \<longleftrightarrow> HasPrefix (hd (Split s sep)) sub"
proof (induction s arbitrary: sub)
  case (Cons c cs)
  show ?case
  proof (cases sub)
    case (Cons d ds)
    with Cons.prems have "sep \<notin> set ds" "d \<noteq> sep" by auto
    with Cons.IH [of ds] Cons show ?thesis
      by (cases "Split cs sep") (auto simp: HasPrefix_Cons HasPrefix_def [of "[]"])
  qed (simp add: HasPrefix_def)
qed simp

lemma Contains_parts: "sep \<notin> set sub \<Longrightarrow> Contains s sub \<longleftrightarrow> (\<exists>part \<in> set (Split s sep). Contains part sub)"
proof (induction s)
  case (Cons c cs)
  obtain part parts where parts: "Split cs sep = part # parts" by (cases "Split cs sep") auto
  have "HasPrefix (c # cs) sub \<longleftrightarrow> HasPrefix (hd (Split (c # cs) sep)) sub" by (rule HasPrefix_first_part [OF Cons.prems])
  then show ?case using Cons parts by (cases "c = sep") (auto simp: HasPrefix_def)
qed simp

text \<open>Lines that are joined are scanned as they were, when they fit the buffer, do not end in a carriage return and the last is not empty.\<close>

definition plain_line :: "string \<Rightarrow> bool" where
  "plain_line l \<longleftrightarrow> newline \<notin> set l \<and> carriage_return \<notin> set l \<and> length l < MaxScanTokenSize"

lemma scan_lines_Join:
  assumes "ls \<noteq> []" "\<forall>l \<in> set ls. plain_line l" "last ls \<noteq> []"
  shows "scan_lines (Join ls [newline]) = ls" and "scan_lines (Join ls [newline] @ [newline]) = ls"
proof -
  have id: "map (\<lambda>l. TrimSuffix l [carriage_return]) (takeWhile (\<lambda>l. length l < MaxScanTokenSize) ls) = ls"
  proof -
    have fit: "takeWhile (\<lambda>l. length l < MaxScanTokenSize) ls = ls" using assms(2) by (simp add: plain_line_def takeWhile_eq_all_conv)
    have "TrimSuffix l [carriage_return] = l" if "l \<in> set ls" for l
      using assms(2) that by (cases l rule: rev_cases) (auto simp: TrimSuffix_def HasSuffix_def plain_line_def)
    then show ?thesis unfolding fit by (rule map_idI)
  qed
  have split: "Split (Join ls [newline]) newline = ls" using assms(1,2) by (intro Split_Join) (auto simp: plain_line_def)
  then show "scan_lines (Join ls [newline]) = ls" using assms(3) id by (simp add: scan_lines_def raw_lines_def Let_def)
  have "Join ls [newline] @ [newline] = Join (ls @ [[]]) [newline]" using assms(1) by (induction ls "[newline]" rule: Join.induct) (auto simp: neq_Nil_conv)
  moreover have "Split (Join (ls @ [[]]) [newline]) newline = ls @ [[]]" using assms(2) by (intro Split_Join) (auto simp: plain_line_def)
  ultimately have "Split (Join ls [newline] @ [newline]) newline = ls @ [[]]" by simp
  then show "scan_lines (Join ls [newline] @ [newline]) = ls" using id by (simp add: scan_lines_def raw_lines_def Let_def)
qed

section \<open>Properties\<close>

text \<open>
  \<open>UncommentCode\<close> removes the marker in front of every line of the first occurrence of a block and changes nothing else. The block has
  to end without a newline: with one, the newline is lost and what follows is joined to the last line.
\<close>

theorem UncommentCode_block:
  assumes "ls \<noteq> []" "\<forall>l \<in> set ls. plain_line (marker @ l)" "marker @ last ls \<noteq> []"
    and target: "target = Join (map (\<lambda>l. marker @ l) ls) [newline]"
    and content: "os_ReadFile S filename w = Inr (before @ target @ eol @ after)" "eol = [] \<or> eol = [newline]"
    and found: "Index (before @ target @ eol @ after) (target @ eol) = Some (length before)"
  shows "UncommentCode S filename (target @ eol) marker w =
    (case os_WriteFile S filename (before @ Join ls [newline] @ after) w of
       (Some e, w1) \<Rightarrow> (Some (WriteFileFailed filename e), w1) | (None, w1) \<Rightarrow> (None, w1))"
proof -
  let ?ls = "map (\<lambda>l. marker @ l) ls"
  have "scan_lines (target @ eol) = ?ls"
    unfolding target using content(2) assms(1-3) scan_lines_Join [of ?ls] by (auto simp: last_map)
  moreover have "map (\<lambda>l. TrimPrefix l marker) ?ls = ls" by (simp add: TrimPrefix_def HasPrefix_def o_def)
  moreover have "?ls \<noteq> []" using assms(1) by simp
  ultimately show ?thesis by (simp add: UncommentCode_def content(1) found Let_def)
qed

text \<open>The cert-manager is found exactly when \<open>kubectl\<close> succeeds and one of the names occurs in its output; lines do not matter.\<close>

theorem IsCertManagerCRDsInstalled_iff:
  "fst (IsCertManagerCRDsInstalled S w) \<longleftrightarrow>
     (\<exists>output. fst (Run S [''kubectl'', ''get'', ''crds''] w) = (output, None) \<and> (\<exists>crd \<in> set certManagerCRDs. Contains output crd))"
proof -
  have "list_ex (\<lambda>line. Contains line crd) (GetNonEmptyLines out) \<longleftrightarrow> Contains out crd" if "crd \<in> set certManagerCRDs" for crd out
  proof -
    have "newline \<notin> set crd" "crd \<noteq> []" using that by (auto simp: certManagerCRDs_def newline_def)
    then show ?thesis by (auto simp: GetNonEmptyLines_def list_ex_iff Contains_parts [of newline crd out])
  qed
  then show ?thesis
    by (cases "Run S [''kubectl'', ''get'', ''crds''] w") (auto simp: IsCertManagerCRDsInstalled_def list_ex_iff split: option.splits)
qed

text \<open>Uninstalling runs all three commands, whichever of them fail.\<close>

lemma run_warning_world: "snd (run_warning S cmds w) = foldl (\<lambda>w c. snd (Run S c w)) w cmds"
proof (induction cmds arbitrary: w)
  case (Cons c cs)
  from Cons [of "snd (Run S c w)"] show ?case by (auto split: prod.splits)
qed simp

theorem UninstallCertManager_runs_all:
  "snd (UninstallCertManager S w) = foldl (\<lambda>w c. snd (Run S c w)) w
     ([''kubectl'', ''delete'', ''-f'', certmanagerURL]
      # map (\<lambda>lease. [''kubectl'', ''delete'', ''lease'', lease, ''-n'', ''kube-system'', ''--ignore-not-found'', ''--force'', ''--grace-period=0'']) kubeSystemLeases)"
  unfolding UninstallCertManager_def by (rule run_warning_world)

text \<open>A file in memory, and the block a scaffolded kustomization has commented out.\<close>

definition memory_file :: "string os_ops" where
  "memory_file = \<lparr> os_Getwd = (\<lambda>_. ([], None)), os_Chdir = (\<lambda>_ w. (None, w)), os_Environ = (\<lambda>_. []), os_LookupEnv = (\<lambda>_ _. None),
     os_CombinedOutput = (\<lambda>_ w. (([], None), w)), os_ReadFile = (\<lambda>_. Inr), os_WriteFile = (\<lambda>_ new _. (None, new)) \<rparr>"

theorem UncommentCode_block_witness:
  "UncommentCode memory_file ''k.yaml'' (''#b'' @ [newline]) ''#'' (''a'' @ ''#b'' @ [newline] @ ''c'') = (None, ''abc'')"
proof -
  have i: "Index (''a'' @ ''#b'' @ [newline] @ ''c'') (''#b'' @ [newline]) = Some (length ''a'')" by (simp add: HasPrefix_def)
  have t: "''#b'' = Join (map (\<lambda>l. ''#'' @ l) [''b'']) [newline]" by simp
  have p: "\<forall>l \<in> set [''b'']. plain_line (''#'' @ l)"
    by (simp add: plain_line_def newline_def carriage_return_def MaxScanTokenSize_def)
  have f: "os_ReadFile memory_file ''k.yaml'' (''a'' @ ''#b'' @ [newline] @ ''c'') = Inr (''a'' @ ''#b'' @ [newline] @ ''c'')"
    by (simp add: memory_file_def)
  from UncommentCode_block [OF _ p _ t f _ i] show ?thesis by (simp add: memory_file_def)
qed

end
