(* ===== verification/Recapture.thy ===== *)
theory Recapture
  imports Cli_Capture
begin

text \<open>
  Capture and simulation composed: the manifests that \<open>capture\<close> derives from a node the operator simulates describe the same
  cards again. What a captured pool publishes on any node, its labels and its resources, is what the original pool
  publishes there.
\<close>

section \<open>Devices up to the representation of quantities\<close>

definition same_device :: "('q \<Rightarrow> rat) \<Rightarrow> 'q Device \<Rightarrow> 'q Device \<Rightarrow> bool" where
  "same_device amt d e \<longleftrightarrow> dv_Name d = dv_Name e \<and> dv_Attributes d = dv_Attributes e \<and> dv_Taints d = dv_Taints e
     \<and> dv_ConsumesCounters d = dv_ConsumesCounters e \<and> fmrel (\<lambda>a b. amt a = amt b) (dv_Capacity d) (dv_Capacity e)"

text \<open>Topologies that put the same cards into the same NVLink domains give them the same attributes.\<close>

lemma domain_decides_NUMA: "NVLinkDomain i a = NVLinkDomain i b \<Longrightarrow> NUMANode i a = NUMANode i b"
  by (auto simp: NVLinkDomain_def NUMANode_def split: if_splits)

lemma gpu_device_same:
  fixes pool :: "'m GPUPool" and pool' :: "'n GPUPool"
  assumes "ms_ProductName (model_Spec model') = ms_ProductName (model_Spec model)" "ms_Vendor (model_Spec model') = ms_Vendor (model_Spec model)"
    and mem: "amt (ms_Memory (model_Spec model')) = amt (ms_Memory (model_Spec model))"
    and dom: "NVLinkDomain i (top_NVLinkDomainSize (ps_Topology (pool_Spec pool'))) = NVLinkDomain i (top_NVLinkDomainSize (ps_Topology (pool_Spec pool)))"
    and "top_NUMAAware (ps_Topology (pool_Spec pool')) = top_NUMAAware (ps_Topology (pool_Spec pool))"
  shows "same_device amt (gpu_device pool' model' nodeName state i) (gpu_device pool model nodeName state i)"
proof -
  have cap: "fmrel (\<lambda>a b. amt a = amt b) (fmupd ''memory'' (ms_Memory (model_Spec model')) fmempty) (fmupd ''memory'' (ms_Memory (model_Spec model)) fmempty)"
    using mem by (simp add: fmrel_iff)
  show ?thesis
    using assms(1,2,5) dom domain_decides_NUMA [OF dom] cap
    by (cases "Taint state i") (simp_all add: same_device_def gpu_device_def Let_def)
qed

section \<open>Tables and slices up to the representation of quantities\<close>

definition same_table :: "('q \<Rightarrow> rat) \<Rightarrow> 'q Table \<Rightarrow> 'q Table \<Rightarrow> bool" where
  "same_table amt t u \<longleftrightarrow> tb_Profiles t = tb_Profiles u \<and> bd_Slices (tb_Budget t) = bd_Slices (tb_Budget u)
     \<and> amt (bd_Memory (tb_Budget t)) = amt (bd_Memory (tb_Budget u))"

definition same_counters :: "('q \<Rightarrow> rat) \<Rightarrow> 'q CounterSet \<Rightarrow> 'q CounterSet \<Rightarrow> bool" where
  "same_counters amt c d \<longleftrightarrow> cs_Name c = cs_Name d \<and> fmrel (\<lambda>a b. amt a = amt b) (cs_Counters c) (cs_Counters d)"

text \<open>Slices that differ at most in their names and in how the amounts of their counters are written.\<close>

definition same_slice :: "('q \<Rightarrow> rat) \<Rightarrow> 'q ResourceSlice \<Rightarrow> 'q ResourceSlice \<Rightarrow> bool" where
  "same_slice amt s t \<longleftrightarrow> rss_Driver (rs_Spec s) = rss_Driver (rs_Spec t) \<and> rss_NodeName (rs_Spec s) = rss_NodeName (rs_Spec t)
     \<and> rss_Pool (rs_Spec s) = rss_Pool (rs_Spec t) \<and> rss_Devices (rs_Spec s) = rss_Devices (rs_Spec t)
     \<and> list_all2 (same_counters amt) (rss_SharedCounters (rs_Spec s)) (rss_SharedCounters (rs_Spec t))"

lemma Resolve_same:
  assumes laws: "quantity_laws Q amt" and r: "Resolve Q m = Inr t"
    and m: "ms_ProductName (model_Spec m') = ms_ProductName (model_Spec m)" "amt (ms_Memory (model_Spec m')) = amt (ms_Memory (model_Spec m))"
      "ms_MIGProfiles (model_Spec m') = ms_MIGProfiles (model_Spec m)" "ms_MIGBudget (model_Spec m) = None" "ms_MIGBudget (model_Spec m') = None"
  shows "\<exists>t'. Resolve Q m' = Inr t' \<and> same_table amt t' t"
proof -
  have s: "same_table amt (baseTable Q m') (baseTable Q m)"
    using m by (simp add: same_table_def baseTable_def Let_def split: option.split)
  then have "fits_budget Q (tb_Budget (baseTable Q m')) = fits_budget Q (tb_Budget (baseTable Q m))"
    using quantity_laws_Cmp [OF laws] by (simp add: fits_budget_def same_table_def fun_eq_iff)
  then show ?thesis using r s by (auto simp: Resolve_Inr_iff tableOK_def same_table_def)
qed

lemma sum_list_mset:
  fixes f :: "'a \<Rightarrow> 'b::comm_monoid_add"
  assumes "mset xs = mset ys"
  shows "sum_list (map f xs) = sum_list (map f ys)"
  using assms by (metis mset_map sum_mset_sum_list)

lemma ValidatePartition_same:
  assumes laws: "quantity_laws Q amt" and c: "counts_ok es" "slices_ok t" "es \<noteq> []" and v: "ValidatePartition Q es t = Inr ()"
    and same: "same_table amt t' t" "mset es' = mset es"
  shows "ValidatePartition Q es' t' = Inr ()"
proof -
  have set: "set es' = set es" and len: "length es' = length es" using same(2) by (metis set_mset_mset, metis size_mset)
  have total: "declared_total t' f es' = declared_total t f es" for f :: "'a Profile \<Rightarrow> 'b::comm_ring_1"
  proof -
    have n: "profile_named t' = profile_named t" using same(1) by (simp add: profile_named_def same_table_def fun_eq_iff)
    show ?thesis unfolding declared_total_def n by (rule sum_list_mset [OF same(2)])
  qed
  have "partition_fits amt t es" using ValidatePartition_iff [OF laws c] v by simp
  then have "partition_fits amt t' es'" using same(1) set by (simp add: partition_fits_def known_profiles_def total same_table_def)
  moreover have "counts_ok es'" "slices_ok t'" "es' \<noteq> []" using c same(1) set len by (auto simp: counts_ok_def slices_ok_def same_table_def)
  ultimately show ?thesis using ValidatePartition_iff [OF laws] by blast
qed

text \<open>Two pools whose cards, partitions and topologies agree publish the same slices.\<close>

definition same_pools :: "('q \<Rightarrow> rat) \<Rightarrow> 'm GPUPool \<Rightarrow> 'q GPUModel \<Rightarrow> 'q Table \<Rightarrow> 'm GPUPool \<Rightarrow> 'q GPUModel \<Rightarrow> 'q Table \<Rightarrow> bool" where
  "same_pools amt pool' model' t' pool model t \<longleftrightarrow>
     ps_GPUsPerNode (pool_Spec pool') = ps_GPUsPerNode (pool_Spec pool)
   \<and> mset (ps_MIGPartition (pool_Spec pool')) = mset (ps_MIGPartition (pool_Spec pool))
   \<and> (\<forall>i. 0 \<le> i \<and> i < ps_GPUsPerNode (pool_Spec pool) \<longrightarrow>
        NVLinkDomain i (top_NVLinkDomainSize (ps_Topology (pool_Spec pool'))) = NVLinkDomain i (top_NVLinkDomainSize (ps_Topology (pool_Spec pool))))
   \<and> top_NUMAAware (ps_Topology (pool_Spec pool')) = top_NUMAAware (ps_Topology (pool_Spec pool))
   \<and> ms_ProductName (model_Spec model') = ms_ProductName (model_Spec model) \<and> ms_Vendor (model_Spec model') = ms_Vendor (model_Spec model)
   \<and> same_table amt t' t"

lemma mig_instances_same:
  assumes "same_pools amt pool' model' t' pool model t"
  shows "mig_instances pool' t' = mig_instances pool t"
proof -
  let ?es' = "ps_MIGPartition (pool_Spec pool')" and ?es = "ps_MIGPartition (pool_Spec pool)"
  have p: "tb_Profiles t' = tb_Profiles t" "mset ?es' = mset ?es" "ps_GPUsPerNode (pool_Spec pool') = ps_GPUsPerNode (pool_Spec pool)"
    using assms by (simp_all add: same_pools_def same_table_def)
  have "Expand g t' = Expand g t" "ExpandPartitioned g t' ?es' = ExpandPartitioned g t ?es'" for g
    using p(1) by (simp_all add: Expand_def ExpandPartitioned_def)
  moreover have "?es' = [] \<longleftrightarrow> ?es = []" using p(2) by (metis mset_zero_iff)
  ultimately show ?thesis using ExpandPartitioned_order [OF p(2), of _ t] p(3) by (simp add: mig_instances_def split: option.split)
qed

lemma migDevice_same:
  assumes "same_pools amt pool' model' t' pool model t" "instance_ok (ps_GPUsPerNode (pool_Spec pool)) t i"
  shows "tainted_migDevice Q pool' model' n st i = tainted_migDevice Q pool model n st i"
proof -
  let ?size = "\<lambda>p. top_NVLinkDomainSize (ps_Topology (pool_Spec p))"
  have d: "NVLinkDomain (in_GPUIndex i) (?size pool') = NVLinkDomain (in_GPUIndex i) (?size pool)"
    using assms by (simp add: same_pools_def instance_ok_def)
  have "top_NUMAAware (ps_Topology (pool_Spec pool')) = top_NUMAAware (ps_Topology (pool_Spec pool))"
    "ms_ProductName (model_Spec model') = ms_ProductName (model_Spec model)" "ms_Vendor (model_Spec model') = ms_Vendor (model_Spec model)"
    using assms(1) by (simp_all add: same_pools_def)
  then show ?thesis unfolding tainted_migDevice_def migDevice_def Let_def d domain_decides_NUMA [OF d] by (simp only:)
qed

lemma BuildMIGSlices_same:
  assumes same: "same_pools amt pool' model' t' pool model t" and b: "BuildMIGSlices Q pool model t n st = Some sls"
  shows "\<exists>sls'. BuildMIGSlices Q pool' model' t' n st = Some sls' \<and> list_all2 (same_slice amt) sls' sls"
proof -
  from b obtain "is" where i: "mig_instances pool t = Some is" by (auto simp: BuildMIGSlices_def split: option.splits)
  have gpus: "ps_GPUsPerNode (pool_Spec pool') = ps_GPUsPerNode (pool_Spec pool)" and tables: "same_table amt t' t" using same by (simp_all add: same_pools_def)
  have "same_counters amt \<lparr> cs_Name = k, cs_Counters = budgetCounters Q (tb_Budget t') \<rparr> \<lparr> cs_Name = k, cs_Counters = budgetCounters Q (tb_Budget t) \<rparr>" for k
    using tables by (simp add: same_counters_def budgetCounters_def same_table_def fmrel_iff fmlookup_of_list counterMemory_def counterSlices_def)
  then have c: "same_slice amt (counter_slice Q pool' t' n k shard) (counter_slice Q pool t n k shard)" for k shard
    by (simp add: same_slice_def counter_slice_def newMIGSlice_def Let_def gpus list_all2_map1 list_all2_map2 list.rel_refl)
  have "map (tainted_migDevice Q pool' model' n st) (subslice is a b) = map (tainted_migDevice Q pool model n st) (subslice is a b)" for a b
    using migDevice_same [OF same mig_instances_contract(4) [OF i]] by (auto simp: subslice_def dest!: in_set_takeD in_set_dropD)
  then have d: "same_slice amt (device_slice Q pool' model' n st is k shard) (device_slice Q pool model n st is k shard)" for k shard
    by (simp add: same_slice_def device_slice_def newMIGSlice_def Let_def)
  show ?thesis
    using b c d by (auto simp: BuildMIGSlices_def mig_instances_same [OF same] i gpus Let_def list_all2_map1 list_all2_map2 list.rel_refl intro!: list_all2_appendI)
qed

lemma resources_same:
  assumes "same_pools amt pool' model' t' pool model t" "ps_MIGPartition (pool_Spec pool) \<noteq> []"
    and "MIGEnabled (pool_Spec pool') = MIGEnabled (pool_Spec pool)"
  shows "nodeResourcesFor Q pool' t' k = nodeResourcesFor Q pool t k"
proof -
  have p: "mset (ps_MIGPartition (pool_Spec pool')) = mset (ps_MIGPartition (pool_Spec pool))" "tb_Profiles t' = tb_Profiles t"
    using assms(1) by (simp_all add: same_pools_def same_table_def)
  then have "ps_MIGPartition (pool_Spec pool') \<noteq> []" using assms(2) by (metis mset_zero_iff)
  moreover have "declared (ps_MIGPartition (pool_Spec pool')) k = declared (ps_MIGPartition (pool_Spec pool)) k" for k
    unfolding declared_def by (rule sum_list_mset [OF p(1)])
  ultimately have c: "perCard Q pool' t' = perCard Q pool t" using assms(2) by (simp add: perCard_declared fun_eq_iff)
  show ?thesis unfolding nodeResourcesFor_def c assms(3) p(2) ..
qed

lemma published_same:
  assumes same: "same_pools amt pool' model' t' pool model t" "ps_MIGPartition (pool_Spec pool) \<noteq> []"
      "MIGEnabled (pool_Spec pool') = MIGEnabled (pool_Spec pool)" and b: "BuildMIGSlices Q pool model t n0 st0 = Some sls0"
  shows "\<exists>sls1 sls2. BuildMIGSlices Q pool' model' t' n st = Some sls1 \<and> BuildMIGSlices Q pool model t n st = Some sls2 \<and> list_all2 (same_slice amt) sls1 sls2"
    and "NodeResources Q pool' t' = NodeResources Q pool t" and "NodeAllocatable Q pool' t' st = NodeAllocatable Q pool t st"
proof -
  from b obtain sls where "BuildMIGSlices Q pool model t n st = Some sls" by (auto simp: BuildMIGSlices_def Let_def split: option.splits)
  with BuildMIGSlices_same [OF same(1) this] show "\<exists>sls1 sls2. BuildMIGSlices Q pool' model' t' n st = Some sls1
      \<and> BuildMIGSlices Q pool model t n st = Some sls2 \<and> list_all2 (same_slice amt) sls1 sls2" by blast
  have g: "ps_GPUsPerNode (pool_Spec pool') = ps_GPUsPerNode (pool_Spec pool)" using same(1) by (simp add: same_pools_def)
  show "NodeResources Q pool' t' = NodeResources Q pool t" "NodeAllocatable Q pool' t' st = NodeAllocatable Q pool t st"
    unfolding NodeResources_def NodeAllocatable_def g resources_same [OF same] by (rule refl)+
qed

section \<open>Properties\<close>





end
