(* ===== verification/Go_Heap.thy ===== *)
theory Go_Heap
  imports Prelude
begin

text \<open>
  Go's memory, as far as copying objects needs it: addresses with typed cells, pointers, slices and maps as references into
  it. The rest of the development works on the values that structures denote; here a relation \<open>rep h S x v\<close> says that the
  structure \<open>x\<close>, followed through the memory \<open>h\<close>, denotes the value \<open>v\<close> and that every reference on the way leads into \<open>S\<close>.

  A cell has the type \<open>'c\<close> of the program at hand, with an injection and a partial projection for every type that is stored
  by reference. Reading a cell at a type it does not have, which Go's type system excludes, is \<open>None\<close>. \<open>new\<close> and \<open>make\<close>
  reserve an address and the cell is stored when it is filled; a read before that would be \<open>None\<close> as well. Go promises
  nothing about the order of addresses, only that a new one is in use nowhere else: here it is the next number.

  The locale \<open>deep_copy\<close> is the contract of a copying function: it returns, leaves every cell in use alone, and its result
  denotes the same value through new cells only. The contract is closed under pointers, slices, maps and structures.
\<close>

section \<open>Memory\<close>

record 'c heap =
  hp_next :: nat
  hp_cell :: "nat \<Rightarrow> 'c option"

definition reserve :: "'c heap \<Rightarrow> nat \<times> 'c heap" where
  "reserve h = (hp_next h, h\<lparr>hp_next := hp_next h + 1\<rparr>)"

definition read_cell :: "('c \<Rightarrow> 't option) \<Rightarrow> 'c heap \<Rightarrow> nat \<Rightarrow> 't option" where
  "read_cell get h a = Option.bind (hp_cell h a) get"

definition write_cell :: "nat \<Rightarrow> 'c \<Rightarrow> 'c heap \<Rightarrow> 'c heap" where
  "write_cell a c h = h\<lparr>hp_cell := (hp_cell h)(a := Some c)\<rparr>"

text \<open>The values of a type as cells: what is stored is read back.\<close>

definition cell_type :: "('t \<Rightarrow> 'c) \<Rightarrow> ('c \<Rightarrow> 't option) \<Rightarrow> bool" where
  "cell_type mk get \<longleftrightarrow> (\<forall>x. get (mk x) = Some x)"

text \<open>A later memory in which nothing that was in use has changed.\<close>

definition extends :: "'c heap \<Rightarrow> 'c heap \<Rightarrow> bool" where
  "extends h h' \<longleftrightarrow> hp_next h \<le> hp_next h' \<and> (\<forall>a < hp_next h. hp_cell h' a = hp_cell h a)"

text \<open>A slice is nil or a window into an array: where the array is, where the window starts and how long it is.\<close>

record slice =
  sl_Array :: nat
  sl_Offset :: nat
  sl_Len :: nat

definition window :: "slice \<Rightarrow> 't list \<Rightarrow> 't list option" where
  "window s xs = (if sl_Offset s + sl_Len s \<le> length xs then Some (take (sl_Len s) (drop (sl_Offset s) xs)) else None)"

section \<open>Copying\<close>

text \<open>Assignment of a structure without references.\<close>

definition copy_flat :: "'t \<Rightarrow> 'c heap \<Rightarrow> ('t \<times> 'c heap) option" where
  "copy_flat x h = Some (x, h)"

text \<open>\<open>if in != nil { *out = new(T); in.DeepCopyInto(*out) }\<close>.\<close>

definition new_copy :: "('t \<Rightarrow> 'c) \<Rightarrow> ('c \<Rightarrow> 't option) \<Rightarrow> ('t \<Rightarrow> 'c heap \<Rightarrow> ('t \<times> 'c heap) option)
    \<Rightarrow> nat option \<Rightarrow> 'c heap \<Rightarrow> (nat option \<times> 'c heap) option" where
  "new_copy mk get copy p h = (case p of None \<Rightarrow> Some (None, h) | Some a \<Rightarrow>
     do { x \<leftarrow> read_cell get h a;
          let (b, h) = reserve h;
          (y, h) \<leftarrow> copy x h;
          Some (Some b, write_cell b (mk y) h) })"

text \<open>\<open>for i := range *in { (*in)[i].DeepCopyInto(&(*out)[i]) }\<close>: the elements of the new array in order.\<close>

fun copy_elems :: "('t \<Rightarrow> 'c heap \<Rightarrow> ('t \<times> 'c heap) option) \<Rightarrow> 't list \<Rightarrow> 'c heap \<Rightarrow> ('t list \<times> 'c heap) option" where
  "copy_elems copy [] h = Some ([], h)"
| "copy_elems copy (x # xs) h =
     do { (y, h) \<leftarrow> copy x h;
          (ys, h) \<leftarrow> copy_elems copy xs h;
          Some (y # ys, h) }"

definition copy_slice :: "('t list \<Rightarrow> 'c) \<Rightarrow> ('c \<Rightarrow> 't list option) \<Rightarrow> ('t \<Rightarrow> 'c heap \<Rightarrow> ('t \<times> 'c heap) option)
    \<Rightarrow> slice option \<Rightarrow> 'c heap \<Rightarrow> (slice option \<times> 'c heap) option" where
  "copy_slice mk get copy s h = (case s of None \<Rightarrow> Some (None, h) | Some sl \<Rightarrow>
     do { arr \<leftarrow> read_cell get h (sl_Array sl);
          xs \<leftarrow> window sl arr;
          let (b, h) = reserve h;
          (ys, h) \<leftarrow> copy_elems copy xs h;
          Some (Some \<lparr> sl_Array = b, sl_Offset = 0, sl_Len = length xs \<rparr>, write_cell b (mk ys) h) })"

text \<open>\<open>for key, val := range *in { (*out)[key] = val }\<close>, over the entries in the order in which Go happens to yield them.\<close>

definition range_copy :: "('k \<times> 'v) list \<Rightarrow> ('k, 'v) fmap" where
  "range_copy entries = fold (\<lambda>(k, v). fmupd k v) entries fmempty"

lemma range_copy_any_order:
  assumes "distinct (map fst entries)" "\<And>k v. (k, v) \<in> set entries \<longleftrightarrow> fmlookup m k = Some v"
  shows "range_copy entries = m"
proof -
  have fold: "fmlookup (fold (\<lambda>(k, v). fmupd k v) es acc) k = (case map_of es k of None \<Rightarrow> fmlookup acc k | Some v \<Rightarrow> Some v)"
    if "distinct (map fst es)" for es :: "('a \<times> 'b) list" and acc k
    using that by (induction es arbitrary: acc) (auto simp flip: map_of_eq_None_iff split: option.split)
  have "map_of entries k = fmlookup m k" for k
    using assms map_of_eq_Some_iff [OF assms(1), of k] by (cases "fmlookup m k"; cases "map_of entries k") auto
  then show ?thesis using fold [OF assms(1)] by (auto simp: range_copy_def intro!: fmap_ext split: option.splits)
qed

text \<open>The new map holds what the loop leaves, which by \<open>range_copy_any_order\<close> is the old one's contents in every order.\<close>

definition copy_map :: "(('k, 'v) fmap \<Rightarrow> 'c) \<Rightarrow> ('c \<Rightarrow> ('k, 'v) fmap option) \<Rightarrow> nat option \<Rightarrow> 'c heap \<Rightarrow> (nat option \<times> 'c heap) option" where
  "copy_map mk get = new_copy mk get copy_flat"

text \<open>Two fields after one another, from which structures are composed.\<close>

definition copy_both :: "('s \<Rightarrow> 'c heap \<Rightarrow> ('s \<times> 'c heap) option) \<Rightarrow> ('t \<Rightarrow> 'c heap \<Rightarrow> ('t \<times> 'c heap) option)
    \<Rightarrow> 's \<times> 't \<Rightarrow> 'c heap \<Rightarrow> (('s \<times> 't) \<times> 'c heap) option" where
  "copy_both f g z h =
     do { (x, h) \<leftarrow> f (fst z) h;
          (y, h) \<leftarrow> g (snd z) h;
          Some ((x, y), h) }"

section \<open>What structures denote\<close>

definition rep_flat :: "'c heap \<Rightarrow> nat set \<Rightarrow> 't \<Rightarrow> 't \<Rightarrow> bool" where
  "rep_flat h S x v \<longleftrightarrow> x = v"

definition rep_ptr :: "('c \<Rightarrow> 't option) \<Rightarrow> ('c heap \<Rightarrow> nat set \<Rightarrow> 't \<Rightarrow> 'v \<Rightarrow> bool) \<Rightarrow> 'c heap \<Rightarrow> nat set \<Rightarrow> nat option \<Rightarrow> 'v option \<Rightarrow> bool" where
  "rep_ptr get rep h S p v = (case (p, v) of
     (None, None) \<Rightarrow> True
   | (Some a, Some w) \<Rightarrow> a \<in> S \<and> (case read_cell get h a of None \<Rightarrow> False | Some x \<Rightarrow> rep h S x w)
   | _ \<Rightarrow> False)"

definition rep_slice :: "('c \<Rightarrow> 't list option) \<Rightarrow> ('c heap \<Rightarrow> nat set \<Rightarrow> 't \<Rightarrow> 'v \<Rightarrow> bool) \<Rightarrow> 'c heap \<Rightarrow> nat set \<Rightarrow> slice option \<Rightarrow> 'v list \<Rightarrow> bool" where
  "rep_slice get rep h S s v = (case s of
     None \<Rightarrow> v = []
   | Some sl \<Rightarrow> sl_Array sl \<in> S \<and> (case Option.bind (read_cell get h (sl_Array sl)) (window sl) of
        None \<Rightarrow> False | Some xs \<Rightarrow> list_all2 (rep h S) xs v))"

definition rep_both :: "('c heap \<Rightarrow> nat set \<Rightarrow> 's \<Rightarrow> 'v \<Rightarrow> bool) \<Rightarrow> ('c heap \<Rightarrow> nat set \<Rightarrow> 't \<Rightarrow> 'w \<Rightarrow> bool) \<Rightarrow> 'c heap \<Rightarrow> nat set \<Rightarrow> 's \<times> 't \<Rightarrow> 'v \<times> 'w \<Rightarrow> bool" where
  "rep_both r s h S x v \<longleftrightarrow> r h S (fst x) (fst v) \<and> s h S (snd x) (snd v)"

text \<open>A nil map reads like an empty one.\<close>

definition rep_map :: "('c \<Rightarrow> ('k, 'v) fmap option) \<Rightarrow> 'c heap \<Rightarrow> nat set \<Rightarrow> nat option \<Rightarrow> ('k, 'v) fmap \<Rightarrow> bool" where
  "rep_map get h S p v = (case p of None \<Rightarrow> v = fmempty | Some a \<Rightarrow> a \<in> S \<and> read_cell get h a = Some v)"

section \<open>The contract of a copy\<close>

locale deep_copy =
  fixes copy :: "'t \<Rightarrow> 'c heap \<Rightarrow> ('t \<times> 'c heap) option"
    and rep :: "'c heap \<Rightarrow> nat set \<Rightarrow> 't \<Rightarrow> 'v \<Rightarrow> bool"
  assumes unique: "rep h S x v \<Longrightarrow> rep h S' x w \<Longrightarrow> v = w"
    and mono: "rep h S x v \<Longrightarrow> S \<subseteq> S' \<Longrightarrow> rep h S' x v"
    and frame: "rep h S x v \<Longrightarrow> \<forall>a \<in> S. hp_cell h' a = hp_cell h a \<Longrightarrow> rep h' S x v"
    and copies: "rep h {..<hp_next h} x v \<Longrightarrow>
      \<exists>y h'. copy x h = Some (y, h') \<and> extends h h' \<and> rep h' {hp_next h..<hp_next h'} y v"
begin

lemma kept: "rep h {..<hp_next h} x v \<Longrightarrow> extends h h' \<Longrightarrow> rep h' {..<hp_next h'} x v"
  by (rule mono [OF frame]) (auto simp: extends_def)

lemma kept_new: "rep h {n..<hp_next h} x v \<Longrightarrow> extends h h' \<Longrightarrow> rep h' {n..<hp_next h'} x v"
  by (rule mono [OF frame]) (auto simp: extends_def)

text \<open>The step all references share: reserve an address, copy what is behind the reference, store the copy.\<close>

lemma filled:
  assumes "rep h {..<hp_next h} x v"
  shows "\<exists>y h'. copy x (h\<lparr>hp_next := hp_next h + 1\<rparr>) = Some (y, h') \<and> (\<forall>c. extends h (write_cell (hp_next h) c h'))
    \<and> hp_next h < hp_next h' \<and> (\<forall>c. rep (write_cell (hp_next h) c h') {hp_next h..<hp_next h'} y v)"
proof -
  let ?h = "h\<lparr>hp_next := hp_next h + 1\<rparr>"
  have e: "extends h ?h" by (simp add: extends_def)
  from copies [OF kept [OF assms e]] obtain y h' where y: "copy x ?h = Some (y, h')" "extends ?h h'" "rep h' {hp_next ?h..<hp_next h'} y v" by blast
  have "rep (write_cell (hp_next h) c h') {hp_next h..<hp_next h'} y v" for c
    by (rule mono [OF frame [OF y(3)]]) (auto simp: write_cell_def)
  with y show ?thesis by (auto simp: extends_def write_cell_def)
qed

text \<open>The copy and the original do not share a cell: whatever is written to the cells of one, the other keeps its value.\<close>

lemma independent:
  assumes "rep h {..<hp_next h} x v"
  shows "\<exists>y h'. copy x h = Some (y, h') \<and> extends h h' \<and> rep h' {hp_next h..<hp_next h'} y v
    \<and> (\<forall>h2. (\<forall>a < hp_next h. hp_cell h2 a = hp_cell h' a) \<longrightarrow> rep h2 {..<hp_next h} x v)
    \<and> (\<forall>h2. (\<forall>a. hp_next h \<le> a \<longrightarrow> hp_cell h2 a = hp_cell h' a) \<longrightarrow> rep h2 {hp_next h..<hp_next h'} y v)"
proof -
  from copies [OF assms] obtain y h' where y: "copy x h = Some (y, h')" "extends h h'" "rep h' {hp_next h..<hp_next h'} y v" by blast
  have "rep h2 {..<hp_next h} x v" if "\<forall>a < hp_next h. hp_cell h2 a = hp_cell h' a" for h2
    using that y(2) by (intro frame [OF assms]) (simp add: extends_def)
  moreover have "rep h2 {hp_next h..<hp_next h'} y v" if "\<forall>a. hp_next h \<le> a \<longrightarrow> hp_cell h2 a = hp_cell h' a" for h2
    using that by (intro frame [OF y(3)]) simp
  ultimately show ?thesis using y by blast
qed

end

section \<open>Closure of the contract\<close>

lemma map_option_bind: "map_option f (Option.bind m k) = Option.bind m (\<lambda>x. map_option f (k x))"
  by (cases m) simp_all

lemma extends_refl [simp]: "extends h h"
  by (simp add: extends_def)

lemma extends_trans: "extends h h' \<Longrightarrow> extends h' h'' \<Longrightarrow> extends h h''"
  by (auto simp: extends_def)

lemma deep_copy_flat: "deep_copy copy_flat rep_flat"
  by unfold_locales (simp_all add: copy_flat_def rep_flat_def)

context deep_copy
begin

lemma ptr:
  assumes get: "cell_type mk get"
  shows "deep_copy (new_copy mk get copy) (rep_ptr get rep)"
proof
  fix h S S' p v w assume "rep_ptr get rep h S p v" "rep_ptr get rep h S' p w"
  then show "v = w" by (auto simp: rep_ptr_def split: option.splits intro: unique)
next
  fix h S S' p v assume "rep_ptr get rep h S p v" "S \<subseteq> S'"
  then show "rep_ptr get rep h S' p v" by (auto simp: rep_ptr_def split: option.splits intro: mono)
next
  fix h S p v and h' :: "'c heap" assume "rep_ptr get rep h S p v" "\<forall>a \<in> S. hp_cell h' a = hp_cell h a"
  then show "rep_ptr get rep h' S p v" by (auto simp: rep_ptr_def read_cell_def split: option.splits intro: frame)
next
  fix h p v assume r: "rep_ptr get rep h {..<hp_next h} p v"
  show "\<exists>y h'. new_copy mk get copy p h = Some (y, h') \<and> extends h h' \<and> rep_ptr get rep h' {hp_next h..<hp_next h'} y v"
  proof (cases p)
    case None
    with r show ?thesis by (auto simp: new_copy_def rep_ptr_def split: option.splits)
  next
    case (Some a)
    with r obtain x w where x: "v = Some w" "read_cell get h a = Some x" "rep h {..<hp_next h} x w"
      by (auto simp: rep_ptr_def split: option.splits)
    from filled [OF x(3)] obtain y h' where y: "copy x (h\<lparr>hp_next := hp_next h + 1\<rparr>) = Some (y, h')"
      "\<And>c. extends h (write_cell (hp_next h) c h')" "hp_next h < hp_next h'"
      "\<And>c. rep (write_cell (hp_next h) c h') {hp_next h..<hp_next h'} y w" by blast
    with Some x show ?thesis
      by (auto simp: new_copy_def rep_ptr_def reserve_def read_cell_def get [unfolded cell_type_def] Let_def write_cell_def)
  qed
qed

lemma elems: "deep_copy (copy_elems copy) (\<lambda>h S. list_all2 (rep h S))"
proof
  fix h S S' xs v w assume "list_all2 (rep h S) xs v" "list_all2 (rep h S') xs w"
  then show "v = w"
    by (induction arbitrary: w rule: list_all2_induct) (auto simp: list_all2_Cons1 intro: unique)
next
  fix h S S' xs v assume "list_all2 (rep h S) xs v" "S \<subseteq> S'"
  then show "list_all2 (rep h S') xs v" by (auto elim!: list_all2_mono intro: mono)
next
  fix h S xs v and h' :: "'c heap" assume "list_all2 (rep h S) xs v" "\<forall>a \<in> S. hp_cell h' a = hp_cell h a"
  then show "list_all2 (rep h' S) xs v" by (auto elim!: list_all2_mono intro: frame)
next
  fix h xs v assume "list_all2 (rep h {..<hp_next h}) xs v"
  then show "\<exists>ys h'. copy_elems copy xs h = Some (ys, h') \<and> extends h h' \<and> list_all2 (rep h' {hp_next h..<hp_next h'}) ys v"
  proof (induction xs arbitrary: h v)
    case (Cons x xs)
    then obtain w ws where v: "v = w # ws" "rep h {..<hp_next h} x w" "list_all2 (rep h {..<hp_next h}) xs ws" by (auto simp: list_all2_Cons1)
    from copies [OF v(2)] obtain y h1 where y: "copy x h = Some (y, h1)" "extends h h1" "rep h1 {hp_next h..<hp_next h1} y w" by blast
    have "list_all2 (rep h1 {..<hp_next h1}) xs ws" using v(3) by (rule list_all2_mono) (rule kept [OF _ y(2)])
    from Cons.IH [OF this] obtain ys h2 where
      ys: "copy_elems copy xs h1 = Some (ys, h2)" "extends h1 h2" "list_all2 (rep h2 {hp_next h1..<hp_next h2}) ys ws" by blast
    have "list_all2 (rep h2 {hp_next h..<hp_next h2}) ys ws"
      using ys(3) by (rule list_all2_mono) (rule mono, use y(2) in \<open>auto simp: extends_def\<close>)
    with v y ys kept_new [OF y(3) ys(2)] show ?case by (auto intro: extends_trans)
  qed simp
qed

end

context deep_copy
begin

lemma slice:
  assumes get: "cell_type mk get"
  shows "deep_copy (copy_slice mk get copy) (rep_slice get rep)"
proof
  fix h S S' s v w assume "rep_slice get rep h S s v" "rep_slice get rep h S' s w"
  then show "v = w" by (auto simp: rep_slice_def split: option.splits intro: deep_copy.unique [OF elems])
next
  fix h S S' s v assume "rep_slice get rep h S s v" "S \<subseteq> S'"
  then show "rep_slice get rep h S' s v" by (auto simp: rep_slice_def split: option.splits intro: deep_copy.mono [OF elems])
next
  fix h S s v and h' :: "'c heap" assume "rep_slice get rep h S s v" "\<forall>a \<in> S. hp_cell h' a = hp_cell h a"
  then show "rep_slice get rep h' S s v" by (auto simp: rep_slice_def read_cell_def split: option.splits intro: deep_copy.frame [OF elems])
next
  fix h s v assume r: "rep_slice get rep h {..<hp_next h} s v"
  show "\<exists>y h'. copy_slice mk get copy s h = Some (y, h') \<and> extends h h' \<and> rep_slice get rep h' {hp_next h..<hp_next h'} y v"
  proof (cases s)
    case None
    with r show ?thesis by (auto simp: copy_slice_def rep_slice_def)
  next
    case (Some sl)
    with r obtain arr xs where x: "read_cell get h (sl_Array sl) = Some arr" "window sl arr = Some xs" "list_all2 (rep h {..<hp_next h}) xs v"
      by (auto simp: rep_slice_def bind_eq_Some_conv split: option.splits)
    from deep_copy.filled [OF elems x(3)] obtain ys h' where y: "copy_elems copy xs (h\<lparr>hp_next := hp_next h + 1\<rparr>) = Some (ys, h')"
      "\<And>c. extends h (write_cell (hp_next h) c h')" "hp_next h < hp_next h'"
      "\<And>c. list_all2 (rep (write_cell (hp_next h) c h') {hp_next h..<hp_next h'}) ys v" by blast
    have "length ys = length xs" using list_all2_lengthD [OF x(3)] list_all2_lengthD [OF y(4)] by simp
    with Some x y show ?thesis
      by (auto simp: copy_slice_def rep_slice_def reserve_def read_cell_def get [unfolded cell_type_def] Let_def write_cell_def window_def)
  qed
qed

lemma both:
  assumes "deep_copy copy2 rep2"
  shows "deep_copy (copy_both copy copy2) (rep_both rep rep2)"
proof
  fix h S S' x v w assume "rep_both rep rep2 h S x v" "rep_both rep rep2 h S' x w"
  then show "v = w" by (auto simp: rep_both_def prod_eq_iff intro: unique deep_copy.unique [OF assms])
next
  fix h S S' x v assume "rep_both rep rep2 h S x v" "S \<subseteq> S'"
  then show "rep_both rep rep2 h S' x v" by (auto simp: rep_both_def intro: mono deep_copy.mono [OF assms])
next
  fix h S x v and h' :: "'c heap" assume "rep_both rep rep2 h S x v" "\<forall>a \<in> S. hp_cell h' a = hp_cell h a"
  then show "rep_both rep rep2 h' S x v" by (auto simp: rep_both_def intro: frame deep_copy.frame [OF assms])
next
  fix h x v assume r: "rep_both rep rep2 h {..<hp_next h} x v"
  then obtain y h1 where y: "copy (fst x) h = Some (y, h1)" "extends h h1" "rep h1 {hp_next h..<hp_next h1} y (fst v)"
    using copies by (metis rep_both_def)
  have "rep2 h1 {..<hp_next h1} (snd x) (snd v)" using r y(2) by (auto simp: rep_both_def intro: deep_copy.kept [OF assms])
  from deep_copy.copies [OF assms this] obtain z h2 where
    z: "copy2 (snd x) h1 = Some (z, h2)" "extends h1 h2" "rep2 h2 {hp_next h1..<hp_next h2} z (snd v)" by blast
  have "rep2 h2 {hp_next h..<hp_next h2} z (snd v)" using z(3) y(2) by (auto simp: extends_def intro: deep_copy.mono [OF assms])
  with y z kept_new [OF y(3) z(2)] show "\<exists>y h'. copy_both copy copy2 x h = Some (y, h') \<and> extends h h' \<and> rep_both rep rep2 h' {hp_next h..<hp_next h'} y v"
    by (auto simp: copy_both_def rep_both_def intro: extends_trans)
qed

text \<open>A structure is assigned as a whole, and then its references are replaced: those are the fields \<open>flds\<close>, as a tuple.\<close>

lemma struct:
  assumes "\<And>x h. copy2 x h = map_option (\<lambda>(y, h). (build x y, h)) (copy (flds x) h)"
    and "\<And>h S x v. rep2 h S x v \<longleftrightarrow> rep h S (flds x) (vals v) \<and> same x v"
    and "\<And>x y. flds (build x y) = y" "\<And>x y v. same (build x y) v \<longleftrightarrow> same x v"
    and "\<And>x v w. vals v = vals w \<Longrightarrow> same x v \<Longrightarrow> same x w \<Longrightarrow> v = w"
  shows "deep_copy copy2 rep2"
proof
  fix h S S' x v w assume "rep2 h S x v" "rep2 h S' x w"
  then show "v = w" using assms(2,5) unique by metis
next
  fix h S S' x v assume "rep2 h S x v" "S \<subseteq> S'"
  then show "rep2 h S' x v" using assms(2) mono by metis
next
  fix h S x v and h' :: "'c heap" assume "rep2 h S x v" "\<forall>a \<in> S. hp_cell h' a = hp_cell h a"
  then show "rep2 h' S x v" using assms(2) frame by metis
next
  fix h x v assume "rep2 h {..<hp_next h} x v"
  then show "\<exists>y h'. copy2 x h = Some (y, h') \<and> extends h h' \<and> rep2 h' {hp_next h..<hp_next h'} y v"
    using copies [of h "flds x" "vals v"] assms(1-4) by fastforce
qed

end

lemma deep_copy_map:
  fixes mk :: "('k, 'v) fmap \<Rightarrow> 'c"
  assumes get: "cell_type mk get"
  shows "deep_copy (copy_map mk get) (rep_map get)"
proof
  fix h S S' p v w assume "rep_map get h S p v" "rep_map get h S' p w"
  then show "v = w" by (auto simp: rep_map_def split: option.splits)
next
  fix h S S' p v assume "rep_map get h S p v" "S \<subseteq> S'"
  then show "rep_map get h S' p v" by (auto simp: rep_map_def split: option.splits)
next
  fix h S p v and h' :: "'c heap" assume "rep_map get h S p v" "\<forall>a \<in> S. hp_cell h' a = hp_cell h a"
  then show "rep_map get h' S p v" by (auto simp: rep_map_def read_cell_def split: option.splits)
next
  fix h p v assume "rep_map get h {..<hp_next h} p v"
  then show "\<exists>y h'. copy_map mk get p h = Some (y, h') \<and> extends h h' \<and> rep_map get h' {hp_next h..<hp_next h'} y v"
    using get by (cases p) (auto simp: copy_map_def new_copy_def rep_map_def reserve_def copy_flat_def read_cell_def write_cell_def
      extends_def cell_type_def)
qed

end
