(* ===== verification/Deep_Copy.thy ===== *)
theory Deep_Copy
  imports Go_Heap Api_Types
begin

text \<open>
  \<open>api/v1alpha1/zz_generated.deepcopy.go\<close>: the copies that the API machinery makes of the custom resources, for instance
  when it hands out objects of its shared cache. Here the types are laid out in memory as Go has them: a pointer or a map is
  an address or nil, a slice a window into an array or nil (records with an \<open>m\<close> in front of the name of the type). The \<open>rep\<close>
  relations give the values of \<open>Api_Types\<close> that they denote, so the theorems connect the values on which the
  development reasons with the memory the program has them in.

  \<open>DeepCopyInto\<close> takes what \<open>in\<close> points to and gives what \<open>out\<close> points to afterwards. Every call in the file has a new object
  as \<open>out\<close>, or a part of one, never \<open>in\<close> itself. The copies of the types of \<open>k8s.io/apimachinery\<close> are not in the repository:
  they are a parameter (\<open>apimachinery\<close>), of which \<open>copies_ok\<close> assumes that they are deep copies too.
\<close>

section \<open>The types in memory\<close>

record mAdvertiseSpec =
  ma_DRA :: "nat option"
  ma_ExtendedResource :: "nat option"

record mFaultEntry =
  mf_NodeSelector :: "nat option"
  mf_GPUs :: int
  mf_Effect :: string
  mf_XID :: int

record mOccupancyEntry =
  mo_NodeSelector :: "nat option"
  mo_BusyPerNode :: int

record mUtilizationSample =
  mu_GPUUtil :: "nat option"
  mu_MemCopyUtil :: "nat option"
  mu_FBUsedPercent :: "nat option"
  mu_GREngineActivePercent :: "nat option"
  mu_TensorActivePercent :: "nat option"
  mu_PowerWatts :: "nat option"
  mu_TemperatureC :: "nat option"

record mWorkloadUtilization =
  mw_PodSelector :: "nat option"
  mw_UtilizationSample :: mUtilizationSample

record mUtilizationSpec =
  mt_WhenAllocated :: "nat option"
  mt_WhenIdle :: "nat option"
  mt_Workloads :: "slice option"

record mGPUPoolSpec =
  mp_ModelRef :: string
  mp_NodeSelector :: "nat option"
  mp_GPUsPerNode :: int
  mp_Advertise :: mAdvertiseSpec
  mp_MIGPartition :: "slice option"
  mp_Faults :: "slice option"
  mp_Utilization :: "nat option"
  mp_Occupancy :: "slice option"
  mp_SharingMode :: string
  mp_Topology :: TopologySpec

record mGPUPoolStatus =
  mst_Conditions :: "slice option"
  mst_ObservedGeneration :: int
  mst_NodesMatched :: int
  mst_DevicesPublished :: int
  mst_GPUsOccupied :: int
  mst_GPUsFaulted :: int
  mst_MIGProfilesPublished :: int

text \<open>\<open>metav1.TypeMeta\<close> is a pair of strings. A list object has the same fields for both kinds of items.\<close>

record 'o mGPUPool =
  mgp_TypeMeta :: "string \<times> string"
  mgp_ObjectMeta :: 'o
  mgp_Spec :: mGPUPoolSpec
  mgp_Status :: mGPUPoolStatus

record 'l mList =
  ml_TypeMeta :: "string \<times> string"
  ml_ListMeta :: 'l
  ml_Items :: "slice option"

record 'q mMIGProfileSpec =
  mm_Name :: string
  mm_Memory :: 'q
  mm_Slices :: int

record mMIGBudgetSpec =
  mb_Memory :: "nat option"
  mb_Slices :: int

record 'q mGPUModelSpec =
  mgs_Vendor :: string
  mgs_ProductName :: string
  mgs_Memory :: 'q
  mgs_ComputeCapability :: string
  mgs_MIGProfiles :: "slice option"
  mgs_MIGBudget :: "nat option"

record mGPUModelStatus =
  mgt_Conditions :: "slice option"

record ('q, 'o) mGPUModel =
  mgm_TypeMeta :: "string \<times> string"
  mgm_ObjectMeta :: 'o
  mgm_Spec :: "'q mGPUModelSpec"
  mgm_Status :: mGPUModelStatus

text \<open>What a cell can hold: the types the file allocates, arrays of them, and whatever the types of the API machinery keep.\<close>

datatype ('q, 'o, 'l, 'c, 's, 'x) cell =
    CBool bool
  | CInt32 int
  | CMap labels
  | CQuantity 'q
  | CLabelSelector 's
  | CConditions "'c list"
  | CAdvertiseSpec mAdvertiseSpec
  | CFaultEntry mFaultEntry
  | CFaultEntries "mFaultEntry list"
  | CGPUModel "('q, 'o) mGPUModel"
  | CGPUModels "('q, 'o) mGPUModel list"
  | CGPUModelList "'l mList"
  | CGPUModelSpec "'q mGPUModelSpec"
  | CGPUModelStatus mGPUModelStatus
  | CGPUPool "'o mGPUPool"
  | CGPUPools "'o mGPUPool list"
  | CGPUPoolList "'l mList"
  | CGPUPoolSpec mGPUPoolSpec
  | CGPUPoolStatus mGPUPoolStatus
  | CMIGBudgetSpec mMIGBudgetSpec
  | CMIGPartitionEntry MIGPartitionEntry
  | CMIGPartitionEntries "MIGPartitionEntry list"
  | CMIGProfileSpec "'q mMIGProfileSpec"
  | CMIGProfileSpecs "'q mMIGProfileSpec list"
  | COccupancyEntry mOccupancyEntry
  | COccupancyEntries "mOccupancyEntry list"
  | CTopologySpec TopologySpec
  | CUtilizationSample mUtilizationSample
  | CUtilizationSpec mUtilizationSpec
  | CWorkloadUtilization mWorkloadUtilization
  | CWorkloadUtilizations "mWorkloadUtilization list"
  | CExternal 'x

type_synonym ('q, 'o, 'l, 'c, 's, 'x) mem = "('q, 'o, 'l, 'c, 's, 'x) cell heap"

type_synonym ('t, 'q, 'o, 'l, 'c, 's, 'x) copy = "'t \<Rightarrow> ('q, 'o, 'l, 'c, 's, 'x) mem \<Rightarrow> ('t \<times> ('q, 'o, 'l, 'c, 's, 'x) mem) option"

definition as_Bool :: "('q, 'o, 'l, 'c, 's, 'x) cell \<Rightarrow> bool option" where
  "as_Bool c = (case c of CBool x \<Rightarrow> Some x | _ \<Rightarrow> None)"

definition as_Int32 :: "('q, 'o, 'l, 'c, 's, 'x) cell \<Rightarrow> int option" where
  "as_Int32 c = (case c of CInt32 x \<Rightarrow> Some x | _ \<Rightarrow> None)"

definition as_Map :: "('q, 'o, 'l, 'c, 's, 'x) cell \<Rightarrow> labels option" where
  "as_Map c = (case c of CMap x \<Rightarrow> Some x | _ \<Rightarrow> None)"

definition as_Quantity :: "('q, 'o, 'l, 'c, 's, 'x) cell \<Rightarrow> 'q option" where
  "as_Quantity c = (case c of CQuantity x \<Rightarrow> Some x | _ \<Rightarrow> None)"

definition as_LabelSelector :: "('q, 'o, 'l, 'c, 's, 'x) cell \<Rightarrow> 's option" where
  "as_LabelSelector c = (case c of CLabelSelector x \<Rightarrow> Some x | _ \<Rightarrow> None)"

definition as_Conditions :: "('q, 'o, 'l, 'c, 's, 'x) cell \<Rightarrow> ('c list) option" where
  "as_Conditions c = (case c of CConditions x \<Rightarrow> Some x | _ \<Rightarrow> None)"

definition as_AdvertiseSpec :: "('q, 'o, 'l, 'c, 's, 'x) cell \<Rightarrow> mAdvertiseSpec option" where
  "as_AdvertiseSpec c = (case c of CAdvertiseSpec x \<Rightarrow> Some x | _ \<Rightarrow> None)"

definition as_FaultEntry :: "('q, 'o, 'l, 'c, 's, 'x) cell \<Rightarrow> mFaultEntry option" where
  "as_FaultEntry c = (case c of CFaultEntry x \<Rightarrow> Some x | _ \<Rightarrow> None)"

definition as_FaultEntries :: "('q, 'o, 'l, 'c, 's, 'x) cell \<Rightarrow> (mFaultEntry list) option" where
  "as_FaultEntries c = (case c of CFaultEntries x \<Rightarrow> Some x | _ \<Rightarrow> None)"

definition as_GPUModel :: "('q, 'o, 'l, 'c, 's, 'x) cell \<Rightarrow> (('q, 'o) mGPUModel) option" where
  "as_GPUModel c = (case c of CGPUModel x \<Rightarrow> Some x | _ \<Rightarrow> None)"

definition as_GPUModels :: "('q, 'o, 'l, 'c, 's, 'x) cell \<Rightarrow> (('q, 'o) mGPUModel list) option" where
  "as_GPUModels c = (case c of CGPUModels x \<Rightarrow> Some x | _ \<Rightarrow> None)"

definition as_GPUModelList :: "('q, 'o, 'l, 'c, 's, 'x) cell \<Rightarrow> ('l mList) option" where
  "as_GPUModelList c = (case c of CGPUModelList x \<Rightarrow> Some x | _ \<Rightarrow> None)"

definition as_GPUModelSpec :: "('q, 'o, 'l, 'c, 's, 'x) cell \<Rightarrow> ('q mGPUModelSpec) option" where
  "as_GPUModelSpec c = (case c of CGPUModelSpec x \<Rightarrow> Some x | _ \<Rightarrow> None)"

definition as_GPUModelStatus :: "('q, 'o, 'l, 'c, 's, 'x) cell \<Rightarrow> mGPUModelStatus option" where
  "as_GPUModelStatus c = (case c of CGPUModelStatus x \<Rightarrow> Some x | _ \<Rightarrow> None)"

definition as_GPUPool :: "('q, 'o, 'l, 'c, 's, 'x) cell \<Rightarrow> ('o mGPUPool) option" where
  "as_GPUPool c = (case c of CGPUPool x \<Rightarrow> Some x | _ \<Rightarrow> None)"

definition as_GPUPools :: "('q, 'o, 'l, 'c, 's, 'x) cell \<Rightarrow> ('o mGPUPool list) option" where
  "as_GPUPools c = (case c of CGPUPools x \<Rightarrow> Some x | _ \<Rightarrow> None)"

definition as_GPUPoolList :: "('q, 'o, 'l, 'c, 's, 'x) cell \<Rightarrow> ('l mList) option" where
  "as_GPUPoolList c = (case c of CGPUPoolList x \<Rightarrow> Some x | _ \<Rightarrow> None)"

definition as_GPUPoolSpec :: "('q, 'o, 'l, 'c, 's, 'x) cell \<Rightarrow> mGPUPoolSpec option" where
  "as_GPUPoolSpec c = (case c of CGPUPoolSpec x \<Rightarrow> Some x | _ \<Rightarrow> None)"

definition as_GPUPoolStatus :: "('q, 'o, 'l, 'c, 's, 'x) cell \<Rightarrow> mGPUPoolStatus option" where
  "as_GPUPoolStatus c = (case c of CGPUPoolStatus x \<Rightarrow> Some x | _ \<Rightarrow> None)"

definition as_MIGBudgetSpec :: "('q, 'o, 'l, 'c, 's, 'x) cell \<Rightarrow> mMIGBudgetSpec option" where
  "as_MIGBudgetSpec c = (case c of CMIGBudgetSpec x \<Rightarrow> Some x | _ \<Rightarrow> None)"

definition as_MIGPartitionEntry :: "('q, 'o, 'l, 'c, 's, 'x) cell \<Rightarrow> MIGPartitionEntry option" where
  "as_MIGPartitionEntry c = (case c of CMIGPartitionEntry x \<Rightarrow> Some x | _ \<Rightarrow> None)"

definition as_MIGPartitionEntries :: "('q, 'o, 'l, 'c, 's, 'x) cell \<Rightarrow> (MIGPartitionEntry list) option" where
  "as_MIGPartitionEntries c = (case c of CMIGPartitionEntries x \<Rightarrow> Some x | _ \<Rightarrow> None)"

definition as_MIGProfileSpec :: "('q, 'o, 'l, 'c, 's, 'x) cell \<Rightarrow> ('q mMIGProfileSpec) option" where
  "as_MIGProfileSpec c = (case c of CMIGProfileSpec x \<Rightarrow> Some x | _ \<Rightarrow> None)"

definition as_MIGProfileSpecs :: "('q, 'o, 'l, 'c, 's, 'x) cell \<Rightarrow> ('q mMIGProfileSpec list) option" where
  "as_MIGProfileSpecs c = (case c of CMIGProfileSpecs x \<Rightarrow> Some x | _ \<Rightarrow> None)"

definition as_OccupancyEntry :: "('q, 'o, 'l, 'c, 's, 'x) cell \<Rightarrow> mOccupancyEntry option" where
  "as_OccupancyEntry c = (case c of COccupancyEntry x \<Rightarrow> Some x | _ \<Rightarrow> None)"

definition as_OccupancyEntries :: "('q, 'o, 'l, 'c, 's, 'x) cell \<Rightarrow> (mOccupancyEntry list) option" where
  "as_OccupancyEntries c = (case c of COccupancyEntries x \<Rightarrow> Some x | _ \<Rightarrow> None)"

definition as_TopologySpec :: "('q, 'o, 'l, 'c, 's, 'x) cell \<Rightarrow> TopologySpec option" where
  "as_TopologySpec c = (case c of CTopologySpec x \<Rightarrow> Some x | _ \<Rightarrow> None)"

definition as_UtilizationSample :: "('q, 'o, 'l, 'c, 's, 'x) cell \<Rightarrow> mUtilizationSample option" where
  "as_UtilizationSample c = (case c of CUtilizationSample x \<Rightarrow> Some x | _ \<Rightarrow> None)"

definition as_UtilizationSpec :: "('q, 'o, 'l, 'c, 's, 'x) cell \<Rightarrow> mUtilizationSpec option" where
  "as_UtilizationSpec c = (case c of CUtilizationSpec x \<Rightarrow> Some x | _ \<Rightarrow> None)"

definition as_WorkloadUtilization :: "('q, 'o, 'l, 'c, 's, 'x) cell \<Rightarrow> mWorkloadUtilization option" where
  "as_WorkloadUtilization c = (case c of CWorkloadUtilization x \<Rightarrow> Some x | _ \<Rightarrow> None)"

definition as_WorkloadUtilizations :: "('q, 'o, 'l, 'c, 's, 'x) cell \<Rightarrow> (mWorkloadUtilization list) option" where
  "as_WorkloadUtilizations c = (case c of CWorkloadUtilizations x \<Rightarrow> Some x | _ \<Rightarrow> None)"

lemma cell_types:
  shows cell_Bool: "cell_type CBool as_Bool"
    and cell_Int32: "cell_type CInt32 as_Int32"
    and cell_Map: "cell_type CMap as_Map"
    and cell_Quantity: "cell_type CQuantity as_Quantity"
    and cell_LabelSelector: "cell_type CLabelSelector as_LabelSelector"
    and cell_Conditions: "cell_type CConditions as_Conditions"
    and cell_AdvertiseSpec: "cell_type CAdvertiseSpec as_AdvertiseSpec"
    and cell_FaultEntry: "cell_type CFaultEntry as_FaultEntry"
    and cell_FaultEntries: "cell_type CFaultEntries as_FaultEntries"
    and cell_GPUModel: "cell_type CGPUModel as_GPUModel"
    and cell_GPUModels: "cell_type CGPUModels as_GPUModels"
    and cell_GPUModelList: "cell_type CGPUModelList as_GPUModelList"
    and cell_GPUModelSpec: "cell_type CGPUModelSpec as_GPUModelSpec"
    and cell_GPUModelStatus: "cell_type CGPUModelStatus as_GPUModelStatus"
    and cell_GPUPool: "cell_type CGPUPool as_GPUPool"
    and cell_GPUPools: "cell_type CGPUPools as_GPUPools"
    and cell_GPUPoolList: "cell_type CGPUPoolList as_GPUPoolList"
    and cell_GPUPoolSpec: "cell_type CGPUPoolSpec as_GPUPoolSpec"
    and cell_GPUPoolStatus: "cell_type CGPUPoolStatus as_GPUPoolStatus"
    and cell_MIGBudgetSpec: "cell_type CMIGBudgetSpec as_MIGBudgetSpec"
    and cell_MIGPartitionEntry: "cell_type CMIGPartitionEntry as_MIGPartitionEntry"
    and cell_MIGPartitionEntries: "cell_type CMIGPartitionEntries as_MIGPartitionEntries"
    and cell_MIGProfileSpec: "cell_type CMIGProfileSpec as_MIGProfileSpec"
    and cell_MIGProfileSpecs: "cell_type CMIGProfileSpecs as_MIGProfileSpecs"
    and cell_OccupancyEntry: "cell_type COccupancyEntry as_OccupancyEntry"
    and cell_OccupancyEntries: "cell_type COccupancyEntries as_OccupancyEntries"
    and cell_TopologySpec: "cell_type CTopologySpec as_TopologySpec"
    and cell_UtilizationSample: "cell_type CUtilizationSample as_UtilizationSample"
    and cell_UtilizationSpec: "cell_type CUtilizationSpec as_UtilizationSpec"
    and cell_WorkloadUtilization: "cell_type CWorkloadUtilization as_WorkloadUtilization"
    and cell_WorkloadUtilizations: "cell_type CWorkloadUtilizations as_WorkloadUtilizations"
  by (simp_all add: cell_type_def
      as_Bool_def as_Int32_def as_Map_def as_Quantity_def as_LabelSelector_def as_Conditions_def
      as_AdvertiseSpec_def as_FaultEntry_def as_FaultEntries_def as_GPUModel_def as_GPUModels_def as_GPUModelList_def
      as_GPUModelSpec_def as_GPUModelStatus_def as_GPUPool_def as_GPUPools_def as_GPUPoolList_def as_GPUPoolSpec_def
      as_GPUPoolStatus_def as_MIGBudgetSpec_def as_MIGPartitionEntry_def as_MIGPartitionEntries_def as_MIGProfileSpec_def as_MIGProfileSpecs_def
      as_OccupancyEntry_def as_OccupancyEntries_def as_TopologySpec_def as_UtilizationSample_def as_UtilizationSpec_def as_WorkloadUtilization_def
      as_WorkloadUtilizations_def)

section \<open>zz\_generated.deepcopy.go\<close>

text \<open>The copies of the types of other packages: \<open>Quantity.DeepCopy\<close> and the \<open>DeepCopyInto\<close> of the others.\<close>

record ('q, 'o, 'l, 'c, 's, 'x) apimachinery =
  am_Quantity :: "('q, 'q, 'o, 'l, 'c, 's, 'x) copy"
  am_ObjectMeta :: "('o, 'q, 'o, 'l, 'c, 's, 'x) copy"
  am_ListMeta :: "('l, 'q, 'o, 'l, 'c, 's, 'x) copy"
  am_Condition :: "('c, 'q, 'o, 'l, 'c, 's, 'x) copy"
  am_LabelSelector :: "('s, 'q, 'o, 'l, 'c, 's, 'x) copy"

subsection \<open>Parts of a pool\<close>

definition AdvertiseSpec_DeepCopyInto :: "(mAdvertiseSpec, 'q, 'o, 'l, 'c, 's, 'x) copy" where
  "AdvertiseSpec_DeepCopyInto x h =
     do { (dra, h) \<leftarrow> new_copy CBool as_Bool copy_flat (ma_DRA x) h;
          (er, h) \<leftarrow> new_copy CBool as_Bool copy_flat (ma_ExtendedResource x) h;
          Some (x\<lparr>ma_DRA := dra, ma_ExtendedResource := er\<rparr>, h) }"

definition AdvertiseSpec_DeepCopy :: "(nat option, 'q, 'o, 'l, 'c, 's, 'x) copy" where
  "AdvertiseSpec_DeepCopy p h = new_copy CAdvertiseSpec as_AdvertiseSpec AdvertiseSpec_DeepCopyInto p h"

definition FaultEntry_DeepCopyInto :: "(mFaultEntry, 'q, 'o, 'l, 'c, 's, 'x) copy" where
  "FaultEntry_DeepCopyInto x h =
     do { (sel, h) \<leftarrow> copy_map CMap as_Map (mf_NodeSelector x) h;
          Some (x\<lparr>mf_NodeSelector := sel\<rparr>, h) }"

definition FaultEntry_DeepCopy :: "(nat option, 'q, 'o, 'l, 'c, 's, 'x) copy" where
  "FaultEntry_DeepCopy p h = new_copy CFaultEntry as_FaultEntry FaultEntry_DeepCopyInto p h"

definition OccupancyEntry_DeepCopyInto :: "(mOccupancyEntry, 'q, 'o, 'l, 'c, 's, 'x) copy" where
  "OccupancyEntry_DeepCopyInto x h =
     do { (sel, h) \<leftarrow> copy_map CMap as_Map (mo_NodeSelector x) h;
          Some (x\<lparr>mo_NodeSelector := sel\<rparr>, h) }"

definition OccupancyEntry_DeepCopy :: "(nat option, 'q, 'o, 'l, 'c, 's, 'x) copy" where
  "OccupancyEntry_DeepCopy p h = new_copy COccupancyEntry as_OccupancyEntry OccupancyEntry_DeepCopyInto p h"

definition MIGPartitionEntry_DeepCopyInto :: "(MIGPartitionEntry, 'q, 'o, 'l, 'c, 's, 'x) copy" where
  "MIGPartitionEntry_DeepCopyInto x h = copy_flat x h"

definition MIGPartitionEntry_DeepCopy :: "(nat option, 'q, 'o, 'l, 'c, 's, 'x) copy" where
  "MIGPartitionEntry_DeepCopy p h = new_copy CMIGPartitionEntry as_MIGPartitionEntry MIGPartitionEntry_DeepCopyInto p h"

definition TopologySpec_DeepCopyInto :: "(TopologySpec, 'q, 'o, 'l, 'c, 's, 'x) copy" where
  "TopologySpec_DeepCopyInto x h = copy_flat x h"

definition TopologySpec_DeepCopy :: "(nat option, 'q, 'o, 'l, 'c, 's, 'x) copy" where
  "TopologySpec_DeepCopy p h = new_copy CTopologySpec as_TopologySpec TopologySpec_DeepCopyInto p h"

definition UtilizationSample_DeepCopyInto :: "(mUtilizationSample, 'q, 'o, 'l, 'c, 's, 'x) copy" where
  "UtilizationSample_DeepCopyInto x h =
     do { (util, h) \<leftarrow> new_copy CInt32 as_Int32 copy_flat (mu_GPUUtil x) h;
          (memc, h) \<leftarrow> new_copy CInt32 as_Int32 copy_flat (mu_MemCopyUtil x) h;
          (fb, h) \<leftarrow> new_copy CInt32 as_Int32 copy_flat (mu_FBUsedPercent x) h;
          (gr, h) \<leftarrow> new_copy CInt32 as_Int32 copy_flat (mu_GREngineActivePercent x) h;
          (tensor, h) \<leftarrow> new_copy CInt32 as_Int32 copy_flat (mu_TensorActivePercent x) h;
          (power, h) \<leftarrow> new_copy CInt32 as_Int32 copy_flat (mu_PowerWatts x) h;
          (temp, h) \<leftarrow> new_copy CInt32 as_Int32 copy_flat (mu_TemperatureC x) h;
          Some (x\<lparr>mu_GPUUtil := util, mu_MemCopyUtil := memc, mu_FBUsedPercent := fb, mu_GREngineActivePercent := gr,
                  mu_TensorActivePercent := tensor, mu_PowerWatts := power, mu_TemperatureC := temp\<rparr>, h) }"

definition UtilizationSample_DeepCopy :: "(nat option, 'q, 'o, 'l, 'c, 's, 'x) copy" where
  "UtilizationSample_DeepCopy p h = new_copy CUtilizationSample as_UtilizationSample UtilizationSample_DeepCopyInto p h"

definition WorkloadUtilization_DeepCopyInto :: "('q, 'o, 'l, 'c, 's, 'x) apimachinery \<Rightarrow> (mWorkloadUtilization, 'q, 'o, 'l, 'c, 's, 'x) copy" where
  "WorkloadUtilization_DeepCopyInto E x h =
     do { (sel, h) \<leftarrow> new_copy CLabelSelector as_LabelSelector (am_LabelSelector E) (mw_PodSelector x) h;
          (sample, h) \<leftarrow> UtilizationSample_DeepCopyInto (mw_UtilizationSample x) h;
          Some (x\<lparr>mw_PodSelector := sel, mw_UtilizationSample := sample\<rparr>, h) }"

definition WorkloadUtilization_DeepCopy :: "('q, 'o, 'l, 'c, 's, 'x) apimachinery \<Rightarrow> (nat option, 'q, 'o, 'l, 'c, 's, 'x) copy" where
  "WorkloadUtilization_DeepCopy E p h = new_copy CWorkloadUtilization as_WorkloadUtilization (WorkloadUtilization_DeepCopyInto E) p h"

definition UtilizationSpec_DeepCopyInto :: "('q, 'o, 'l, 'c, 's, 'x) apimachinery \<Rightarrow> (mUtilizationSpec, 'q, 'o, 'l, 'c, 's, 'x) copy" where
  "UtilizationSpec_DeepCopyInto E x h =
     do { (alloc, h) \<leftarrow> new_copy CUtilizationSample as_UtilizationSample UtilizationSample_DeepCopyInto (mt_WhenAllocated x) h;
          (idle, h) \<leftarrow> new_copy CUtilizationSample as_UtilizationSample UtilizationSample_DeepCopyInto (mt_WhenIdle x) h;
          (work, h) \<leftarrow> copy_slice CWorkloadUtilizations as_WorkloadUtilizations (WorkloadUtilization_DeepCopyInto E) (mt_Workloads x) h;
          Some (x\<lparr>mt_WhenAllocated := alloc, mt_WhenIdle := idle, mt_Workloads := work\<rparr>, h) }"

definition UtilizationSpec_DeepCopy :: "('q, 'o, 'l, 'c, 's, 'x) apimachinery \<Rightarrow> (nat option, 'q, 'o, 'l, 'c, 's, 'x) copy" where
  "UtilizationSpec_DeepCopy E p h = new_copy CUtilizationSpec as_UtilizationSpec (UtilizationSpec_DeepCopyInto E) p h"

subsection \<open>Pools\<close>

definition GPUPoolSpec_DeepCopyInto :: "('q, 'o, 'l, 'c, 's, 'x) apimachinery \<Rightarrow> (mGPUPoolSpec, 'q, 'o, 'l, 'c, 's, 'x) copy" where
  "GPUPoolSpec_DeepCopyInto E x h =
     do { (sel, h) \<leftarrow> copy_map CMap as_Map (mp_NodeSelector x) h;
          (adv, h) \<leftarrow> AdvertiseSpec_DeepCopyInto (mp_Advertise x) h;
          (parts, h) \<leftarrow> copy_slice CMIGPartitionEntries as_MIGPartitionEntries copy_flat (mp_MIGPartition x) h;
          (faults, h) \<leftarrow> copy_slice CFaultEntries as_FaultEntries FaultEntry_DeepCopyInto (mp_Faults x) h;
          (util, h) \<leftarrow> new_copy CUtilizationSpec as_UtilizationSpec (UtilizationSpec_DeepCopyInto E) (mp_Utilization x) h;
          (occ, h) \<leftarrow> copy_slice COccupancyEntries as_OccupancyEntries OccupancyEntry_DeepCopyInto (mp_Occupancy x) h;
          Some (x\<lparr>mp_NodeSelector := sel, mp_Advertise := adv, mp_MIGPartition := parts, mp_Faults := faults,
                  mp_Utilization := util, mp_Occupancy := occ, mp_Topology := mp_Topology x\<rparr>, h) }"

definition GPUPoolSpec_DeepCopy :: "('q, 'o, 'l, 'c, 's, 'x) apimachinery \<Rightarrow> (nat option, 'q, 'o, 'l, 'c, 's, 'x) copy" where
  "GPUPoolSpec_DeepCopy E p h = new_copy CGPUPoolSpec as_GPUPoolSpec (GPUPoolSpec_DeepCopyInto E) p h"

definition GPUPoolStatus_DeepCopyInto :: "('q, 'o, 'l, 'c, 's, 'x) apimachinery \<Rightarrow> (mGPUPoolStatus, 'q, 'o, 'l, 'c, 's, 'x) copy" where
  "GPUPoolStatus_DeepCopyInto E x h =
     do { (conds, h) \<leftarrow> copy_slice CConditions as_Conditions (am_Condition E) (mst_Conditions x) h;
          Some (x\<lparr>mst_Conditions := conds\<rparr>, h) }"

definition GPUPoolStatus_DeepCopy :: "('q, 'o, 'l, 'c, 's, 'x) apimachinery \<Rightarrow> (nat option, 'q, 'o, 'l, 'c, 's, 'x) copy" where
  "GPUPoolStatus_DeepCopy E p h = new_copy CGPUPoolStatus as_GPUPoolStatus (GPUPoolStatus_DeepCopyInto E) p h"

definition GPUPool_DeepCopyInto :: "('q, 'o, 'l, 'c, 's, 'x) apimachinery \<Rightarrow> ('o mGPUPool, 'q, 'o, 'l, 'c, 's, 'x) copy" where
  "GPUPool_DeepCopyInto E x h =
     do { (om, h) \<leftarrow> am_ObjectMeta E (mgp_ObjectMeta x) h;
          (spec, h) \<leftarrow> GPUPoolSpec_DeepCopyInto E (mgp_Spec x) h;
          (status, h) \<leftarrow> GPUPoolStatus_DeepCopyInto E (mgp_Status x) h;
          Some (x\<lparr>mgp_TypeMeta := mgp_TypeMeta x, mgp_ObjectMeta := om, mgp_Spec := spec, mgp_Status := status\<rparr>, h) }"

definition GPUPool_DeepCopy :: "('q, 'o, 'l, 'c, 's, 'x) apimachinery \<Rightarrow> (nat option, 'q, 'o, 'l, 'c, 's, 'x) copy" where
  "GPUPool_DeepCopy E p h = new_copy CGPUPool as_GPUPool (GPUPool_DeepCopyInto E) p h"

definition GPUPoolList_DeepCopyInto :: "('q, 'o, 'l, 'c, 's, 'x) apimachinery \<Rightarrow> ('l mList, 'q, 'o, 'l, 'c, 's, 'x) copy" where
  "GPUPoolList_DeepCopyInto E x h =
     do { (lm, h) \<leftarrow> am_ListMeta E (ml_ListMeta x) h;
          (items, h) \<leftarrow> copy_slice CGPUPools as_GPUPools (GPUPool_DeepCopyInto E) (ml_Items x) h;
          Some (x\<lparr>ml_TypeMeta := ml_TypeMeta x, ml_ListMeta := lm, ml_Items := items\<rparr>, h) }"

definition GPUPoolList_DeepCopy :: "('q, 'o, 'l, 'c, 's, 'x) apimachinery \<Rightarrow> (nat option, 'q, 'o, 'l, 'c, 's, 'x) copy" where
  "GPUPoolList_DeepCopy E p h = new_copy CGPUPoolList as_GPUPoolList (GPUPoolList_DeepCopyInto E) p h"

subsection \<open>Models\<close>

definition MIGProfileSpec_DeepCopyInto :: "('q, 'o, 'l, 'c, 's, 'x) apimachinery \<Rightarrow> ('q mMIGProfileSpec, 'q, 'o, 'l, 'c, 's, 'x) copy" where
  "MIGProfileSpec_DeepCopyInto E x h =
     do { (memory, h) \<leftarrow> am_Quantity E (mm_Memory x) h;
          Some (x\<lparr>mm_Memory := memory\<rparr>, h) }"

definition MIGProfileSpec_DeepCopy :: "('q, 'o, 'l, 'c, 's, 'x) apimachinery \<Rightarrow> (nat option, 'q, 'o, 'l, 'c, 's, 'x) copy" where
  "MIGProfileSpec_DeepCopy E p h = new_copy CMIGProfileSpec as_MIGProfileSpec (MIGProfileSpec_DeepCopyInto E) p h"

definition MIGBudgetSpec_DeepCopyInto :: "('q, 'o, 'l, 'c, 's, 'x) apimachinery \<Rightarrow> (mMIGBudgetSpec, 'q, 'o, 'l, 'c, 's, 'x) copy" where
  "MIGBudgetSpec_DeepCopyInto E x h =
     do { (memory, h) \<leftarrow> new_copy CQuantity as_Quantity (am_Quantity E) (mb_Memory x) h;
          Some (x\<lparr>mb_Memory := memory\<rparr>, h) }"

definition MIGBudgetSpec_DeepCopy :: "('q, 'o, 'l, 'c, 's, 'x) apimachinery \<Rightarrow> (nat option, 'q, 'o, 'l, 'c, 's, 'x) copy" where
  "MIGBudgetSpec_DeepCopy E p h = new_copy CMIGBudgetSpec as_MIGBudgetSpec (MIGBudgetSpec_DeepCopyInto E) p h"

definition GPUModelSpec_DeepCopyInto :: "('q, 'o, 'l, 'c, 's, 'x) apimachinery \<Rightarrow> ('q mGPUModelSpec, 'q, 'o, 'l, 'c, 's, 'x) copy" where
  "GPUModelSpec_DeepCopyInto E x h =
     do { (memory, h) \<leftarrow> am_Quantity E (mgs_Memory x) h;
          (profiles, h) \<leftarrow> copy_slice CMIGProfileSpecs as_MIGProfileSpecs (MIGProfileSpec_DeepCopyInto E) (mgs_MIGProfiles x) h;
          (budget, h) \<leftarrow> new_copy CMIGBudgetSpec as_MIGBudgetSpec (MIGBudgetSpec_DeepCopyInto E) (mgs_MIGBudget x) h;
          Some (x\<lparr>mgs_Memory := memory, mgs_MIGProfiles := profiles, mgs_MIGBudget := budget\<rparr>, h) }"

definition GPUModelSpec_DeepCopy :: "('q, 'o, 'l, 'c, 's, 'x) apimachinery \<Rightarrow> (nat option, 'q, 'o, 'l, 'c, 's, 'x) copy" where
  "GPUModelSpec_DeepCopy E p h = new_copy CGPUModelSpec as_GPUModelSpec (GPUModelSpec_DeepCopyInto E) p h"

definition GPUModelStatus_DeepCopyInto :: "('q, 'o, 'l, 'c, 's, 'x) apimachinery \<Rightarrow> (mGPUModelStatus, 'q, 'o, 'l, 'c, 's, 'x) copy" where
  "GPUModelStatus_DeepCopyInto E x h =
     do { (conds, h) \<leftarrow> copy_slice CConditions as_Conditions (am_Condition E) (mgt_Conditions x) h;
          Some (x\<lparr>mgt_Conditions := conds\<rparr>, h) }"

definition GPUModelStatus_DeepCopy :: "('q, 'o, 'l, 'c, 's, 'x) apimachinery \<Rightarrow> (nat option, 'q, 'o, 'l, 'c, 's, 'x) copy" where
  "GPUModelStatus_DeepCopy E p h = new_copy CGPUModelStatus as_GPUModelStatus (GPUModelStatus_DeepCopyInto E) p h"

definition GPUModel_DeepCopyInto :: "('q, 'o, 'l, 'c, 's, 'x) apimachinery \<Rightarrow> (('q, 'o) mGPUModel, 'q, 'o, 'l, 'c, 's, 'x) copy" where
  "GPUModel_DeepCopyInto E x h =
     do { (om, h) \<leftarrow> am_ObjectMeta E (mgm_ObjectMeta x) h;
          (spec, h) \<leftarrow> GPUModelSpec_DeepCopyInto E (mgm_Spec x) h;
          (status, h) \<leftarrow> GPUModelStatus_DeepCopyInto E (mgm_Status x) h;
          Some (x\<lparr>mgm_TypeMeta := mgm_TypeMeta x, mgm_ObjectMeta := om, mgm_Spec := spec, mgm_Status := status\<rparr>, h) }"

definition GPUModel_DeepCopy :: "('q, 'o, 'l, 'c, 's, 'x) apimachinery \<Rightarrow> (nat option, 'q, 'o, 'l, 'c, 's, 'x) copy" where
  "GPUModel_DeepCopy E p h = new_copy CGPUModel as_GPUModel (GPUModel_DeepCopyInto E) p h"

definition GPUModelList_DeepCopyInto :: "('q, 'o, 'l, 'c, 's, 'x) apimachinery \<Rightarrow> ('l mList, 'q, 'o, 'l, 'c, 's, 'x) copy" where
  "GPUModelList_DeepCopyInto E x h =
     do { (lm, h) \<leftarrow> am_ListMeta E (ml_ListMeta x) h;
          (items, h) \<leftarrow> copy_slice CGPUModels as_GPUModels (GPUModel_DeepCopyInto E) (ml_Items x) h;
          Some (x\<lparr>ml_TypeMeta := ml_TypeMeta x, ml_ListMeta := lm, ml_Items := items\<rparr>, h) }"

definition GPUModelList_DeepCopy :: "('q, 'o, 'l, 'c, 's, 'x) apimachinery \<Rightarrow> (nat option, 'q, 'o, 'l, 'c, 's, 'x) copy" where
  "GPUModelList_DeepCopy E p h = new_copy CGPUModelList as_GPUModelList (GPUModelList_DeepCopyInto E) p h"

subsection \<open>Objects behind an interface\<close>

text \<open>A value of the interface \<open>runtime.Object\<close> is nil or a pointer with its type; a nil pointer with a type is not nil.\<close>

datatype runtime_Object = GPUModelObject "nat option" | GPUModelListObject "nat option" | GPUPoolObject "nat option" | GPUPoolListObject "nat option"

definition GPUModel_DeepCopyObject :: "('q, 'o, 'l, 'c, 's, 'x) apimachinery \<Rightarrow> nat option \<Rightarrow> ('q, 'o, 'l, 'c, 's, 'x) mem \<Rightarrow> (runtime_Object option \<times> ('q, 'o, 'l, 'c, 's, 'x) mem) option" where
  "GPUModel_DeepCopyObject E p h =
     do { (c, h) \<leftarrow> GPUModel_DeepCopy E p h;
          Some (if c \<noteq> None then Some (GPUModelObject c) else None, h) }"

definition GPUModelList_DeepCopyObject :: "('q, 'o, 'l, 'c, 's, 'x) apimachinery \<Rightarrow> nat option \<Rightarrow> ('q, 'o, 'l, 'c, 's, 'x) mem \<Rightarrow> (runtime_Object option \<times> ('q, 'o, 'l, 'c, 's, 'x) mem) option" where
  "GPUModelList_DeepCopyObject E p h =
     do { (c, h) \<leftarrow> GPUModelList_DeepCopy E p h;
          Some (if c \<noteq> None then Some (GPUModelListObject c) else None, h) }"

definition GPUPool_DeepCopyObject :: "('q, 'o, 'l, 'c, 's, 'x) apimachinery \<Rightarrow> nat option \<Rightarrow> ('q, 'o, 'l, 'c, 's, 'x) mem \<Rightarrow> (runtime_Object option \<times> ('q, 'o, 'l, 'c, 's, 'x) mem) option" where
  "GPUPool_DeepCopyObject E p h =
     do { (c, h) \<leftarrow> GPUPool_DeepCopy E p h;
          Some (if c \<noteq> None then Some (GPUPoolObject c) else None, h) }"

definition GPUPoolList_DeepCopyObject :: "('q, 'o, 'l, 'c, 's, 'x) apimachinery \<Rightarrow> nat option \<Rightarrow> ('q, 'o, 'l, 'c, 's, 'x) mem \<Rightarrow> (runtime_Object option \<times> ('q, 'o, 'l, 'c, 's, 'x) mem) option" where
  "GPUPoolList_DeepCopyObject E p h =
     do { (c, h) \<leftarrow> GPUPoolList_DeepCopy E p h;
          Some (if c \<noteq> None then Some (GPUPoolListObject c) else None, h) }"

section \<open>What the objects denote\<close>

definition rep_AdvertiseSpec :: "('q, 'o, 'l, 'c, 's, 'x) mem \<Rightarrow> nat set \<Rightarrow> mAdvertiseSpec \<Rightarrow> AdvertiseSpec \<Rightarrow> bool" where
  "rep_AdvertiseSpec h S x v \<longleftrightarrow> rep_ptr as_Bool rep_flat h S (ma_DRA x) (adv_DRA v)
     \<and> rep_ptr as_Bool rep_flat h S (ma_ExtendedResource x) (adv_ExtendedResource v)"

definition rep_FaultEntry :: "('q, 'o, 'l, 'c, 's, 'x) mem \<Rightarrow> nat set \<Rightarrow> mFaultEntry \<Rightarrow> FaultEntry \<Rightarrow> bool" where
  "rep_FaultEntry h S x v \<longleftrightarrow> rep_map as_Map h S (mf_NodeSelector x) (fe_NodeSelector v)
     \<and> mf_GPUs x = fe_GPUs v \<and> mf_Effect x = fe_Effect v \<and> mf_XID x = fe_XID v"

definition rep_OccupancyEntry :: "('q, 'o, 'l, 'c, 's, 'x) mem \<Rightarrow> nat set \<Rightarrow> mOccupancyEntry \<Rightarrow> OccupancyEntry \<Rightarrow> bool" where
  "rep_OccupancyEntry h S x v \<longleftrightarrow> rep_map as_Map h S (mo_NodeSelector x) (oe_NodeSelector v) \<and> mo_BusyPerNode x = oe_BusyPerNode v"

definition rep_UtilizationSample :: "('q, 'o, 'l, 'c, 's, 'x) mem \<Rightarrow> nat set \<Rightarrow> mUtilizationSample \<Rightarrow> UtilizationSample \<Rightarrow> bool" where
  "rep_UtilizationSample h S x v \<longleftrightarrow> rep_ptr as_Int32 rep_flat h S (mu_GPUUtil x) (us_GPUUtil v)
     \<and> rep_ptr as_Int32 rep_flat h S (mu_MemCopyUtil x) (us_MemCopyUtil v)
     \<and> rep_ptr as_Int32 rep_flat h S (mu_FBUsedPercent x) (us_FBUsedPercent v)
     \<and> rep_ptr as_Int32 rep_flat h S (mu_GREngineActivePercent x) (us_GREngineActivePercent v)
     \<and> rep_ptr as_Int32 rep_flat h S (mu_TensorActivePercent x) (us_TensorActivePercent v)
     \<and> rep_ptr as_Int32 rep_flat h S (mu_PowerWatts x) (us_PowerWatts v)
     \<and> rep_ptr as_Int32 rep_flat h S (mu_TemperatureC x) (us_TemperatureC v)"

text \<open>What the types of the API machinery denote is a parameter, as their copies are.\<close>

type_synonym ('t, 'v, 'q, 'o, 'l, 'c, 's, 'x) denotes = "('q, 'o, 'l, 'c, 's, 'x) mem \<Rightarrow> nat set \<Rightarrow> 't \<Rightarrow> 'v \<Rightarrow> bool"

definition rep_WorkloadUtilization :: "('s, LabelSelector, 'q, 'o, 'l, 'c, 's, 'x) denotes \<Rightarrow> (mWorkloadUtilization, WorkloadUtilization, 'q, 'o, 'l, 'c, 's, 'x) denotes" where
  "rep_WorkloadUtilization rs h S x v \<longleftrightarrow> rep_ptr as_LabelSelector rs h S (mw_PodSelector x) (wu_PodSelector v)
     \<and> rep_UtilizationSample h S (mw_UtilizationSample x) (wu_UtilizationSample v)"

definition rep_UtilizationSpec :: "('s, LabelSelector, 'q, 'o, 'l, 'c, 's, 'x) denotes \<Rightarrow> (mUtilizationSpec, UtilizationSpec, 'q, 'o, 'l, 'c, 's, 'x) denotes" where
  "rep_UtilizationSpec rs h S x v \<longleftrightarrow> rep_ptr as_UtilizationSample rep_UtilizationSample h S (mt_WhenAllocated x) (ut_WhenAllocated v)
     \<and> rep_ptr as_UtilizationSample rep_UtilizationSample h S (mt_WhenIdle x) (ut_WhenIdle v)
     \<and> rep_slice as_WorkloadUtilizations (rep_WorkloadUtilization rs) h S (mt_Workloads x) (ut_Workloads v)"

definition rep_GPUPoolSpec :: "('s, LabelSelector, 'q, 'o, 'l, 'c, 's, 'x) denotes \<Rightarrow> (mGPUPoolSpec, GPUPoolSpec, 'q, 'o, 'l, 'c, 's, 'x) denotes" where
  "rep_GPUPoolSpec rs h S x v \<longleftrightarrow> rep_map as_Map h S (mp_NodeSelector x) (ps_NodeSelector v)
     \<and> rep_AdvertiseSpec h S (mp_Advertise x) (ps_Advertise v)
     \<and> rep_slice as_MIGPartitionEntries rep_flat h S (mp_MIGPartition x) (ps_MIGPartition v)
     \<and> rep_slice as_FaultEntries rep_FaultEntry h S (mp_Faults x) (ps_Faults v)
     \<and> rep_ptr as_UtilizationSpec (rep_UtilizationSpec rs) h S (mp_Utilization x) (ps_Utilization v)
     \<and> rep_slice as_OccupancyEntries rep_OccupancyEntry h S (mp_Occupancy x) (ps_Occupancy v)
     \<and> mp_ModelRef x = ps_ModelRef v \<and> mp_GPUsPerNode x = ps_GPUsPerNode v \<and> mp_SharingMode x = ps_SharingMode v
     \<and> mp_Topology x = ps_Topology v"

definition rep_GPUPoolStatus :: "('c, 'm Condition, 'q, 'o, 'l, 'c, 's, 'x) denotes \<Rightarrow> (mGPUPoolStatus, 'm GPUPoolStatus, 'q, 'o, 'l, 'c, 's, 'x) denotes" where
  "rep_GPUPoolStatus rc h S x v \<longleftrightarrow> rep_slice as_Conditions rc h S (mst_Conditions x) (st_Conditions v)
     \<and> mst_ObservedGeneration x = st_ObservedGeneration v \<and> mst_NodesMatched x = st_NodesMatched v
     \<and> mst_DevicesPublished x = st_DevicesPublished v \<and> mst_GPUsOccupied x = st_GPUsOccupied v
     \<and> mst_GPUsFaulted x = st_GPUsFaulted v \<and> mst_MIGProfilesPublished x = st_MIGProfilesPublished v"

text \<open>A pool as a value: its \<open>TypeMeta\<close>, what its \<open>ObjectMeta\<close> denotes, its specification and its status.\<close>

type_synonym ('ov, 'm) pool_value = "(string \<times> string) \<times> 'ov \<times> GPUPoolSpec \<times> 'm GPUPoolStatus"

definition rep_GPUPool :: "('o, 'ov, 'q, 'o, 'l, 'c, 's, 'x) denotes \<Rightarrow> ('s, LabelSelector, 'q, 'o, 'l, 'c, 's, 'x) denotes \<Rightarrow> ('c, 'm Condition, 'q, 'o, 'l, 'c, 's, 'x) denotes
    \<Rightarrow> ('o mGPUPool, ('ov, 'm) pool_value, 'q, 'o, 'l, 'c, 's, 'x) denotes" where
  "rep_GPUPool ro rs rc h S x v = (case v of (tm, om, spec, status) \<Rightarrow> mgp_TypeMeta x = tm \<and> ro h S (mgp_ObjectMeta x) om
     \<and> rep_GPUPoolSpec rs h S (mgp_Spec x) spec \<and> rep_GPUPoolStatus rc h S (mgp_Status x) status)"

definition rep_MIGProfileSpec :: "('q, 'qv, 'q, 'o, 'l, 'c, 's, 'x) denotes \<Rightarrow> ('q mMIGProfileSpec, 'qv MIGProfileSpec, 'q, 'o, 'l, 'c, 's, 'x) denotes" where
  "rep_MIGProfileSpec rq h S x v \<longleftrightarrow> rq h S (mm_Memory x) (mps_Memory v) \<and> mm_Name x = mps_Name v \<and> mm_Slices x = mps_Slices v"

definition rep_MIGBudgetSpec :: "('q, 'qv, 'q, 'o, 'l, 'c, 's, 'x) denotes \<Rightarrow> (mMIGBudgetSpec, 'qv MIGBudgetSpec, 'q, 'o, 'l, 'c, 's, 'x) denotes" where
  "rep_MIGBudgetSpec rq h S x v \<longleftrightarrow> rep_ptr as_Quantity rq h S (mb_Memory x) (mbs_Memory v) \<and> mb_Slices x = mbs_Slices v"

definition rep_GPUModelSpec :: "('q, 'qv, 'q, 'o, 'l, 'c, 's, 'x) denotes \<Rightarrow> ('q mGPUModelSpec, 'qv GPUModelSpec, 'q, 'o, 'l, 'c, 's, 'x) denotes" where
  "rep_GPUModelSpec rq h S x v \<longleftrightarrow> rq h S (mgs_Memory x) (ms_Memory v)
     \<and> rep_slice as_MIGProfileSpecs (rep_MIGProfileSpec rq) h S (mgs_MIGProfiles x) (ms_MIGProfiles v)
     \<and> rep_ptr as_MIGBudgetSpec (rep_MIGBudgetSpec rq) h S (mgs_MIGBudget x) (ms_MIGBudget v)
     \<and> mgs_Vendor x = ms_Vendor v \<and> mgs_ProductName x = ms_ProductName v \<and> mgs_ComputeCapability x = ms_ComputeCapability v"

type_synonym ('qv, 'ov, 'cv) model_value = "(string \<times> string) \<times> 'ov \<times> 'qv GPUModelSpec \<times> 'cv list"

definition rep_GPUModel :: "('q, 'qv, 'q, 'o, 'l, 'c, 's, 'x) denotes \<Rightarrow> ('o, 'ov, 'q, 'o, 'l, 'c, 's, 'x) denotes \<Rightarrow> ('c, 'cv, 'q, 'o, 'l, 'c, 's, 'x) denotes
    \<Rightarrow> (('q, 'o) mGPUModel, ('qv, 'ov, 'cv) model_value, 'q, 'o, 'l, 'c, 's, 'x) denotes" where
  "rep_GPUModel rq ro rc h S x v = (case v of (tm, om, spec, conds) \<Rightarrow> mgm_TypeMeta x = tm \<and> ro h S (mgm_ObjectMeta x) om
     \<and> rep_GPUModelSpec rq h S (mgm_Spec x) spec \<and> rep_slice as_Conditions rc h S (mgt_Conditions (mgm_Status x)) conds)"

text \<open>A list object, by what its items are.\<close>

definition rep_List :: "(('q, 'o, 'l, 'c, 's, 'x) cell \<Rightarrow> 't list option) \<Rightarrow> ('l, 'lv, 'q, 'o, 'l, 'c, 's, 'x) denotes \<Rightarrow> ('t, 'v, 'q, 'o, 'l, 'c, 's, 'x) denotes
    \<Rightarrow> ('l mList, (string \<times> string) \<times> 'lv \<times> 'v list, 'q, 'o, 'l, 'c, 's, 'x) denotes" where
  "rep_List get rl ri h S x v = (case v of (tm, lm, items) \<Rightarrow> ml_TypeMeta x = tm \<and> rl h S (ml_ListMeta x) lm \<and> rep_slice get ri h S (ml_Items x) items)"

section \<open>Every copy is deep\<close>

lemmas copy_simps = copy_both_def rep_both_def map_option_bind case_prod_beta'

lemmas bool_deep = deep_copy.ptr [OF deep_copy_flat cell_Bool]
  and int32_deep = deep_copy.ptr [OF deep_copy_flat cell_Int32]
  and labels_deep = deep_copy_map [OF cell_Map]

lemma AdvertiseSpec_deep: "deep_copy AdvertiseSpec_DeepCopyInto rep_AdvertiseSpec"
  by (rule deep_copy.struct [OF deep_copy.both [OF bool_deep bool_deep], where flds = "\<lambda>x. (ma_DRA x, ma_ExtendedResource x)"
        and build = "\<lambda>x y. x\<lparr>ma_DRA := fst y, ma_ExtendedResource := snd y\<rparr>"
        and vals = "\<lambda>v. (adv_DRA v, adv_ExtendedResource v)" and same = "\<lambda>_ _. True"])
    (auto simp: AdvertiseSpec_DeepCopyInto_def rep_AdvertiseSpec_def copy_simps intro: AdvertiseSpec.equality)

lemma FaultEntry_deep: "deep_copy FaultEntry_DeepCopyInto rep_FaultEntry"
  by (rule deep_copy.struct [OF labels_deep, where flds = mf_NodeSelector and build = "\<lambda>x y. x\<lparr>mf_NodeSelector := y\<rparr>"
        and vals = fe_NodeSelector and same = "\<lambda>x v. mf_GPUs x = fe_GPUs v \<and> mf_Effect x = fe_Effect v \<and> mf_XID x = fe_XID v"])
    (auto simp: FaultEntry_DeepCopyInto_def rep_FaultEntry_def copy_simps map_conv_bind_option comp_def intro: FaultEntry.equality)

lemma OccupancyEntry_deep: "deep_copy OccupancyEntry_DeepCopyInto rep_OccupancyEntry"
  by (rule deep_copy.struct [OF labels_deep, where flds = mo_NodeSelector and build = "\<lambda>x y. x\<lparr>mo_NodeSelector := y\<rparr>"
        and vals = oe_NodeSelector and same = "\<lambda>x v. mo_BusyPerNode x = oe_BusyPerNode v"])
    (auto simp: OccupancyEntry_DeepCopyInto_def rep_OccupancyEntry_def copy_simps map_conv_bind_option comp_def intro: OccupancyEntry.equality)

lemma UtilizationSample_deep: "deep_copy UtilizationSample_DeepCopyInto rep_UtilizationSample"
  by (rule deep_copy.struct [OF deep_copy.both [OF int32_deep deep_copy.both [OF int32_deep deep_copy.both [OF int32_deep
          deep_copy.both [OF int32_deep deep_copy.both [OF int32_deep deep_copy.both [OF int32_deep int32_deep]]]]]],
        where flds = "\<lambda>x. (mu_GPUUtil x, mu_MemCopyUtil x, mu_FBUsedPercent x, mu_GREngineActivePercent x, mu_TensorActivePercent x,
          mu_PowerWatts x, mu_TemperatureC x)"
        and build = "\<lambda>x (a, b, c, d, e, f, g). x\<lparr>mu_GPUUtil := a, mu_MemCopyUtil := b, mu_FBUsedPercent := c, mu_GREngineActivePercent := d,
          mu_TensorActivePercent := e, mu_PowerWatts := f, mu_TemperatureC := g\<rparr>"
        and vals = "\<lambda>v. (us_GPUUtil v, us_MemCopyUtil v, us_FBUsedPercent v, us_GREngineActivePercent v, us_TensorActivePercent v,
          us_PowerWatts v, us_TemperatureC v)" and same = "\<lambda>_ _. True"])
    (auto simp: UtilizationSample_DeepCopyInto_def rep_UtilizationSample_def copy_simps intro: UtilizationSample.equality)

text \<open>The types of the API machinery, by assumption.\<close>

definition copies_ok :: "('q, 'o, 'l, 'c, 's, 'x) apimachinery \<Rightarrow> ('q, 'qv, 'q, 'o, 'l, 'c, 's, 'x) denotes \<Rightarrow> ('o, 'ov, 'q, 'o, 'l, 'c, 's, 'x) denotes
    \<Rightarrow> ('l, 'lv, 'q, 'o, 'l, 'c, 's, 'x) denotes \<Rightarrow> ('c, 'cv, 'q, 'o, 'l, 'c, 's, 'x) denotes \<Rightarrow> ('s, 'sv, 'q, 'o, 'l, 'c, 's, 'x) denotes \<Rightarrow> bool" where
  "copies_ok E rq ro rl rc rs \<longleftrightarrow> deep_copy (am_Quantity E) rq \<and> deep_copy (am_ObjectMeta E) ro \<and> deep_copy (am_ListMeta E) rl
     \<and> deep_copy (am_Condition E) rc \<and> deep_copy (am_LabelSelector E) rs"

lemma WorkloadUtilization_deep:
  assumes "deep_copy (am_LabelSelector E) rs"
  shows "deep_copy (WorkloadUtilization_DeepCopyInto E) (rep_WorkloadUtilization rs)"
  by (rule deep_copy.struct [OF deep_copy.both [OF deep_copy.ptr [OF assms cell_LabelSelector] UtilizationSample_deep],
        where flds = "\<lambda>x. (mw_PodSelector x, mw_UtilizationSample x)" and build = "\<lambda>x (a, b). x\<lparr>mw_PodSelector := a, mw_UtilizationSample := b\<rparr>"
        and vals = "\<lambda>v. (wu_PodSelector v, wu_UtilizationSample v)" and same = "\<lambda>_ _. True"])
    (auto simp: WorkloadUtilization_DeepCopyInto_def rep_WorkloadUtilization_def copy_simps intro: WorkloadUtilization.equality)

lemma UtilizationSpec_deep:
  assumes "deep_copy (am_LabelSelector E) rs"
  shows "deep_copy (UtilizationSpec_DeepCopyInto E) (rep_UtilizationSpec rs)"
proof -
  note sample = deep_copy.ptr [OF UtilizationSample_deep cell_UtilizationSample]
  note work = deep_copy.slice [OF WorkloadUtilization_deep [OF assms] cell_WorkloadUtilizations]
  show ?thesis
    by (rule deep_copy.struct [OF deep_copy.both [OF sample deep_copy.both [OF sample work]],
          where flds = "\<lambda>x. (mt_WhenAllocated x, mt_WhenIdle x, mt_Workloads x)"
          and build = "\<lambda>x (a, b, c). x\<lparr>mt_WhenAllocated := a, mt_WhenIdle := b, mt_Workloads := c\<rparr>"
          and vals = "\<lambda>v. (ut_WhenAllocated v, ut_WhenIdle v, ut_Workloads v)" and same = "\<lambda>_ _. True"])
      (auto simp: UtilizationSpec_DeepCopyInto_def rep_UtilizationSpec_def copy_simps intro: UtilizationSpec.equality)
qed

lemma GPUPoolSpec_deep:
  assumes "deep_copy (am_LabelSelector E) rs"
  shows "deep_copy (GPUPoolSpec_DeepCopyInto E) (rep_GPUPoolSpec rs)"
proof -
  note parts = deep_copy.slice [OF deep_copy_flat cell_MIGPartitionEntries] and faults = deep_copy.slice [OF FaultEntry_deep cell_FaultEntries]
    and util = deep_copy.ptr [OF UtilizationSpec_deep [OF assms] cell_UtilizationSpec] and occ = deep_copy.slice [OF OccupancyEntry_deep cell_OccupancyEntries]
  show ?thesis
    by (rule deep_copy.struct [OF deep_copy.both [OF labels_deep deep_copy.both [OF AdvertiseSpec_deep deep_copy.both [OF parts
            deep_copy.both [OF faults deep_copy.both [OF util occ]]]]],
          where flds = "\<lambda>x. (mp_NodeSelector x, mp_Advertise x, mp_MIGPartition x, mp_Faults x, mp_Utilization x, mp_Occupancy x)"
          and build = "\<lambda>x (a, b, c, d, e, f). x\<lparr>mp_NodeSelector := a, mp_Advertise := b, mp_MIGPartition := c, mp_Faults := d,
            mp_Utilization := e, mp_Occupancy := f, mp_Topology := mp_Topology x\<rparr>"
          and vals = "\<lambda>v. (ps_NodeSelector v, ps_Advertise v, ps_MIGPartition v, ps_Faults v, ps_Utilization v, ps_Occupancy v)"
          and same = "\<lambda>x v. mp_ModelRef x = ps_ModelRef v \<and> mp_GPUsPerNode x = ps_GPUsPerNode v \<and> mp_SharingMode x = ps_SharingMode v
            \<and> mp_Topology x = ps_Topology v"])
      (auto simp: GPUPoolSpec_DeepCopyInto_def rep_GPUPoolSpec_def copy_simps intro: GPUPoolSpec.equality)
qed

lemma GPUPoolStatus_deep:
  assumes "deep_copy (am_Condition E) rc"
  shows "deep_copy (GPUPoolStatus_DeepCopyInto E) (rep_GPUPoolStatus rc)"
  by (rule deep_copy.struct [OF deep_copy.slice [OF assms cell_Conditions],
        where flds = mst_Conditions and build = "\<lambda>x y. x\<lparr>mst_Conditions := y\<rparr>" and vals = st_Conditions
        and same = "\<lambda>x v. mst_ObservedGeneration x = st_ObservedGeneration v \<and> mst_NodesMatched x = st_NodesMatched v
          \<and> mst_DevicesPublished x = st_DevicesPublished v \<and> mst_GPUsOccupied x = st_GPUsOccupied v
          \<and> mst_GPUsFaulted x = st_GPUsFaulted v \<and> mst_MIGProfilesPublished x = st_MIGProfilesPublished v"])
    (auto simp: GPUPoolStatus_DeepCopyInto_def rep_GPUPoolStatus_def copy_simps map_conv_bind_option comp_def intro: GPUPoolStatus.equality)

lemma GPUPool_deep:
  assumes "deep_copy (am_ObjectMeta E) ro" "deep_copy (am_LabelSelector E) rs" "deep_copy (am_Condition E) rc"
  shows "deep_copy (GPUPool_DeepCopyInto E) (rep_GPUPool ro rs rc)"
  by (rule deep_copy.struct [OF deep_copy.both [OF assms(1) deep_copy.both [OF GPUPoolSpec_deep [OF assms(2)] GPUPoolStatus_deep [OF assms(3)]]],
        where flds = "\<lambda>x. (mgp_ObjectMeta x, mgp_Spec x, mgp_Status x)"
        and build = "\<lambda>x (a, b, c). x\<lparr>mgp_TypeMeta := mgp_TypeMeta x, mgp_ObjectMeta := a, mgp_Spec := b, mgp_Status := c\<rparr>"
        and vals = snd and same = "\<lambda>x v. mgp_TypeMeta x = fst v"])
    (auto simp: GPUPool_DeepCopyInto_def rep_GPUPool_def copy_simps)

lemma MIGProfileSpec_deep:
  assumes "deep_copy (am_Quantity E) rq"
  shows "deep_copy (MIGProfileSpec_DeepCopyInto E) (rep_MIGProfileSpec rq)"
  by (rule deep_copy.struct [OF assms, where flds = mm_Memory and build = "\<lambda>x y. x\<lparr>mm_Memory := y\<rparr>" and vals = mps_Memory
        and same = "\<lambda>x v. mm_Name x = mps_Name v \<and> mm_Slices x = mps_Slices v"])
    (auto simp: MIGProfileSpec_DeepCopyInto_def rep_MIGProfileSpec_def copy_simps map_conv_bind_option comp_def intro: MIGProfileSpec.equality)

lemma MIGBudgetSpec_deep:
  assumes "deep_copy (am_Quantity E) rq"
  shows "deep_copy (MIGBudgetSpec_DeepCopyInto E) (rep_MIGBudgetSpec rq)"
  by (rule deep_copy.struct [OF deep_copy.ptr [OF assms cell_Quantity], where flds = mb_Memory and build = "\<lambda>x y. x\<lparr>mb_Memory := y\<rparr>"
        and vals = mbs_Memory and same = "\<lambda>x v. mb_Slices x = mbs_Slices v"])
    (auto simp: MIGBudgetSpec_DeepCopyInto_def rep_MIGBudgetSpec_def copy_simps map_conv_bind_option comp_def intro: MIGBudgetSpec.equality)

lemma GPUModelSpec_deep:
  assumes "deep_copy (am_Quantity E) rq"
  shows "deep_copy (GPUModelSpec_DeepCopyInto E) (rep_GPUModelSpec rq)"
proof -
  note profiles = deep_copy.slice [OF MIGProfileSpec_deep [OF assms] cell_MIGProfileSpecs]
    and budget = deep_copy.ptr [OF MIGBudgetSpec_deep [OF assms] cell_MIGBudgetSpec]
  show ?thesis
    by (rule deep_copy.struct [OF deep_copy.both [OF assms deep_copy.both [OF profiles budget]],
          where flds = "\<lambda>x. (mgs_Memory x, mgs_MIGProfiles x, mgs_MIGBudget x)"
          and build = "\<lambda>x (a, b, c). x\<lparr>mgs_Memory := a, mgs_MIGProfiles := b, mgs_MIGBudget := c\<rparr>"
          and vals = "\<lambda>v. (ms_Memory v, ms_MIGProfiles v, ms_MIGBudget v)"
          and same = "\<lambda>x v. mgs_Vendor x = ms_Vendor v \<and> mgs_ProductName x = ms_ProductName v \<and> mgs_ComputeCapability x = ms_ComputeCapability v"])
      (auto simp: GPUModelSpec_DeepCopyInto_def rep_GPUModelSpec_def copy_simps intro: GPUModelSpec.equality)
qed

lemma GPUModelStatus_deep:
  assumes "deep_copy (am_Condition E) rc"
  shows "deep_copy (GPUModelStatus_DeepCopyInto E) (\<lambda>h S x. rep_slice as_Conditions rc h S (mgt_Conditions x))"
  by (rule deep_copy.struct [OF deep_copy.slice [OF assms cell_Conditions],
        where flds = mgt_Conditions and build = "\<lambda>x y. x\<lparr>mgt_Conditions := y\<rparr>" and vals = "\<lambda>v. v" and same = "\<lambda>_ _. True"])
    (auto simp: GPUModelStatus_DeepCopyInto_def copy_simps map_conv_bind_option comp_def)

lemma GPUModel_deep:
  assumes "deep_copy (am_Quantity E) rq" "deep_copy (am_ObjectMeta E) ro" "deep_copy (am_Condition E) rc"
  shows "deep_copy (GPUModel_DeepCopyInto E) (rep_GPUModel rq ro rc)"
  by (rule deep_copy.struct [OF deep_copy.both [OF assms(2) deep_copy.both [OF GPUModelSpec_deep [OF assms(1)] GPUModelStatus_deep [OF assms(3)]]],
        where flds = "\<lambda>x. (mgm_ObjectMeta x, mgm_Spec x, mgm_Status x)"
        and build = "\<lambda>x (a, b, c). x\<lparr>mgm_TypeMeta := mgm_TypeMeta x, mgm_ObjectMeta := a, mgm_Spec := b, mgm_Status := c\<rparr>"
        and vals = snd and same = "\<lambda>x v. mgm_TypeMeta x = fst v"])
    (auto simp: GPUModel_DeepCopyInto_def rep_GPUModel_def copy_simps)

lemma GPUPoolList_deep:
  assumes "deep_copy (am_ListMeta E) rl" "deep_copy (am_ObjectMeta E) ro" "deep_copy (am_LabelSelector E) rs" "deep_copy (am_Condition E) rc"
  shows "deep_copy (GPUPoolList_DeepCopyInto E) (rep_List as_GPUPools rl (rep_GPUPool ro rs rc))"
  by (rule deep_copy.struct [OF deep_copy.both [OF assms(1) deep_copy.slice [OF GPUPool_deep [OF assms(2-4)] cell_GPUPools]],
        where flds = "\<lambda>x. (ml_ListMeta x, ml_Items x)" and build = "\<lambda>x (a, b). x\<lparr>ml_TypeMeta := ml_TypeMeta x, ml_ListMeta := a, ml_Items := b\<rparr>"
        and vals = snd and same = "\<lambda>x v. ml_TypeMeta x = fst v"])
    (auto simp: GPUPoolList_DeepCopyInto_def rep_List_def copy_simps)

lemma GPUModelList_deep:
  assumes "deep_copy (am_ListMeta E) rl" "deep_copy (am_Quantity E) rq" "deep_copy (am_ObjectMeta E) ro" "deep_copy (am_Condition E) rc"
  shows "deep_copy (GPUModelList_DeepCopyInto E) (rep_List as_GPUModels rl (rep_GPUModel rq ro rc))"
  by (rule deep_copy.struct [OF deep_copy.both [OF assms(1) deep_copy.slice [OF GPUModel_deep [OF assms(2-4)] cell_GPUModels]],
        where flds = "\<lambda>x. (ml_ListMeta x, ml_Items x)" and build = "\<lambda>x (a, b). x\<lparr>ml_TypeMeta := ml_TypeMeta x, ml_ListMeta := a, ml_Items := b\<rparr>"
        and vals = snd and same = "\<lambda>x v. ml_TypeMeta x = fst v"])
    (auto simp: GPUModelList_DeepCopyInto_def rep_List_def copy_simps)

text \<open>The types without parts from other packages satisfy the contract outright.\<close>

interpretation advertise: deep_copy AdvertiseSpec_DeepCopyInto rep_AdvertiseSpec
  by (rule AdvertiseSpec_deep)

interpretation fault: deep_copy FaultEntry_DeepCopyInto rep_FaultEntry
  by (rule FaultEntry_deep)

interpretation occupancy: deep_copy OccupancyEntry_DeepCopyInto rep_OccupancyEntry
  by (rule OccupancyEntry_deep)

interpretation sample: deep_copy UtilizationSample_DeepCopyInto rep_UtilizationSample
  by (rule UtilizationSample_deep)

section \<open>The objects the API machinery handles\<close>

text \<open>The copy \<open>y\<close> of \<open>x\<close>, made in \<open>h\<close>, denotes the same value in \<open>h'\<close>; nothing in use has changed; and from then on whatever is
  written to new cells leaves the original as it is, and whatever is written to old cells leaves the copy as it is.\<close>

definition separate :: "('c heap \<Rightarrow> nat set \<Rightarrow> 't \<Rightarrow> 'v \<Rightarrow> bool) \<Rightarrow> 'c heap \<Rightarrow> 'c heap \<Rightarrow> 't \<Rightarrow> 't \<Rightarrow> 'v \<Rightarrow> bool" where
  "separate rep h h' x y v \<longleftrightarrow> extends h h' \<and> rep h' {hp_next h..<hp_next h'} y v
     \<and> (\<forall>h2. (\<forall>a < hp_next h. hp_cell h2 a = hp_cell h' a) \<longrightarrow> rep h2 {..<hp_next h} x v)
     \<and> (\<forall>h2. (\<forall>a. hp_next h \<le> a \<longrightarrow> hp_cell h2 a = hp_cell h' a) \<longrightarrow> rep h2 {hp_next h..<hp_next h'} y v)"

lemma new_copy_separate:
  assumes "deep_copy copy rep" "cell_type mk get" "rep_ptr get rep h {..<hp_next h} (Some p) (Some v)"
  shows "\<exists>q h'. new_copy mk get copy (Some p) h = Some (Some q, h') \<and> separate (rep_ptr get rep) h h' (Some p) (Some q) (Some v)"
proof -
  from deep_copy.independent [OF deep_copy.ptr [OF assms(1,2)] assms(3)] obtain y h' where
    y: "new_copy mk get copy (Some p) h = Some (y, h')" "separate (rep_ptr get rep) h h' (Some p) y (Some v)"
    unfolding separate_def by blast
  then obtain q where "y = Some q" by (cases y) (auto simp: separate_def rep_ptr_def)
  with y show ?thesis by blast
qed

text \<open>C32: The copies the API machinery takes of the custom resources are deep. If the copies of its own types are, then
  \<open>DeepCopyObject\<close> of a pool, a model or a list of them returns an object of the same type that denotes the same value, changes
  nothing that was in use, and shares no memory with the original: later writes to either leave the other as it is. Of a nil
  pointer it returns a nil interface, not an interface that holds a nil pointer.\<close>

theorem DeepCopyObject_separate:
  assumes "copies_ok E rq ro rl rc rs"
  shows "(\<forall>h p v. rep_ptr as_GPUPool (rep_GPUPool ro rs rc) h {..<hp_next h} (Some p) (Some v) \<longrightarrow>
      (\<exists>q h'. GPUPool_DeepCopyObject E (Some p) h = Some (Some (GPUPoolObject (Some q)), h')
        \<and> separate (rep_ptr as_GPUPool (rep_GPUPool ro rs rc)) h h' (Some p) (Some q) (Some v)))
    \<and> (\<forall>h p v. rep_ptr as_GPUPoolList (rep_List as_GPUPools rl (rep_GPUPool ro rs rc)) h {..<hp_next h} (Some p) (Some v) \<longrightarrow>
      (\<exists>q h'. GPUPoolList_DeepCopyObject E (Some p) h = Some (Some (GPUPoolListObject (Some q)), h')
        \<and> separate (rep_ptr as_GPUPoolList (rep_List as_GPUPools rl (rep_GPUPool ro rs rc))) h h' (Some p) (Some q) (Some v)))
    \<and> (\<forall>h p v. rep_ptr as_GPUModel (rep_GPUModel rq ro rc) h {..<hp_next h} (Some p) (Some v) \<longrightarrow>
      (\<exists>q h'. GPUModel_DeepCopyObject E (Some p) h = Some (Some (GPUModelObject (Some q)), h')
        \<and> separate (rep_ptr as_GPUModel (rep_GPUModel rq ro rc)) h h' (Some p) (Some q) (Some v)))
    \<and> (\<forall>h p v. rep_ptr as_GPUModelList (rep_List as_GPUModels rl (rep_GPUModel rq ro rc)) h {..<hp_next h} (Some p) (Some v) \<longrightarrow>
      (\<exists>q h'. GPUModelList_DeepCopyObject E (Some p) h = Some (Some (GPUModelListObject (Some q)), h')
        \<and> separate (rep_ptr as_GPUModelList (rep_List as_GPUModels rl (rep_GPUModel rq ro rc))) h h' (Some p) (Some q) (Some v)))
    \<and> (\<forall>h. GPUPool_DeepCopyObject E None h = Some (None, h) \<and> GPUPoolList_DeepCopyObject E None h = Some (None, h)
        \<and> GPUModel_DeepCopyObject E None h = Some (None, h) \<and> GPUModelList_DeepCopyObject E None h = Some (None, h))"
proof (intro conjI allI impI)
  have ok: "deep_copy (am_Quantity E) rq" "deep_copy (am_ObjectMeta E) ro" "deep_copy (am_ListMeta E) rl" "deep_copy (am_Condition E) rc"
    "deep_copy (am_LabelSelector E) rs" using assms by (simp_all add: copies_ok_def)
  note pool = GPUPool_deep [OF ok(2,5,4)] and pools = GPUPoolList_deep [OF ok(3,2,5,4)]
    and model = GPUModel_deep [OF ok(1,2,4)] and models = GPUModelList_deep [OF ok(3,1,2,4)]
  {
    fix h p v assume "rep_ptr as_GPUPool (rep_GPUPool ro rs rc) h {..<hp_next h} (Some p) (Some v)"
    from new_copy_separate [OF pool cell_GPUPool this]
    show "\<exists>q h'. GPUPool_DeepCopyObject E (Some p) h = Some (Some (GPUPoolObject (Some q)), h')
        \<and> separate (rep_ptr as_GPUPool (rep_GPUPool ro rs rc)) h h' (Some p) (Some q) (Some v)"
      by (auto simp: GPUPool_DeepCopyObject_def GPUPool_DeepCopy_def)
  next
    fix h p v assume "rep_ptr as_GPUPoolList (rep_List as_GPUPools rl (rep_GPUPool ro rs rc)) h {..<hp_next h} (Some p) (Some v)"
    from new_copy_separate [OF pools cell_GPUPoolList this]
    show "\<exists>q h'. GPUPoolList_DeepCopyObject E (Some p) h = Some (Some (GPUPoolListObject (Some q)), h')
        \<and> separate (rep_ptr as_GPUPoolList (rep_List as_GPUPools rl (rep_GPUPool ro rs rc))) h h' (Some p) (Some q) (Some v)"
      by (auto simp: GPUPoolList_DeepCopyObject_def GPUPoolList_DeepCopy_def)
  next
    fix h p v assume "rep_ptr as_GPUModel (rep_GPUModel rq ro rc) h {..<hp_next h} (Some p) (Some v)"
    from new_copy_separate [OF model cell_GPUModel this]
    show "\<exists>q h'. GPUModel_DeepCopyObject E (Some p) h = Some (Some (GPUModelObject (Some q)), h')
        \<and> separate (rep_ptr as_GPUModel (rep_GPUModel rq ro rc)) h h' (Some p) (Some q) (Some v)"
      by (auto simp: GPUModel_DeepCopyObject_def GPUModel_DeepCopy_def)
  next
    fix h p v assume "rep_ptr as_GPUModelList (rep_List as_GPUModels rl (rep_GPUModel rq ro rc)) h {..<hp_next h} (Some p) (Some v)"
    from new_copy_separate [OF models cell_GPUModelList this]
    show "\<exists>q h'. GPUModelList_DeepCopyObject E (Some p) h = Some (Some (GPUModelListObject (Some q)), h')
        \<and> separate (rep_ptr as_GPUModelList (rep_List as_GPUModels rl (rep_GPUModel rq ro rc))) h h' (Some p) (Some q) (Some v)"
      by (auto simp: GPUModelList_DeepCopyObject_def GPUModelList_DeepCopy_def)
  }
qed (simp_all add: GPUPool_DeepCopyObject_def GPUPool_DeepCopy_def GPUPoolList_DeepCopyObject_def GPUPoolList_DeepCopy_def
    GPUModel_DeepCopyObject_def GPUModel_DeepCopy_def GPUModelList_DeepCopyObject_def GPUModelList_DeepCopy_def new_copy_def)

text \<open>A pool in which the selector of the pool and that of its fault entry are one map, and API machinery types without
  references.\<close>

definition shared_heap :: "(int, string, string, nat Condition, LabelSelector, unit) mem" where
  "shared_heap = \<lparr> hp_next = 4, hp_cell = [
     0 \<mapsto> CGPUPool \<lparr> mgp_TypeMeta = (''GPUPool'', ''v1alpha1''), mgp_ObjectMeta = ''pool'',
        mgp_Spec = \<lparr> mp_ModelRef = ''h100'', mp_NodeSelector = Some 1, mp_GPUsPerNode = 8, mp_Advertise = \<lparr> ma_DRA = Some 2, ma_ExtendedResource = None \<rparr>,
          mp_MIGPartition = None, mp_Faults = Some \<lparr> sl_Array = 3, sl_Offset = 1, sl_Len = 1 \<rparr>, mp_Utilization = None, mp_Occupancy = None,
          mp_SharingMode = ''none'', mp_Topology = \<lparr> top_NVLinkDomainSize = 0, top_NUMAAware = False \<rparr> \<rparr>,
        mgp_Status = \<lparr> mst_Conditions = None, mst_ObservedGeneration = 1, mst_NodesMatched = 0, mst_DevicesPublished = 0, mst_GPUsOccupied = 0,
          mst_GPUsFaulted = 0, mst_MIGProfilesPublished = 0 \<rparr> \<rparr>,
     1 \<mapsto> CMap (fmupd ''type'' ''kwok'' fmempty),
     2 \<mapsto> CBool True,
     3 \<mapsto> CFaultEntries [\<lparr> mf_NodeSelector = None, mf_GPUs = 0, mf_Effect = '''', mf_XID = 0 \<rparr>,
                     \<lparr> mf_NodeSelector = Some 1, mf_GPUs = 2, mf_Effect = ''Evict'', mf_XID = 79 \<rparr>]] \<rparr>"

definition shared_pool :: "(string, nat) pool_value" where
  "shared_pool = ((''GPUPool'', ''v1alpha1''), ''pool'',
     \<lparr> ps_ModelRef = ''h100'', ps_NodeSelector = fmupd ''type'' ''kwok'' fmempty, ps_GPUsPerNode = 8,
       ps_Advertise = \<lparr> adv_DRA = Some True, adv_ExtendedResource = None \<rparr>, ps_MIGPartition = [],
       ps_Faults = [\<lparr> fe_NodeSelector = fmupd ''type'' ''kwok'' fmempty, fe_GPUs = 2, fe_Effect = ''Evict'', fe_XID = 79 \<rparr>],
       ps_Utilization = None, ps_Occupancy = [], ps_SharingMode = ''none'', ps_Topology = \<lparr> top_NVLinkDomainSize = 0, top_NUMAAware = False \<rparr> \<rparr>,
     \<lparr> st_Conditions = [], st_ObservedGeneration = 1, st_NodesMatched = 0, st_DevicesPublished = 0, st_GPUsOccupied = 0,
       st_GPUsFaulted = 0, st_MIGProfilesPublished = 0 \<rparr>)"

definition flat_machinery :: "(int, string, string, nat Condition, LabelSelector, unit) apimachinery" where
  "flat_machinery = \<lparr> am_Quantity = copy_flat, am_ObjectMeta = copy_flat, am_ListMeta = copy_flat, am_Condition = copy_flat, am_LabelSelector = copy_flat \<rparr>"

theorem DeepCopyObject_separate_witness:
  "\<exists>q h'. GPUPool_DeepCopyObject flat_machinery (Some 0) shared_heap = Some (Some (GPUPoolObject (Some q)), h')
     \<and> separate (rep_ptr as_GPUPool (rep_GPUPool rep_flat rep_flat rep_flat)) shared_heap h' (Some 0) (Some q) (Some shared_pool)"
proof -
  have ok: "copies_ok flat_machinery rep_flat rep_flat rep_flat rep_flat rep_flat"
    by (simp add: copies_ok_def flat_machinery_def deep_copy_flat)
  have "rep_ptr as_GPUPool (rep_GPUPool rep_flat rep_flat rep_flat) shared_heap {..<hp_next shared_heap} (Some 0) (Some shared_pool)"
    by (simp add: shared_heap_def shared_pool_def rep_ptr_def rep_GPUPool_def rep_GPUPoolSpec_def rep_GPUPoolStatus_def rep_AdvertiseSpec_def
      rep_FaultEntry_def rep_slice_def rep_map_def rep_flat_def read_cell_def window_def as_GPUPool_def as_Map_def as_Bool_def as_FaultEntries_def)
  with DeepCopyObject_separate [OF ok] show ?thesis by blast
qed

end
