(* ===== verification/Spec2Isabelle.thy ===== *)
theory Spec2Isabelle
  imports Operator Metrics_Server Manager Cli_Status Cli_Up Cli_Main Dump_Slices Test_Utils Recapture Deep_Copy
begin

text \<open>
  A verification development for ghostgpu, an operator that simulates GPUs on kwok nodes of a Kubernetes
  cluster.

  \<^bold>\<open>The program.\<close> A \<open>GPUModel\<close> describes a card, a \<open>GPUPool\<close> says which nodes carry how many of them, whether
  they are partitioned with MIG, and which of them are busy or broken (\<open>api/v1alpha1\<close>). The controller
  (\<open>internal/controller\<close>) reads a pool and its model, refuses what cannot be simulated, and for every
  matching node that the guard (\<open>internal/safety\<close>) recognises as simulated publishes DRA \<open>ResourceSlice\<close>s,
  extended resources and labels. What it publishes comes from pure functions: \<open>internal/mig\<close> turns a model
  into a table of profiles and the table into instances, \<open>internal/gpu\<close> turns pool, model, table and
  declared state into slices, resources and labels. A metrics exporter and a command line sit beside it.

  \<^bold>\<open>The theories.\<close>
  \<^item> \<open>Prelude\<close>: Go's fixed-width integers, maps and loops; list lemmas.
  \<^item> \<open>Go_Strings\<close>, \<open>Sha256\<close>: what is used of \<open>strings\<close>, \<open>strconv\<close>, \<open>utf8\<close>, \<open>crypto/sha256\<close> and \<open>hex\<close>.
  \<^item> \<open>Quantity\<close>: \<open>resource.Quantity\<close>, which is not in the repository, as a record of operations with the
    laws the code relies on (\<open>quantity_laws\<close>) and a concrete instance.
  \<^item> \<open>Api_Types\<close>: the custom resources and the Kubernetes objects; the CRD validation as predicates.
  \<^item> \<open>Go_Heap\<close>, \<open>Deep_Copy\<close>: \<open>zz_generated.deepcopy.go\<close>. Objects as Go has them in memory, and the values of \<open>Api_Types\<close> that they denote.
    The locale \<open>deep_copy\<close> is the contract of a copy; it is closed under pointers, slices, maps and structures, so every generated copy
    shares nothing with its original. The other theories work on values.
  \<^item> \<open>Type_Registry\<close>: \<open>groupversion_info.go\<close>, the \<open>init\<close> functions of the API types, \<open>Scheme\<close> of \<open>apply.go\<close> and \<open>init\<close> of \<open>cmd/main.go\<close>, over the schemes
    of apimachinery (\<open>scheme_laws\<close>). The types register or the call panics, it never returns an error; the operator and the command line
    tool end up with the same scheme.
  \<^item> \<open>Mig_Profiles\<close>: \<open>profiles.go\<close>, \<open>parse.go\<close>, \<open>resolve.go\<close>. Which table a product gets, how a profile name is
    read, when a model resolves and what its errors mean.
  \<^item> \<open>Mig_Expand\<close>: \<open>expand.go\<close>, \<open>partition.go\<close>. The two expansions satisfy the locale \<open>expansion\<close>; a validated
    partition fits every card; counts, IDs and order of the instances.
  \<^item> \<open>Gpu_Identity\<close>: \<open>identity.go\<close>. Shape of UUIDs, agreement of the topology attributes.
  \<^item> \<open>Gpu_State\<close>: \<open>occupancy.go\<close>, \<open>faults.go\<close>. The first matching entry decides (locale \<open>first_match\<close>); taints
    account for every card once.
  \<^item> \<open>Gpu_Resources\<close>: \<open>migresources.go\<close>, \<open>nodelabels.go\<close>. Optimality of \<open>MaxInstances\<close>, capacity against
    allocatable, labels.
  \<^item> \<open>Gpu_Slices\<close>: \<open>resourceslice.go\<close>, \<open>migslices.go\<close>. The slices form valid DRA pools (\<open>dra_pool_ok\<close>,
    \<open>slice_limits_ok\<close>), and agree with the extended resources.
  \<^item> \<open>Safety\<close>: \<open>guard.go\<close>.
  \<^item> \<open>Controller\<close>: \<open>gpupool_controller.go\<close>. The API server is a record of operations on an arbitrary world;
    every call is logged. \<open>runs\<close> bounds what any run may call, \<open>yields\<close> says what a successful run has
    called, \<open>fails_only\<close> which errors it can return; the locale \<open>patching\<close> is the rule of comparing before
    writing. The theorems: only simulated nodes are written; a refused pool changes its status alone; a
    successful run applies exactly the desired slices, deletes exactly the stale ones and counts right;
    a node is patched only when it differs and one patch settles it; no panic under the schema.
  \<^item> \<open>Convergence\<close>: the controller against a server that stores what it is given (\<open>serves\<close>). \<open>reconciled_store\<close> says abstractly
    what a reconciliation does to the stored objects; the run refines it, and a second run changes nothing when no selector looks
    at labels that the pool itself writes.
  \<^item> \<open>Operator\<close>: the watches of \<open>SetupWithManager\<close> and the work queue, with other writers in between (\<open>op_step\<close>). A pool that does not
    wait in the queue is settled; two pools that disagree on a node never settle; a model that changes wakes no pool.

  \<^item> \<open>Metrics_Series\<close>, \<open>Metrics_Collector\<close>, \<open>Metrics_Exporter\<close>: \<open>internal/metrics\<close>. The exporter reads the published
    slices back: the cards, instances, XIDs and occupancy it reports are those the slice builders published;
    readings are layered; a scrape is all or nothing and never repeats a sample.
  \<^item> \<open>Metrics_Server\<close>: \<open>server.go\<close>. \<open>Start\<close> and its goroutine as a step relation (\<open>start_step\<close>): every run ends, the channel never blocks, no goroutine
    is leaked, and which error is returned when.
  \<^item> \<open>Go_Flags\<close>: package \<open>flag\<close>, \<open>ParseBool\<close>, \<open>ParseInt\<close> with base 0 and \<open>ParseDuration\<close>; what is written is read back.
  \<^item> \<open>Manager\<close>: \<open>cmd/main.go\<close>. The cache transform does not change a scrape; the options of the servers; when the process exits with 0.

  \<^item> \<open>Cli_Status\<close>: \<open>internal/cli/status.go\<close>. The report over pools, slices and claims and its tables. The budget table
    refines an abstract account of a MIG node; what the FREE column counts.
  \<^item> \<open>Cli_Up\<close>: \<open>up.go\<close>. The flags of \<open>up\<close> as manifests: they satisfy the schema and, but for the memory of a MIG card,
    the operator accepts them; partitions are read back as printed.
  \<^item> \<open>Cli_Capture\<close>: \<open>capture.go\<close>. A cluster as manifests: every node with GPUs is reproduced by a pool, names
    are labels and distinct (locale \<open>name_supply\<close>), and on nodes that the operator settled capture is the inverse of the simulation.
  \<^item> \<open>Recapture\<close>: capture composed with the simulation: what is captured from a simulated node, of whole cards or with a declared partition,
    is accepted and publishes the same devices, counters, labels and resources again.
  \<^item> \<open>Cli_Apply\<close>: \<open>apply.go\<close>, \<open>version.go\<close>, \<open>readonly.go\<close> and the commands of \<open>cmd/ghostgpu/main.go\<close> after their flags are
    parsed. Applying converges, waiting ends, and what a run of \<open>up\<close> leaves behind.
  \<^item> \<open>Cli_Main\<close>: the rest of \<open>cmd/ghostgpu/main.go\<close>, from the arguments to the exit code. Only \<open>up\<close> writes; flags round trip;
    every object that is written names a kind the scheme resolves to its type.
  \<^item> \<open>Dump_Slices\<close>: \<open>hack/dump-migslices\<close>. The tool prints what the operator publishes.
  \<^item> \<open>Test_Utils\<close>: \<open>test/utils\<close>, the helpers of the end-to-end tests, over the operating system as a parameter. What \<open>UncommentCode\<close> does to
    a file, and to a block that ends in a newline.

  \<^bold>\<open>Conventions.\<close> An \<open>int32\<close> or \<open>int64\<close> is an \<open>int\<close> with \<open>wrap32\<close> or \<open>wrap64\<close> at every operation that can overflow;
  a panic is \<open>None\<close> (or \<open>Panic\<close>), a returned error the left side of a sum (or \<open>Err\<close>). Almost all loops of
  the source are bounded by the lists they range over and there is no fuel. The two that are not are the search for a free name
  (\<open>namer.pick\<close>, a function with a termination proof) and the polling of \<open>WaitForPool\<close>, a partial function that returns \<open>None\<close>
  when it never ends; it is proved to end when every round brings the deadline nearer. Parameters
  that stand for code outside the repository come with named laws, each satisfied by a concrete instance
  that the witnesses use. Bounds in hypotheses (\<open>counts_ok\<close>, \<open>sane_sizes\<close>) are the schema's bounds and the
  size of an object, far above what an API server stores.

  \<^bold>\<open>Concurrency.\<close> Within one reconciliation there is no other writer in \<open>Convergence\<close>; \<open>Controller\<close> allows any client. Between reconciliations
  others write freely (\<open>Operator\<close>). The queue of controller-runtime is a set; a failed run is retried.

  \<^bold>\<open>Not modelled.\<close> Logging, the tests themselves, and what lies behind the libraries that are parameters:
  the API server, controller-runtime, the Prometheus client, YAML. The text of error messages is kept as a value. The uniqueness of
  device UUIDs rests on SHA-256 and is a hypothesis where it is needed.
\<close>

end
